(* ===== verification/Prelude.thy ===== *)
theory Prelude
  imports Main "HOL-Library.Code_Target_Nat"
begin

text \<open>
  Shared vocabulary of the development: the JavaScript string operations the backend uses
  (\<open>trim\<close>, \<open>split\<close>, \<open>join\<close>, \<open>padStart\<close>, decimal printing and parsing), errors as sums,
  and the list lemmas several components need.
  A JavaScript string is modelled as a list of characters; the model's \<open>char\<close> holds the
  code units 0 to 255.
\<close>

named_theorems js_text
  \<comment> \<open>facts about printing, parsing and cutting strings\<close>

type_synonym 'a fallible = "string + 'a"
  \<comment> \<open>a computation that may throw an Error with the given message\<close>

definition bind_err :: "'e + 'a \<Rightarrow> ('a \<Rightarrow> 'e + 'b) \<Rightarrow> 'e + 'b" where
  "bind_err m f = (case m of Inl e \<Rightarrow> Inl e | Inr x \<Rightarrow> f x)"

lemma bind_err_simps [simp]:
  "bind_err (Inl e) f = Inl e"
  "bind_err (Inr x) f = f x"
  by (simp_all add: bind_err_def)

lemma bind_err_Inr_iff:
  "bind_err m f = Inr y \<longleftrightarrow> (\<exists>x. m = Inr x \<and> f x = Inr y)"
  by (cases m) auto

definition guard_err :: "bool \<Rightarrow> 'e \<Rightarrow> 'e + 'a \<Rightarrow> 'e + 'a" where
  "guard_err b e m = (if b then Inl e else m)"

lemma guard_err_Inr_iff [simp]: "guard_err b e m = Inr x \<longleftrightarrow> \<not> b \<and> m = Inr x"
  by (simp add: guard_err_def)

text \<open>\<open>for (const x of xs)\<close> with a body that may throw, collecting the results in order.\<close>

fun map_err :: "('a \<Rightarrow> 'e + 'b) \<Rightarrow> 'a list \<Rightarrow> 'e + 'b list" where
  "map_err f [] = Inr []"
| "map_err f (x # xs) =
     (case f x of Inl e \<Rightarrow> Inl e
      | Inr y \<Rightarrow> (case map_err f xs of Inl e \<Rightarrow> Inl e | Inr ys \<Rightarrow> Inr (y # ys)))"

lemma map_err_Inr_iff: "map_err f xs = Inr ys \<longleftrightarrow> list_all2 (\<lambda>x y. f x = Inr y) xs ys"
proof (induction xs arbitrary: ys)
  case Nil
  then show ?case by auto
next
  case (Cons x xs)
  note IH = Cons.IH
  show ?case
  proof (cases ys)
    case Nil
    then show ?thesis by (auto split: sum.splits)
  next
    case (Cons a zs)
    have "(case map_err f xs of Inl e \<Rightarrow> Inl e | Inr us \<Rightarrow> Inr (y # us)) = Inr (a # zs) \<longleftrightarrow>
        y = a \<and> map_err f xs = Inr zs" for y
      by (cases "map_err f xs") auto
    then show ?thesis using IH Cons by (cases "f x") auto
  qed
qed

lemma map_err_all: "(\<And>x. x \<in> set xs \<Longrightarrow> f x = Inr (g x)) \<Longrightarrow> map_err f xs = Inr (map g xs)"
  by (induction xs) auto

text \<open>
  \<open>httpError(status, message)\<close> of \<open>utils/httpError.ts\<close>, and a database transaction: a
  thrown error rolls the store back.
\<close>

datatype http_error = HttpError (err_status: nat) (err_message: string)

definition httpError :: "nat \<Rightarrow> string \<Rightarrow> http_error" where
  "httpError statusCode msg = HttpError statusCode msg"

definition transaction :: "('db \<Rightarrow> ('e + 'a) \<times> 'db) \<Rightarrow> 'db \<Rightarrow> ('e + 'a) \<times> 'db" where
  "transaction f db = (case f db of (Inl e, _) \<Rightarrow> (Inl e, db) | (Inr x, db') \<Rightarrow> (Inr x, db'))"

lemma transaction_error: "fst (transaction f db) = Inl e \<Longrightarrow> snd (transaction f db) = db"
  by (auto simp: transaction_def split: prod.splits sum.splits)

lemma transaction_ok: "fst (transaction f db) = Inr x \<Longrightarrow> transaction f db = f db"
  by (auto simp: transaction_def split: prod.splits sum.splits)

section \<open>Characters\<close>

definition is_ws :: "char \<Rightarrow> bool" where
  "is_ws c = (let n = of_char c :: nat in n = 32 \<or> (9 \<le> n \<and> n \<le> 13) \<or> n = 160)"

definition is_digit :: "char \<Rightarrow> bool" where
  "is_digit c = (48 \<le> (of_char c :: nat) \<and> (of_char c :: nat) \<le> 57)"

definition digit_val :: "char \<Rightarrow> nat" where
  "digit_val c = of_char c - 48"

definition digit_char :: "nat \<Rightarrow> char" where
  "digit_char d = char_of (48 + d)"

lemma of_char_digit_char: "d < 10 \<Longrightarrow> (of_char (digit_char d) :: nat) = 48 + d"
  by (simp add: digit_char_def)

lemma is_digit_digit_char [simp, js_text]: "d < 10 \<Longrightarrow> is_digit (digit_char d)"
  by (simp add: is_digit_def of_char_digit_char)

lemma digit_val_digit_char [simp, js_text]: "d < 10 \<Longrightarrow> digit_val (digit_char d) = d"
  by (simp add: digit_val_def of_char_digit_char)

lemma digit_val_less: "is_digit c \<Longrightarrow> digit_val c < 10"
  by (auto simp: is_digit_def digit_val_def)

lemma digit_char_digit_val [simp, js_text]: "is_digit c \<Longrightarrow> digit_char (digit_val c) = c"
  by (auto simp: is_digit_def digit_val_def digit_char_def)

lemma digit_not_ws [js_text]: "is_digit c \<Longrightarrow> \<not> is_ws c"
  by (auto simp: is_digit_def is_ws_def Let_def)

section \<open>Decimal numerals\<close>

definition all_digits :: "string \<Rightarrow> bool" where
  "all_digits s = (s \<noteq> [] \<and> list_all is_digit s)"

definition nat_of_digits :: "string \<Rightarrow> nat" where
  "nat_of_digits s = foldl (\<lambda>n c. 10 * n + digit_val c) 0 s"

lemma nat_of_digits_Nil [simp]: "nat_of_digits [] = 0"
  by (simp add: nat_of_digits_def)

lemma nat_of_digits_snoc [simp]: "nat_of_digits (s @ [c]) = 10 * nat_of_digits s + digit_val c"
  by (simp add: nat_of_digits_def)

lemma foldl_digits_shift:
  "foldl (\<lambda>n c. 10 * n + digit_val c) n s = n * 10 ^ length s + nat_of_digits s"
proof (induction s rule: rev_induct)
  case Nil
  then show ?case by simp
next
  case (snoc c s)
  then show ?case by (simp add: algebra_simps)
qed

lemma nat_of_digits_Cons: "nat_of_digits (c # s) = digit_val c * 10 ^ length s + nat_of_digits s"
proof -
  have "nat_of_digits (c # s) = foldl (\<lambda>n c. 10 * n + digit_val c) (digit_val c) s"
    by (simp add: nat_of_digits_def)
  then show ?thesis by (simp only: foldl_digits_shift)
qed

lemma nat_of_digits_append:
  "nat_of_digits (s @ t) = nat_of_digits s * 10 ^ length t + nat_of_digits t"
proof -
  have "nat_of_digits (s @ t) = foldl (\<lambda>n c. 10 * n + digit_val c) (nat_of_digits s) t"
    by (simp add: nat_of_digits_def)
  then show ?thesis by (simp only: foldl_digits_shift)
qed

lemma nat_of_digits_less: "list_all is_digit s \<Longrightarrow> nat_of_digits s < 10 ^ length s"
proof (induction s rule: rev_induct)
  case Nil
  then show ?case by simp
next
  case (snoc c s)
  then have "nat_of_digits s < 10 ^ length s" and "digit_val c < 10"
    by (simp_all add: digit_val_less)
  then show ?case by simp
qed

lemma nat_of_digits_zeros: "nat_of_digits (replicate k (CHR ''0'')) = 0"
  by (induction k) (simp_all add: nat_of_digits_Cons digit_val_def)

fun show_nat :: "nat \<Rightarrow> string" where
  "show_nat n = (if n < 10 then [digit_char n] else show_nat (n div 10) @ [digit_char (n mod 10)])"

declare show_nat.simps [simp del]

lemma show_nat_digits: "all_digits (show_nat n)"
proof (induction n rule: show_nat.induct)
  case (1 n)
  then show ?case
    by (subst show_nat.simps) (auto simp: all_digits_def)
qed

lemma show_nat_list_all [simp, js_text]: "list_all is_digit (show_nat n)"
  using show_nat_digits by (simp add: all_digits_def)

lemma show_nat_not_Nil [simp, js_text]: "show_nat n \<noteq> []"
  using show_nat_digits by (simp add: all_digits_def)

lemma nat_of_digits_show_nat [simp, js_text]: "nat_of_digits (show_nat n) = n"
proof (induction n rule: show_nat.induct)
  case (1 n)
  show ?case
  proof (cases "n < 10")
    case True
    then show ?thesis by (subst show_nat.simps) (simp add: nat_of_digits_Cons)
  next
    case False
    with 1 show ?thesis by (subst show_nat.simps) simp
  qed
qed

lemma show_nat_inj: "show_nat m = show_nat n \<Longrightarrow> m = n"
  by (metis nat_of_digits_show_nat)

lemma length_show_nat_le: "n < 10 ^ k \<Longrightarrow> 0 < k \<Longrightarrow> length (show_nat n) \<le> k"
proof (induction n arbitrary: k rule: show_nat.induct)
  case (1 n)
  show ?case
  proof (cases "n < 10")
    case True
    with "1.prems" show ?thesis by (subst show_nat.simps) simp
  next
    case False
    then obtain j where k: "k = Suc j" and j: "0 < j"
      using "1.prems" by (cases k; cases "k - 1") auto
    then have "n div 10 < 10 ^ j" using "1.prems" by auto
    then have "length (show_nat (n div 10)) \<le> j" using "1.IH" False j by blast
    with False k show ?thesis by (subst show_nat.simps) simp
  qed
qed

lemma show_nat_hd_zero: "hd (show_nat n) = CHR ''0'' \<longleftrightarrow> n = 0"
proof (induction n rule: show_nat.induct)
  case (1 n)
  show ?case
  proof (cases "n < 10")
    case True
    then have "digit_val (digit_char n) = n" by simp
    moreover have zero: "digit_val (CHR ''0'') = 0" "is_digit (CHR ''0'')"
      by (simp_all add: digit_val_def is_digit_def)
    moreover have "digit_char 0 = CHR ''0''"
      using digit_char_digit_val [OF zero(2)] zero(1) by simp
    ultimately have "digit_char n = CHR ''0'' \<longleftrightarrow> n = 0" by metis
    with True show ?thesis by (subst show_nat.simps) simp
  next
    case False
    with 1 show ?thesis by (subst show_nat.simps) (simp add: div_eq_0_iff)
  qed
qed

text \<open>
  \<open>Number.parseInt(s, 10)\<close>: leading white space and a sign are skipped, the longest run
  of digits is read, and \<open>NaN\<close> (no digit) is \<open>None\<close>.
\<close>

definition parse_int :: "string \<Rightarrow> int option" where
  "parse_int s =
     (let t = dropWhile is_ws s;
          neg = (t \<noteq> [] \<and> hd t = CHR ''-'');
          u = (if t \<noteq> [] \<and> (hd t = CHR ''-'' \<or> hd t = CHR ''+'') then tl t else t);
          ds = takeWhile is_digit u
      in if ds = [] then None
         else Some (if neg then - int (nat_of_digits ds) else int (nat_of_digits ds)))"

lemma takeWhile_digits: "list_all is_digit s \<Longrightarrow> takeWhile is_digit s = s"
  by (simp add: list_all_iff)

lemma sign_not_digit: "is_digit c \<Longrightarrow> c \<noteq> CHR ''-'' \<and> c \<noteq> CHR ''+''"
  by (auto simp: is_digit_def)

lemma parse_int_digits: "all_digits s \<Longrightarrow> parse_int s = Some (int (nat_of_digits s))"
  by (cases s) (auto simp: parse_int_def all_digits_def Let_def digit_not_ws takeWhile_digits
      dest: sign_not_digit)

lemma parse_int_show_nat [simp, js_text]: "parse_int (show_nat n) = Some (int n)"
  by (simp add: parse_int_digits show_nat_digits)

text \<open>The remainder operator \<open>%\<close> truncates towards zero.\<close>

definition js_rem :: "int \<Rightarrow> int \<Rightarrow> int" where
  "js_rem a b = sgn a * (\<bar>a\<bar> mod \<bar>b\<bar>)"

lemma js_rem_nonneg: "0 \<le> a \<Longrightarrow> 0 < b \<Longrightarrow> js_rem a b = a mod b"
  by (cases "a = 0") (simp_all add: js_rem_def sgn_if)

lemma js_rem_wrap: "0 < b \<Longrightarrow> js_rem (js_rem a b + b) b = a mod b"
proof -
  assume b: "0 < b"
  have bound: "- b < js_rem a b"
  proof (cases "a < 0")
    case True
    have "(- a) mod b < b" using b by simp
    with True b show ?thesis by (simp add: js_rem_def sgn_if)
  next
    case False
    have "0 \<le> a mod b" using b by simp
    with False b have "0 \<le> js_rem a b" by (simp add: js_rem_nonneg)
    with b show ?thesis by linarith
  qed
  have "js_rem a b mod b = a mod b"
  proof (cases "a < 0")
    case True
    then have "js_rem a b = - ((- a) mod b)" using b by (simp add: js_rem_def sgn_if)
    then show ?thesis by (simp add: mod_minus_eq)
  next
    case False
    then show ?thesis using b by (simp add: js_rem_nonneg)
  qed
  with bound b show ?thesis by (simp add: js_rem_nonneg)
qed

definition show_int :: "int \<Rightarrow> string" where
  "show_int i = (if i < 0 then CHR ''-'' # show_nat (nat (- i)) else show_nat (nat i))"

lemma show_nat_not_minus: "show_nat n \<noteq> CHR ''-'' # s"
proof
  assume "show_nat n = CHR ''-'' # s"
  then have "is_digit (CHR ''-'')" using show_nat_list_all [of n] by simp
  then show False by (simp add: is_digit_def)
qed

lemma show_int_inj: "show_int i = show_int j \<Longrightarrow> i = j"
  by (auto simp: show_int_def show_nat_not_minus show_nat_not_minus [symmetric]
      dest!: show_nat_inj split: if_splits)

section \<open>Cutting and joining\<close>

definition js_trim :: "string \<Rightarrow> string" where
  "js_trim s = rev (dropWhile is_ws (rev (dropWhile is_ws s)))"

lemma js_trim_id: "list_all (\<lambda>c. \<not> is_ws c) s \<Longrightarrow> js_trim s = s"
proof -
  assume *: "list_all (\<lambda>c. \<not> is_ws c) s"
  have "dropWhile is_ws t = t" if "list_all (\<lambda>c. \<not> is_ws c) t" for t
    using that by (cases t) auto
  with * show ?thesis by (simp add: js_trim_def)
qed

lemma length_js_trim: "length (js_trim s) \<le> length s"
proof -
  have "length (js_trim s) \<le> length (rev (dropWhile is_ws s))"
    unfolding js_trim_def length_rev [of "dropWhile is_ws (rev _)"] by (rule length_dropWhile_le)
  also have "\<dots> \<le> length s" by (simp add: length_dropWhile_le)
  finally show ?thesis .
qed

definition trimmed :: "string \<Rightarrow> bool" where
  "trimmed s = (s = [] \<or> \<not> is_ws (hd s) \<and> \<not> is_ws (last s))"

lemma dropWhile_hd: "s = [] \<or> \<not> P (hd s) \<Longrightarrow> dropWhile P s = s"
  by (cases s) auto

lemma js_trim_trimmed: "trimmed s \<Longrightarrow> js_trim s = s"
  by (cases "s = []") (auto simp: js_trim_def trimmed_def dropWhile_hd hd_rev)

lemma trimmed_js_trim: "trimmed (js_trim s)"
proof -
  let ?t = "dropWhile is_ws s"
  let ?u = "rev (dropWhile is_ws (rev ?t))"
  have "\<not> is_ws (last ?u)" if "?u \<noteq> []"
    using that hd_dropWhile [of is_ws "rev ?t"] by (simp add: last_rev)
  moreover have "\<not> is_ws (hd ?u)" if "?u \<noteq> []"
  proof -
    have "?u @ rev (takeWhile is_ws (rev ?t)) = ?t"
      by (metis rev_append rev_rev_ident takeWhile_dropWhile_id)
    with that have "hd ?u = hd ?t" and "?t \<noteq> []" by (metis hd_append2, force)
    then show ?thesis using hd_dropWhile [of is_ws s] by simp
  qed
  ultimately show ?thesis by (auto simp: trimmed_def js_trim_def)
qed

text \<open>\<open>s.split(c)\<close> for a one-character separator: always at least one piece.\<close>

fun split_on :: "char \<Rightarrow> string \<Rightarrow> string list" where
  "split_on c [] = [[]]"
| "split_on c (x # xs) =
     (if x = c then [] # split_on c xs
      else (case split_on c xs of [] \<Rightarrow> [[x]] | p # ps \<Rightarrow> (x # p) # ps))"

lemma split_on_not_Nil [simp]: "split_on c s \<noteq> []"
  by (induction s) (auto split: list.splits)

fun join_with :: "string \<Rightarrow> string list \<Rightarrow> string" where
  "join_with sep [] = []"
| "join_with sep [s] = s"
| "join_with sep (s # ss) = s @ sep @ join_with sep ss"

lemma split_on_no_sep: "c \<notin> set s \<Longrightarrow> split_on c s = [s]"
  by (induction s) auto

lemma split_on_append: "c \<notin> set s \<Longrightarrow> split_on c (s @ c # t) = s # split_on c t"
  by (induction s) auto

lemma split_on_join:
  "ss \<noteq> [] \<Longrightarrow> \<forall>s \<in> set ss. c \<notin> set s \<Longrightarrow> split_on c (join_with [c] ss) = ss"
  by (induction "[c]" ss rule: join_with.induct) (auto simp: split_on_no_sep split_on_append)

lemma join_split_on: "join_with [c] (split_on c s) = s"
proof (induction s)
  case Nil
  then show ?case by simp
next
  case (Cons x xs)
  obtain p ps where "split_on c xs = p # ps" by (cases "split_on c xs") auto
  with Cons show ?case by (cases ps) auto
qed

lemma split_on_pieces: "p \<in> set (split_on c s) \<Longrightarrow> c \<notin> set p"
proof (induction s arbitrary: p)
  case Nil
  then show ?case by simp
next
  case (Cons x xs)
  obtain q qs where "split_on c xs = q # qs" by (cases "split_on c xs") auto
  with Cons show ?case by (auto split: if_splits)
qed

definition pad_start :: "nat \<Rightarrow> char \<Rightarrow> string \<Rightarrow> string" where
  "pad_start n c s = replicate (n - length s) c @ s"

lemma length_pad_start [simp]: "length (pad_start n c s) = max n (length s)"
  by (simp add: pad_start_def)

definition pad_end :: "nat \<Rightarrow> char \<Rightarrow> string \<Rightarrow> string" where
  "pad_end n c s = s @ replicate (n - length s) c"

lemma length_pad_end [simp]: "length (pad_end n c s) = max n (length s)"
  by (simp add: pad_end_def)

definition starts_with :: "string \<Rightarrow> string \<Rightarrow> bool" where
  "starts_with p s = (take (length p) s = p)"

lemma starts_with_append [simp]: "starts_with p (p @ s)"
  by (simp add: starts_with_def)

definition ends_with :: "string \<Rightarrow> string \<Rightarrow> bool" where
  "ends_with p s = (length p \<le> length s \<and> drop (length s - length p) s = p)"

definition to_lower :: "char \<Rightarrow> char" where
  "to_lower c = (let n = of_char c :: nat in if 65 \<le> n \<and> n \<le> 90 then char_of (n + 32) else c)"

definition js_lower :: "string \<Rightarrow> string" where
  "js_lower s = map to_lower s"

section \<open>Rounding\<close>

lemma ceil_div_bounds:
  fixes a k :: int
  assumes "0 < k"
  shows "a \<le> (- ((- a) div k)) * k" and "(- ((- a) div k)) * k < a + k"
proof -
  have "k * ((- a) div k) + (- a) mod k = - a" by (rule mult_div_mod_eq)
  moreover have "(- ((- a) div k)) * k = - (k * ((- a) div k))" by simp
  moreover have "0 \<le> (- a) mod k" "(- a) mod k < k" using assms by simp_all
  ultimately show "a \<le> (- ((- a) div k)) * k" and "(- ((- a) div k)) * k < a + k"
    by linarith+
qed

section \<open>Lists\<close>

lemma list_all_replicate [simp]: "list_all P (replicate n x) \<longleftrightarrow> n = 0 \<or> P x"
  by (induction n) auto

lemma all_digits_pad_start:
  "list_all is_digit s \<Longrightarrow> list_all is_digit (pad_start n (CHR ''0'') s)"
  by (simp add: pad_start_def is_digit_def)

lemma nat_of_digits_pad_start [simp, js_text]:
  "nat_of_digits (pad_start n (CHR ''0'') s) = nat_of_digits s"
  by (simp add: pad_start_def nat_of_digits_append nat_of_digits_zeros)

end
