(* ===== verification/Node_Ref.thy ===== *)
theory Node_Ref
  imports Prelude
begin

text \<open>
  Node references, \<open>utils/nodeRef.ts\<close>: a Proxmox node is named \<open>hostId~nodeName\<close>, or by its
  bare name in legacy rows. A missing value is the empty string, as \<open>String(value || '')\<close>
  makes it.
\<close>

definition NODE_REF_SEPARATOR :: char where
  "NODE_REF_SEPARATOR = CHR ''~''"

definition is_node_char :: "char \<Rightarrow> bool" where
  "is_node_char c =
     (let n = of_char c :: nat
      in (48 \<le> n \<and> n \<le> 57) \<or> (65 \<le> n \<and> n \<le> 90) \<or> (97 \<le> n \<and> n \<le> 122)
         \<or> c = CHR ''.'' \<or> c = CHR ''_'' \<or> c = CHR ''-'')"

definition isValidNodeName :: "string \<Rightarrow> bool" where
  "isValidNodeName name =
     (name \<noteq> [] \<and> list_all is_node_char name \<and> \<not> list_all (\<lambda>c. c = CHR ''.'') name)"

record node_ref =
  hostId :: "int option"
  nodeName :: string
  nodeRef :: string

definition encodeNodeRef :: "int option \<Rightarrow> string \<Rightarrow> string" where
  "encodeNodeRef host name =
     (let node = js_trim name
      in if node = [] then []
         else case host of
                None \<Rightarrow> node
              | Some h \<Rightarrow> if h \<le> 0 then node else show_nat (nat h) @ [NODE_REF_SEPARATOR] @ node)"

definition decodeNodeRef :: "string \<Rightarrow> node_ref" where
  "decodeNodeRef value =
     (let raw = js_trim value;
          maybeHostId = takeWhile (\<lambda>c. c \<noteq> NODE_REF_SEPARATOR) raw;
          rest = dropWhile (\<lambda>c. c \<noteq> NODE_REF_SEPARATOR) raw
      in if raw = [] then \<lparr>hostId = None, nodeName = [], nodeRef = []\<rparr>
         else if rest \<noteq> [] \<and> maybeHostId \<noteq> [] \<and> all_digits maybeHostId \<and> tl rest \<noteq> []
         then \<lparr>hostId = Some (int (nat_of_digits maybeHostId)), nodeName = tl rest, nodeRef = raw\<rparr>
         else \<lparr>hostId = None, nodeName = raw, nodeRef = raw\<rparr>)"

definition nodeLookupCandidates :: "string \<Rightarrow> string list" where
  "nodeLookupCandidates value =
     (let d = decodeNodeRef value
      in if hostId d = None \<or> hostId d = Some 0 \<or> nodeRef d = nodeName d
         then filter (\<lambda>s. s \<noteq> []) [nodeName d]
         else filter (\<lambda>s. s \<noteq> []) [nodeRef d, nodeName d])"

lemma separator_not_digit: "\<not> is_digit NODE_REF_SEPARATOR"
  by (simp add: NODE_REF_SEPARATOR_def is_digit_def)

lemma takeWhile_not_sep:
  assumes "c \<notin> set s"
  shows "takeWhile (\<lambda>x. x \<noteq> c) (s @ c # t) = s" "dropWhile (\<lambda>x. x \<noteq> c) (s @ c # t) = c # t"
  using assms by (induction s) auto

lemma show_nat_no_sep: "NODE_REF_SEPARATOR \<notin> set (show_nat n)"
  using show_nat_list_all [of n] separator_not_digit by (auto simp: list_all_iff)

lemma trimmed_nodeRef:
  assumes "trimmed s" "s \<noteq> []"
  shows "trimmed (show_nat n @ NODE_REF_SEPARATOR # s)"
  using assms show_nat_list_all [of n]
  by (auto simp: trimmed_def list_all_iff digit_not_ws)

lemma decode_encode:
  assumes "0 < h" "js_trim name \<noteq> []"
  shows "decodeNodeRef (encodeNodeRef (Some h) name) =
    \<lparr>hostId = Some h, nodeName = js_trim name,
     nodeRef = show_nat (nat h) @ NODE_REF_SEPARATOR # js_trim name\<rparr>"
proof -
  let ?raw = "show_nat (nat h) @ NODE_REF_SEPARATOR # js_trim name"
  have e: "encodeNodeRef (Some h) name = ?raw"
    using assms by (simp add: encodeNodeRef_def Let_def)
  have "js_trim ?raw = ?raw"
    using assms(2) by (intro js_trim_trimmed trimmed_nodeRef trimmed_js_trim)
  then show ?thesis
    using assms unfolding e decodeNodeRef_def Let_def
    by (simp add: takeWhile_not_sep [OF show_nat_no_sep] show_nat_digits)
qed

lemma decode_nodeRef_trim: "nodeRef (decodeNodeRef v) = js_trim v"
  by (simp add: decodeNodeRef_def Let_def)

lemma decode_nodeRef_idem: "decodeNodeRef (nodeRef (decodeNodeRef v)) = decodeNodeRef v"
  by (simp add: decode_nodeRef_trim) (simp add: decodeNodeRef_def js_trim_trimmed trimmed_js_trim)

lemma candidates_not_Nil: "[] \<notin> set (nodeLookupCandidates v)"
  by (auto simp: nodeLookupCandidates_def Let_def)

lemma candidates_encode:
  assumes "0 < h" "js_trim name \<noteq> []"
  shows "nodeLookupCandidates (encodeNodeRef (Some h) name) =
    [show_nat (nat h) @ NODE_REF_SEPARATOR # js_trim name, js_trim name]"
  using assms by (auto simp: nodeLookupCandidates_def decode_encode Let_def)

lemma candidates_bare:
  assumes "hostId (decodeNodeRef v) = None" "js_trim v \<noteq> []"
  shows "nodeLookupCandidates v = [js_trim v]"
  using assms by (auto simp: nodeLookupCandidates_def decodeNodeRef_def Let_def split: if_splits)

text \<open>A name the upstream URL guard accepts carries neither the separator nor white space.\<close>

lemma valid_name_no_sep: "isValidNodeName s \<Longrightarrow> NODE_REF_SEPARATOR \<notin> set s"
  by (auto simp: isValidNodeName_def list_all_iff is_node_char_def NODE_REF_SEPARATOR_def Let_def)

lemma node_char_not_ws: "is_node_char c \<Longrightarrow> \<not> is_ws c"
  by (auto simp: is_node_char_def is_ws_def Let_def)

lemma valid_name_trimmed: "isValidNodeName s \<Longrightarrow> js_trim s = s"
  by (intro js_trim_id) (auto simp: isValidNodeName_def list_all_iff node_char_not_ws)

lemma decode_valid_name:
  assumes "isValidNodeName s"
  shows "decodeNodeRef s = \<lparr>hostId = None, nodeName = s, nodeRef = s\<rparr>"
proof -
  have "dropWhile (\<lambda>c. c \<noteq> NODE_REF_SEPARATOR) s = []"
    using valid_name_no_sep [OF assms] by (auto simp: dropWhile_eq_Nil_conv)
  then show ?thesis
    using assms by (simp add: decodeNodeRef_def Let_def valid_name_trimmed isValidNodeName_def)
qed

section \<open>Properties\<close>

text \<open>C32: Node references round-trip: a positive host id and any name that is not blank encode to a
  reference that decodes to the same host and the trimmed name, decoding the stored reference again
  changes nothing, and its lookup candidates are exactly the scoped reference and the bare name.\<close>

theorem node_ref_roundtrip:
  assumes "0 < h" "js_trim name \<noteq> []"
  defines "v \<equiv> encodeNodeRef (Some h) name"
  shows "hostId (decodeNodeRef v) = Some h \<and> nodeName (decodeNodeRef v) = js_trim name
    \<and> decodeNodeRef (nodeRef (decodeNodeRef v)) = decodeNodeRef v
    \<and> nodeLookupCandidates v = [nodeRef (decodeNodeRef v), js_trim name]"
  unfolding v_def decode_nodeRef_idem using decode_encode [OF assms(1,2)] candidates_encode [OF assms(1,2)] by simp

theorem node_ref_roundtrip_witness:
  "hostId (decodeNodeRef (encodeNodeRef (Some 12) '' pve ~a '')) = Some 12"
proof -
  have "js_trim '' pve ~a '' \<noteq> []" by code_simp
  with node_ref_roundtrip [of 12 "'' pve ~a ''"] show ?thesis by simp
qed

end
