(* ===== verification/Schedule.thy ===== *)
theory Schedule
  imports Prelude
begin

text \<open>
  The pure half of the per-VM power schedules, \<open>utils/schedule.ts\<close>: wall-clock times,
  day masks, the OFF window and the next occurrence of a wall-clock minute.
  A minute of day and an instant (milliseconds since the epoch) are integers, a weekday is
  a natural number with 0 for Sunday. The \<open>Intl\<close> formatter is a parameter: it renders an
  instant as a weekday name, an hour and a minute; \<open>fixed_offset_fmt\<close> is that formatter
  for a zone whose offset from UTC never changes.
\<close>

unbundle bit_operations_syntax

section \<open>Times and day masks\<close>

definition ALL_DAYS :: int where
  "ALL_DAYS = 127"

definition DAY_LABELS :: "string list" where
  "DAY_LABELS = [''Sun'', ''Mon'', ''Tue'', ''Wed'', ''Thu'', ''Fri'', ''Sat'']"

definition WEEKDAY_INDEX :: "string \<Rightarrow> nat option" where
  "WEEKDAY_INDEX = map_of (zip DAY_LABELS [0..<7])"

definition isValidTime :: "string \<Rightarrow> bool" where
  "isValidTime value =
     (case value of
        [a, b, c, d, e] \<Rightarrow>
          ((a = CHR ''0'' \<or> a = CHR ''1'') \<and> is_digit b \<or> a = CHR ''2'' \<and> is_digit b \<and> digit_val b \<le> 3)
          \<and> c = CHR '':'' \<and> (is_digit d \<and> digit_val d \<le> 5) \<and> is_digit e
      | _ \<Rightarrow> False)"

definition timeToMinutes :: "string \<Rightarrow> int option" where
  \<comment> \<open>\<open>NaN\<close> is \<open>None\<close>; a missing minute field counts as 0\<close>
  "timeToMinutes value =
     (case map parse_int (split_on (CHR '':'') value) of
        [] \<Rightarrow> Some 0
      | [h] \<Rightarrow> map_option (\<lambda>x. x * 60) h
      | h # m # _ \<Rightarrow>
          (case h of None \<Rightarrow> None | Some x \<Rightarrow> map_option (\<lambda>y. x * 60 + y) m))"

definition minutes_or_0 :: "string \<Rightarrow> int" where
  \<comment> \<open>the value where a caller has checked the text with \<open>isValidTime\<close> before\<close>
  "minutes_or_0 t = (case timeToMinutes t of Some m \<Rightarrow> m | None \<Rightarrow> 0)"

definition minutesToTime :: "int \<Rightarrow> string" where
  "minutesToTime minutes =
     (let m = js_rem (js_rem minutes 1440 + 1440) 1440
      in pad_start 2 (CHR ''0'') (show_nat (nat (m div 60))) @ '':''
         @ pad_start 2 (CHR ''0'') (show_nat (nat (js_rem m 60))))"

definition isValidDaysMask :: "int \<Rightarrow> bool" where
  "isValidDaysMask value = (1 \<le> value \<and> value \<le> ALL_DAYS)"

definition dayActive :: "int \<Rightarrow> nat \<Rightarrow> bool" where
  "dayActive days weekday = (days AND push_bit weekday 1 \<noteq> 0)"

lemma dayActive_bit [simp]: "dayActive days weekday = bit days weekday"
  unfolding dayActive_def by (simp only: bit_iff_and_push_bit_not_eq_0)

definition describeDays :: "int \<Rightarrow> string" where
  "describeDays days =
     (if days = ALL_DAYS then ''Every day''
      else if days = 62 then ''Weekdays''
      else if days = 65 then ''Weekends''
      else
        let names = map (\<lambda>d. DAY_LABELS ! d) (filter (dayActive days) [1, 2, 3, 4, 5, 6])
              @ (if dayActive days 0 then [DAY_LABELS ! 0] else [])
        in if names \<noteq> [] then join_with '', '' names else ''No days'')"

section \<open>Wall clocks\<close>

record zoned =
  weekday :: nat
  minuteOfDay :: int

type_synonym intl_fmt = "int \<Rightarrow> string \<times> int \<times> int"
  \<comment> \<open>instant to weekday name, hour and minute, as \<open>formatToParts\<close> renders them\<close>

definition zonedParts :: "intl_fmt \<Rightarrow> int \<Rightarrow> zoned" where
  "zonedParts fmt date =
     (case fmt date of (wd, hour, minute) \<Rightarrow>
        let w = (case WEEKDAY_INDEX wd of Some i \<Rightarrow> i | None \<Rightarrow> 0);
            h = (if hour = 24 then 0 else hour)
        in \<lparr>weekday = w, minuteOfDay = h * 60 + minute\<rparr>)"

definition fixed_offset_fmt :: "int \<Rightarrow> intl_fmt" where
  \<comment> \<open>a zone that is always \<open>off\<close> minutes ahead of UTC; the epoch was a Thursday\<close>
  "fixed_offset_fmt off date =
     (let mins = date div 60000 + off;
          m = mins mod 1440
      in (DAY_LABELS ! nat ((mins div 1440 + 4) mod 7), m div 60, m mod 60))"

lemma zonedParts_fixed_offset:
  "minuteOfDay (zonedParts (fixed_offset_fmt off) date) = (date div 60000 + off) mod 1440"
proof -
  let ?m = "(date div 60000 + off) mod 1440"
  have "?m < 24 * 60" by simp
  then have "?m div 60 < 24" by (simp add: div_less_iff_less_mult)
  then have "?m div 60 \<noteq> 24" by simp
  then show ?thesis
    by (simp add: zonedParts_def fixed_offset_fmt_def Let_def)
qed

lemma WEEKDAY_INDEX_DAY_LABELS: "d < 7 \<Longrightarrow> WEEKDAY_INDEX (DAY_LABELS ! d) = Some d"
proof -
  assume "d < 7"
  then have "d \<in> {0, 1, 2, 3, 4, 5, 6}" by auto
  then show ?thesis by (auto simp: WEEKDAY_INDEX_def DAY_LABELS_def upt_rec)
qed

lemma weekday_fixed_offset:
  "weekday (zonedParts (fixed_offset_fmt off) date) =
     nat (((date div 60000 + off) div 1440 + 4) mod 7)"
proof -
  let ?d = "nat (((date div 60000 + off) div 1440 + 4) mod 7)"
  have "?d < 7" by (simp add: nat_less_iff)
  from WEEKDAY_INDEX_DAY_LABELS [OF this] show ?thesis
    by (simp add: zonedParts_def fixed_offset_fmt_def Let_def)
qed

section \<open>The OFF window\<close>

record off_window =
  stopM :: int
  startM :: int
  ow_days :: int

definition offWindowContains :: "zoned \<Rightarrow> off_window \<Rightarrow> bool" where
  "offWindowContains z w =
     (if stopM w = startM w then False
      else if stopM w < startM w then
        dayActive (ow_days w) (weekday z) \<and> minuteOfDay z \<ge> stopM w \<and> minuteOfDay z < startM w
      else if minuteOfDay z \<ge> stopM w then dayActive (ow_days w) (weekday z)
      else if minuteOfDay z < startM w then dayActive (ow_days w) ((weekday z + 6) mod 7)
      else False)"

text \<open>
  The contract the window implements: with minutes counted from Sunday 00:00, an instant is
  off exactly when, for some day \<open>d\<close> of the mask, it lies less than the window's length after
  the stop of day \<open>d\<close>, on the week's circle of 10080 minutes.
\<close>

definition window_length :: "off_window \<Rightarrow> int" where
  "window_length w = (startM w - stopM w) mod 1440"

definition off_spec :: "zoned \<Rightarrow> off_window \<Rightarrow> bool" where
  "off_spec z w =
     (\<exists>d < 7. dayActive (ow_days w) d \<and>
        (int (weekday z) * 1440 + minuteOfDay z - (int d * 1440 + stopM w)) mod 10080
          < window_length w)"

definition zoned_ok :: "zoned \<Rightarrow> bool" where
  "zoned_ok z = (weekday z < 7 \<and> 0 \<le> minuteOfDay z \<and> minuteOfDay z < 1440)"

definition window_ok :: "off_window \<Rightarrow> bool" where
  "window_ok w = (0 \<le> stopM w \<and> stopM w < 1440 \<and> 0 \<le> startM w \<and> startM w < 1440)"

lemma less_7_cases: "d < (7::nat) \<longleftrightarrow> d \<in> {0, 1, 2, 3, 4, 5, 6}"
  by auto

lemma week_circle:
  fixes m s :: int and wd d :: nat
  assumes "wd < 7" "d < 7" "0 \<le> m" "m < 1440" "0 \<le> s" "s < 1440" "L < 1440" "0 \<le> L"
  shows "(int wd * 1440 + m - (int d * 1440 + s)) mod 10080 < L \<longleftrightarrow>
           (if s \<le> m then wd = d \<and> m - s < L else (wd + 6) mod 7 = d \<and> m + 1440 - s < L)"
proof -
  define k where "k = (int wd - int d) mod 7"
  have k: "0 \<le> k" "k < 7" by (simp_all add: k_def)
  have same: "k = 0 \<longleftrightarrow> wd = d" and next_day: "k = 1 \<longleftrightarrow> (wd + 6) mod 7 = d"
    using assms(1,2) unfolding k_def less_7_cases by auto
  have pos: "(int wd * 1440 + m - (int d * 1440 + s)) mod 10080 = (k * 1440 + (m - s)) mod 10080"
  proof -
    have "int wd * 1440 + m - (int d * 1440 + s) = (int wd - int d) * 1440 + (m - s)" by simp
    moreover have "(int wd - int d) = 7 * ((int wd - int d) div 7) + k" by (simp add: k_def)
    ultimately have "int wd * 1440 + m - (int d * 1440 + s)
        = k * 1440 + (m - s) + 10080 * ((int wd - int d) div 7)" by (simp add: algebra_simps)
    then show ?thesis by (simp only: mod_mult_self2)
  qed
  show ?thesis
  proof (cases "s \<le> m")
    case True
    then have "(k * 1440 + (m - s)) mod 10080 = k * 1440 + (m - s)"
      using assms k by (intro mod_pos_pos_trivial) auto
    with True pos same show ?thesis using assms k by auto
  next
    case False
    show ?thesis
    proof (cases "k = 0")
      case True
      have "(m - s) mod 10080 = (m - s + 10080) mod 10080" by simp
      also have "\<dots> = m - s + 10080" using False assms by (intro mod_pos_pos_trivial) auto
      finally show ?thesis using True False pos next_day assms by auto
    next
      case nz: False
      then have "(k * 1440 + (m - s)) mod 10080 = k * 1440 + (m - s)"
        using assms k False by (intro mod_pos_pos_trivial) auto
      with False pos next_day nz show ?thesis using assms k by auto
    qed
  qed
qed

lemma window_length_cases:
  assumes "window_ok w"
  shows "window_length w =
    (if stopM w \<le> startM w then startM w - stopM w else startM w - stopM w + 1440)"
proof (cases "stopM w \<le> startM w")
  case True
  then show ?thesis using assms by (auto simp: window_length_def window_ok_def)
next
  case False
  have "(startM w - stopM w) mod 1440 = (startM w - stopM w + 1440) mod 1440" by simp
  also have "\<dots> = startM w - stopM w + 1440"
    using assms False by (intro mod_pos_pos_trivial) (auto simp: window_ok_def)
  finally show ?thesis using False by (simp add: window_length_def)
qed

lemma offWindowContains_iff_spec:
  assumes "zoned_ok z" and "window_ok w"
  shows "offWindowContains z w \<longleftrightarrow> off_spec z w"
proof -
  have z: "weekday z < 7" "0 \<le> minuteOfDay z" "minuteOfDay z < 1440"
    using assms(1) by (simp_all add: zoned_ok_def)
  have w: "0 \<le> stopM w" "stopM w < 1440" "0 \<le> startM w" "startM w < 1440"
    using assms(2) by (simp_all add: window_ok_def)
  have L: "window_length w < 1440" "0 \<le> window_length w"
    by (simp_all add: window_length_def)
  have "off_spec z w \<longleftrightarrow> (\<exists>d < 7. dayActive (ow_days w) d \<and>
      (if stopM w \<le> minuteOfDay z then weekday z = d \<and> minuteOfDay z - stopM w < window_length w
       else (weekday z + 6) mod 7 = d \<and> minuteOfDay z + 1440 - stopM w < window_length w))"
    unfolding off_spec_def using week_circle [OF z(1) _ z(2,3) w(1,2) L] by (metis (no_types))
  also have "\<dots> \<longleftrightarrow>
      (if stopM w \<le> minuteOfDay z
       then dayActive (ow_days w) (weekday z) \<and> minuteOfDay z - stopM w < window_length w
       else dayActive (ow_days w) ((weekday z + 6) mod 7) \<and> minuteOfDay z + 1440 - stopM w < window_length w)"
    using z(1) by auto
  also have "\<dots> \<longleftrightarrow> offWindowContains z w"
    using z w by (auto simp: offWindowContains_def window_length_cases [OF assms(2)])
  finally show ?thesis by simp
qed

section \<open>The next occurrence of a wall-clock minute\<close>

definition nextTimeOccurrence :: "intl_fmt \<Rightarrow> int \<Rightarrow> int \<Rightarrow> int" where
  "nextTimeOccurrence fmt fromMs target =
     (let start = (- ((- fromMs) div 60000)) * 60000
      in case find (\<lambda>i. minuteOfDay (zonedParts fmt (start + int i * 60000)) = target) [0..<11521] of
           Some i \<Rightarrow> start + int i * 60000
         | None \<Rightarrow> fromMs + 24 * 60 * 60 * 1000)"

lemma find_upt_Some_iff:
  "find P [0..<n] = Some i \<longleftrightarrow> i < n \<and> P i \<and> (\<forall>j < i. \<not> P j)"
  by (auto simp: find_Some_iff)

lemma find_upt_None_iff: "find P [0..<n] = None \<longleftrightarrow> (\<forall>j < n. \<not> P j)"
  by (auto simp: find_None_iff)

text \<open>In a zone with a fixed offset the scan finds the minute within a day.\<close>

lemma nextTimeOccurrence_fixed:
  fixes fromMs target off :: int
  assumes "0 \<le> target" "target < 1440"
  defines "r \<equiv> nextTimeOccurrence (fixed_offset_fmt off) fromMs target"
  shows "minuteOfDay (zonedParts (fixed_offset_fmt off) r) = target"
    and "fromMs \<le> r" and "r < fromMs + 86400000" and "r mod 60000 = 0"
    and "\<And>t. \<lbrakk>fromMs \<le> t; t < r; t mod 60000 = 0\<rbrakk>
           \<Longrightarrow> minuteOfDay (zonedParts (fixed_offset_fmt off) t) \<noteq> target"
proof -
  define q where "q = - ((- fromMs) div 60000)"
  let ?P = "\<lambda>i. minuteOfDay (zonedParts (fixed_offset_fmt off) (q * 60000 + int i * 60000)) = target"
  have q: "fromMs \<le> q * 60000" "q * 60000 < fromMs + 60000"
    unfolding q_def using ceil_div_bounds [of 60000 fromMs] by simp_all
  have P: "?P i \<longleftrightarrow> (q + off + int i) mod 1440 = target" for i
  proof -
    have "q * 60000 + int i * 60000 = (q + int i) * 60000" by (simp add: algebra_simps)
    then show ?thesis by (simp add: zonedParts_fixed_offset algebra_simps)
  qed
  define k where "k = nat ((target - (q + off)) mod 1440)"
  have k: "k < 1440" by (simp add: k_def nat_less_iff)
  have Pk: "?P k"
  proof -
    have "(q + off + (target - (q + off)) mod 1440) mod 1440 = target mod 1440"
      by (simp add: mod_add_right_eq)
    with assms(1,2) show ?thesis by (subst P) (simp add: k_def)
  qed
  have min: "\<not> ?P j" if "j < k" for j
  proof
    assume "?P j"
    with Pk have "(q + off + int j) mod 1440 = (q + off + int k) mod 1440" by (simp only: P)
    then have "int j mod 1440 = int k mod 1440" by (simp add: mod_eq_dvd_iff)
    with that k show False by simp
  qed
  have "find ?P [0..<11521] = Some k"
    using k Pk min by (simp add: find_upt_Some_iff)
  then have r: "r = q * 60000 + int k * 60000"
    by (simp add: r_def nextTimeOccurrence_def q_def [symmetric] Let_def)
  from Pk r show "minuteOfDay (zonedParts (fixed_offset_fmt off) r) = target" by simp
  from q k r show "fromMs \<le> r" "r < fromMs + 86400000" by linarith+
  have "r = (q + int k) * 60000" using r by (simp add: algebra_simps)
  then show "r mod 60000 = 0" by simp
  fix t assume t: "fromMs \<le> t" "t < r" "t mod 60000 = 0"
  define j where "j = nat (t div 60000 - q)"
  have "60000 * (t div 60000) + t mod 60000 = t" by (rule mult_div_mod_eq)
  then have t60: "t = t div 60000 * 60000" using t(3) by linarith
  with t(1) q(2) have "q * 60000 < t div 60000 * 60000 + 60000" by linarith
  then have "q \<le> t div 60000" by linarith
  with t60 have tj: "t = q * 60000 + int j * 60000" unfolding j_def by (simp add: algebra_simps)
  with t(2) r have "j < k" by simp
  with min tj show "minuteOfDay (zonedParts (fixed_offset_fmt off) t) \<noteq> target" by simp
qed

section \<open>Rows as the API shows them\<close>

record sched_row =
  s_enabled :: bool
  s_stop_time :: string
  s_start_time :: string
  s_days :: int
  s_timezone :: string
  s_skip_until :: int
  s_manual :: bool
  s_last_action :: string
  s_last_action_at :: int

record sched_view =
  v_enabled :: bool
  v_stopTime :: string
  v_startTime :: string
  v_days :: int
  v_timezone :: string
  v_skipUntil :: int
  v_skipActive :: bool
  v_runningDueToManual :: bool
  v_lastAction :: string
  v_lastActionAt :: int

definition serializeSchedule :: "sched_row option \<Rightarrow> int \<Rightarrow> sched_view option" where
  "serializeSchedule row now =
     (case row of
        None \<Rightarrow> None
      | Some r \<Rightarrow> Some \<lparr>v_enabled = s_enabled r, v_stopTime = s_stop_time r,
          v_startTime = s_start_time r, v_days = s_days r,
          v_timezone = (if s_timezone r = [] then ''UTC'' else s_timezone r),
          v_skipUntil = s_skip_until r, v_skipActive = (s_skip_until r > now),
          v_runningDueToManual = s_manual r, v_lastAction = s_last_action r,
          v_lastActionAt = s_last_action_at r\<rparr>)"

record sched_badge =
  b_stopTime :: string
  b_startTime :: string
  b_days :: int
  b_timezone :: string
  b_skipActive :: bool

definition scheduleBadge :: "sched_row option \<Rightarrow> int \<Rightarrow> sched_badge option" where
  "scheduleBadge row now =
     (case row of
        None \<Rightarrow> None
      | Some r \<Rightarrow>
          if \<not> s_enabled r \<or> s_stop_time r = [] \<or> s_start_time r = [] then None
          else Some \<lparr>b_stopTime = s_stop_time r, b_startTime = s_start_time r,
            b_days = s_days r,
            b_timezone = (if s_timezone r = [] then ''UTC'' else s_timezone r),
            b_skipActive = (s_skip_until r > now)\<rparr>)"

section \<open>Printing and parsing times\<close>

lemma two_digits:
  assumes "n < 100"
  shows "pad_start 2 (CHR ''0'') (show_nat n) = [digit_char (n div 10), digit_char (n mod 10)]"
proof (cases "n < 10")
  case True
  then have "show_nat n = [digit_char n]" by (subst show_nat.simps) simp
  moreover have "digit_char 0 = CHR ''0''"
    using digit_char_digit_val [of "CHR ''0''"] by (simp add: is_digit_def digit_val_def)
  ultimately show ?thesis using True by (simp add: pad_start_def)
next
  case False
  with assms have "show_nat n = [digit_char (n div 10), digit_char (n mod 10)]"
    by (subst show_nat.simps) (auto simp: show_nat.simps [of "n div 10"])
  then show ?thesis by (simp add: pad_start_def)
qed

lemma minutesToTime_chars:
  fixes m :: int
  defines "h \<equiv> nat (m mod 1440 div 60)" and "k \<equiv> nat (m mod 1440 mod 60)"
  shows "minutesToTime m = [digit_char (h div 10), digit_char (h mod 10), CHR '':'',
           digit_char (k div 10), digit_char (k mod 10)]"
proof -
  have h: "h < 100" and k: "k < 100" unfolding h_def k_def by (simp_all add: nat_less_iff div_less_iff_less_mult)
  have "minutesToTime m = pad_start 2 (CHR ''0'') (show_nat h) @ '':'' @ pad_start 2 (CHR ''0'') (show_nat k)"
    by (simp add: minutesToTime_def Let_def js_rem_wrap js_rem_nonneg h_def k_def)
  then show ?thesis by (simp add: two_digits [OF h] two_digits [OF k])
qed

lemma digit_split:
  fixes n :: nat
  shows "n < 24 \<Longrightarrow> n div 10 < 10" "n < 60 \<Longrightarrow> n div 10 < 10" "n < 60 \<Longrightarrow> n div 10 \<le> 5"
    "n mod 10 < 10"
  by auto

lemma colon_not_digit: "\<not> is_digit (CHR '':'')"
  by (simp add: is_digit_def)

lemma timeToMinutes_digits:
  assumes "is_digit a" "is_digit b" "is_digit d" "is_digit e"
  shows "timeToMinutes [a, b, CHR '':'', d, e] =
    Some (int (10 * digit_val a + digit_val b) * 60 + int (10 * digit_val d + digit_val e))"
proof -
  have c: "a \<noteq> CHR '':''" "b \<noteq> CHR '':''" "d \<noteq> CHR '':''" "e \<noteq> CHR '':''"
    using assms colon_not_digit by auto
  have "all_digits [a, b]" "all_digits [d, e]" using assms by (simp_all add: all_digits_def)
  then show ?thesis using c
    by (simp add: timeToMinutes_def parse_int_digits nat_of_digits_Cons)
qed

lemma timeToMinutes_hk:
  assumes "h < 24" "k < 60"
  shows "timeToMinutes [digit_char (h div 10), digit_char (h mod 10), CHR '':'',
           digit_char (k div 10), digit_char (k mod 10)] = Some (int h * 60 + int k)"
proof -
  have d: "h div 10 < 10" "h mod 10 < 10" "k div 10 < 10" "k mod 10 < 10"
    using assms by (simp_all only: digit_split)
  have "10 * (h div 10) + h mod 10 = h" "10 * (k div 10) + k mod 10 = k" by simp_all
  then show ?thesis
    by (simp only: timeToMinutes_digits is_digit_digit_char digit_val_digit_char d)
qed

lemma time_parts:
  fixes m :: int
  shows "nat (m mod 1440 div 60) < 24" and "nat (m mod 1440 mod 60) < 60"
    and "int (nat (m mod 1440 div 60)) * 60 + int (nat (m mod 1440 mod 60)) = m mod 1440"
  by (simp_all add: nat_less_iff div_less_iff_less_mult)

lemma timeToMinutes_minutesToTime: "timeToMinutes (minutesToTime m) = Some (m mod 1440)"
  unfolding minutesToTime_chars timeToMinutes_hk [OF time_parts(1,2)] time_parts(3) by (rule refl)

lemma hour_digits:
  fixes h :: nat
  shows "h < 24 \<Longrightarrow> h div 10 = 0 \<or> h div 10 = 1 \<or> h div 10 = 2 \<and> h mod 10 \<le> 3"
  by presburger

lemma digit_char_012: "digit_char 0 = CHR ''0''" "digit_char 1 = CHR ''1''" "digit_char 2 = CHR ''2''"
  using digit_char_digit_val [of "CHR ''0''"] digit_char_digit_val [of "CHR ''1''"]
    digit_char_digit_val [of "CHR ''2''"] by (simp_all add: is_digit_def digit_val_def)

lemma isValidTime_hk:
  assumes "h < 24" "k < 60"
  shows "isValidTime [digit_char (h div 10), digit_char (h mod 10), CHR '':'',
           digit_char (k div 10), digit_char (k mod 10)]"
proof -
  have d: "h mod 10 < 10" "k div 10 < 10" "k mod 10 < 10" "k div 10 \<le> 5"
    using assms by (simp_all only: digit_split)
  show ?thesis using hour_digits [OF assms(1)]
    by (elim disjE conjE) (simp_all only: isValidTime_def list.case digit_char_012
        is_digit_digit_char digit_val_digit_char d simp_thms)
qed

lemma isValidTime_minutesToTime: "isValidTime (minutesToTime m)"
  unfolding minutesToTime_chars by (rule isValidTime_hk [OF time_parts(1,2)])

lemma timeToMinutes_valid:
  assumes "isValidTime s"
  shows "\<exists>m. timeToMinutes s = Some m \<and> 0 \<le> m \<and> m < 1440 \<and> minutesToTime m = s"
proof -
  obtain a b d e where s: "s = [a, b, CHR '':'', d, e]"
    and ab: "(a = CHR ''0'' \<or> a = CHR ''1'') \<and> is_digit b \<or> a = CHR ''2'' \<and> is_digit b \<and> digit_val b \<le> 3"
    and d: "is_digit d" "digit_val d \<le> 5" and e: "is_digit e"
    using assms by (auto simp: isValidTime_def split: list.splits)
  have a: "is_digit a" using ab by (auto simp: is_digit_def)
  have b: "is_digit b" using ab by auto
  have va: "digit_val (CHR ''0'') = 0" "digit_val (CHR ''1'') = 1" "digit_val (CHR ''2'') = 2"
    by (simp_all add: digit_val_def)
  define h where "h = 10 * digit_val a + digit_val b"
  define k where "k = 10 * digit_val d + digit_val e"
  have h: "h < 24" using ab va digit_val_less [OF b] by (auto simp: h_def)
  have k: "k < 60" using d digit_val_less [OF e] by (simp add: k_def)
  have hd: "h div 10 = digit_val a" "h mod 10 = digit_val b"
    using digit_val_less [OF b] by (simp_all add: h_def)
  have kd: "k div 10 = digit_val d" "k mod 10 = digit_val e"
    using digit_val_less [OF e] by (simp_all add: k_def)
  let ?m = "int h * 60 + int k"
  have t: "timeToMinutes s = Some ?m"
    unfolding s using timeToMinutes_digits [OF a b d(1) e] by (simp add: h_def k_def)
  have m: "0 \<le> ?m" "?m < 1440" using h k by auto
  have "nat (?m mod 1440 div 60) = h" "nat (?m mod 1440 mod 60) = k" using m k by auto
  then have "minutesToTime ?m = s"
    using a b d(1) e by (simp add: minutesToTime_chars hd kd s)
  with t m show ?thesis by blast
qed

section \<open>Properties\<close>

text \<open>C26: \<open>offWindowContains\<close>, which looks at today and at yesterday's overnight window, decides
  exactly whether the moment lies on the weekly circle within the window's length after the start of
  the window of some active day, for every window within a day.\<close>

theorem off_window_is_weekly_circle:
  assumes "zoned_ok z" and "window_ok w"
  shows "offWindowContains z w \<longleftrightarrow> off_spec z w"
  using assms by (rule offWindowContains_iff_spec)

theorem off_window_is_weekly_circle_witness:
  "offWindowContains \<lparr>weekday = 0, minuteOfDay = 30\<rparr> \<lparr>stopM = 1380, startM = 60, ow_days = 64\<rparr>
   \<and> off_spec \<lparr>weekday = 0, minuteOfDay = 30\<rparr> \<lparr>stopM = 1380, startM = 60, ow_days = 64\<rparr>"
proof -
  have "zoned_ok \<lparr>weekday = 0, minuteOfDay = 30\<rparr>" "window_ok \<lparr>stopM = 1380, startM = 60, ow_days = 64\<rparr>"
    by (simp_all add: zoned_ok_def window_ok_def)
  from off_window_is_weekly_circle [OF this] show ?thesis
    by (simp add: offWindowContains_def)
qed

text \<open>Times of day round-trip: \<open>minutesToTime\<close> prints any integer as a text that \<open>isValidTime\<close>
  accepts and \<open>timeToMinutes\<close> reads back modulo a day, and every text \<open>isValidTime\<close> accepts is the
  printed form of its minute.\<close>

theorem time_of_day_roundtrip:
  "isValidTime (minutesToTime m) \<and> timeToMinutes (minutesToTime m) = Some (m mod 1440)
   \<and> (\<forall>s. isValidTime s \<longrightarrow> (\<exists>k. timeToMinutes s = Some k \<and> 0 \<le> k \<and> k < 1440 \<and> minutesToTime k = s))"
  using isValidTime_minutesToTime timeToMinutes_minutesToTime timeToMinutes_valid by blast


text \<open>In a zone with a fixed offset \<open>nextTimeOccurrence\<close> returns the first instant at a full
  minute, not before the given one and less than a day later, whose local minute is the target. An
  instant that is itself such a minute is returned unchanged: the result is not strictly later.\<close>

theorem next_occurrence_is_first:
  fixes fromMs target off :: int
  assumes "0 \<le> target" "target < 1440"
  defines "r \<equiv> nextTimeOccurrence (fixed_offset_fmt off) fromMs target"
  shows "minuteOfDay (zonedParts (fixed_offset_fmt off) r) = target \<and> fromMs \<le> r \<and> r < fromMs + 86400000
    \<and> (\<forall>t. fromMs \<le> t \<and> t < r \<and> t mod 60000 = 0 \<longrightarrow> minuteOfDay (zonedParts (fixed_offset_fmt off) t) \<noteq> target)
    \<and> (fromMs mod 60000 = 0 \<and> minuteOfDay (zonedParts (fixed_offset_fmt off) fromMs) = target \<longrightarrow> r = fromMs)"
proof -
  note facts = nextTimeOccurrence_fixed [where fromMs = fromMs and off = off, OF assms(1,2), folded r_def]
  have first: "\<forall>t. fromMs \<le> t \<and> t < r \<and> t mod 60000 = 0 \<longrightarrow> minuteOfDay (zonedParts (fixed_offset_fmt off) t) \<noteq> target"
    by (intro allI impI, elim conjE, rule facts(5))
  have same: "r = fromMs"
    if h: "fromMs mod 60000 = 0 \<and> minuteOfDay (zonedParts (fixed_offset_fmt off) fromMs) = target"
  proof (rule ccontr)
    assume "r \<noteq> fromMs"
    with facts(2) have lt: "fromMs < r" by simp
    have "minuteOfDay (zonedParts (fixed_offset_fmt off) fromMs) \<noteq> target"
      by (rule facts(5) [OF order_refl lt h [THEN conjunct1]])
    with h [THEN conjunct2] show False by contradiction
  qed
  show ?thesis by (intro conjI facts(1-3) first) (rule impI, rule same)
qed


end
