(* ===== verification/Permissions.thy ===== *)
theory Permissions
  imports Prelude
begin

text \<open>
  The granular permissions, \<open>utils/permissionKeys.ts\<close>, \<open>utils/permissionRules.ts\<close> and
  \<open>utils/permissions.ts\<close>: an administrator passes every check, a user with a role has exactly
  the role's permissions, a user without one falls back to the per-user columns.
  A column holds a JavaScript value; the rules compare it with \<open>=== 1\<close> after the store's
  booleans have been translated. The tables \<open>users\<close> and \<open>role_permissions\<close> are a state
  record.
\<close>

datatype flag = FNull | FBool bool | FNum int | FStr string

definition truthy :: "flag \<Rightarrow> bool" where
  "truthy v = (case v of FNull \<Rightarrow> False | FBool b \<Rightarrow> b | FNum n \<Rightarrow> n \<noteq> 0 | FStr s \<Rightarrow> s \<noteq> [])"

definition PERMISSION_KEYS :: "string list" where
  "PERMISSION_KEYS =
    [''see_all_vms'', ''can_operate_all_vms'', ''can_provision'', ''can_create_vms'',
     ''can_manage_hosts'', ''can_manage_firewalls'', ''can_manage_port_forwards'',
     ''can_manage_vlans'', ''can_manage_policies'', ''can_manage_templates'',
     ''can_manage_users'', ''can_manage_assignments'', ''can_view_audit_log'',
     ''can_edit_vm_hardware'', ''can_manage_websites'', ''can_manage_public_ips'']"

record user_row =
  user_id :: int
  role_id :: "int option"
  columns :: "string \<Rightarrow> flag"
    \<comment> \<open>the remaining columns by name, \<open>is_admin\<close> and the permission columns among them\<close>

record auth_db =
  user_rows :: "user_row list"
  role_permissions :: "(int \<times> string) list"

section \<open>The rules\<close>

definition has_role :: "user_row \<Rightarrow> bool" where
  "has_role u = (role_id u \<noteq> None \<and> role_id u \<noteq> Some 0)"

definition resolvePermissionCheck ::
  "user_row option \<Rightarrow> string list option \<Rightarrow> string list \<Rightarrow> bool" where
  "resolvePermissionCheck userRow rolePermissions keys =
     (case userRow of
        None \<Rightarrow> False
      | Some u \<Rightarrow>
          if columns u ''is_admin'' = FNum 1 then True
          else if has_role u
          then let perms = (case rolePermissions of None \<Rightarrow> [] | Some ps \<Rightarrow> ps)
               in list_ex (\<lambda>k. k \<in> set perms) keys
          else list_ex (\<lambda>k. columns u k = FNum 1) keys)"

definition resolveEffectivePermissions ::
  "user_row option \<Rightarrow> string list option \<Rightarrow> string list \<Rightarrow> (string \<rightharpoonup> bool)" where
  "resolveEffectivePermissions userRow rolePermissions permissionKeys =
     (let hasRole = (case userRow of None \<Rightarrow> False | Some u \<Rightarrow> has_role u);
          perms = (if hasRole then (case rolePermissions of None \<Rightarrow> [] | Some ps \<Rightarrow> ps) else [])
      in (\<lambda>key. if key \<in> set permissionKeys
                then Some (if hasRole then key \<in> set perms
                           else (case userRow of None \<Rightarrow> False | Some u \<Rightarrow> columns u key = FNum 1))
                else None))"

definition IMPLIED_PERMISSIONS :: "(string \<times> string list) list" where
  "IMPLIED_PERMISSIONS =
    [(''can_operate_all_vms'', [''see_all_vms'']),
     (''can_manage_firewalls'', [''can_manage_port_forwards''])]"

definition withImpliedPermissions :: "(string \<rightharpoonup> bool) \<Rightarrow> (string \<rightharpoonup> bool)" where
  "withImpliedPermissions perms =
     foldl (\<lambda>out (key, implied).
        if perms key = Some True then foldl (\<lambda>o' k. o'(k \<mapsto> True)) out implied else out)
       perms IMPLIED_PERMISSIONS"

section \<open>The database-backed wrappers\<close>

definition legacy_flag :: "flag \<Rightarrow> flag" where
  "legacy_flag v = (case v of FBool True \<Rightarrow> FNum 1 | FBool False \<Rightarrow> FNum 0 | _ \<Rightarrow> v)"

definition toLegacyFlagRow :: "user_row \<Rightarrow> user_row" where
  "toLegacyFlagRow u =
     u\<lparr>columns := (\<lambda>key. if key \<in> set (''is_admin'' # PERMISSION_KEYS)
                         then legacy_flag (columns u key) else columns u key)\<rparr>"

definition getRolePermissions :: "int option \<Rightarrow> auth_db \<Rightarrow> string list" where
  "getRolePermissions roleId db =
     (case roleId of
        None \<Rightarrow> []
      | Some r \<Rightarrow> if r = 0 then [] else map snd (filter (\<lambda>p. fst p = r) (role_permissions db)))"

definition find_user :: "int \<Rightarrow> auth_db \<Rightarrow> user_row option" where
  "find_user uid db = find (\<lambda>u. user_id u = uid) (user_rows db)"

definition role_grants :: "user_row \<Rightarrow> auth_db \<Rightarrow> string list option" where
  "role_grants u db = (if has_role u then Some (getRolePermissions (role_id u) db) else None)"

definition userHasPermission :: "auth_db \<Rightarrow> int \<Rightarrow> string list \<Rightarrow> bool" where
  "userHasPermission db uid keys =
     (case find_user uid db of
        None \<Rightarrow> False
      | Some u \<Rightarrow>
          if truthy (columns u ''is_admin'') then True
          else resolvePermissionCheck (Some (toLegacyFlagRow u)) (role_grants u db) keys)"

definition effectivePermissions :: "auth_db \<Rightarrow> user_row \<Rightarrow> (string \<rightharpoonup> bool)" where
  "effectivePermissions db u =
     resolveEffectivePermissions (Some (toLegacyFlagRow u)) (role_grants u db) PERMISSION_KEYS"

section \<open>What the rules mean\<close>

text \<open>
  The specification: whether one key is granted to a user, as a relation to the role table or
  to the user's own column.
\<close>

definition key_granted :: "auth_db \<Rightarrow> user_row \<Rightarrow> string \<Rightarrow> bool" where
  "key_granted db u key =
     (if has_role u then (\<exists>r. role_id u = Some r \<and> (r, key) \<in> set (role_permissions db))
      else columns u key = FBool True \<or> columns u key = FNum 1)"

lemma has_role_legacy [simp]: "has_role (toLegacyFlagRow u) = has_role u"
  by (simp add: has_role_def toLegacyFlagRow_def)

lemma legacy_flag_1: "legacy_flag v = FNum 1 \<longleftrightarrow> v = FBool True \<or> v = FNum 1"
  by (auto simp: legacy_flag_def split: flag.splits bool.splits)

lemma columns_legacy: "k \<in> set (''is_admin'' # PERMISSION_KEYS)
  \<Longrightarrow> columns (toLegacyFlagRow u) k = FNum 1 \<longleftrightarrow> columns u k = FBool True \<or> columns u k = FNum 1"
  by (simp add: toLegacyFlagRow_def legacy_flag_1)

lemma role_grants_set:
  "has_role u \<Longrightarrow> set (getRolePermissions (role_id u) db) = {k. key_granted db u k}"
  by (force simp: getRolePermissions_def key_granted_def has_role_def)

lemma effective_iff_granted:
  assumes "k \<in> set PERMISSION_KEYS"
  shows "effectivePermissions db u k = Some (key_granted db u k)"
proof (cases "has_role u")
  case True
  then show ?thesis
    using assms role_grants_set [OF True, of db]
    by (simp add: effectivePermissions_def resolveEffectivePermissions_def role_grants_def)
next
  case False
  then show ?thesis
    using assms columns_legacy [of k u]
    by (simp add: effectivePermissions_def resolveEffectivePermissions_def key_granted_def)
qed

lemma userHasPermission_iff:
  assumes "set keys \<subseteq> set PERMISSION_KEYS" and "find_user uid db = Some u"
  shows "userHasPermission db uid keys \<longleftrightarrow>
           truthy (columns u ''is_admin'') \<or> (\<exists>k \<in> set keys. key_granted db u k)"
proof (cases "truthy (columns u ''is_admin'')")
  case True
  then show ?thesis using assms(2) by (simp add: userHasPermission_def)
next
  case False
  then have noadm: "columns (toLegacyFlagRow u) ''is_admin'' \<noteq> FNum 1"
    by (auto simp: columns_legacy truthy_def)
  show ?thesis
  proof (cases "has_role u")
    case True
    with False noadm assms role_grants_set [OF True, of db] show ?thesis
      by (simp add: userHasPermission_def resolvePermissionCheck_def role_grants_def list_ex_iff)
  next
    case norole: False
    have "columns (toLegacyFlagRow u) k = FNum 1 \<longleftrightarrow> key_granted db u k" if "k \<in> set keys" for k
      using that assms(1) norole columns_legacy [of k u] by (auto simp: key_granted_def)
    with False noadm norole assms(2) show ?thesis
      by (auto simp: userHasPermission_def resolvePermissionCheck_def list_ex_iff)
  qed
qed

lemma implied_cases:
  "withImpliedPermissions perms k =
     (if k = ''see_all_vms'' \<and> perms ''can_operate_all_vms'' = Some True then Some True
      else if k = ''can_manage_port_forwards'' \<and> perms ''can_manage_firewalls'' = Some True
      then Some True else perms k)"
  by (simp add: withImpliedPermissions_def IMPLIED_PERMISSIONS_def)

lemma implied_keeps: "perms k = Some True \<Longrightarrow> withImpliedPermissions perms k = Some True"
  by (simp add: implied_cases)

lemma implied_idem:
  "withImpliedPermissions (withImpliedPermissions perms) = withImpliedPermissions perms"
  by (rule ext) (simp add: implied_cases)

section \<open>Properties\<close>

text \<open>A user has a permission exactly when the account is an administrator or one of the requested
  keys is granted: by the role's grants when the account has a role, otherwise by the user's own
  column. A role replaces the columns, it does not add to them, and an unknown user has nothing.\<close>

theorem permission_check_is_grant:
  assumes "set keys \<subseteq> set PERMISSION_KEYS"
  shows "userHasPermission db uid keys \<longleftrightarrow>
    (\<exists>u. find_user uid db = Some u \<and> (truthy (columns u ''is_admin'') \<or> (\<exists>k \<in> set keys. key_granted db u k)))"
  using userHasPermission_iff [OF assms] by (cases "find_user uid db") (simp_all add: userHasPermission_def)

definition demo_auth :: auth_db where
  "demo_auth = \<lparr>user_rows = [\<lparr>user_id = 7, role_id = Some 2, columns = (\<lambda>k. if k = ''is_admin'' then FBool False else FBool True)\<rparr>],
     role_permissions = [(2, ''see_all_vms'')]\<rparr>"


end
