(* ===== verification/Vm_Ops.thy ===== *)
theory Vm_Ops
  imports Permissions Node_Ref
begin

text \<open>
  Per-VM authorization: the decision table \<open>utils/vmOps.ts\<close> and its database-backed wrapper
  \<open>utils/vmAccess.ts\<close>. Assignments are rows of the state record \<open>vm_db\<close>, which extends the
  tables of the permission model.
\<close>

datatype tier = ReadTier | OperateTier | OwnTier

definition VM_OP_TIERS :: "(string \<times> tier) list" where
  "VM_OP_TIERS =
    [(''vm.status'', ReadTier), (''vm.config'', ReadTier), (''vm.rrd'', ReadTier),
     (''vm.ipManagement.read'', ReadTier), (''vm.cloudinit.read'', ReadTier),
     (''vm.snapshots.list'', ReadTier), (''vm.backups.list'', ReadTier),
     (''vm.backups.tasks'', ReadTier), (''vm.backups.storages'', ReadTier),
     (''vm.schedule.read'', ReadTier), (''vm.sshConfig.read'', ReadTier),
     (''vm.power'', OperateTier), (''vm.vnc'', OperateTier), (''vm.ssh.connect'', OperateTier),
     (''vm.sftp.connect'', OperateTier), (''vm.sshConfig.write'', OperateTier),
     (''vm.sshConfig.scan'', OperateTier), (''vm.vlan'', OperateTier),
     (''vm.hardware'', OperateTier), (''vm.disk.resize'', OperateTier),
     (''vm.snapshots.create'', OperateTier), (''vm.snapshots.delete'', OperateTier),
     (''vm.backups.create'', OperateTier), (''vm.backups.delete'', OperateTier),
     (''vm.backups.browse'', OperateTier), (''vm.ipManagement.write'', OperateTier),
     (''vm.delete'', OwnTier), (''vm.restore'', OwnTier), (''vm.snapshots.rollback'', OwnTier),
     (''vm.cloudinit.credentials'', OwnTier), (''vm.lease.renew'', OwnTier),
     (''vm.schedule.write'', OwnTier)]"

definition HARDWARE_OPS :: "string list" where
  "HARDWARE_OPS = [''vm.hardware'', ''vm.disk.resize'']"

record vm_op_context =
  isAdmin :: bool
  isAssigned :: bool
  seeAllVms :: bool
  operateAllVms :: bool
  canEditHardware :: bool

definition no_context :: vm_op_context where
  "no_context = \<lparr>isAdmin = False, isAssigned = False, seeAllVms = False, operateAllVms = False,
     canEditHardware = False\<rparr>"

definition canPerformVmOp :: "string \<Rightarrow> vm_op_context \<Rightarrow> bool" where
  "canPerformVmOp op c =
     (if isAdmin c then True
      else case map_of VM_OP_TIERS op of
             None \<Rightarrow> False
           | Some t \<Rightarrow>
               if op \<in> set HARDWARE_OPS \<and> \<not> canEditHardware c then False
               else if isAssigned c then True
               else (case t of
                       OwnTier \<Rightarrow> False
                     | OperateTier \<Rightarrow> operateAllVms c
                     | ReadTier \<Rightarrow> seeAllVms c \<or> operateAllVms c))"

section \<open>Assignments and the gate of the routes\<close>

record vm_assignment =
  a_user :: int
  a_node :: string
  a_vmid :: int

record vm_db = auth_db +
  vm_assignments :: "vm_assignment list"

definition userOwnsVm :: "('a::type) vm_db_scheme \<Rightarrow> int \<Rightarrow> string \<Rightarrow> int \<Rightarrow> bool" where
  "userOwnsVm db uid node vmid =
     (let candidates = nodeLookupCandidates node
      in if candidates = [] then False
         else list_ex (\<lambda>a. a_user a = uid \<and> a_vmid a = vmid \<and> a_node a \<in> set candidates)
                (vm_assignments db))"

definition auth_of :: "'a vm_db_scheme \<Rightarrow> auth_db" where
  "auth_of db = \<lparr>user_rows = user_rows db, role_permissions = role_permissions db\<rparr>"

definition userCanAccessVm :: "'a vm_db_scheme \<Rightarrow> int \<Rightarrow> string \<Rightarrow> int \<Rightarrow> bool \<Rightarrow> bool" where
  "userCanAccessVm db uid node vmid is_adm =
     (if is_adm then True
      else if userHasPermission (auth_of db) uid [''see_all_vms'', ''can_operate_all_vms''] then True
      else userOwnsVm db uid node vmid)"

definition perm_true :: "(string \<rightharpoonup> bool) \<Rightarrow> string \<Rightarrow> bool" where
  "perm_true perms key = (perms key = Some True)"

definition vmOpContext ::
  "'a vm_db_scheme \<Rightarrow> int \<Rightarrow> string \<Rightarrow> int \<Rightarrow> bool \<Rightarrow> vm_op_context" where
  "vmOpContext db uid node vmid is_adm =
     (if is_adm then no_context\<lparr>isAdmin := True\<rparr>
      else case find_user uid (auth_of db) of
             None \<Rightarrow> no_context
           | Some u \<Rightarrow>
               if truthy (columns u ''is_admin'') then no_context\<lparr>isAdmin := True\<rparr>
               else let perms = effectivePermissions (auth_of db) u
                    in \<lparr>isAdmin = False, isAssigned = userOwnsVm db uid node vmid,
                        seeAllVms = perm_true perms ''see_all_vms'',
                        operateAllVms = perm_true perms ''can_operate_all_vms'',
                        canEditHardware = perm_true perms ''can_edit_vm_hardware''\<rparr>)"

definition userCanPerformVmOp ::
  "'a vm_db_scheme \<Rightarrow> int \<Rightarrow> string \<Rightarrow> int \<Rightarrow> bool \<Rightarrow> string \<Rightarrow> bool" where
  "userCanPerformVmOp db uid node vmid is_adm op =
     canPerformVmOp op (vmOpContext db uid node vmid is_adm)"

definition userSeesAllVms :: "'a vm_db_scheme \<Rightarrow> int \<Rightarrow> bool \<Rightarrow> bool" where
  "userSeesAllVms db uid is_adm =
     (if is_adm then True
      else userHasPermission (auth_of db) uid [''see_all_vms'', ''can_operate_all_vms''])"

section \<open>The gate as an interface\<close>

text \<open>
  What a route relies on when it names an operation: the laws of the three tiers. The
  consequences the routes need follow from the laws alone.
\<close>

locale op_gate =
  fixes gate :: "string \<Rightarrow> vm_op_context \<Rightarrow> bool"
    and tier_of :: "string \<Rightarrow> tier option"
    and hardware :: "string \<Rightarrow> bool"
  assumes admin_passes: "isAdmin c \<Longrightarrow> gate op c"
    and unknown_closed: "\<not> isAdmin c \<Longrightarrow> tier_of op = None \<Longrightarrow> \<not> gate op c"
    and hardware_axis: "\<not> isAdmin c \<Longrightarrow> hardware op \<Longrightarrow> \<not> canEditHardware c \<Longrightarrow> \<not> gate op c"
    and assigned_passes: "tier_of op = Some t \<Longrightarrow> \<not> hardware op \<or> canEditHardware c \<Longrightarrow>
      isAssigned c \<Longrightarrow> gate op c"
    and own_needs_assignment: "\<not> isAdmin c \<Longrightarrow> \<not> isAssigned c \<Longrightarrow> tier_of op = Some OwnTier \<Longrightarrow>
      \<not> gate op c"
    and operate_fleet: "\<not> isAdmin c \<Longrightarrow> \<not> isAssigned c \<Longrightarrow> tier_of op = Some OperateTier \<Longrightarrow>
      \<not> hardware op \<or> canEditHardware c \<Longrightarrow> gate op c = operateAllVms c"
    and read_fleet: "\<not> isAdmin c \<Longrightarrow> \<not> isAssigned c \<Longrightarrow> tier_of op = Some ReadTier \<Longrightarrow>
      \<not> hardware op \<or> canEditHardware c \<Longrightarrow> gate op c = (seeAllVms c \<or> operateAllVms c)"
begin

lemma gate_known: "\<not> isAdmin c \<Longrightarrow> gate op c \<Longrightarrow> tier_of op \<noteq> None"
  using unknown_closed by blast

lemma gate_hardware: "\<not> isAdmin c \<Longrightarrow> gate op c \<Longrightarrow> hardware op \<Longrightarrow> canEditHardware c"
  using hardware_axis by blast

text \<open>Operating includes seeing: on the same VM, whoever may operate may read.\<close>

lemma tiers_nested:
  assumes g: "gate op c" and t: "tier_of op = Some OperateTier \<or> tier_of op = Some OwnTier"
    and r: "tier_of op' = Some ReadTier" "\<not> hardware op'"
  shows "gate op' c"
proof (cases "isAdmin c \<or> isAssigned c")
  case True
  then show ?thesis using admin_passes assigned_passes r by blast
next
  case False
  then have "tier_of op = Some OperateTier" using g t own_needs_assignment by blast
  moreover have "\<not> hardware op \<or> canEditHardware c" using False g gate_hardware by blast
  ultimately have "operateAllVms c" using False g operate_fleet by blast
  then show ?thesis using False r read_fleet by blast
qed

text \<open>The visibility flag alone never lets a user change a VM.\<close>

lemma visibility_is_read_only:
  assumes "\<not> isAdmin c" "\<not> isAssigned c" "\<not> operateAllVms c" "gate op c"
  shows "tier_of op = Some ReadTier"
proof -
  obtain t where t: "tier_of op = Some t" using gate_known assms by blast
  have hw: "\<not> hardware op \<or> canEditHardware c" using gate_hardware assms by blast
  show ?thesis
  proof (cases t)
    case OperateTier
    then show ?thesis using t hw operate_fleet assms by blast
  next
    case OwnTier
    then show ?thesis using t own_needs_assignment assms by blast
  qed (simp add: t)
qed

end

interpretation vm_gate: op_gate canPerformVmOp "map_of VM_OP_TIERS" "\<lambda>op. op \<in> set HARDWARE_OPS"
  by unfold_locales (auto simp: canPerformVmOp_def split: option.splits tier.splits)

section \<open>Facts about the wrappers\<close>

lemma perm_keys: "''see_all_vms'' \<in> set PERMISSION_KEYS" "''can_operate_all_vms'' \<in> set PERMISSION_KEYS"
  "''can_edit_vm_hardware'' \<in> set PERMISSION_KEYS"
  by (simp_all add: PERMISSION_KEYS_def)

lemma vmOpContext_user:
  assumes "find_user uid (auth_of db) = Some u" "\<not> truthy (columns u ''is_admin'')"
  shows "vmOpContext db uid node vmid False =
    \<lparr>isAdmin = False, isAssigned = userOwnsVm db uid node vmid,
     seeAllVms = key_granted (auth_of db) u ''see_all_vms'',
     operateAllVms = key_granted (auth_of db) u ''can_operate_all_vms'',
     canEditHardware = key_granted (auth_of db) u ''can_edit_vm_hardware''\<rparr>"
  using assms by (simp add: vmOpContext_def perm_true_def effective_iff_granted perm_keys)

lemma vmOpContext_not_admin:
  "isAdmin (vmOpContext db uid node vmid is_adm) \<longleftrightarrow>
     is_adm \<or> (\<exists>u. find_user uid (auth_of db) = Some u \<and> truthy (columns u ''is_admin''))"
  by (auto simp: vmOpContext_def no_context_def Let_def split: option.splits)

lemma vmOpContext_assigned:
  "isAssigned (vmOpContext db uid node vmid is_adm) \<Longrightarrow> userOwnsVm db uid node vmid"
  by (auto simp: vmOpContext_def no_context_def Let_def split: option.splits if_splits)

text \<open>The read gate and the general access check of the same module agree.\<close>

lemma access_iff_read_op:
  assumes "find_user uid (auth_of db) = Some u" "map_of VM_OP_TIERS op = Some ReadTier"
  shows "userCanAccessVm db uid node vmid is_adm \<longleftrightarrow> userCanPerformVmOp db uid node vmid is_adm op"
proof -
  have hw: "op \<notin> set HARDWARE_OPS"
    using assms(2) by (auto simp: HARDWARE_OPS_def VM_OP_TIERS_def)
  have keys: "set [''see_all_vms'', ''can_operate_all_vms''] \<subseteq> set PERMISSION_KEYS"
    using perm_keys by simp
  show ?thesis
  proof (cases "is_adm \<or> truthy (columns u ''is_admin'')")
    case True
    then have "isAdmin (vmOpContext db uid node vmid is_adm)"
      using assms(1) by (auto simp: vmOpContext_not_admin)
    then have "userCanPerformVmOp db uid node vmid is_adm op"
      unfolding userCanPerformVmOp_def by (rule vm_gate.admin_passes)
    moreover have "userCanAccessVm db uid node vmid is_adm"
      using True assms(1) userHasPermission_iff [OF keys assms(1)] by (auto simp: userCanAccessVm_def)
    ultimately show ?thesis by simp
  next
    case False
    then show ?thesis
      using assms hw userHasPermission_iff [OF keys assms(1)] vmOpContext_user [OF assms(1)]
      by (auto simp: userCanAccessVm_def userCanPerformVmOp_def canPerformVmOp_def)
  qed
qed

section \<open>Properties\<close>

text \<open>C4: The fleet-wide visibility permission alone never lets an account change a VM: a user who is not
  an administrator, has no assignment to the VM and lacks \<open>can_operate_all_vms\<close> passes the gate of an
  operation only if that operation is in the read tier.\<close>

theorem visibility_never_writes:
  assumes "find_user uid (auth_of db) = Some u" "\<not> truthy (columns u ''is_admin'')"
    and "\<not> userOwnsVm db uid node vmid" "\<not> key_granted (auth_of db) u ''can_operate_all_vms''"
    and "userCanPerformVmOp db uid node vmid False op"
  shows "map_of VM_OP_TIERS op = Some ReadTier"
  using vm_gate.visibility_is_read_only [of "vmOpContext db uid node vmid False" op] assms
  by (simp add: userCanPerformVmOp_def vmOpContext_user)

text \<open>Destructive operations need the assignment: whoever is not an administrator passes the gate of
  an own-tier operation (delete, restore, rollback, credentials, lease, schedule) only on a VM
  assigned to the account, whatever fleet permissions it has.\<close>

theorem own_tier_needs_assignment:
  assumes "map_of VM_OP_TIERS op = Some OwnTier" "userCanPerformVmOp db uid node vmid is_adm op"
    and "\<not> is_adm" "\<And>u. find_user uid (auth_of db) = Some u \<Longrightarrow> \<not> truthy (columns u ''is_admin'')"
  shows "userOwnsVm db uid node vmid"
proof (rule vmOpContext_assigned)
  have "\<not> isAdmin (vmOpContext db uid node vmid is_adm)"
    using assms(3,4) by (auto simp: vmOpContext_not_admin)
  then show "isAssigned (vmOpContext db uid node vmid is_adm)"
    using assms(1,2) vm_gate.own_needs_assignment unfolding userCanPerformVmOp_def by blast
qed

text \<open>The two access checks agree: for a known account, \<open>userCanAccessVm\<close> answers the same as the gate
  of any read-tier operation.\<close>

theorem access_agrees_with_read_gate:
  assumes "find_user uid (auth_of db) = Some u" "map_of VM_OP_TIERS op = Some ReadTier"
  shows "userCanAccessVm db uid node vmid is_adm \<longleftrightarrow> userCanPerformVmOp db uid node vmid is_adm op"
  using assms by (rule access_iff_read_op)

definition demo_vm_db :: "string list \<Rightarrow> vm_db" where
  "demo_vm_db grants =
     \<lparr>user_rows = [\<lparr>user_id = 7, role_id = Some 2, columns = (\<lambda>k. FBool False)\<rparr>],
      role_permissions = map (Pair 2) grants, vm_assignments = [\<lparr>a_user = 7, a_node = ''pve'', a_vmid = 100\<rparr>]\<rparr>"

lemma demo_user: "find_user 7 (auth_of (demo_vm_db gs)) = Some \<lparr>user_id = 7, role_id = Some 2, columns = (\<lambda>k. FBool False)\<rparr>"
  by (simp add: find_user_def auth_of_def demo_vm_db_def)

lemma demo_candidates: "nodeLookupCandidates ''pve2'' = [''pve2'']" "nodeLookupCandidates ''pve'' = [''pve'']"
  by code_simp+

theorem visibility_never_writes_witness:
  "userCanPerformVmOp (demo_vm_db [''see_all_vms'']) 7 ''pve2'' 100 False ''vm.status''
   \<and> map_of VM_OP_TIERS ''vm.status'' = Some ReadTier"
proof -
  let ?db = "demo_vm_db [''see_all_vms'']"
  have g: "userCanPerformVmOp ?db 7 ''pve2'' 100 False ''vm.status''"
    by code_simp
  moreover have "\<not> userOwnsVm ?db 7 ''pve2'' 100" by (simp add: userOwnsVm_def demo_candidates demo_vm_db_def)
  ultimately show ?thesis
    using visibility_never_writes [OF demo_user, of "[''see_all_vms'']" "''pve2''" 100 "''vm.status''"]
    by (simp add: truthy_def key_granted_def has_role_def auth_of_def demo_vm_db_def)
qed


end
