(* ===== verification/Migration_Lock.thy ===== *)
theory Migration_Lock
  imports Vm_Ops
begin

text \<open>
  The guest-wide lock and the policy-write guard of \<open>utils/vmMigrationLock.ts\<close>.
  \<open>admit\<close> and \<open>leave\<close> are the in-process admission (\<open>admittedVms\<close> and \<open>admittedOperations\<close>)
  that \<open>withVmMigrationLock\<close> performs before and after its action. The answers of PostgreSQL
  (whether a connection is available, whether the advisory lock is pg_granted) and of Proxmox
  (whether the guest exists) are parameters.
\<close>

definition busy_error :: http_error where
  "busy_error = httpError 409 ''VM operation is busy; retry after it completes''"

section \<open>Admission\<close>

record lock_state =
  admittedVms :: "int \<rightharpoonup> bool \<times> nat"
    \<comment> \<open>per VM: whether its holders share the lock, and how many there are\<close>
  admittedOperations :: nat

definition admit :: "nat \<Rightarrow> int \<Rightarrow> bool \<Rightarrow> lock_state \<Rightarrow> http_error + lock_state" where
  "admit pool_max vmid shared s =
     (if (case admittedVms s vmid of None \<Rightarrow> False | Some (sh, _) \<Rightarrow> \<not> shared \<or> \<not> sh)
         \<or> admittedOperations s \<ge> pool_max - 1
      then Inl busy_error
      else let (sh, c) = (case admittedVms s vmid of None \<Rightarrow> (shared, 0) | Some p \<Rightarrow> p)
           in Inr (s\<lparr>admittedVms := (admittedVms s)(vmid \<mapsto> (sh, Suc c)),
                    admittedOperations := Suc (admittedOperations s)\<rparr>))"

definition leave :: "int \<Rightarrow> lock_state \<Rightarrow> lock_state" where
  "leave vmid s =
     (case admittedVms s vmid of
        None \<Rightarrow> s\<lparr>admittedOperations := admittedOperations s - 1\<rparr>
      | Some (sh, c) \<Rightarrow>
          s\<lparr>admittedVms := (if c - 1 = 0 then (admittedVms s)(vmid := None)
                             else (admittedVms s)(vmid \<mapsto> (sh, c - 1))),
            admittedOperations := admittedOperations s - 1\<rparr>)"

definition withVmMigrationLock ::
  "nat \<Rightarrow> bool \<Rightarrow> bool \<Rightarrow> int \<Rightarrow> ('db \<Rightarrow> (http_error + 'a) \<times> 'db) \<Rightarrow> bool \<Rightarrow>
     lock_state \<times> 'db \<Rightarrow> (http_error + 'a) \<times> lock_state \<times> 'db" where
  "withVmMigrationLock pool_max connected pg_granted vmid action shared st =
     (case st of (s, db) \<Rightarrow>
        case admit pool_max vmid shared s of
          Inl e \<Rightarrow> (Inl e, s, db)
        | Inr s1 \<Rightarrow>
            let (r, db') = (if \<not> connected then (Inl (httpError 500 ''connect failed''), db)
                            else if \<not> pg_granted then (Inl busy_error, db)
                            else action db)
            in (r, leave vmid s1, db'))"

section \<open>The operations in flight\<close>

text \<open>
  Concurrent requests interleave at the awaits, so the lock is a step relation between
  admissions and exits. The second component of the state is the list of operations that are
  between \<open>admit\<close> and \<open>leave\<close>: VM and mode. Every exit (no connection, advisory lock refused,
  action done or failed) runs the \<open>finally\<close> block and is the same step.
\<close>

inductive lock_step ::
  "nat \<Rightarrow> lock_state \<times> (int \<times> bool) list \<Rightarrow> lock_state \<times> (int \<times> bool) list \<Rightarrow> bool"
  for pool_max where
  enter: "admit pool_max v sh s = Inr s' \<Longrightarrow> lock_step pool_max (s, ops) (s', (v, sh) # ops)"
| exit: "(v, sh) \<in> set ops \<Longrightarrow> lock_step pool_max (s, ops) (leave v s, remove1 (v, sh) ops)"

inductive lock_reachable :: "nat \<Rightarrow> lock_state \<times> (int \<times> bool) list \<Rightarrow> bool"
  for pool_max where
  init: "lock_reachable pool_max (\<lparr>admittedVms = Map.empty, admittedOperations = 0\<rparr>, [])"
| step: "lock_reachable pool_max c \<Longrightarrow> lock_step pool_max c c' \<Longrightarrow> lock_reachable pool_max c'"

inductive_cases lock_stepE: "lock_step pool_max (s, ops) c'"

abbreviation ops_of :: "int \<Rightarrow> (int \<times> bool) list \<Rightarrow> (int \<times> bool) list" where
  "ops_of v ops \<equiv> filter (\<lambda>p. fst p = v) ops"

definition vm_entry_ok :: "(bool \<times> nat) option \<Rightarrow> (int \<times> bool) list \<Rightarrow> bool" where
  "vm_entry_ok e mine =
     (case e of
        None \<Rightarrow> mine = []
      | Some (sh, c) \<Rightarrow> c = length mine \<and> 0 < c \<and> (\<forall>p \<in> set mine. snd p = sh) \<and> (\<not> sh \<longrightarrow> c = 1))"

definition lock_inv :: "nat \<Rightarrow> lock_state \<times> (int \<times> bool) list \<Rightarrow> bool" where
  "lock_inv pool_max c =
     (case c of (s, ops) \<Rightarrow>
        admittedOperations s = length ops \<and> length ops \<le> pool_max - 1 \<and>
        (\<forall>v. vm_entry_ok (admittedVms s v) (ops_of v ops)))"

lemma admit_Inr:
  assumes "admit pool_max v sh s = Inr s'"
  shows "admittedOperations s < pool_max - 1"
    and "admittedOperations s' = Suc (admittedOperations s)"
    and "admittedVms s' = (admittedVms s)(v \<mapsto>
           (case admittedVms s v of None \<Rightarrow> (sh, 1) | Some (sh', c) \<Rightarrow> (sh', Suc c)))"
    and "\<And>sh' c. admittedVms s v = Some (sh', c) \<Longrightarrow> sh \<and> sh'"
  using assms by (auto simp: admit_def split: if_splits option.splits)

lemma entry_enter:
  assumes "vm_entry_ok e mine" "\<And>sh' c. e = Some (sh', c) \<Longrightarrow> sh \<and> sh'"
  shows "vm_entry_ok (Some (case e of None \<Rightarrow> (sh, 1) | Some (sh', c) \<Rightarrow> (sh', Suc c)))
           ((v, sh) # mine)"
proof (cases e)
  case None
  with assms(1) show ?thesis by (simp add: vm_entry_ok_def)
next
  case (Some p)
  obtain sh' c where p: "p = (sh', c)" by (cases p)
  with Some assms(2) have "sh" "sh'" by blast+
  with assms(1) Some p show ?thesis by (auto simp: vm_entry_ok_def)
qed

lemma entry_exit:
  assumes "vm_entry_ok e mine" "(v, sh) \<in> set mine"
  shows "vm_entry_ok (case e of None \<Rightarrow> None | Some (sh', c) \<Rightarrow>
           if c - 1 = 0 then None else Some (sh', c - 1)) (remove1 (v, sh) mine)"
proof -
  obtain sh' c where e: "e = Some (sh', c)"
    using assms by (cases e) (auto simp: vm_entry_ok_def)
  have c: "c = length mine" "\<forall>p \<in> set mine. snd p = sh'" "\<not> sh' \<longrightarrow> c = 1"
    using assms(1) e by (auto simp: vm_entry_ok_def)
  have len: "length (remove1 (v, sh) mine) = c - 1"
    using assms(2) c by (simp add: length_remove1)
  have "\<forall>p \<in> set (remove1 (v, sh) mine). snd p = sh'"
    using c(2) set_remove1_subset [of "(v, sh)" mine] by blast
  with len c e show ?thesis by (auto simp: vm_entry_ok_def)
qed

lemma leave_fields:
  "admittedOperations (leave v s) = admittedOperations s - 1"
  "admittedVms (leave v s) = (admittedVms s)(v := (case admittedVms s v of None \<Rightarrow> None
      | Some (sh', c) \<Rightarrow> if c - 1 = 0 then None else Some (sh', c - 1)))"
  by (auto simp: leave_def fun_eq_iff split: option.splits)

lemma filter_remove1_same:
  "P x \<Longrightarrow> filter P (remove1 x xs) = remove1 x (filter P xs)"
  by (induction xs) auto

lemma filter_remove1_other:
  "\<not> P x \<Longrightarrow> filter P (remove1 x xs) = filter P xs"
  by (induction xs) auto

lemma lock_step_inv: "lock_step pool_max c c' \<Longrightarrow> lock_inv pool_max c \<Longrightarrow> lock_inv pool_max c'"
proof (induction rule: lock_step.induct)
  case (enter v sh s s' ops)
  note a = admit_Inr [OF enter.hyps]
  have "vm_entry_ok (admittedVms s' u) (ops_of u ((v, sh) # ops))" for u
    using enter.prems a(3) entry_enter [OF _ a(4)] by (cases "u = v") (auto simp: lock_inv_def)
  then show ?case using enter.prems a(1,2) by (simp add: lock_inv_def)
next
  case (exit v sh ops s)
  have "vm_entry_ok (admittedVms (leave v s) u) (ops_of u (remove1 (v, sh) ops))" for u
  proof (cases "u = v")
    case True
    have "(v, sh) \<in> set (ops_of v ops)" using exit.hyps by simp
    with exit.prems True show ?thesis
      by (simp add: leave_fields filter_remove1_same entry_exit lock_inv_def)
  next
    case False
    with exit.prems show ?thesis
      by (simp add: leave_fields filter_remove1_other lock_inv_def)
  qed
  then show ?case using exit.prems exit.hyps
    by (auto simp: lock_inv_def leave_fields length_remove1)
qed

lemma lock_reachable_inv: "lock_reachable pool_max c \<Longrightarrow> lock_inv pool_max c"
proof (induction rule: lock_reachable.induct)
  case init
  then show ?case by (simp add: lock_inv_def vm_entry_ok_def)
next
  case (step c c')
  then show ?case by (blast intro: lock_step_inv)
qed

lemma lock_inv_exclusive:
  assumes "lock_inv pool_max (s, xs @ (v, sh1) # ys @ (v, sh2) # zs)"
  shows "sh1 \<and> sh2"
proof -
  let ?mine = "ops_of v xs @ (v, sh1) # ops_of v ys @ (v, sh2) # ops_of v zs"
  have "vm_entry_ok (admittedVms s v) (ops_of v (xs @ (v, sh1) # ys @ (v, sh2) # zs))"
    using assms unfolding lock_inv_def by blast
  then have "vm_entry_ok (admittedVms s v) ?mine" by simp
  then show ?thesis
    by (auto simp: vm_entry_ok_def split: option.splits)
qed

lemma admit_leave:
  assumes "admit pool_max v sh s = Inr s'"
    and "\<And>sh' c. admittedVms s v = Some (sh', c) \<Longrightarrow> 0 < c"
  shows "leave v s' = s"
proof -
  note a = admit_Inr [OF assms(1)]
  have "admittedVms (leave v s') = admittedVms s"
    using a(3) assms(2) by (auto simp: leave_fields fun_eq_iff split: option.splits)
  moreover have "admittedOperations (leave v s') = admittedOperations s"
    using a(2) by (simp add: leave_fields)
  ultimately show ?thesis by simp
qed

section \<open>Where a VM's policy lives\<close>

record vm_migration =
  mg_id :: int
  mg_vmid :: int
  mg_source :: string
  mg_target :: string
  mg_status :: string

record policy_db = vm_db +
  vm_migrations :: "vm_migration list"

definition vmMigrationPending :: "'a policy_db_scheme \<Rightarrow> int \<Rightarrow> bool" where
  "vmMigrationPending db vmid =
     list_ex (\<lambda>m. mg_vmid m = vmid \<and> mg_status m \<in> set [''running'', ''needs_review'']) (vm_migrations db)"

definition matchesLocation :: "node_ref \<Rightarrow> string \<Rightarrow> bool" where
  "matchesLocation requested value =
     (if hostId requested = None then nodeRef requested \<in> set (nodeLookupCandidates value)
      else if hostId (decodeNodeRef value) = None
      then nodeName (decodeNodeRef value) = nodeName requested
      else value = nodeRef requested)"

definition assertVmPolicyLocation :: "'a policy_db_scheme \<Rightarrow> string \<Rightarrow> int \<Rightarrow> http_error + string" where
  "assertVmPolicyLocation db node vmid =
     (if vmMigrationPending db vmid
      then Inl (httpError 409 ''VM migration is awaiting completion or review; retry the policy change afterwards'')
      else
        let requested = decodeNodeRef node;
            migrations = sort_key (\<lambda>m. - mg_id m)
              (filter (\<lambda>m. mg_vmid m = vmid \<and> mg_status m = ''ok'') (vm_migrations db))
        in case find (\<lambda>row. matchesLocation requested (mg_source row)
                          \<or> matchesLocation requested (mg_target row)) migrations of
             None \<Rightarrow> Inr (nodeRef requested)
           | Some m \<Rightarrow>
               let ambiguousBare = (hostId requested = None \<and> mg_source m \<noteq> mg_target m
                     \<and> nodeRef requested \<in> set (nodeLookupCandidates (mg_source m)))
               in if mg_status m = ''ok'' \<and> (ambiguousBare
                     \<or> nodeRef requested \<notin> set (nodeLookupCandidates (mg_target m)))
                  then Inl (httpError 409 ''VM has migrated; reload the VM at its current location before changing its policy'')
                  else Inr (mg_target m))"

section \<open>Guarded policy writes\<close>

record policy_actor =
  actor_user :: int
  actor_op :: "string option"

definition access_changed :: http_error where
  "access_changed = httpError 403 ''VM policy access has changed; reload before retrying''"

definition actorAllowed :: "'a policy_db_scheme \<Rightarrow> policy_actor \<Rightarrow> string \<Rightarrow> int \<Rightarrow> http_error + bool" where
  "actorAllowed db actor currentNode vmid =
     (case find_user (actor_user actor) (auth_of db) of
        None \<Rightarrow> Inl access_changed
      | Some u \<Rightarrow>
          let assigned = userOwnsVm db (actor_user actor) currentNode vmid;
              permissions = effectivePermissions (auth_of db) u
          in Inr (case actor_op actor of
                    Some op \<Rightarrow> canPerformVmOp op
                      \<lparr>isAdmin = (columns u ''is_admin'' = FBool True), isAssigned = assigned,
                       seeAllVms = perm_true permissions ''see_all_vms'',
                       operateAllVms = perm_true permissions ''can_operate_all_vms'',
                       canEditHardware = perm_true permissions ''can_edit_vm_hardware''\<rparr>
                  | None \<Rightarrow> truthy (columns u ''is_admin'') \<or> assigned))"

definition policyGuard ::
  "(string \<Rightarrow> int \<Rightarrow> http_error + bool) \<Rightarrow> string \<Rightarrow> int \<Rightarrow> policy_actor option \<Rightarrow>
     'a policy_db_scheme \<Rightarrow> http_error + string" where
  "policyGuard guestPresence node vmid actor db =
     bind_err (assertVmPolicyLocation db node vmid) (\<lambda>currentNode.
       case actor of
         None \<Rightarrow> Inr currentNode
       | Some a \<Rightarrow>
           bind_err (actorAllowed db a currentNode vmid) (\<lambda>allowed.
             if \<not> allowed then Inl access_changed
             else bind_err (guestPresence currentNode vmid) (\<lambda>present.
               if \<not> present then Inl (httpError 404 ''VM no longer exists'') else Inr currentNode)))"

definition withVmPolicyWrite ::
  "nat \<Rightarrow> bool \<Rightarrow> bool \<Rightarrow> (string \<Rightarrow> int \<Rightarrow> http_error + bool) \<Rightarrow> string \<Rightarrow> int \<Rightarrow>
     (string \<Rightarrow> 'a policy_db_scheme \<Rightarrow> (http_error + 'r) \<times> 'a policy_db_scheme) \<Rightarrow> policy_actor option \<Rightarrow>
     lock_state \<times> 'a policy_db_scheme \<Rightarrow> (http_error + 'r) \<times> lock_state \<times> 'a policy_db_scheme" where
  "withVmPolicyWrite pool_max connected pg_granted guestPresence node vmid write actor st =
     withVmMigrationLock pool_max connected pg_granted vmid
       (transaction (\<lambda>db.
          case policyGuard guestPresence node vmid actor db of
            Inl e \<Rightarrow> (Inl e, db)
          | Inr currentNode \<Rightarrow> write currentNode db))
       True st"

lemma withVmMigrationLock_state:
  assumes "\<And>sh' c. admittedVms s vmid = Some (sh', c) \<Longrightarrow> 0 < c"
  shows "fst (snd (withVmMigrationLock pm con gr vmid action shared (s, db))) = s"
  using admit_leave [OF _ assms, where ?pool_max = pm and ?sh = shared]
  by (auto simp: withVmMigrationLock_def Let_def split: sum.splits prod.splits)

lemma withVmMigrationLock_Inr:
  assumes "fst (withVmMigrationLock pm con gr vmid action shared (s, db)) = Inr x"
  shows "fst (action db) = Inr x"
    and "snd (snd (withVmMigrationLock pm con gr vmid action shared (s, db))) = snd (action db)"
    and "con" "gr" "\<exists>s'. admit pm vmid shared s = Inr s'"
  using assms by (auto simp: withVmMigrationLock_def Let_def split: sum.splits prod.splits if_splits)

lemma withVmMigrationLock_Inl:
  assumes "fst (withVmMigrationLock pm con gr vmid action shared (s, db)) = Inl e"
    and "\<And>e. fst (action db) = Inl e \<Longrightarrow> snd (action db) = db"
  shows "snd (snd (withVmMigrationLock pm con gr vmid action shared (s, db))) = db"
  using assms by (auto simp: withVmMigrationLock_def Let_def split: sum.splits prod.splits if_splits)

lemma policy_write_Inr:
  assumes "fst (withVmPolicyWrite pm con gr gp node vmid write actor (s, db)) = Inr x"
  obtains currentNode where "policyGuard gp node vmid actor db = Inr currentNode"
    and "fst (write currentNode db) = Inr x"
    and "snd (snd (withVmPolicyWrite pm con gr gp node vmid write actor (s, db))) = snd (write currentNode db)"
proof -
  let ?f = "\<lambda>db. case policyGuard gp node vmid actor db of Inl e \<Rightarrow> (Inl e, db)
              | Inr currentNode \<Rightarrow> write currentNode db"
  note L = withVmMigrationLock_Inr [OF assms [unfolded withVmPolicyWrite_def]]
  have eq: "transaction ?f db = ?f db" using L(1) by (rule transaction_ok)
  then obtain n where n: "policyGuard gp node vmid actor db = Inr n"
    using L(1) by (auto split: sum.splits)
  show thesis
    by (rule that [OF n]) (use L eq n in \<open>simp_all add: withVmPolicyWrite_def\<close>)
qed

lemma policyGuard_Inr:
  assumes "policyGuard gp node vmid (Some a) db = Inr n"
  shows "assertVmPolicyLocation db node vmid = Inr n"
    and "actorAllowed db a n vmid = Inr True" and "gp n vmid = Inr True"
  using assms by (auto simp: policyGuard_def bind_err_Inr_iff split: if_splits)

section \<open>Properties\<close>

text \<open>C3: The guest lock is exclusive in every reachable state: if two operations on the same VM are in
  flight at once, both took it in shared mode; and however requests enter and leave, the number of
  operations in flight stays below the size of the connection pool.\<close>

theorem guest_lock_exclusive:
  assumes "lock_reachable pool_max (s, ops)"
  shows "(\<forall>xs ys zs v sh1 sh2. ops = xs @ (v, sh1) # ys @ (v, sh2) # zs \<longrightarrow> sh1 \<and> sh2)
    \<and> admittedOperations s = length ops \<and> length ops \<le> pool_max - 1"
  using lock_reachable_inv [OF assms] lock_inv_exclusive unfolding lock_inv_def by blast

theorem guest_lock_exclusive_witness:
  "\<exists>s. lock_reachable 10 (s, [(5, True), (5, True)]) \<and> admittedOperations s = 2"
proof -
  let ?s0 = "\<lparr>admittedVms = Map.empty, admittedOperations = 0\<rparr>"
  let ?s1 = "\<lparr>admittedVms = [5 \<mapsto> (True, 1)], admittedOperations = 1\<rparr>"
  let ?s2 = "\<lparr>admittedVms = [5 \<mapsto> (True, Suc 1)], admittedOperations = Suc 1\<rparr>"
  have s1: "admit 10 5 True ?s0 = Inr ?s1" by (simp add: admit_def)
  have s2: "admit 10 5 True ?s1 = Inr ?s2" by (simp add: admit_def)
  have "lock_reachable 10 (?s2, [(5, True), (5, True)])"
    using lock_reachable.init lock_step.enter [OF s1(1)] lock_step.enter [OF s2] by (blast intro: lock_reachable.step)
  with guest_lock_exclusive [OF this] show ?thesis by auto
qed

text \<open>A request that runs alone gives back exactly the admission it took, whatever its action did and
  on every way out (no connection, advisory lock refused, action failed or done), and a request that
  ended with an error left the database as it was when its action does so.\<close>

theorem lock_is_released:
  assumes "\<And>sh' c. admittedVms s vmid = Some (sh', c) \<Longrightarrow> 0 < c"
    and "\<And>e. fst (action db) = Inl e \<Longrightarrow> snd (action db) = db"
  shows "fst (snd (withVmMigrationLock pm con gr vmid action shared (s, db))) = s
    \<and> (\<forall>e. fst (withVmMigrationLock pm con gr vmid action shared (s, db)) = Inl e
        \<longrightarrow> snd (snd (withVmMigrationLock pm con gr vmid action shared (s, db))) = db)"
proof (intro conjI allI impI)
  show "fst (snd (withVmMigrationLock pm con gr vmid action shared (s, db))) = s"
    by (rule withVmMigrationLock_state) (rule assms(1))
next
  fix e assume "fst (withVmMigrationLock pm con gr vmid action shared (s, db)) = Inl e"
  then show "snd (snd (withVmMigrationLock pm con gr vmid action shared (s, db))) = db"
    by (rule withVmMigrationLock_Inl) (rule assms(2))
qed


text \<open>C27: A guarded policy write takes effect only when, inside its transaction and lock, no migration
  of the VM is pending, the caller's node reference is still where the VM lives, the caller still has
  access under the current tables, and Proxmox still has the guest; otherwise the database is
  unchanged.\<close>

theorem policy_write_is_guarded:
  fixes db :: "'a policy_db_scheme" and pm :: nat and con gr :: bool and gp :: "string \<Rightarrow> int \<Rightarrow> http_error + bool"
    and node :: string and vmid :: int and a :: policy_actor
    and wr :: "string \<Rightarrow> 'a policy_db_scheme \<Rightarrow> (http_error + 'r) \<times> 'a policy_db_scheme"
  defines "run \<equiv> \<lambda>db s. withVmPolicyWrite pm con gr gp node vmid wr (Some a) (s, db)"
  shows "(\<forall>x. fst (run db s) = Inr x \<longrightarrow>
      (\<exists>n. \<not> vmMigrationPending db vmid \<and> assertVmPolicyLocation db node vmid = Inr n
         \<and> actorAllowed db a n vmid = Inr True \<and> gp n vmid = Inr True
         \<and> snd (snd (run db s)) = snd (wr n db)))
    \<and> (\<forall>e. fst (run db s) = Inl e \<longrightarrow> snd (snd (run db s)) = db)"
proof (intro conjI allI impI)
  fix x assume "fst (run db s) = Inr x"
  then obtain n where n: "policyGuard gp node vmid (Some a) db = Inr n" "snd (snd (run db s)) = snd (wr n db)"
    unfolding run_def by (rule policy_write_Inr)
  note g = policyGuard_Inr [OF n(1)]
  have "\<not> vmMigrationPending db vmid" using g(1) by (auto simp: assertVmPolicyLocation_def split: if_splits)
  with g n show "\<exists>n. \<not> vmMigrationPending db vmid \<and> assertVmPolicyLocation db node vmid = Inr n
         \<and> actorAllowed db a n vmid = Inr True \<and> gp n vmid = Inr True
         \<and> snd (snd (run db s)) = snd (wr n db)" by blast
next
  fix e assume "fst (run db s) = Inl e"
  then show "snd (snd (run db s)) = db"
    unfolding run_def withVmPolicyWrite_def by (rule withVmMigrationLock_Inl) (rule transaction_error)
qed

definition demo_policy_db :: policy_db where
  "demo_policy_db = \<lparr>user_rows = [\<lparr>user_id = 7, role_id = None, columns = (\<lambda>k. FBool False)\<rparr>],
     role_permissions = [], vm_assignments = [\<lparr>a_user = 7, a_node = ''pve'', a_vmid = 100\<rparr>], vm_migrations = []\<rparr>"

theorem policy_write_is_guarded_witness:
  "\<exists>n. actorAllowed demo_policy_db \<lparr>actor_user = 7, actor_op = Some ''vm.schedule.write''\<rparr> n 100 = Inr True"
proof -
  have "fst (withVmPolicyWrite 10 True True (\<lambda>_ _. Inr True) ''pve'' 100 (\<lambda>_ db. (Inr (), db))
      (Some \<lparr>actor_user = 7, actor_op = Some ''vm.schedule.write''\<rparr>)
      (\<lparr>admittedVms = Map.empty, admittedOperations = 0\<rparr>, demo_policy_db)) = Inr ()" by code_simp
  from policy_write_is_guarded [THEN conjunct1, rule_format, OF this] show ?thesis by blast
qed

end
