(* ===== verification/Scheduler.thy ===== *)
theory Scheduler
  imports Schedule Migration_Lock
begin

text \<open>
  The power-schedule loop, \<open>scheduler.ts\<close>, over the rows of \<open>vm_schedules\<close>.
  \<open>evalSchedule\<close> is the body of the loop of \<open>runScheduleTick\<close> up to its write; \<open>runScheduleTick\<close>
  folds it over the enabled rows. An action runs out of band: \<open>claimAndRunAction\<close> only enters it
  in the process state; \<open>startPending\<close> is its later start under the guest lock, up to the request to
  Proxmox (claim the row), and \<open>finishPending\<close> what follows Proxmox's answer (record the outcome, give
  the lock back), so that ticks and other actions run in between. The reply of Proxmox is a parameter,
  and time stamps have millisecond precision.
\<close>

record vm_schedule =
  sc_id :: int
  sc_node :: string
  sc_vmid :: int
  sc_enabled :: bool
  sc_stop_time :: string
  sc_start_time :: string
  sc_days :: int
  sc_timezone :: string
  sc_skip_until :: int
  sc_running_due_to_manual :: bool
  sc_stopped_this_window :: bool
  sc_last_off :: int
  sc_last_action :: string
  sc_last_action_at :: int
  sc_updated_at :: int

record sched_db = policy_db +
  vm_schedules :: "vm_schedule list"

record live_vm =
  lv_vmid :: int
  lv_node :: string
  lv_nodeRef :: string
  lv_status :: string

record sched_flags =
  fl_last_off :: int
  fl_manual :: bool
  fl_stopped :: bool

datatype power_action = StopVm | StartVm

section \<open>What one tick decides for one row\<close>

definition findVmStatus :: "live_vm list \<Rightarrow> string \<Rightarrow> int \<Rightarrow> string option" where
  "findVmStatus vms node vmid =
     (let candidates = nodeLookupCandidates node
      in map_option lv_status (find (\<lambda>v. lv_vmid v = vmid \<and>
           (if hostId (decodeNodeRef node) \<noteq> None then lv_nodeRef v = nodeRef (decodeNodeRef node)
            else lv_nodeRef v \<in> set candidates \<or> lv_node v \<in> set candidates)) vms))"

definition in_off_window :: "intl_fmt \<Rightarrow> int \<Rightarrow> vm_schedule \<Rightarrow> bool" where
  "in_off_window fmt now s =
     offWindowContains (zonedParts fmt now)
       \<lparr>stopM = minutes_or_0 (sc_stop_time s), startM = minutes_or_0 (sc_start_time s),
        ow_days = sc_days s\<rparr>"

definition decideFlags ::
  "bool \<Rightarrow> bool \<Rightarrow> string \<Rightarrow> bool \<Rightarrow> vm_schedule \<Rightarrow> sched_flags \<times> power_action option" where
  "decideFlags off skipping vmstatus inflight s =
     (let isRunning = (vmstatus = ''running'');
          isStopped = (vmstatus = ''stopped'');
          prevOff = sc_last_off s;
          enteringOff = (off \<and> prevOff \<noteq> 1);
          leavingOff = (\<not> off \<and> prevOff = 1);
          edge = (enteringOff \<or> leavingOff);
          manual0 = (if edge then False else sc_running_due_to_manual s);
          stopped0 = (if edge then False else sc_stopped_this_window s);
          (manual, stopped, act) =
            (if skipping then (manual0, stopped0, None)
             else if off then
               (if manual0 then (manual0, stopped0, None)
                else if isRunning then
                  (if stopped0 then (True, stopped0, None)
                   else if \<not> inflight then (manual0, stopped0, Some StopVm)
                   else (manual0, stopped0, None))
                else if isStopped then (manual0, True, None)
                else (manual0, stopped0, None))
             else if leavingOff \<and> isStopped \<and> \<not> inflight then (manual0, stopped0, Some StartVm)
             else (manual0, stopped0, None))
      in (\<lparr>fl_last_off = (if off then 1 else 0), fl_manual = manual, fl_stopped = stopped\<rparr>, act))"

definition evalSchedule ::
  "(string \<Rightarrow> intl_fmt option) \<Rightarrow> int \<Rightarrow> live_vm list \<Rightarrow> bool \<Rightarrow> bool \<Rightarrow> vm_schedule \<Rightarrow>
     (sched_flags \<times> power_action option) option" where
  \<comment> \<open>\<open>None\<close> where the loop body reaches a \<open>continue\<close> before it writes\<close>
  "evalSchedule zones now vms isClaiming inflight s =
     (if isClaiming then None
      else if \<not> isValidTime (sc_stop_time s) \<or> \<not> isValidTime (sc_start_time s) then None
      else case zones (sc_timezone s) of
             None \<Rightarrow> None
           | Some fmt \<Rightarrow>
               (case findVmStatus vms (sc_node s) (sc_vmid s) of
                  None \<Rightarrow> None
                | Some st \<Rightarrow> Some (decideFlags (in_off_window fmt now s) (sc_skip_until s > now) st inflight s)))"

section \<open>Writes that only succeed on the row that was read\<close>

definition scheduleConfigurationMatches :: "vm_schedule \<Rightarrow> vm_schedule \<Rightarrow> bool" where
  "scheduleConfigurationMatches s r =
     (sc_id r = sc_id s \<and> sc_node r = sc_node s \<and> sc_vmid r = sc_vmid s \<and> sc_enabled r
      \<and> sc_stop_time r = sc_stop_time s \<and> sc_start_time r = sc_start_time s
      \<and> sc_days r = sc_days s \<and> sc_timezone r = sc_timezone s
      \<and> sc_skip_until r = sc_skip_until s \<and> sc_updated_at r = sc_updated_at s)"

definition scheduleSnapshotMatches :: "vm_schedule \<Rightarrow> vm_schedule \<Rightarrow> bool" where
  "scheduleSnapshotMatches s r =
     (scheduleConfigurationMatches s r \<and> sc_last_off r = sc_last_off s
      \<and> sc_running_due_to_manual r = sc_running_due_to_manual s
      \<and> sc_stopped_this_window r = sc_stopped_this_window s)"

definition update_where :: "('r \<Rightarrow> bool) \<Rightarrow> ('r \<Rightarrow> 'r) \<Rightarrow> 'r list \<Rightarrow> nat \<times> 'r list" where
  "update_where P f rows = (length (filter P rows), map (\<lambda>r. if P r then f r else r) rows)"

definition set_flags :: "sched_flags \<Rightarrow> vm_schedule \<Rightarrow> vm_schedule" where
  "set_flags fl r = r\<lparr>sc_last_off := fl_last_off fl, sc_running_due_to_manual := fl_manual fl,
     sc_stopped_this_window := fl_stopped fl\<rparr>"

definition writeFlags :: "vm_schedule \<Rightarrow> sched_flags \<Rightarrow> 'a sched_db_scheme \<Rightarrow> nat \<times> 'a sched_db_scheme" where
  "writeFlags s fl db =
     (let (n, rows) = update_where (scheduleSnapshotMatches s) (set_flags fl) (vm_schedules db)
      in (n, db\<lparr>vm_schedules := rows\<rparr>))"

definition markAction :: "int \<Rightarrow> vm_schedule \<Rightarrow> string \<Rightarrow> string \<Rightarrow> 'a sched_db_scheme \<Rightarrow> 'a sched_db_scheme" where
  "markAction now s act detail db =
     db\<lparr>vm_schedules := snd (update_where (scheduleConfigurationMatches s)
         (\<lambda>r. r\<lparr>sc_last_action := act @ (if detail = [] then [] else '':'' @ detail),
                sc_last_action_at := now\<rparr>) (vm_schedules db))\<rparr>"

definition recordStop :: "int \<Rightarrow> vm_schedule \<Rightarrow> string \<Rightarrow> 'a sched_db_scheme \<Rightarrow> 'a sched_db_scheme" where
  "recordStop now s method db =
     db\<lparr>vm_schedules := snd (update_where (scheduleConfigurationMatches s)
         (\<lambda>r. r\<lparr>sc_stopped_this_window := (if sc_last_off r = 1 then True else sc_stopped_this_window r),
                sc_last_action := ''stop:'' @ method,
                sc_last_action_at := now\<rparr>) (vm_schedules db))\<rparr>"

text \<open>
  \<open>withMigrationSafeSchedule\<close> runs its action under the shared guest lock, only if no migration
  is pending, the VM is still where the schedule says and the stored row still equals the
  snapshot; \<open>Inr None\<close> is its early \<open>return\<close>.
\<close>

definition sameSchedule :: "vm_schedule \<Rightarrow> vm_schedule \<Rightarrow> bool" where
  "sameSchedule current s =
     (sc_enabled current \<and> sc_node current = sc_node s \<and> sc_vmid current = sc_vmid s
      \<and> sc_stop_time current = sc_stop_time s \<and> sc_start_time current = sc_start_time s
      \<and> sc_days current = sc_days s \<and> sc_timezone current = sc_timezone s
      \<and> sc_skip_until current = sc_skip_until s
      \<and> sc_last_off current = sc_last_off s
      \<and> sc_running_due_to_manual current = sc_running_due_to_manual s
      \<and> sc_stopped_this_window current = sc_stopped_this_window s
      \<and> sc_updated_at current = sc_updated_at s)"

definition schedule_guard :: "vm_schedule \<Rightarrow> 'a sched_db_scheme \<Rightarrow> http_error + bool" where
  \<comment> \<open>the checks before the action; \<open>Inr False\<close> is an early \<open>return\<close>\<close>
  "schedule_guard s db =
     (if vmMigrationPending db (sc_vmid s) then Inr False
      else case assertVmPolicyLocation db (sc_node s) (sc_vmid s) of
             Inl e \<Rightarrow> if err_status e = 409 then Inr False else Inl e
           | Inr _ \<Rightarrow>
               (case find (\<lambda>r. sc_id r = sc_id s) (vm_schedules db) of
                  None \<Rightarrow> Inr False
                | Some current \<Rightarrow> Inr (sameSchedule current s)))"

definition withMigrationSafeSchedule ::
  "nat \<Rightarrow> bool \<Rightarrow> bool \<Rightarrow> vm_schedule \<Rightarrow>
     ('a sched_db_scheme \<Rightarrow> (http_error + 'r) \<times> 'a sched_db_scheme) \<Rightarrow>
     lock_state \<times> 'a sched_db_scheme \<Rightarrow> (http_error + 'r option) \<times> lock_state \<times> 'a sched_db_scheme" where
  "withMigrationSafeSchedule pool_max connected pg_granted s action st =
     withVmMigrationLock pool_max connected pg_granted (sc_vmid s)
       (\<lambda>db. case schedule_guard s db of
               Inl e \<Rightarrow> (Inl e, db)
             | Inr ok \<Rightarrow>
                 if \<not> ok then (Inr None, db)
                 else (case action db of
                         (Inl e, db') \<Rightarrow> (Inl e, db')
                       | (Inr x, db') \<Rightarrow> (Inr (Some x), db')))
       True st"

section \<open>The process state and the tick\<close>

record sched_proc =
  ticking :: bool
  stopping :: bool
  inFlight :: "string list"
  claiming :: "string list"
  pending :: "(vm_schedule \<times> power_action \<times> sched_flags) list"
  acting :: "(vm_schedule \<times> power_action) list"

record sched_env =
  env_zones :: "string \<Rightarrow> intl_fmt option"
  env_now :: int
  env_pool_max :: nat
  env_connected :: bool
  env_granted :: bool

definition sched_key :: "vm_schedule \<Rightarrow> string" where
  "sched_key s = sc_node s @ ''/'' @ show_int (sc_vmid s)"

definition claimAndRunAction ::
  "nat \<Rightarrow> vm_schedule \<Rightarrow> power_action \<Rightarrow> sched_flags \<Rightarrow> sched_proc \<Rightarrow> sched_proc" where
  "claimAndRunAction pool_max s act fl p =
     (if stopping p then p
      else let key = sched_key s
           in if key \<in> set (inFlight p) \<or> length (inFlight p) \<ge> pool_max - 1 then p
              else p\<lparr>inFlight := key # inFlight p, claiming := key # claiming p,
                     pending := pending p @ [(s, act, fl)]\<rparr>)"

definition tickRow ::
  "sched_env \<Rightarrow> live_vm list \<Rightarrow> vm_schedule \<Rightarrow> sched_proc \<times> lock_state \<times> 'a sched_db_scheme \<Rightarrow>
     sched_proc \<times> lock_state \<times> 'a sched_db_scheme" where
  "tickRow env vms s st =
     (case st of (p, lk, db) \<Rightarrow>
        case evalSchedule (env_zones env) (env_now env) vms (sched_key s \<in> set (claiming p))
               (sched_key s \<in> set (inFlight p)) s of
          None \<Rightarrow> (p, lk, db)
        | Some (fl, act) \<Rightarrow>
            if stopping p then (p, lk, db)
            else case act of
                   Some a \<Rightarrow> (claimAndRunAction (env_pool_max env) s a fl p, lk, db)
                 | None \<Rightarrow>
                     let (_, lk', db') = withMigrationSafeSchedule (env_pool_max env)
                           (env_connected env) (env_granted env) s
                           (\<lambda>d. let (n, d') = writeFlags s fl d in (Inr n, d')) (lk, db)
                     in (p, lk', db'))"

definition runScheduleTick ::
  "sched_env \<Rightarrow> live_vm list option \<Rightarrow> sched_proc \<times> lock_state \<times> 'a sched_db_scheme \<Rightarrow>
     sched_proc \<times> lock_state \<times> 'a sched_db_scheme" where
  \<comment> \<open>\<open>None\<close> is a failed listing of the VMs: the tick returns without acting\<close>
  "runScheduleTick env listing st =
     (case st of (p, lk, db) \<Rightarrow>
        if ticking p \<or> stopping p then st
        else let schedules = filter sc_enabled (vm_schedules db)
             in if schedules = [] then st
                else case listing of
                       None \<Rightarrow> st
                     | Some vms \<Rightarrow> foldl (\<lambda>acc s. tickRow env vms s acc) st schedules)"

definition release_key :: "string \<Rightarrow> sched_proc \<Rightarrow> sched_proc" where
  "release_key key p = p\<lparr>claiming := removeAll key (claiming p), inFlight := removeAll key (inFlight p)\<rparr>"

text \<open>
  The callback of \<open>claimAndRunAction\<close> in its two halves. \<open>startPending\<close> takes the lock and, when the
  row was claimed, keeps it with the job among \<open>acting\<close>; on every other path the \<open>finally\<close> blocks run.
\<close>

definition startPending ::
  "sched_env \<Rightarrow> vm_schedule \<times> power_action \<times> sched_flags \<Rightarrow>
     sched_proc \<times> lock_state \<times> 'a sched_db_scheme \<Rightarrow> bool \<times> sched_proc \<times> lock_state \<times> 'a sched_db_scheme" where
  \<comment> \<open>the first component tells whether a request leaves for Proxmox\<close>
  "startPending env job st =
     (case job of (s, act, fl) \<Rightarrow> case st of (p, lk, db) \<Rightarrow>
        let p1 = p\<lparr>pending := removeAll job (pending p)\<rparr>;
            gone = release_key (sched_key s) p1
        in case admit (env_pool_max env) (sc_vmid s) True lk of
             Inl _ \<Rightarrow> (False, gone, lk, db)
           | Inr lk1 \<Rightarrow>
               if \<not> env_connected env \<or> \<not> env_granted env \<or> schedule_guard s db \<noteq> Inr True \<or> stopping p
               then (False, gone, leave (sc_vmid s) lk1, db)
               else let (n, db1) = writeFlags s fl db
                    in if n \<noteq> 1 then (False, gone, leave (sc_vmid s) lk1, db1)
                       else (True, p1\<lparr>claiming := removeAll (sched_key s) (claiming p1),
                                      acting := acting p1 @ [(s, act)]\<rparr>, lk1, db1))"

definition recordOutcome ::
  "int \<Rightarrow> (string + string) \<Rightarrow> vm_schedule \<Rightarrow> power_action \<Rightarrow> 'a sched_db_scheme \<Rightarrow> 'a sched_db_scheme" where
  "recordOutcome now reply s act db =
     (case reply of
        Inr method \<Rightarrow> (case act of StopVm \<Rightarrow> recordStop now s method db
                                 | StartVm \<Rightarrow> markAction now s ''start'' method db)
      | Inl _ \<Rightarrow> markAction now s (case act of StopVm \<Rightarrow> ''stop_failed'' | StartVm \<Rightarrow> ''start_failed'') [] db)"

definition finishPending ::
  "sched_env \<Rightarrow> (string + string) \<Rightarrow> vm_schedule \<times> power_action \<Rightarrow>
     sched_proc \<times> lock_state \<times> 'a sched_db_scheme \<Rightarrow> sched_proc \<times> lock_state \<times> 'a sched_db_scheme" where
  "finishPending env reply job st =
     (case job of (s, act) \<Rightarrow> case st of (p, lk, db) \<Rightarrow>
        (release_key (sched_key s) (p\<lparr>acting := removeAll job (acting p)\<rparr>), leave (sc_vmid s) lk,
         recordOutcome (env_now env) reply s act db))"

section \<open>What a tick may do\<close>

lemma decideFlags_StopVm:
  "snd (decideFlags off skipping st inflight s) = Some StopVm \<longleftrightarrow>
     off \<and> \<not> skipping \<and> st = ''running'' \<and> \<not> inflight
     \<and> (sc_last_off s \<noteq> 1 \<or> \<not> sc_running_due_to_manual s \<and> \<not> sc_stopped_this_window s)"
  by (auto simp: decideFlags_def Let_def)

lemma decideFlags_StartVm:
  "snd (decideFlags off skipping st inflight s) = Some StartVm \<longleftrightarrow>
     \<not> off \<and> sc_last_off s = 1 \<and> \<not> skipping \<and> st = ''stopped'' \<and> \<not> inflight"
  by (auto simp: decideFlags_def Let_def)

lemma decideFlags_last_off:
  "fl_last_off (fst (decideFlags off skipping st inflight s)) = (if off then 1 else 0)"
  by (simp add: decideFlags_def Let_def split: prod.split)

lemma decideFlags_keeps:
  assumes "off" "sc_last_off s = 1" "sc_running_due_to_manual s \<or> sc_stopped_this_window s"
  shows "fl_manual (fst (decideFlags off skipping st inflight s))
         \<or> fl_stopped (fst (decideFlags off skipping st inflight s))"
  using assms by (auto simp: decideFlags_def Let_def)


section \<open>Runs\<close>

text \<open>
  A run interleaves, in any order, iterations of the loop of \<open>runScheduleTick\<close> (each on a row as its
  tick read it, possibly long before), starts and ends of queued actions, and changes of every other
  table by the rest of the portal. The outcome of a run lists the actions Proxmox was asked for, each
  with the schedule row and whether it succeeded.
\<close>

datatype 'a sched_event =
    Row sched_env "live_vm list" vm_schedule
  | Start sched_env "vm_schedule \<times> power_action \<times> sched_flags"
  | Finish sched_env "string + string" "vm_schedule \<times> power_action"
  | Elsewhere "'a sched_db_scheme \<Rightarrow> 'a sched_db_scheme"

definition sched_step ::
  "'a sched_event \<Rightarrow> sched_proc \<times> lock_state \<times> 'a sched_db_scheme
    \<Rightarrow> (int \<times> power_action \<times> bool) list \<times> sched_proc \<times> lock_state \<times> 'a sched_db_scheme" where
  "sched_step ev st =
     (case st of (p, lk, db) \<Rightarrow>
        case ev of
          Row env vms s \<Rightarrow> ([], tickRow env vms s st)
        | Start env job \<Rightarrow> ([], if job \<in> set (pending p) then snd (startPending env job st) else st)
        | Finish env reply (s, act) \<Rightarrow>
            if (s, act) \<in> set (acting p)
            then ([(sc_id s, act, \<not> isl reply)], finishPending env reply (s, act) st) else ([], st)
        | Elsewhere f \<Rightarrow> ([], p, lk, (f db)\<lparr>vm_schedules := vm_schedules db\<rparr>))"

fun sched_run ::
  "'a sched_event list \<Rightarrow> sched_proc \<times> lock_state \<times> 'a sched_db_scheme
    \<Rightarrow> (int \<times> power_action \<times> bool) list" where
  "sched_run [] st = []"
| "sched_run (ev # evs) st = (let (out, st') = sched_step ev st in out @ sched_run evs st')"

definition in_window :: "int \<Rightarrow> 'a sched_event \<Rightarrow> bool" where
  \<comment> \<open>an evaluation of row \<open>i\<close> falls into its off window\<close>
  "in_window i ev =
     (case ev of
        Row env vms s \<Rightarrow> sc_id s \<noteq> i \<or>
          (case env_zones env (sc_timezone s) of None \<Rightarrow> True | Some fmt \<Rightarrow> in_off_window fmt (env_now env) s)
      | _ \<Rightarrow> True)"

text \<open>A tick is a sequence of such iterations.\<close>

lemma runScheduleTick_rows:
  "\<exists>rows. runScheduleTick env listing st = foldl (\<lambda>st s. snd (sched_step (Row env (the listing) s) st)) st rows"
proof -
  have row: "snd (sched_step (Row env vms s) st) = tickRow env vms s st" for vms s st
    by (simp add: sched_step_def split_beta)
  show ?thesis
    unfolding runScheduleTick_def row
    by (auto simp: split_beta Let_def split: option.splits intro: exI [of _ "[]"])
qed

subsection \<open>What a run keeps\<close>

definition job_keys :: "sched_proc \<Rightarrow> string list" where
  "job_keys p = map (\<lambda>j. sched_key (fst j)) (pending p) @ map (\<lambda>j. sched_key (fst j)) (acting p)"

definition jobs_ok :: "sched_proc \<Rightarrow> bool" where
  \<comment> \<open>every outstanding action has its own key, and the key is in flight\<close>
  "jobs_ok p = (distinct (job_keys p) \<and> set (job_keys p) \<subseteq> set (inFlight p))"

text \<open>The row \<open>i\<close> and its outstanding actions while the window lasts.\<close>

definition window_settled :: "vm_schedule \<Rightarrow> bool" where
  "window_settled s = (sc_last_off s = 1 \<and> (sc_running_due_to_manual s \<or> sc_stopped_this_window s))"

definition queued_ok :: "vm_schedule \<times> power_action \<times> sched_flags \<Rightarrow> bool" where
  "queued_ok job = (case job of (s, act, fl) \<Rightarrow>
     \<exists>skipping st. decideFlags True skipping st False s = (fl, Some act))"

definition keeps :: "int \<Rightarrow> (vm_schedule \<Rightarrow> vm_schedule) \<Rightarrow> bool" where
  \<comment> \<open>an update of the rows that leaves ids and configurations alone, and row \<open>i\<close> in its window\<close>
  "keeps i g \<longleftrightarrow> (\<forall>r. sc_id (g r) = sc_id r
     \<and> (\<forall>s. scheduleConfigurationMatches s (g r) = scheduleConfigurationMatches s r)
     \<and> (sc_id r = i \<longrightarrow> sc_last_off r = 1 \<longrightarrow> sc_last_off (g r) = 1))"

lemma writeFlags_rows:
  "vm_schedules (snd (writeFlags s fl db))
     = map (\<lambda>r. if scheduleSnapshotMatches s r then set_flags fl r else r) (vm_schedules db)"
  and writeFlags_count: "fst (writeFlags s fl db) = length (filter (scheduleSnapshotMatches s) (vm_schedules db))"
  by (simp_all add: writeFlags_def update_where_def)

lemma writeFlags_keeps:
  "(sc_id s = i \<Longrightarrow> fl_last_off fl = 1) \<Longrightarrow> keeps i (\<lambda>r. if scheduleSnapshotMatches s r then set_flags fl r else r)"
  by (auto simp: keeps_def set_flags_def scheduleConfigurationMatches_def scheduleSnapshotMatches_def)

text \<open>An update of the rows with a snapshot's configuration that leaves the configuration alone.\<close>

definition marks :: "(vm_schedule \<Rightarrow> vm_schedule) \<Rightarrow> bool" where
  "marks h \<longleftrightarrow> (\<forall>r. (\<forall>s. scheduleConfigurationMatches s (h r) = scheduleConfigurationMatches s r) \<and> sc_id (h r) = sc_id r
     \<and> sc_last_off (h r) = sc_last_off r \<and> sc_running_due_to_manual (h r) = sc_running_due_to_manual r
     \<and> (sc_stopped_this_window r \<longrightarrow> sc_stopped_this_window (h r)))"

lemma marks_keeps: "marks h \<Longrightarrow> keeps i (\<lambda>r. if c r then h r else r)"
  by (simp add: marks_def keeps_def)

lemma recordOutcome_marks:
  "\<exists>h. marks h \<and> vm_schedules (recordOutcome now reply s act db)
      = map (\<lambda>r. if scheduleConfigurationMatches s r then h r else r) (vm_schedules db)
    \<and> (\<not> isl reply \<longrightarrow> act = StopVm \<longrightarrow> (\<forall>r. sc_last_off r = 1 \<longrightarrow> sc_stopped_this_window (h r)))"
proof -
  have mark: "\<exists>h. marks h \<and> vm_schedules (markAction now s a d db)
      = map (\<lambda>r. if scheduleConfigurationMatches s r then h r else r) (vm_schedules db)" for a d
    by (intro exI [of _ "\<lambda>r. r\<lparr>sc_last_action := a @ (if d = [] then [] else '':'' @ d), sc_last_action_at := now\<rparr>"])
      (simp add: markAction_def update_where_def marks_def scheduleConfigurationMatches_def)
  have stop: "\<exists>h. marks h \<and> vm_schedules (recordStop now s m db)
      = map (\<lambda>r. if scheduleConfigurationMatches s r then h r else r) (vm_schedules db)
      \<and> (\<forall>r. sc_last_off r = 1 \<longrightarrow> sc_stopped_this_window (h r))" for m
    by (intro exI [of _ "\<lambda>r. r\<lparr>sc_stopped_this_window := (if sc_last_off r = 1 then True else sc_stopped_this_window r),
          sc_last_action := ''stop:'' @ m, sc_last_action_at := now\<rparr>"])
      (simp add: recordStop_def update_where_def marks_def scheduleConfigurationMatches_def)
  show ?thesis
  proof (cases "\<not> isl reply \<and> act = StopVm")
    case True
    then obtain m where "reply = Inr m" by (cases reply) auto
    with True stop [of m] show ?thesis by (auto simp: recordOutcome_def)
  next
    case False
    then have "\<exists>a d. recordOutcome now reply s act db = markAction now s a d db"
      by (cases reply; cases act) (auto simp: recordOutcome_def)
    with mark False show ?thesis by metis
  qed
qed

definition claimed_ok :: "int \<Rightarrow> vm_schedule list \<Rightarrow> vm_schedule \<Rightarrow> bool" where
  "claimed_ok i rows s \<longleftrightarrow>
     (sc_id s = i \<longrightarrow> (\<exists>r \<in> set rows. scheduleConfigurationMatches s r \<and> sc_last_off r = 1))"

definition run_inv :: "int \<Rightarrow> sched_proc \<Rightarrow> vm_schedule list \<Rightarrow> bool" where
  "run_inv i p rows \<longleftrightarrow> jobs_ok p \<and> distinct (map sc_id rows)
     \<and> list_all (\<lambda>job. sc_id (fst job) = i \<longrightarrow> queued_ok job) (pending p)
     \<and> list_all (\<lambda>job. claimed_ok i rows (fst job)) (acting p)"

definition row_settled :: "int \<Rightarrow> sched_proc \<Rightarrow> vm_schedule list \<Rightarrow> bool" where
  "row_settled i p rows \<longleftrightarrow> list_ex (\<lambda>r. sc_id r = i \<and> window_settled r) rows
     \<and> list_all (\<lambda>job. sc_id (fst job) \<noteq> i) (acting p)"

lemma claimed_ok_rows: "claimed_ok i rows s \<Longrightarrow> keeps i g \<Longrightarrow> claimed_ok i (map g rows) s"
  unfolding claimed_ok_def keeps_def by (auto simp: scheduleConfigurationMatches_def)

lemma run_inv_rows:
  assumes "run_inv i p rows" "keeps i g"
  shows "run_inv i p (map g rows)"
proof -
  have "map sc_id (map g rows) = map sc_id rows" using assms(2) by (simp add: keeps_def)
  then show ?thesis using assms claimed_ok_rows [OF _ assms(2)]
    unfolding run_inv_def list_all_iff by metis
qed


lemma map_removeAll_distinct:
  assumes "distinct (map f xs)" "x \<in> set xs"
  shows "map f (removeAll x xs) = removeAll (f x) (map f xs)"
proof -
  have "inj_on f (insert x (set xs))" using assms by (simp add: distinct_map insert_absorb)
  then show ?thesis by (rule map_removeAll_inj_on)
qed

lemma jobs_ok_release_pending:
  assumes "jobs_ok p" "job \<in> set (pending p)"
  shows "jobs_ok (release_key (sched_key (fst job)) (p\<lparr>pending := removeAll job (pending p)\<rparr>))"
proof -
  let ?k = "\<lambda>j. sched_key (fst j)" and ?k' = "\<lambda>j. sched_key (fst j)"
  have d: "distinct (map ?k (pending p) @ map ?k' (acting p))" using assms(1) by (simp add: jobs_ok_def job_keys_def)
  have "map ?k (removeAll job (pending p)) @ map ?k' (acting p) = removeAll (?k job) (job_keys p)"
    using d assms(2) by (auto simp: job_keys_def map_removeAll_distinct intro!: removeAll_id [symmetric])
  then show ?thesis
    using assms(1) by (auto simp: jobs_ok_def job_keys_def release_key_def distinct_removeAll)
qed

lemma jobs_ok_release_acting:
  assumes "jobs_ok p" "job \<in> set (acting p)"
  shows "jobs_ok (release_key (sched_key (fst job)) (p\<lparr>acting := removeAll job (acting p)\<rparr>))"
proof -
  let ?k = "\<lambda>j. sched_key (fst j)" and ?k' = "\<lambda>j. sched_key (fst j)"
  have d: "distinct (map ?k (pending p) @ map ?k' (acting p))" using assms(1) by (simp add: jobs_ok_def job_keys_def)
  have "map ?k (pending p) @ map ?k' (removeAll job (acting p)) = removeAll (?k' job) (job_keys p)"
    using d assms(2) by (auto simp: job_keys_def map_removeAll_distinct intro!: removeAll_id [symmetric])
  then show ?thesis
    using assms(1) by (auto simp: jobs_ok_def job_keys_def release_key_def distinct_removeAll)
qed

lemma jobs_ok_start:
  assumes "jobs_ok p" "(s, act, fl) \<in> set (pending p)"
  shows "jobs_ok (p\<lparr>pending := removeAll (s, act, fl) (pending p), claiming := c, acting := acting p @ [(s, act)]\<rparr>)"
proof -
  let ?k = "\<lambda>j. sched_key (fst j)" and ?k' = "\<lambda>j. sched_key (fst j)"
  have d: "distinct (map ?k (pending p) @ map ?k' (acting p))" using assms(1) by (simp add: jobs_ok_def job_keys_def)
  have m: "map ?k (removeAll (s, act, fl) (pending p)) = removeAll (sched_key s) (map ?k (pending p))"
    using d assms(2) map_removeAll_distinct [of ?k "pending p" "(s, act, fl)"] by simp
  have k: "sched_key s \<in> set (map ?k (pending p))" using assms(2) by force
  have keys: "job_keys (p\<lparr>pending := removeAll (s, act, fl) (pending p), claiming := c, acting := acting p @ [(s, act)]\<rparr>)
      = removeAll (sched_key s) (map ?k (pending p)) @ map ?k' (acting p) @ [sched_key s]"
    by (simp add: job_keys_def m)
  have "distinct (removeAll a xs @ ys @ [a])" if "distinct (xs @ ys)" "a \<in> set xs" for a :: string and xs ys
    using that by (auto simp: distinct_removeAll)
  from this [OF d k] show ?thesis
    using assms(1) k unfolding jobs_ok_def keys by (auto simp: job_keys_def)
qed

lemma jobs_ok_claim: "jobs_ok p \<Longrightarrow> jobs_ok (claimAndRunAction pm s act fl p)"
  unfolding claimAndRunAction_def Let_def by (auto simp: jobs_ok_def job_keys_def)

lemma evalSchedule_action:
  assumes "evalSchedule zones now vms c inflight s = Some (fl, act)"
    and "case zones (sc_timezone s) of None \<Rightarrow> True | Some fmt \<Rightarrow> in_off_window fmt now s"
  shows "fl_last_off fl = 1"
    and "act = Some a \<Longrightarrow> \<exists>skipping st. decideFlags True skipping st False s = (fl, Some a)"
    and "window_settled s \<Longrightarrow> window_settled (set_flags fl r)"
    and "window_settled s \<Longrightarrow> act \<noteq> Some StopVm" and "act \<noteq> Some StartVm"
proof -
  obtain st where st: "decideFlags True (sc_skip_until s > now) st inflight s = (fl, act)"
    using assms by (auto simp: evalSchedule_def split: if_splits option.splits)
  note fst_st = arg_cong [OF st, of fst, simplified] and snd_st = arg_cong [OF st, of snd, simplified]
  show "fl_last_off fl = 1" using decideFlags_last_off [of True "sc_skip_until s > now" st inflight s] st by simp
  show "window_settled s \<Longrightarrow> window_settled (set_flags fl r)"
    using decideFlags_keeps [of True s "sc_skip_until s > now" st inflight] st \<open>fl_last_off fl = 1\<close>
    by (auto simp: window_settled_def set_flags_def)
  show "window_settled s \<Longrightarrow> act \<noteq> Some StopVm" "act \<noteq> Some StartVm"
    using decideFlags_StopVm [of True "sc_skip_until s > now" st inflight s]
      decideFlags_StartVm [of True "sc_skip_until s > now" st inflight s] st by (auto simp: window_settled_def)
  show "\<exists>skipping st. decideFlags True skipping st False s = (fl, Some a)" if "act = Some a"
  proof (cases inflight)
    case True
    then show ?thesis
      using that st decideFlags_StopVm [of True "sc_skip_until s > now" st inflight s]
        decideFlags_StartVm [of True "sc_skip_until s > now" st inflight s] by (cases a) auto
  next
    case False
    with st that have "decideFlags True (sc_skip_until s > now) st False s = (fl, Some a)" by simp
    then show ?thesis by blast
  qed
qed

lemma migrationSafe_db:
  "snd (snd (withMigrationSafeSchedule pm con gr s action (lk, db))) \<in> {db, snd (action db)}"
  by (auto simp: withMigrationSafeSchedule_def withVmMigrationLock_def Let_def split: sum.splits prod.splits)

text \<open>What an iteration of the loop does: nothing, a guarded write of the flags, or a queued action.\<close>

lemma tickRow_cases:
  obtains (idle) "tickRow env vms s (p, lk, db) = (p, lk, db)"
  | (flags) fl lk' db' where "tickRow env vms s (p, lk, db) = (p, lk', db')"
      "evalSchedule (env_zones env) (env_now env) vms (sched_key s \<in> set (claiming p)) (sched_key s \<in> set (inFlight p)) s = Some (fl, None)"
      "db' \<in> {db, snd (writeFlags s fl db)}"
  | (queue) fl a where "tickRow env vms s (p, lk, db) = (claimAndRunAction (env_pool_max env) s a fl p, lk, db)"
      "evalSchedule (env_zones env) (env_now env) vms (sched_key s \<in> set (claiming p)) (sched_key s \<in> set (inFlight p)) s = Some (fl, Some a)"
proof (cases "evalSchedule (env_zones env) (env_now env) vms (sched_key s \<in> set (claiming p)) (sched_key s \<in> set (inFlight p)) s")
  case None
  then show ?thesis using idle by (simp add: tickRow_def)
next
  case (Some v)
  obtain fl act where v: "v = (fl, act)" by (cases v)
  show ?thesis
  proof (cases "stopping p")
    case True
    then show ?thesis using idle Some v by (simp add: tickRow_def)
  next
    case go: False
    show ?thesis
    proof (cases act)
      case (Some a)
      then show ?thesis using queue \<open>_ = Some v\<close> v go by (simp add: tickRow_def)
    next
      case None
      have "tickRow env vms s (p, lk, db) = (p, snd (withMigrationSafeSchedule (env_pool_max env)
            (env_connected env) (env_granted env) s (\<lambda>d. let (n, d') = writeFlags s fl d in (Inr n, d')) (lk, db)))"
        using \<open>_ = Some v\<close> v go None by (simp add: tickRow_def split_beta)
      moreover have "snd (snd (withMigrationSafeSchedule (env_pool_max env)
            (env_connected env) (env_granted env) s (\<lambda>d. let (n, d') = writeFlags s fl d in (Inr n, d')) (lk, db)))
          \<in> {db, snd (writeFlags s fl db)}"
        using migrationSafe_db [of "env_pool_max env" "env_connected env" "env_granted env" s
            "\<lambda>d. let (n, d') = writeFlags s fl d in (Inr n, d')" lk db] by (simp add: split_beta)
      ultimately show ?thesis using flags \<open>_ = Some v\<close> v None by (metis prod.collapse)
    qed
  qed
qed


subsection \<open>One event\<close>

lemma settled_rows:
  assumes "row_settled i p rows" "\<And>r. r \<in> set rows \<Longrightarrow> sc_id r = i \<Longrightarrow> window_settled r \<Longrightarrow> sc_id (g r) = i \<and> window_settled (g r)"
  shows "row_settled i p (map g rows)"
  using assms by (fastforce simp: row_settled_def list_ex_iff)

lemma row_unique:
  "distinct (map sc_id rows) \<Longrightarrow> r \<in> set rows \<Longrightarrow> r' \<in> set rows \<Longrightarrow> sc_id r = sc_id r' \<Longrightarrow> r = r'"
  by (simp add: distinct_map inj_on_def)

text \<open>An iteration of the loop.\<close>

lemma row_event:
  fixes db :: "'a sched_db_scheme"
  assumes inv: "run_inv i p (vm_schedules db)"
    and win: "in_window i (Row env vms s :: 'a sched_event)"
    and st: "tickRow env vms s (p, lk, db) = (p', lk', db')"
  shows "run_inv i p' (vm_schedules db') \<and> (row_settled i p (vm_schedules db) \<longrightarrow> row_settled i p' (vm_schedules db'))"
proof (cases rule: tickRow_cases [of env vms s p lk db])
  case idle
  then show ?thesis using inv st by simp
next
  case (flags fl lk1 db1)
  let ?g = "\<lambda>r. if scheduleSnapshotMatches s r then set_flags fl r else r"
  have p: "p' = p" "db' = db1" using flags(1) st by simp_all
  have k: "keeps i ?g"
    using evalSchedule_action(1) [OF flags(2)] win by (intro writeFlags_keeps) (auto simp: in_window_def)
  have "window_settled (?g r)" if "sc_id r = i" "window_settled r" for r
  proof (cases "scheduleSnapshotMatches s r")
    case True
    then have "sc_id s = i" "window_settled s"
      using that by (auto simp: scheduleSnapshotMatches_def scheduleConfigurationMatches_def window_settled_def)
    then show ?thesis
      using evalSchedule_action(3) [OF flags(2)] win True by (auto simp: in_window_def)
  qed (use that in simp)
  then have "run_inv i p (map ?g (vm_schedules db))"
    and "row_settled i p (vm_schedules db) \<Longrightarrow> row_settled i p (map ?g (vm_schedules db))"
    using run_inv_rows [OF inv k] settled_rows [of i p "vm_schedules db" ?g] k by (auto simp: keeps_def)
  then show ?thesis using flags(3) inv unfolding p by (auto simp: writeFlags_rows)
next
  case (queue fl a)
  have p: "p' = claimAndRunAction (env_pool_max env) s a fl p" "db' = db" using queue(1) st by simp_all
  have "queued_ok (s, a, fl)" if "sc_id s = i"
    using evalSchedule_action(2) [OF queue(2) _ refl] win that by (auto simp: in_window_def queued_ok_def)
  then have "run_inv i p' (vm_schedules db)"
    using inv jobs_ok_claim [of p "env_pool_max env" s a fl] unfolding run_inv_def p
    by (auto simp: claimAndRunAction_def Let_def)
  moreover have "acting p' = acting p" by (simp add: p claimAndRunAction_def Let_def)
  ultimately show ?thesis by (simp add: p(2) row_settled_def)
qed

text \<open>The start of a queued action.\<close>

lemma startPending_cases:
  obtains (refused) lk' db' where
      "startPending env (s, act, fl) (p, lk, db)
         = (False, release_key (sched_key s) (p\<lparr>pending := removeAll (s, act, fl) (pending p)\<rparr>), lk', db')"
      "db' = db \<or> db' = snd (writeFlags s fl db) \<and> fst (writeFlags s fl db) \<noteq> 1"
  | (sent) lk' where
      "startPending env (s, act, fl) (p, lk, db)
         = (True, p\<lparr>pending := removeAll (s, act, fl) (pending p), claiming := removeAll (sched_key s) (claiming p),
                    acting := acting p @ [(s, act)]\<rparr>, lk', snd (writeFlags s fl db))"
      "fst (writeFlags s fl db) = 1"
proof (cases "admit (env_pool_max env) (sc_vmid s) True lk")
  case (Inl e)
  then show ?thesis using refused by (simp add: startPending_def Let_def)
next
  case (Inr lk1)
  show ?thesis
  proof (cases "\<not> env_connected env \<or> \<not> env_granted env \<or> schedule_guard s db \<noteq> Inr True \<or> stopping p")
    case True
    then show ?thesis using refused Inr by (simp add: startPending_def Let_def)
  next
    case False
    then show ?thesis using refused sent Inr
      by (cases "fst (writeFlags s fl db) = 1") (simp_all add: startPending_def Let_def split_beta)
  qed
qed

lemma start_event:
  assumes inv: "run_inv i p (vm_schedules db)" and job: "(s, act, fl) \<in> set (pending p)"
    and st: "snd (startPending env (s, act, fl) (p, lk, db)) = (p', lk', db')"
  shows "run_inv i p' (vm_schedules db') \<and> (row_settled i p (vm_schedules db) \<longrightarrow> row_settled i p' (vm_schedules db'))"
proof -
  let ?g = "\<lambda>r. if scheduleSnapshotMatches s r then set_flags fl r else r"
  have q: "queued_ok (s, act, fl)" if "sc_id s = i"
    using inv job that by (force simp: run_inv_def list_all_iff)
  have off: "fl_last_off fl = 1" if i: "sc_id s = i"
  proof -
    obtain skipping st where "decideFlags True skipping st False s = (fl, Some act)" using q [OF i] by (auto simp: queued_ok_def)
    then show ?thesis using decideFlags_last_off [of True skipping st False s] by simp
  qed
  have k: "keeps i ?g" by (rule writeFlags_keeps) (rule off)
  have still: "\<not> scheduleSnapshotMatches s r" if "window_settled r" "sc_id r = i" for r
  proof
    assume m: "scheduleSnapshotMatches s r"
    then have s: "sc_id s = i" "window_settled s"
      using that by (auto simp: scheduleSnapshotMatches_def scheduleConfigurationMatches_def window_settled_def)
    obtain skipping st where "decideFlags True skipping st False s = (fl, Some act)" using q [OF s(1)] by (auto simp: queued_ok_def)
    then show False using s(2) decideFlags_StopVm [of True skipping st False s] decideFlags_StartVm [of True skipping st False s]
      by (cases act) (auto simp: window_settled_def)
  qed
  have settled: "row_settled i p (map ?g (vm_schedules db))" if "row_settled i p (vm_schedules db)"
    using that still by (intro settled_rows) auto
  show ?thesis
  proof (cases rule: startPending_cases [of env s act fl p lk db])
    case (refused lk1 db1)
    let ?p = "release_key (sched_key s) (p\<lparr>pending := removeAll (s, act, fl) (pending p)\<rparr>)"
    have p: "p' = ?p" "db' = db1" using refused(1) st by simp_all
    have rows: "vm_schedules db' = vm_schedules db \<or> vm_schedules db' = map ?g (vm_schedules db)"
      using refused(2) p(2) by (auto simp: writeFlags_rows)
    have acting: "acting ?p = acting p" by (simp add: release_key_def)
    have "run_inv i ?p rows" if "run_inv i p rows" for rows
      using that jobs_ok_release_pending [OF _ job] acting by (auto simp: run_inv_def list_all_iff release_key_def)
    then show ?thesis
      using rows inv run_inv_rows [OF inv k] settled unfolding p(1) by (auto simp: row_settled_def acting)
  next
    case (sent lk1)
    let ?p = "p\<lparr>pending := removeAll (s, act, fl) (pending p), claiming := removeAll (sched_key s) (claiming p),
                acting := acting p @ [(s, act)]\<rparr>"
    have p: "p' = ?p" "vm_schedules db' = map ?g (vm_schedules db)" using sent(1) st by (auto simp: writeFlags_rows)
    obtain r where r: "r \<in> set (vm_schedules db)" "scheduleSnapshotMatches s r"
      using sent(2) unfolding writeFlags_count by (metis filter_False list.size(3) zero_neq_one)
    have "set_flags fl r \<in> set (map ?g (vm_schedules db))" using r by force
    moreover have "scheduleConfigurationMatches s (set_flags fl r)"
      using r(2) by (simp add: set_flags_def scheduleSnapshotMatches_def scheduleConfigurationMatches_def)
    moreover have "sc_last_off (set_flags fl r) = 1" if "sc_id s = i" using off [OF that] by (simp add: set_flags_def)
    ultimately have "claimed_ok i (map ?g (vm_schedules db)) s" unfolding claimed_ok_def by blast
    then have "run_inv i ?p (map ?g (vm_schedules db))"
      using run_inv_rows [OF inv k] jobs_ok_start [OF _ job] by (auto simp: run_inv_def list_all_iff)
    moreover have "\<not> row_settled i p (vm_schedules db)" if "sc_id s = i"
    proof
      assume "row_settled i p (vm_schedules db)"
      then obtain r' where r': "r' \<in> set (vm_schedules db)" "sc_id r' = i" "window_settled r'"
        by (auto simp: row_settled_def list_ex_iff)
      have "sc_id r = i" using r(2) that by (simp add: scheduleSnapshotMatches_def scheduleConfigurationMatches_def)
      then have "r' = r" using row_unique [OF _ r'(1) r(1)] inv r'(2) by (simp add: run_inv_def)
      then show False using still r' r(2) by blast
    qed
    ultimately show ?thesis using settled unfolding p by (auto simp: row_settled_def)
  qed
qed

text \<open>The end of an action: a successful stop settles the window.\<close>

lemma finish_event:
  assumes inv: "run_inv i p (vm_schedules db)" and job: "(s, act) \<in> set (acting p)"
    and st: "finishPending env reply (s, act) (p, lk, db) = (p', lk', db')"
  shows "run_inv i p' (vm_schedules db') \<and> (row_settled i p (vm_schedules db) \<longrightarrow> row_settled i p' (vm_schedules db'))"
    and "sc_id s = i \<Longrightarrow> act = StopVm \<Longrightarrow> \<not> isl reply \<Longrightarrow> row_settled i p' (vm_schedules db')"
proof -
  let ?p = "release_key (sched_key s) (p\<lparr>acting := removeAll (s, act) (acting p)\<rparr>)"
  obtain h where h: "marks h" "vm_schedules (recordOutcome (env_now env) reply s act db)
      = map (\<lambda>r. if scheduleConfigurationMatches s r then h r else r) (vm_schedules db)"
    and h3: "\<not> isl reply \<longrightarrow> act = StopVm \<longrightarrow> (\<forall>r. sc_last_off r = 1 \<longrightarrow> sc_stopped_this_window (h r))"
    using recordOutcome_marks by metis
  let ?g = "\<lambda>r. if scheduleConfigurationMatches s r then h r else r"
  have p: "p' = ?p" "vm_schedules db' = map ?g (vm_schedules db)" using st h(2) by (auto simp: finishPending_def)
  have inv': "run_inv i ?p (map ?g (vm_schedules db))"
    using run_inv_rows [OF inv marks_keeps [OF h(1)]] jobs_ok_release_acting [OF _ job]
    by (auto simp: run_inv_def list_all_iff release_key_def)
  have acting: "set (acting ?p) \<subseteq> set (acting p)" by (auto simp: release_key_def)
  have "row_settled i p (map ?g (vm_schedules db))" if "row_settled i p (vm_schedules db)"
    using that h(1) by (intro settled_rows) (auto simp: marks_def window_settled_def)
  then have "row_settled i ?p (map ?g (vm_schedules db))" if "row_settled i p (vm_schedules db)"
    using that acting unfolding row_settled_def list_all_iff by blast
  with inv' show "run_inv i p' (vm_schedules db') \<and> (row_settled i p (vm_schedules db) \<longrightarrow> row_settled i p' (vm_schedules db'))"
    unfolding p by blast
  show "row_settled i p' (vm_schedules db')" if stop: "sc_id s = i" "act = StopVm" "\<not> isl reply"
  proof -
    have ok: "claimed_ok i (vm_schedules db) s'" if "(s', a) \<in> set (acting p)" for s' a
      using inv that by (force simp: run_inv_def list_all_iff)
    obtain r where r: "r \<in> set (vm_schedules db)" "scheduleConfigurationMatches s r" "sc_last_off r = 1"
      using ok [OF job] stop(1) by (auto simp: claimed_ok_def)
    have "sc_id (h r) = i" "window_settled (h r)"
      using h(1) h3 stop r
      by (auto simp: marks_def window_settled_def scheduleConfigurationMatches_def)
    moreover have "h r \<in> set (map ?g (vm_schedules db))" using r(1,2) by force
    ultimately have "list_ex (\<lambda>r. sc_id r = i \<and> window_settled r) (map ?g (vm_schedules db))"
      unfolding list_ex_iff by blast
    moreover have "sc_id s' \<noteq> i" if j: "(s', a) \<in> set (acting ?p)" for s' a
    proof
      assume i: "sc_id s' = i"
      have j': "(s', a) \<in> set (acting p)" "(s', a) \<noteq> (s, act)" using j by (auto simp: release_key_def)
      obtain r' where r': "r' \<in> set (vm_schedules db)" "scheduleConfigurationMatches s' r'"
        using ok [OF j'(1)] i by (auto simp: claimed_ok_def)
      have "r' = r"
        using row_unique [OF _ r'(1) r(1)] inv r'(2) r(2) i stop(1)
        by (simp add: run_inv_def scheduleConfigurationMatches_def)
      then have "sched_key s' = sched_key s" using r(2) r'(2) by (simp add: scheduleConfigurationMatches_def sched_key_def)
      moreover have "distinct (map (\<lambda>j. sched_key (fst j)) (acting p))"
        using inv by (simp add: run_inv_def jobs_ok_def job_keys_def)
      then have "inj_on (\<lambda>j. sched_key (fst j)) (set (acting p))" by (simp add: distinct_map)
      ultimately show False using j' job inj_onD [of "\<lambda>j. sched_key (fst j)" "set (acting p)" "(s', a)" "(s, act)"]
        by simp
    qed
    ultimately show ?thesis unfolding p row_settled_def list_all_iff by (metis prod.collapse)
  qed
qed

lemma sched_step_inv:
  assumes inv: "run_inv i p (vm_schedules db)" and win: "in_window i ev"
    and st: "sched_step ev (p, lk, db) = (out, p', lk', db')"
  shows "run_inv i p' (vm_schedules db') \<and> (row_settled i p (vm_schedules db) \<longrightarrow> row_settled i p' (vm_schedules db'))"
    and "length out \<le> 1" "(i, StopVm, True) \<in> set out \<Longrightarrow> row_settled i p' (vm_schedules db')"
    and "(i, StopVm, True) \<in> set out \<Longrightarrow> \<not> row_settled i p (vm_schedules db)"
proof (atomize (full), goal_cases)
  case 1
  show ?case
  proof (cases ev)
    case (Row env vms s)
    then show ?thesis using row_event [OF inv, of env vms s lk p' lk' db'] win st by (auto simp: sched_step_def)
  next
    case (Start env job)
    obtain s act fl where "job = (s, act, fl)" by (cases job) auto
    then show ?thesis using start_event [OF inv] inv Start st by (auto simp: sched_step_def split: if_splits)
  next
    case (Finish env reply job)
    obtain s act where job: "job = (s, act)" by (cases job)
    show ?thesis
    proof (cases "(s, act) \<in> set (acting p)")
      case True
      then have "out = [(sc_id s, act, \<not> isl reply)]" "finishPending env reply (s, act) (p, lk, db) = (p', lk', db')"
        using st by (simp_all add: sched_step_def Finish job)
      moreover have "sc_id s \<noteq> i" if "row_settled i p (vm_schedules db)"
        using that True by (force simp: row_settled_def list_all_iff)
      ultimately show ?thesis using finish_event [OF inv True] by auto
    next
      case False
      then show ?thesis using inv st by (simp add: sched_step_def Finish job)
    qed
  next
    case (Elsewhere f)
    then show ?thesis using inv st by (auto simp: sched_step_def)
  qed
qed

lemma settled_run:
  "run_inv i p (vm_schedules db) \<Longrightarrow> row_settled i p (vm_schedules db) \<Longrightarrow> list_all (in_window i) evs \<Longrightarrow>
    (i, StopVm, True) \<notin> set (sched_run evs (p, lk, db))"
proof (induction evs arbitrary: p lk db)
  case (Cons ev evs)
  obtain out p' lk' db' where st: "sched_step ev (p, lk, db) = (out, p', lk', db')" by (metis prod_cases4)
  note step = sched_step_inv [OF Cons.prems(1) _ st]
  show ?case using Cons step by (auto simp: st)
qed simp

lemma one_stop_run:
  "run_inv i p (vm_schedules db) \<Longrightarrow> list_all (in_window i) evs \<Longrightarrow>
    length (filter (\<lambda>x. x = (i, StopVm, True)) (sched_run evs (p, lk, db))) \<le> 1"
proof (induction evs arbitrary: p lk db)
  case (Cons ev evs)
  obtain out p' lk' db' where st: "sched_step ev (p, lk, db) = (out, p', lk', db')" by (metis prod_cases4)
  have w: "in_window i ev" "list_all (in_window i) evs" using Cons.prems(2) by simp_all
  note step = sched_step_inv [OF Cons.prems(1) w(1) st]
  show ?case
  proof (cases "(i, StopVm, True) \<in> set out")
    case True
    then have "(i, StopVm, True) \<notin> set (sched_run evs (p', lk', db'))"
      using settled_run step(1,3) w(2) by blast
    then have "filter (\<lambda>x. x = (i, StopVm, True)) (sched_run evs (p', lk', db')) = []" by (auto simp: filter_empty_conv)
    then show ?thesis using step(2) by (simp add: st) (meson le_trans length_filter_le)
  next
    case False
    then have "filter (\<lambda>x. x = (i, StopVm, True)) out = []" by (auto simp: filter_empty_conv)
    then show ?thesis using Cons.IH [OF _ w(2)] step(1) by (simp add: st)
  qed
qed simp


section \<open>Acting only on what was read\<close>

lemma schedule_guard_True:
  assumes "schedule_guard s db = Inr True"
  shows "\<not> vmMigrationPending db (sc_vmid s)"
    and "\<exists>r \<in> set (vm_schedules db). sc_id r = sc_id s \<and> sameSchedule r s"
  using assms by (auto simp: schedule_guard_def find_Some_iff split: if_splits sum.splits option.splits)

lemma startPending_sent:
  assumes "fst (startPending env (s, act, fl) (p, lk, db))"
  shows "\<not> stopping p" and "schedule_guard s db = Inr True"
  using assms by (auto simp: startPending_def Let_def split_beta split: sum.splits if_splits)

section \<open>In-flight actions\<close>

definition proc_inv :: "nat \<Rightarrow> sched_proc \<Rightarrow> bool" where
  "proc_inv pool_max p =
     (jobs_ok p \<and> distinct (inFlight p) \<and> length (inFlight p) \<le> pool_max - 1 \<and> set (claiming p) \<subseteq> set (inFlight p))"

lemma claim_proc_inv: "proc_inv pm p \<Longrightarrow> proc_inv pm (claimAndRunAction pm s act fl p)"
  using jobs_ok_claim [of p pm s act fl] unfolding proc_inv_def claimAndRunAction_def Let_def by auto

lemma tickRow_proc_inv:
  assumes "proc_inv (env_pool_max env) (fst st)"
  shows "proc_inv (env_pool_max env) (fst (tickRow env vms s st))"
proof -
  obtain p lk db where st: "st = (p, lk, db)" by (cases st) auto
  then show ?thesis
    using assms claim_proc_inv [of "env_pool_max env" p s]
    by (cases rule: tickRow_cases [of env vms s p lk db]) simp_all
qed

lemma foldl_inv: "P x \<Longrightarrow> (\<And>x s. P x \<Longrightarrow> P (f x s)) \<Longrightarrow> P (foldl f x ss)"
  by (induction ss arbitrary: x) auto

lemma tick_proc_inv:
  assumes "proc_inv (env_pool_max env) (fst st)"
  shows "proc_inv (env_pool_max env) (fst (runScheduleTick env listing st))"
proof -
  obtain p lk db where st: "st = (p, lk, db)" by (cases st) auto
  show ?thesis
    using assms unfolding runScheduleTick_def st
    by (auto simp: Let_def split: option.splits
        intro!: foldl_inv [where P = "\<lambda>x. proc_inv (env_pool_max env) (fst x)"] tickRow_proc_inv)
qed

lemma release_proc_inv:
  assumes "proc_inv pm p" "jobs_ok (release_key k p')" "inFlight p' = inFlight p" "claiming p' = claiming p"
  shows "proc_inv pm (release_key k p')"
proof -
  have "length (removeAll k (inFlight p)) \<le> pm - 1"
    using assms(1) by (intro le_trans [OF length_removeAll_less_eq]) (simp add: proc_inv_def)
  with assms show ?thesis by (auto simp: proc_inv_def release_key_def distinct_removeAll)
qed

section \<open>Properties\<close>

text \<open>C8: Inside one off window a machine is stopped successfully at most once, so a machine someone starts
  by hand stays on. A run is any interleaving of evaluations of schedule rows (as their tick read them,
  stale or not), starts and ends of queued actions (a tick may fall between the request to Proxmox and
  the record of its answer) and changes of the other tables, from any state in which no action on row
  \<open>i\<close> is outstanding. If every evaluation of row \<open>i\<close> in it falls into the row's off window, then whatever
  the reported status, the skip flag and the failures, at most one stop of row \<open>i\<close> succeeds.\<close>

theorem at_most_one_stop_per_window:
  assumes "distinct (map sc_id (vm_schedules db))" and "jobs_ok p"
    and "list_all (\<lambda>job. sc_id (fst job) \<noteq> i) (pending p)" "list_all (\<lambda>job. sc_id (fst job) \<noteq> i) (acting p)"
    and "list_all (in_window i) evs"
  shows "length (filter (\<lambda>x. x = (i, StopVm, True)) (sched_run evs (p, lk, db))) \<le> 1"
proof (rule one_stop_run [OF _ assms(5)])
  show "run_inv i p (vm_schedules db)"
    using assms(1-4) by (simp add: run_inv_def claimed_ok_def list_all_iff)
qed

text \<open>Proxmox is asked to act only on the row that was read: when a pending action sends its request,
  the process is not stopping, no migration of the VM is pending, and the schedule row stored at that
  moment still has the configuration and flags of the snapshot the decision was made on.\<close>

theorem action_acts_on_what_was_read:
  assumes "fst (startPending env (s, act, fl) (p, lk, db))"
  shows "\<not> stopping p \<and> \<not> vmMigrationPending db (sc_vmid s)
    \<and> (\<exists>r \<in> set (vm_schedules db). sc_id r = sc_id s \<and> sameSchedule r s)"
  using startPending_sent [OF assms] schedule_guard_True by blast

text \<open>A tick keeps the in-flight bookkeeping sound: no VM has two actions in flight, their number
  stays below the connection pool, every outstanding action is in flight, and so does the end of an
  action, whether it succeeded or not.\<close>

theorem in_flight_bookkeeping:
  assumes "proc_inv (env_pool_max env) p"
  shows "proc_inv (env_pool_max env) (fst (runScheduleTick env listing (p, lk, db)))
    \<and> (\<forall>job \<in> set (acting p). proc_inv (env_pool_max env) (fst (finishPending env reply job (p, lk, db))))"
proof -
  have "proc_inv (env_pool_max env) (fst (finishPending env reply job (p, lk, db)))"
    if "job \<in> set (acting p)" for job
    using release_proc_inv [OF assms jobs_ok_release_acting [OF _ that]] assms
    by (cases job) (simp add: finishPending_def proc_inv_def)
  with tick_proc_inv [of env "(p, lk, db)" listing] assms show ?thesis by simp
qed

definition demo_row :: vm_schedule where
  "demo_row = \<lparr>sc_id = 1, sc_node = ''pve'', sc_vmid = 100, sc_enabled = True, sc_stop_time = ''22:00'',
     sc_start_time = ''06:00'', sc_days = 127, sc_timezone = ''UTC'', sc_skip_until = 0,
     sc_running_due_to_manual = False, sc_stopped_this_window = False, sc_last_off = 0, sc_last_action = [],
     sc_last_action_at = 0, sc_updated_at = 0\<rparr>"

definition demo_sched_env :: sched_env where
  "demo_sched_env = \<lparr>env_zones = (\<lambda>_. Some (fixed_offset_fmt 0)), env_now = 0, env_pool_max = 10,
     env_connected = True, env_granted = True\<rparr>"

definition demo_proc :: sched_proc where
  "demo_proc = \<lparr>ticking = False, stopping = False, inFlight = [], claiming = [], pending = [], acting = []\<rparr>"

definition demo_sched_db :: sched_db where
  "demo_sched_db = \<lparr>user_rows = [], role_permissions = [], vm_assignments = [], vm_migrations = [], vm_schedules = [demo_row]\<rparr>"

definition demo_window :: "unit sched_event list" where
  \<comment> \<open>22:30 on a Monday: a stop, then the machine is seen running again and a second evaluation follows\<close>
  "demo_window =
     (let env = demo_sched_env\<lparr>env_now := (3 * 24 + 22) * 3600000 + 1800000\<rparr>;
          vms = [\<lparr>lv_vmid = 100, lv_node = ''pve'', lv_nodeRef = ''pve'', lv_status = ''running''\<rparr>];
          row1 = demo_row\<lparr>sc_last_off := 1, sc_stopped_this_window := True, sc_last_action := ''stop:shutdown'',
                    sc_last_action_at := env_now env\<rparr>
      in [Row env vms demo_row,
          Start env (demo_row, StopVm, \<lparr>fl_last_off = 1, fl_manual = False, fl_stopped = False\<rparr>),
          Finish env (Inr ''shutdown'') (demo_row, StopVm),
          Row env vms row1])"

theorem at_most_one_stop_per_window_witness:
  "sched_run demo_window (demo_proc, \<lparr>admittedVms = Map.empty, admittedOperations = 0\<rparr>, demo_sched_db) = [(1, StopVm, True)]
   \<and> length (filter (\<lambda>x. x = (1, StopVm, True))
       (sched_run demo_window (demo_proc, \<lparr>admittedVms = Map.empty, admittedOperations = 0\<rparr>, demo_sched_db))) \<le> 1"
proof
  show "sched_run demo_window (demo_proc, \<lparr>admittedVms = Map.empty, admittedOperations = 0\<rparr>, demo_sched_db) = [(1, StopVm, True)]"
    by code_simp
  have "distinct (map sc_id (vm_schedules demo_sched_db))" "jobs_ok demo_proc"
    "list_all (\<lambda>job. sc_id (fst job) \<noteq> 1) (pending demo_proc)" "list_all (\<lambda>job. sc_id (fst job) \<noteq> 1) (acting demo_proc)"
    "list_all (in_window 1) demo_window"
    by code_simp+
  from at_most_one_stop_per_window [OF this, of "\<lparr>admittedVms = Map.empty, admittedOperations = 0\<rparr>"]
  show "length (filter (\<lambda>x. x = (1, StopVm, True))
      (sched_run demo_window (demo_proc, \<lparr>admittedVms = Map.empty, admittedOperations = 0\<rparr>, demo_sched_db))) \<le> 1" .
qed

end
