(* ===== verification/Power_Rate.thy ===== *)
theory Power_Rate
  imports Prelude
begin

text \<open>
  Electricity rates, the first part of \<open>services/powerPolicy.ts\<close>: an operator types a decimal
  DKK/kWh value with a comma or a point, and the code computes with exact signed millionths
  (BigInt, so the model's \<open>int\<close>).
\<close>

definition PRICE_ERROR :: string where
  "PRICE_ERROR = ''Price must be a decimal DKK/kWh value with at most six fractional digits''"

definition rate_fraction_ok :: "string \<Rightarrow> bool" where
  "rate_fraction_ok r =
     (case r of
        [] \<Rightarrow> True
      | c # f \<Rightarrow> (c = CHR ''.'' \<or> c = CHR '','') \<and> list_all is_digit f \<and> 1 \<le> length f \<and> length f \<le> 6)"

definition RATE_PATTERN :: "string \<Rightarrow> bool" where
  \<comment> \<open>an optional minus, \<open>0\<close> or digits without a leading zero, an optional fraction\<close>
  "RATE_PATTERN t =
     (let u = (if starts_with ''-'' t then tl t else t);
          w = takeWhile is_digit u
      in w \<noteq> [] \<and> (w = ''0'' \<or> hd w \<noteq> CHR ''0'') \<and> rate_fraction_ok (dropWhile is_digit u))"

fun replace_first :: "char \<Rightarrow> char \<Rightarrow> string \<Rightarrow> string" where
  "replace_first a b [] = []"
| "replace_first a b (x # xs) = (if x = a then b # xs else x # replace_first a b xs)"

definition parseDkkPerKwh :: "string \<Rightarrow> int fallible" where
  "parseDkkPerKwh value =
     (if \<not> RATE_PATTERN (js_trim value) then Inl PRICE_ERROR
      else
        let normalized = replace_first (CHR '','') (CHR ''.'') (js_trim value);
            negative = starts_with ''-'' normalized;
            (whole, fraction) =
              (case split_on (CHR ''.'') (if negative then tl normalized else normalized) of
                 w # f # _ \<Rightarrow> (w, f) | [w] \<Rightarrow> (w, []) | [] \<Rightarrow> ([], []));
            micros = int (nat_of_digits whole) * 1000000
                     + int (nat_of_digits (pad_end 6 (CHR ''0'') fraction))
        in Inr (if negative then - micros else micros))"

definition strip_zeros :: "string \<Rightarrow> string" where
  "strip_zeros s = rev (dropWhile (\<lambda>c. c = CHR ''0'') (rev s))"

definition formatMicros :: "int \<Rightarrow> string" where
  "formatMicros micros =
     (let negative = micros < 0;
          absolute = (if negative then - micros else micros);
          whole = absolute div 1000000;
          fraction = strip_zeros (pad_start 6 (CHR ''0'') (show_nat (nat (absolute mod 1000000))))
      in (if negative \<and> absolute \<noteq> 0 then ''-'' else [])
         @ show_nat (nat whole) @ (if fraction = [] then [] else CHR ''.'' # fraction))"

definition normalizeDkkPerKwh :: "string \<Rightarrow> string fallible" where
  "normalizeDkkPerKwh value = bind_err (parseDkkPerKwh value) (\<lambda>m. Inr (formatMicros m))"

section \<open>Printing then parsing\<close>

lemma strip_zeros_pad:
  "\<exists>k. s = strip_zeros s @ replicate k (CHR ''0'')"
proof -
  let ?P = "\<lambda>c. c = CHR ''0''"
  have "takeWhile ?P (rev s) = replicate (length (takeWhile ?P (rev s))) (CHR ''0'')"
    by (induction "rev s" arbitrary: s) (auto dest: set_takeWhileD intro!: replicate_eqI)
  then have "s = strip_zeros s @ replicate (length (takeWhile ?P (rev s))) (CHR ''0'')"
    unfolding strip_zeros_def
    by (metis rev_append rev_replicate rev_rev_ident takeWhile_dropWhile_id)
  then show ?thesis by blast
qed

lemma pad_end_strip_zeros: "length s = n \<Longrightarrow> pad_end n (CHR ''0'') (strip_zeros s) = s"
proof -
  assume n: "length s = n"
  obtain k where k: "s = strip_zeros s @ replicate k (CHR ''0'')" using strip_zeros_pad by blast
  then have "length s = length (strip_zeros s) + k" by (metis length_append length_replicate)
  with n have "n - length (strip_zeros s) = k" by simp
  with k show ?thesis by (simp add: pad_end_def)
qed

lemma strip_zeros_digits: "list_all is_digit s \<Longrightarrow> list_all is_digit (strip_zeros s)"
  by (metis list_all_append strip_zeros_pad)

lemma length_strip_zeros: "length (strip_zeros s) \<le> length s"
  by (metis le_add1 length_append strip_zeros_pad)

definition fraction_text :: "int \<Rightarrow> string" where
  "fraction_text a = strip_zeros (pad_start 6 (CHR ''0'') (show_nat (nat (a mod 1000000))))"

lemma fraction_text_facts:
  shows "list_all is_digit (fraction_text a)" and "length (fraction_text a) \<le> 6"
    and "int (nat_of_digits (pad_end 6 (CHR ''0'') (fraction_text a))) = a mod 1000000"
proof -
  let ?f = "pad_start 6 (CHR ''0'') (show_nat (nat (a mod 1000000)))"
  have "nat (a mod 1000000) < 10 ^ 6" by (simp add: nat_less_iff)
  then have "length (show_nat (nat (a mod 1000000))) \<le> 6" by (rule length_show_nat_le) simp
  then have len: "length ?f = 6" by simp
  show "list_all is_digit (fraction_text a)"
    unfolding fraction_text_def by (intro strip_zeros_digits all_digits_pad_start show_nat_list_all)
  show "length (fraction_text a) \<le> 6"
    unfolding fraction_text_def using length_strip_zeros [of ?f] len by simp
  show "int (nat_of_digits (pad_end 6 (CHR ''0'') (fraction_text a))) = a mod 1000000"
    unfolding fraction_text_def pad_end_strip_zeros [OF len] by simp
qed

lemma digits_no_char: "list_all is_digit s \<Longrightarrow> \<not> is_digit c \<Longrightarrow> c \<notin> set s"
  by (auto simp: list_all_iff)

lemma punctuation: "\<not> is_digit (CHR ''.'')" "\<not> is_digit (CHR '','')" "\<not> is_digit (CHR ''-'')"
    "\<not> is_ws (CHR ''.'')" "\<not> is_ws (CHR '','')" "\<not> is_ws (CHR ''-'')"
  by (simp_all add: is_digit_def is_ws_def)

lemma takeWhile_digits_stop:
  assumes "list_all is_digit s" "t = [] \<or> \<not> is_digit (hd t)"
  shows "takeWhile is_digit (s @ t) = s" "dropWhile is_digit (s @ t) = t"
  using assms by (cases t; simp add: list_all_iff)+

lemma starts_with_minus: "starts_with ''-'' s \<longleftrightarrow> (\<exists>t. s = CHR ''-'' # t)"
  by (cases s) (auto simp: starts_with_def)

definition rate_text :: "string \<Rightarrow> string \<Rightarrow> string" where
  "rate_text w f = w @ (if f = [] then [] else CHR ''.'' # f)"

lemma replace_first_no: "a \<notin> set s \<Longrightarrow> replace_first a b s = s"
  by (induction s) auto

text \<open>An unsigned text with a point is accepted and read as its value.\<close>

definition rate_tail :: "string \<Rightarrow> string" where
  "rate_tail f = (if f = [] then [] else CHR ''.'' # f)"

lemma rate_tail_stop: "rate_tail f = [] \<or> \<not> is_digit (hd (rate_tail f))"
  by (simp add: rate_tail_def punctuation)

lemma rate_text_tail: "rate_text w f = w @ rate_tail f"
  by (simp add: rate_text_def rate_tail_def)

lemma RATE_PATTERN_unsigned:
  assumes w: "list_all is_digit w" "w \<noteq> []" "w = ''0'' \<or> hd w \<noteq> CHR ''0''"
    and f: "list_all is_digit f" "length f \<le> 6" and s: "\<not> starts_with ''-'' (rate_text w f)"
  shows "RATE_PATTERN (rate_text w f)" "RATE_PATTERN (CHR ''-'' # rate_text w f)"
proof -
  have cut: "takeWhile is_digit (rate_text w f) = w" "dropWhile is_digit (rate_text w f) = rate_tail f"
    unfolding rate_text_tail by (rule takeWhile_digits_stop [OF w(1) rate_tail_stop])+
  have "rate_fraction_ok (rate_tail f)"
    using f by (simp add: rate_fraction_ok_def rate_tail_def Suc_le_eq)
  then show "RATE_PATTERN (rate_text w f)"
    using w(2,3) s by (simp add: RATE_PATTERN_def Let_def cut)
  have "starts_with ''-'' (CHR ''-'' # rate_text w f)" by (simp add: starts_with_minus)
  then show "RATE_PATTERN (CHR ''-'' # rate_text w f)"
    using w(2,3) \<open>rate_fraction_ok (rate_tail f)\<close> by (simp add: RATE_PATTERN_def Let_def cut)
qed

lemma rate_chars:
  assumes "set t \<subseteq> {c. is_digit c} \<union> {CHR ''.'', CHR ''-''}"
  shows "js_trim t = t" "replace_first (CHR '','') (CHR ''.'') t = t"
proof -
  have c: "is_digit c \<or> c = CHR ''.'' \<or> c = CHR ''-''" if "c \<in> set t" for c
    using assms that by blast
  then have "\<not> is_ws c" if "c \<in> set t" for c
    using that punctuation digit_not_ws by metis
  then show "js_trim t = t" by (intro js_trim_id) (simp add: list_all_iff)
  have "CHR '','' \<notin> set t"
    using c [of "CHR '',''"] punctuation(2) by auto
  then show "replace_first (CHR '','') (CHR ''.'') t = t" by (rule replace_first_no)
qed

lemma parse_rate_text:
  fixes neg :: bool
  assumes w: "all_digits w" "w = ''0'' \<or> hd w \<noteq> CHR ''0''"
    and f: "list_all is_digit f" "length f \<le> 6"
  defines "v \<equiv> int (nat_of_digits w) * 1000000 + int (nat_of_digits (pad_end 6 (CHR ''0'') f))"
  shows "parseDkkPerKwh ((if neg then ''-'' else []) @ rate_text w f) = Inr (if neg then - v else v)"
proof -
  let ?u = "rate_text w f"
  let ?t = "(if neg then ''-'' else []) @ ?u"
  have wd: "list_all is_digit w" "w \<noteq> []" using w(1) by (simp_all add: all_digits_def)
  have wf: "set w \<union> set f \<subseteq> {c. is_digit c}" using wd(1) f(1) by (auto simp: list_all_iff)
  then have chars: "set ?t \<subseteq> {c. is_digit c} \<union> {CHR ''.'', CHR ''-''}"
    by (auto simp: rate_text_def)
  then have trim: "js_trim ?t = ?t"
    by (rule rate_chars(1))
  have comma: "replace_first (CHR '','') (CHR ''.'') ?t = ?t"
    using chars by (rule rate_chars(2))
  have "hd w \<in> {c. is_digit c}" using wf wd(2) by (cases w) auto
  then have no_minus: "\<not> starts_with ''-'' ?u"
    using wd(2) punctuation by (cases w) (auto simp: starts_with_minus rate_text_def)
  have pat: "RATE_PATTERN ?t"
    using RATE_PATTERN_unsigned [OF wd w(2) f no_minus] by (cases neg) simp_all
  have neg: "starts_with ''-'' ?t = neg" "(if neg then tl ?t else ?t) = ?u"
    using no_minus by (cases neg; simp add: starts_with_minus)+
  have "split_on (CHR ''.'') ?u = (if f = [] then [w] else [w, f])"
    using digits_no_char [OF wd(1) punctuation(1)] digits_no_char [OF f(1) punctuation(1)]
    by (simp add: rate_text_def split_on_no_sep split_on_append)
  then have pieces: "(case split_on (CHR ''.'') ?u of w # f # _ \<Rightarrow> (w, f) | [w] \<Rightarrow> (w, []) | [] \<Rightarrow> ([], []))
      = (w, f)" by simp
  show ?thesis
    unfolding parseDkkPerKwh_def trim comma Let_def neg pieces using pat by (simp add: v_def)
qed

lemma formatMicros_rate_text:
  "formatMicros m = (if m < 0 then ''-'' else []) @ rate_text (show_nat (nat (\<bar>m\<bar> div 1000000))) (fraction_text \<bar>m\<bar>)"
  by (auto simp: formatMicros_def Let_def rate_text_def fraction_text_def)

lemma parse_formatMicros: "parseDkkPerKwh (formatMicros m) = Inr m"
proof -
  let ?w = "show_nat (nat (\<bar>m\<bar> div 1000000))"
  have w: "?w = ''0'' \<or> hd ?w \<noteq> CHR ''0''"
  proof (cases "\<bar>m\<bar> div 1000000 = 0")
    case True
    have "digit_char 0 = CHR ''0''"
      using digit_char_digit_val [of "CHR ''0''"] by (simp add: is_digit_def digit_val_def)
    with True have "?w = ''0''" by (simp add: show_nat.simps)
    then show ?thesis ..
  next
    case False
    moreover have "0 \<le> \<bar>m\<bar> div 1000000" by simp
    ultimately have "nat (\<bar>m\<bar> div 1000000) \<noteq> 0" by linarith
    then show ?thesis by (simp add: show_nat_hd_zero)
  qed
  have "int (nat (\<bar>m\<bar> div 1000000)) = \<bar>m\<bar> div 1000000" by simp
  then have v: "int (nat_of_digits ?w) * 1000000
      + int (nat_of_digits (pad_end 6 (CHR ''0'') (fraction_text \<bar>m\<bar>))) = \<bar>m\<bar>"
    by (simp add: fraction_text_facts(3))
  show ?thesis
    unfolding formatMicros_rate_text
    by (subst parse_rate_text [OF show_nat_digits w fraction_text_facts(1,2)]) (simp only: v, simp)
qed

lemma normalize_idem:
  "normalizeDkkPerKwh v = Inr t \<Longrightarrow> normalizeDkkPerKwh t = Inr t"
  by (auto simp: normalizeDkkPerKwh_def bind_err_Inr_iff parse_formatMicros)

lemma normalize_canonical:
  assumes "normalizeDkkPerKwh v = Inr t" "normalizeDkkPerKwh v' = Inr t'"
  shows "t = t' \<longleftrightarrow> parseDkkPerKwh v = parseDkkPerKwh v'"
  using assms by (auto simp: normalizeDkkPerKwh_def bind_err_Inr_iff) (metis parse_formatMicros sum.inject(2))

section \<open>Properties\<close>

text \<open>Rates round-trip exactly: every signed number of millionths prints to a text that parses back
  to it, so \<open>normalizeDkkPerKwh\<close> is idempotent, and two accepted inputs get the same canonical text
  exactly when they denote the same rate.\<close>

theorem rate_roundtrip:
  "parseDkkPerKwh (formatMicros m) = Inr m
   \<and> (\<forall>v t. normalizeDkkPerKwh v = Inr t \<longrightarrow> normalizeDkkPerKwh t = Inr t)
   \<and> (\<forall>v v' t t'. normalizeDkkPerKwh v = Inr t \<and> normalizeDkkPerKwh v' = Inr t'
        \<longrightarrow> (t = t' \<longleftrightarrow> parseDkkPerKwh v = parseDkkPerKwh v'))"
  using parse_formatMicros normalize_idem normalize_canonical by blast


end
