(* ===== verification/Power_Schedule.thy ===== *)
theory Power_Schedule
  imports Schedule
begin

text \<open>
  Weekly power schedules, the second part of \<open>services/powerPolicy.ts\<close>: windows of the week that
  ask for a power mode, their validation, the mode at an instant and the boundaries between two
  instants. An instant is a number of milliseconds since the epoch. The time zone database behind
  \<open>Intl\<close> is the parameter \<open>intl\<close>: \<open>wallMs tz t\<close> is the local date and time of \<open>t\<close>, down to
  the minute, as \<open>Date.UTC\<close> of its parts.
\<close>

datatype power_mode = Low | Dynamic | High | Os_control | Unknown_mode | Other string

definition MODE_ORDER :: "power_mode \<Rightarrow> int option" where
  "MODE_ORDER m = (case m of Low \<Rightarrow> Some 0 | Dynamic \<Rightarrow> Some 1 | High \<Rightarrow> Some 2 | _ \<Rightarrow> None)"

definition isWritablePowerMode :: "power_mode \<Rightarrow> bool" where
  "isWritablePowerMode m = (m = Low \<or> m = Dynamic \<or> m = High)"

definition mode_above :: "power_mode \<Rightarrow> power_mode \<Rightarrow> bool" where
  \<comment> \<open>\<open>MODE_ORDER[a] > MODE_ORDER[b]\<close>, false when either is undefined\<close>
  "mode_above a b =
     (case (MODE_ORDER a, MODE_ORDER b) of (Some i, Some j) \<Rightarrow> i > j | _ \<Rightarrow> False)"

record power_window =
  pw_days :: int
  pw_start :: string
  pw_end :: string
  pw_mode :: power_mode

record weekly_schedule =
  ws_enabled :: bool
  ws_timezone :: string
  ws_defaultMode :: power_mode
  ws_windows :: "power_window list"
  ws_version :: int

record intl =
  isValidTimezone :: "string \<Rightarrow> bool"
  wallMs :: "string \<Rightarrow> int \<Rightarrow> int"
  isoText :: "int \<Rightarrow> string"

definition weekdayPreset :: weekly_schedule where
  "weekdayPreset =
     \<lparr>ws_enabled = False, ws_timezone = ''Europe/Copenhagen'', ws_defaultMode = Low,
      ws_windows =
        [\<lparr>pw_days = 62, pw_start = ''16:00'', pw_end = ''02:00'', pw_mode = High\<rparr>,
         \<lparr>pw_days = 65, pw_start = ''12:00'', pw_end = ''22:00'', pw_mode = High\<rparr>],
      ws_version = 1\<rparr>"

section \<open>Validation\<close>

definition window_duration :: "power_window \<Rightarrow> int" where
  "window_duration w = js_rem (minutes_or_0 (pw_end w) - minutes_or_0 (pw_start w) + 1440) 1440"

definition occupiedMinutes :: "power_window \<Rightarrow> int list" where
  "occupiedMinutes w =
     (let start = minutes_or_0 (pw_start w); duration = window_duration w
      in remdups (concat (map (\<lambda>day.
           if \<not> dayActive (pw_days w) day then []
           else map (\<lambda>offset. js_rem (int day * 1440 + start + int offset) 10080) [0..<nat duration])
           [0..<7])))"

definition window_valid :: "power_window \<Rightarrow> bool" where
  "window_valid w =
     (\<not> (pw_days w < 1 \<or> pw_days w > 127 \<or> \<not> isValidTime (pw_start w) \<or> \<not> isValidTime (pw_end w)
         \<or> pw_start w = pw_end w \<or> \<not> isWritablePowerMode (pw_mode w)))"

fun add_minutes :: "int list \<Rightarrow> int list \<Rightarrow> int list fallible" where
  "add_minutes occupied [] = Inr occupied"
| "add_minutes occupied (m # ms) =
     (if m \<in> set occupied then Inl ''Overlapping power windows'' else add_minutes (m # occupied) ms)"

fun validate_windows :: "power_window list \<Rightarrow> int list \<Rightarrow> unit fallible" where
  "validate_windows [] occupied = Inr ()"
| "validate_windows (w # ws) occupied =
     (if \<not> window_valid w then Inl ''Invalid power window''
      else bind_err (add_minutes occupied (occupiedMinutes w)) (validate_windows ws))"

definition validatePowerSchedule :: "intl \<Rightarrow> weekly_schedule \<Rightarrow> unit fallible" where
  "validatePowerSchedule z schedule =
     guard_err (50 < length (ws_windows schedule)) ''Invalid power schedule''
       (guard_err (\<not> isValidTimezone z (ws_timezone schedule)) ''Invalid schedule timezone''
         (guard_err (\<not> isWritablePowerMode (ws_defaultMode schedule)) ''Invalid default mode''
           (validate_windows (ws_windows schedule) [])))"

section \<open>Boundaries\<close>

datatype occurrence = Earlier | Later

definition DAY_MS :: int where
  "DAY_MS = 86400000"

definition local_day :: "intl \<Rightarrow> string \<Rightarrow> int \<Rightarrow> int" where
  \<comment> \<open>\<open>Date.UTC(local.year, local.month - 1, local.day)\<close>\<close>
  "local_day z tz t = wallMs z tz t div DAY_MS * DAY_MS"

definition getUTCDay :: "int \<Rightarrow> nat" where
  \<comment> \<open>the epoch was a Thursday\<close>
  "getUTCDay day = nat ((day div DAY_MS + 4) mod 7)"

definition boundary_offsets :: "intl \<Rightarrow> string \<Rightarrow> int \<Rightarrow> int list" where
  "boundary_offsets z tz desired =
     remdups (map (\<lambda>k. let probe = desired + (int k * 6 - 36) * 3600000
                       in (wallMs z tz probe - probe) div 60000) [0..<13])"

definition boundary_matches :: "intl \<Rightarrow> string \<Rightarrow> int \<Rightarrow> int list" where
  "boundary_matches z tz desired =
     filter (\<lambda>instant. wallMs z tz instant = desired)
       (map (\<lambda>offset. desired - offset * 60000) (boundary_offsets z tz desired))"

definition localBoundary :: "intl \<Rightarrow> int \<Rightarrow> string \<Rightarrow> string \<Rightarrow> occurrence \<Rightarrow> int fallible" where
  "localBoundary z localDayUtc wallTime tz occ =
     (let naive = localDayUtc + minutes_or_0 wallTime * 60000
      in case find (\<lambda>ms. ms \<noteq> [])
           (map (\<lambda>advance. boundary_matches z tz (naive + int advance * 60000)) [0..<181]) of
           Some ms \<Rightarrow> Inr (case occ of Earlier \<Rightarrow> Min (set ms) | Later \<Rightarrow> Max (set ms))
         | None \<Rightarrow> Inl (''Unable to resolve local power boundary for '' @ isoText z localDayUtc))"

definition window_start_at :: "intl \<Rightarrow> string \<Rightarrow> int \<Rightarrow> power_window \<Rightarrow> int fallible" where
  "window_start_at z tz day w = localBoundary z day (pw_start w) tz Earlier"

definition overnight :: "power_window \<Rightarrow> bool" where
  "overnight w = (minutes_or_0 (pw_end w) < minutes_or_0 (pw_start w))"

definition window_end_at :: "intl \<Rightarrow> string \<Rightarrow> int \<Rightarrow> power_window \<Rightarrow> int fallible" where
  "window_end_at z tz day w =
     localBoundary z (day + (if overnight w then DAY_MS else 0)) (pw_end w) tz Later"

fun active_window :: "intl \<Rightarrow> string \<Rightarrow> int \<Rightarrow> (int \<times> power_window) list \<Rightarrow> power_mode option fallible" where
  "active_window z tz now [] = Inr None"
| "active_window z tz now ((day, w) # rest) =
     (if \<not> dayActive (pw_days w) (getUTCDay day) then active_window z tz now rest
      else bind_err (window_start_at z tz day w) (\<lambda>start.
           bind_err (window_end_at z tz day w) (\<lambda>end_at.
             if start \<le> now \<and> now < end_at then Inr (Some (pw_mode w))
             else active_window z tz now rest)))"

definition scheduledModeAt :: "intl \<Rightarrow> weekly_schedule \<Rightarrow> int \<Rightarrow> power_mode fallible" where
  "scheduledModeAt z schedule now =
     bind_err (validatePowerSchedule z schedule) (\<lambda>_.
       let today = local_day z (ws_timezone schedule) now;
           candidates = concat (map (\<lambda>day. map (Pair day) (ws_windows schedule)) [today - DAY_MS, today])
       in bind_err (active_window z (ws_timezone schedule) now candidates)
            (\<lambda>r. Inr (case r of Some m \<Rightarrow> m | None \<Rightarrow> ws_defaultMode schedule)))"

definition boundaries_of_day :: "intl \<Rightarrow> weekly_schedule \<Rightarrow> int \<Rightarrow> int list fallible" where
  "boundaries_of_day z schedule day =
     bind_err (map_err (\<lambda>w.
         bind_err (window_start_at z (ws_timezone schedule) day w) (\<lambda>start.
         bind_err (window_end_at z (ws_timezone schedule) day w) (\<lambda>end_at. Inr [start, end_at])))
       (filter (\<lambda>w. dayActive (pw_days w) (getUTCDay day)) (ws_windows schedule)))
     (\<lambda>bs. Inr (concat bs))"

definition scheduleBoundaryInstants :: "intl \<Rightarrow> weekly_schedule \<Rightarrow> int \<Rightarrow> int \<Rightarrow> int list fallible" where
  "scheduleBoundaryInstants z schedule from until =
     bind_err (validatePowerSchedule z schedule) (\<lambda>_.
       if \<not> ws_enabled schedule then Inr []
       else
         let first = local_day z (ws_timezone schedule) from - DAY_MS;
             days_no = - ((from - until) div DAY_MS) + 4
         in bind_err (map_err (\<lambda>index. boundaries_of_day z schedule (first + int index * DAY_MS))
              [0..<nat days_no])
            (\<lambda>bs. Inr (sort (remdups (filter (\<lambda>t. from < t \<and> t < until) (concat bs))))))"

section \<open>Validation: the windows partition part of the week\<close>

lemma add_minutes_Inr:
  "add_minutes occ ms = Inr occ' \<longleftrightarrow> distinct ms \<and> set ms \<inter> set occ = {} \<and> occ' = rev ms @ occ"
  by (induction ms arbitrary: occ) auto

definition windows_clash :: "power_window \<Rightarrow> power_window \<Rightarrow> bool" where
  "windows_clash w w' = (set (occupiedMinutes w) \<inter> set (occupiedMinutes w') \<noteq> {})"

lemma distinct_occupied [simp]: "distinct (occupiedMinutes w)"
  by (simp add: occupiedMinutes_def Let_def)

lemma validate_windows_Inr:
  "validate_windows ws occ = Inr () \<longleftrightarrow>
     (\<forall>w \<in> set ws. window_valid w \<and> set (occupiedMinutes w) \<inter> set occ = {}) \<and>
     sorted_wrt (\<lambda>w w'. \<not> windows_clash w w') ws"
proof (induction ws arbitrary: occ)
  case Nil
  then show ?case by simp
next
  case (Cons w ws)
  show ?case
    by (auto simp: bind_err_Inr_iff add_minutes_Inr Cons.IH windows_clash_def)
qed

definition schedule_ok :: "intl \<Rightarrow> weekly_schedule \<Rightarrow> bool" where
  "schedule_ok z s =
     (length (ws_windows s) \<le> 50 \<and> isValidTimezone z (ws_timezone s)
      \<and> isWritablePowerMode (ws_defaultMode s) \<and> (\<forall>w \<in> set (ws_windows s). window_valid w)
      \<and> sorted_wrt (\<lambda>w w'. \<not> windows_clash w w') (ws_windows s))"

lemma validatePowerSchedule_Inr: "validatePowerSchedule z s = Inr () \<longleftrightarrow> schedule_ok z s"
  by (auto simp: validatePowerSchedule_def schedule_ok_def validate_windows_Inr)

lemma window_valid_times:
  assumes "window_valid w"
  defines "s \<equiv> minutes_or_0 (pw_start w)" and "e \<equiv> minutes_or_0 (pw_end w)"
  shows "0 \<le> s" "s < 1440" "0 \<le> e" "e < 1440" "s \<noteq> e" "1 \<le> pw_days w" "pw_days w \<le> 127"
proof -
  have v: "isValidTime (pw_start w)" "isValidTime (pw_end w)" "pw_start w \<noteq> pw_end w"
    and d: "1 \<le> pw_days w" "pw_days w \<le> 127"
    using assms(1) by (auto simp: window_valid_def)
  obtain m n where m: "timeToMinutes (pw_start w) = Some m" "0 \<le> m" "m < 1440" "minutesToTime m = pw_start w"
    and n: "timeToMinutes (pw_end w) = Some n" "0 \<le> n" "n < 1440" "minutesToTime n = pw_end w"
    using timeToMinutes_valid v by meson
  then show "0 \<le> s" "s < 1440" "0 \<le> e" "e < 1440" "s \<noteq> e" "1 \<le> pw_days w" "pw_days w \<le> 127"
    using v(3) d by (auto simp: s_def e_def minutes_or_0_def)
qed

lemma window_duration_cases:
  assumes "window_valid w"
  defines "s \<equiv> minutes_or_0 (pw_start w)" and "e \<equiv> minutes_or_0 (pw_end w)"
  shows "window_duration w = (if overnight w then e + 1440 - s else e - s)"
    and "0 < window_duration w" "window_duration w < 1440"
proof -
  note t = window_valid_times [OF assms(1), folded s_def e_def]
  have eq: "window_duration w = (e - s + 1440) mod 1440"
    using t unfolding window_duration_def s_def [symmetric] e_def [symmetric]
    by (intro js_rem_nonneg) auto
  show d: "window_duration w = (if overnight w then e + 1440 - s else e - s)"
  proof (cases "e < s")
    case True
    then have "(e - s + 1440) mod 1440 = e - s + 1440" using t by (intro mod_pos_pos_trivial) auto
    with True eq show ?thesis by (simp add: overnight_def s_def e_def)
  next
    case False
    have "(e - s + 1440) mod 1440 = (e - s) mod 1440" by simp
    also have "\<dots> = e - s" using t False by (intro mod_pos_pos_trivial) auto
    finally show ?thesis using False eq by (simp add: overnight_def s_def e_def)
  qed
  show "0 < window_duration w" "window_duration w < 1440"
    unfolding d using t by (auto simp: overnight_def s_def e_def)
qed

definition covers :: "power_window \<Rightarrow> int \<Rightarrow> bool" where
  "covers w x = (\<exists>d < 7. dayActive (pw_days w) d \<and>
     (x - (int d * 1440 + minutes_or_0 (pw_start w))) mod 10080 < window_duration w)"

lemma occupied_iff_covers:
  assumes w: "window_valid w"
  shows "x \<in> set (occupiedMinutes w) \<longleftrightarrow> 0 \<le> x \<and> x < 10080 \<and> covers w x"
proof -
  let ?s = "minutes_or_0 (pw_start w)"
  let ?L = "window_duration w"
  note t = window_valid_times [OF w] and L = window_duration_cases(2,3) [OF w]
  have mem: "x \<in> set (occupiedMinutes w) \<longleftrightarrow>
      (\<exists>d < 7. dayActive (pw_days w) d \<and> (\<exists>k < nat ?L. x = (int d * 1440 + ?s + int k) mod 10080))"
  proof -
    have nn: "js_rem (int d * 1440 + ?s + int k) 10080 = (int d * 1440 + ?s + int k) mod 10080" for d k :: nat
      using t by (intro js_rem_nonneg) auto
    have "set (occupiedMinutes w) = (\<Union>d\<in>{d. d < 7}. if dayActive (pw_days w) d
        then {m. \<exists>k < nat ?L. m = (int d * 1440 + ?s + int k) mod 10080} else {})"
      unfolding occupiedMinutes_def Let_def set_remdups set_concat set_map set_upt image_image nn
      by (intro SUP_cong) auto
    then show ?thesis by (simp add: Bex_def del: dayActive_bit)
  qed
  have one: "(\<exists>k < nat ?L. x = (a + int k) mod 10080) \<longleftrightarrow>
      0 \<le> x \<and> x < 10080 \<and> (x - a) mod 10080 < ?L" for a :: int
  proof
    assume "\<exists>k < nat ?L. x = (a + int k) mod 10080"
    then obtain k where "k < nat ?L" and x: "x = (a + int k) mod 10080" by blast
    then have k: "int k < ?L" "x = (a + int k) mod 10080" by simp_all
    have "(x - a) mod 10080 = int k mod 10080" unfolding k(2) by (simp add: mod_diff_left_eq)
    also have "\<dots> = int k" using k(1) L by (intro mod_pos_pos_trivial) auto
    finally show "0 \<le> x \<and> x < 10080 \<and> (x - a) mod 10080 < ?L" using k by simp
  next
    assume *: "0 \<le> x \<and> x < 10080 \<and> (x - a) mod 10080 < ?L"
    let ?k = "nat ((x - a) mod 10080)"
    have "int ?k = (x - a) mod 10080" by simp
    then have "(a + int ?k) mod 10080 = x mod 10080" by (simp add: mod_add_right_eq)
    moreover have "x mod 10080 = x" using * by simp
    moreover have "?k < nat ?L" using * L(1) by (simp add: nat_less_eq_zless)
    ultimately show "\<exists>k < nat ?L. x = (a + int k) mod 10080" by metis
  qed
  show ?thesis unfolding mem one covers_def by blast
qed

section \<open>The mode of an instant, in a zone with a fixed offset\<close>

definition fixed_offset :: "intl \<Rightarrow> string \<Rightarrow> int \<Rightarrow> bool" where
  \<comment> \<open>the zone is always \<open>off\<close> minutes ahead of UTC\<close>
  "fixed_offset z tz off = (\<forall>t. wallMs z tz t = (t div 60000 + off) * 60000)"

lemma ms_minutes:
  fixes a t :: int
  shows "a * 60000 \<le> t \<longleftrightarrow> a \<le> t div 60000" "t < a * 60000 \<longleftrightarrow> t div 60000 < a"
proof -
  have "60000 * (t div 60000) + t mod 60000 = t" "0 \<le> t mod 60000" "t mod 60000 < 60000"
    by (simp_all add: mult_div_mod_eq)
  then show "a * 60000 \<le> t \<longleftrightarrow> a \<le> t div 60000" "t < a * 60000 \<longleftrightarrow> t div 60000 < a"
    by linarith+
qed

lemma remdups_const: "xs \<noteq> [] \<Longrightarrow> \<forall>x \<in> set xs. x = c \<Longrightarrow> remdups xs = [c]"
proof (induction xs)
  case Nil
  then show ?case by simp
next
  case (Cons x xs)
  then show ?case by (cases xs) auto
qed

lemma boundary_matches_fixed:
  assumes z: "fixed_offset z tz off"
  shows "boundary_matches z tz (k * 60000) = [(k - off) * 60000]"
proof -
  have "(let probe = k * 60000 + (int i * 6 - 36) * 3600000 in (wallMs z tz probe - probe) div 60000) = off" for i
  proof -
    have "k * 60000 + (int i * 6 - 36) * 3600000 = (k + (int i * 6 - 36) * 60) * 60000" by simp
    then show ?thesis using z by (simp add: Let_def fixed_offset_def algebra_simps)
  qed
  then have "boundary_offsets z tz (k * 60000) = [off]"
    unfolding boundary_offsets_def by (intro remdups_const) auto
  moreover have "k * 60000 - off * 60000 = (k - off) * 60000" by (simp add: algebra_simps)
  moreover have "wallMs z tz ((k - off) * 60000) = k * 60000"
    using z unfolding fixed_offset_def by simp
  ultimately show ?thesis by (simp add: boundary_matches_def)
qed

lemma find_Some_D: "find P xs = Some x \<Longrightarrow> x \<in> set xs \<and> P x"
  by (auto simp: find_Some_iff)

lemma find_map_first: "P (f 0) \<Longrightarrow> 0 < n \<Longrightarrow> find P (map f [0..<n]) = Some (f 0)"
  by (simp add: upt_conv_Cons)

lemma localBoundary_fixed:
  assumes z: "fixed_offset z tz off" and day: "day = D * DAY_MS"
  shows "localBoundary z day t tz occ = Inr ((D * 1440 + minutes_or_0 t - off) * 60000)"
proof -
  let ?f = "\<lambda>advance. boundary_matches z tz (day + minutes_or_0 t * 60000 + int advance * 60000)"
  have "day + minutes_or_0 t * 60000 + int 0 * 60000 = (D * 1440 + minutes_or_0 t) * 60000"
    using day by (simp add: DAY_MS_def)
  then have "?f 0 = [(D * 1440 + minutes_or_0 t - off) * 60000]"
    by (simp only: boundary_matches_fixed [OF z])
  then have "find (\<lambda>ms. ms \<noteq> []) (map ?f [0..<181]) = Some [(D * 1440 + minutes_or_0 t - off) * 60000]"
    using find_map_first [of "\<lambda>ms. ms \<noteq> []" ?f 181] by simp
  then show ?thesis unfolding localBoundary_def Let_def by (cases occ) simp_all
qed

lemma window_at_fixed:
  assumes z: "fixed_offset z tz off" and w: "window_valid w" and day: "day = D * DAY_MS"
  shows "window_start_at z tz day w = Inr ((D * 1440 + minutes_or_0 (pw_start w) - off) * 60000)"
    and "window_end_at z tz day w
      = Inr ((D * 1440 + minutes_or_0 (pw_start w) + window_duration w - off) * 60000)"
proof -
  show "window_start_at z tz day w = Inr ((D * 1440 + minutes_or_0 (pw_start w) - off) * 60000)"
    unfolding window_start_at_def by (rule localBoundary_fixed [OF z day])
  have "day + (if overnight w then DAY_MS else 0) = (D + (if overnight w then 1 else 0)) * DAY_MS"
    using day by (simp add: algebra_simps)
  from localBoundary_fixed [OF z this]
  show "window_end_at z tz day w
      = Inr ((D * 1440 + minutes_or_0 (pw_start w) + window_duration w - off) * 60000)"
    unfolding window_end_at_def window_duration_cases(1) [OF w] by (simp split: if_splits)
qed

definition week_minute :: "int \<Rightarrow> int \<Rightarrow> int" where
  "week_minute off now = (now div 60000 + off + 5760) mod 10080"

definition runs_from :: "power_window \<Rightarrow> int \<Rightarrow> int \<Rightarrow> bool" where
  \<comment> \<open>the window that starts on local day \<open>D\<close> is open at local minute \<open>M\<close>\<close>
  "runs_from w D M = (dayActive (pw_days w) (nat ((D + 4) mod 7)) \<and>
     D * 1440 + minutes_or_0 (pw_start w) \<le> M \<and>
     M < D * 1440 + minutes_or_0 (pw_start w) + window_duration w)"

lemma week_day_arith:
  fixes M s L r q d D :: int
  assumes "0 \<le> s" "s < 1440" "L < 1440" "0 \<le> r" "r < L"
    and q: "M + 5760 - d * 1440 - s = 10080 * q + r" and D: "D = 7 * q + d - 4"
  shows "D * 1440 + s \<le> M" "M < D * 1440 + s + L" "D = M div 1440 \<or> D = M div 1440 - 1"
proof -
  have "1440 * (M div 1440) + M mod 1440 = M" "0 \<le> M mod 1440" "M mod 1440 < 1440"
    by (simp_all add: mult_div_mod_eq)
  then show "D * 1440 + s \<le> M" "M < D * 1440 + s + L" "D = M div 1440 \<or> D = M div 1440 - 1"
    using assms by linarith+
qed

lemma covers_iff_runs:
  assumes w: "window_valid w"
  shows "covers w ((M + 5760) mod 10080) \<longleftrightarrow> runs_from w (M div 1440 - 1) M \<or> runs_from w (M div 1440) M"
proof
  note t = window_valid_times [OF w] and L = window_duration_cases(2,3) [OF w]
  let ?s = "minutes_or_0 (pw_start w)"
  have shift: "((M + 5760) mod 10080 - (d * 1440 + ?s)) mod 10080 = (M + 5760 - d * 1440 - ?s) mod 10080" for d
    by (simp add: mod_diff_left_eq diff_diff_eq)
  {
    assume "covers w ((M + 5760) mod 10080)"
    then obtain d where d: "d < 7" "dayActive (pw_days w) d"
        "(M + 5760 - int d * 1440 - ?s) mod 10080 < window_duration w"
      unfolding covers_def shift by blast
    let ?x = "M + 5760 - int d * 1440 - ?s"
    have split: "?x = 10080 * (?x div 10080) + ?x mod 10080" by (simp add: mult_div_mod_eq)
    define D where "D = 7 * (?x div 10080) + int d - 4"
    have "D * 1440 + ?s \<le> M" "M < D * 1440 + ?s + window_duration w"
        "D = M div 1440 \<or> D = M div 1440 - 1"
      using week_day_arith [OF t(1,2) L(2) _ d(3) split D_def] by simp_all
    moreover have "nat ((D + 4) mod 7) = d"
      using d(1) by (simp add: D_def)
    ultimately show "runs_from w (M div 1440 - 1) M \<or> runs_from w (M div 1440) M"
      using d(2) by (auto simp: runs_from_def)
  }
  {
    assume "runs_from w (M div 1440 - 1) M \<or> runs_from w (M div 1440) M"
    then obtain D where D: "runs_from w D M" by blast
    let ?d = "nat ((D + 4) mod 7)"
    have d: "int ?d = (D + 4) mod 7" "?d < 7" by (simp_all add: nat_less_iff)
    have "D + 4 = 7 * ((D + 4) div 7) + int ?d" by (simp add: d(1) mult_div_mod_eq)
    then have "M + 5760 - int ?d * 1440 - ?s = (M - ?s - D * 1440) + 10080 * ((D + 4) div 7)"
      by linarith
    then have "(M + 5760 - int ?d * 1440 - ?s) mod 10080 = (M - ?s - D * 1440) mod 10080"
      by (simp only: mod_mult_self2)
    also have "\<dots> = M - ?s - D * 1440"
      using D L by (intro mod_pos_pos_trivial) (auto simp: runs_from_def)
    finally have "(M + 5760 - int ?d * 1440 - ?s) mod 10080 < window_duration w"
      using D by (simp add: runs_from_def)
    then show "covers w ((M + 5760) mod 10080)"
      unfolding covers_def shift using d(2) D by (auto simp: runs_from_def)
  }
qed

lemma active_window_fixed:
  assumes z: "fixed_offset z tz off"
    and c: "\<forall>(day, w) \<in> set cs. window_valid w \<and> (\<exists>D. day = D * DAY_MS)"
  shows "active_window z tz now cs = Inr (map_option (\<lambda>(day, w). pw_mode w)
    (find (\<lambda>(day, w). runs_from w (day div DAY_MS) (now div 60000 + off)) cs))"
  using c
proof (induction cs)
  case Nil
  then show ?case by simp
next
  case (Cons c cs)
  obtain day w where c: "c = (day, w)" by (cases c)
  with Cons.prems obtain D where D: "day = D * DAY_MS" and w: "window_valid w" by auto
  have q: "day div DAY_MS = D" by (simp add: D DAY_MS_def)
  have IH: "active_window z tz now cs = Inr (map_option (\<lambda>(day, w). pw_mode w)
    (find (\<lambda>(day, w). runs_from w (day div DAY_MS) (now div 60000 + off)) cs))"
    using Cons.prems by (intro Cons.IH) auto
  have M: "(D * 1440 + minutes_or_0 (pw_start w) - off) * 60000 \<le> now \<longleftrightarrow>
        D * 1440 + minutes_or_0 (pw_start w) \<le> now div 60000 + off"
      "now < (D * 1440 + minutes_or_0 (pw_start w) + window_duration w - off) * 60000 \<longleftrightarrow>
        now div 60000 + off < D * 1440 + minutes_or_0 (pw_start w) + window_duration w"
    unfolding ms_minutes by linarith+
  have r: "runs_from w (day div DAY_MS) (now div 60000 + off) \<longleftrightarrow>
      dayActive (pw_days w) (getUTCDay day) \<and>
      (D * 1440 + minutes_or_0 (pw_start w) - off) * 60000 \<le> now \<and>
      now < (D * 1440 + minutes_or_0 (pw_start w) + window_duration w - off) * 60000"
    unfolding M runs_from_def q getUTCDay_def by blast
  show ?case
    unfolding c active_window.simps window_at_fixed [OF z w D] bind_err_simps IH
    by (simp add: r del: dayActive_bit)
qed

lemma sorted_wrt_member:
  assumes "sorted_wrt (\<lambda>w w'. \<not> R w w') ws" "\<And>w w'. R w w' \<longleftrightarrow> R w' w"
    "w \<in> set ws" "w' \<in> set ws" "R w w'"
  shows "w = w'"
  using assms by (induction ws) auto

text \<open>
  A schedule that validates has at most one window over any minute of the week, so the order of the
  windows and of the two days the code looks at does not matter.
\<close>

lemma covering_unique:
  assumes ok: "schedule_ok z s" and w: "w \<in> set (ws_windows s)" "covers w (week_minute off now)"
    and w': "w' \<in> set (ws_windows s)" "covers w' (week_minute off now)"
  shows "w = w'"
proof -
  have v: "window_valid w" "window_valid w'" using ok w(1) w'(1) by (auto simp: schedule_ok_def)
  have "0 \<le> week_minute off now" "week_minute off now < 10080" by (simp_all add: week_minute_def)
  then have "windows_clash w w'"
    using w(2) w'(2) v by (auto simp: windows_clash_def occupied_iff_covers)
  then show ?thesis
    using ok w(1) w'(1) sorted_wrt_member [of windows_clash "ws_windows s" w w']
    by (auto simp: schedule_ok_def windows_clash_def)
qed

lemma scheduledModeAt_fixed:
  assumes ok: "schedule_ok z s" and z: "fixed_offset z (ws_timezone s) off"
  shows "scheduledModeAt z s now =
    Inr (case find (\<lambda>w. covers w (week_minute off now)) (ws_windows s) of
           Some w \<Rightarrow> pw_mode w | None \<Rightarrow> ws_defaultMode s)"
proof -
  let ?M = "now div 60000 + off"
  let ?today = "local_day z (ws_timezone s) now"
  let ?cs = "concat (map (\<lambda>day. map (Pair day) (ws_windows s)) [?today - DAY_MS, ?today])"
  let ?run = "\<lambda>(day, w). runs_from w (day div DAY_MS) ?M"
  have "?M * 60000 div DAY_MS = ?M div 1440"
    unfolding DAY_MS_def using div_mult_mult2 [of 60000 ?M 1440] by simp
  then have today: "?today = (?M div 1440) * DAY_MS"
    using z by (simp add: local_day_def fixed_offset_def)
  have before: "?today - DAY_MS = (?M div 1440 - 1) * DAY_MS" by (simp add: today algebra_simps)
  have div: "?today div DAY_MS = ?M div 1440" "(?today - DAY_MS) div DAY_MS = ?M div 1440 - 1"
    unfolding before unfolding today by (simp_all add: DAY_MS_def)
  have valid: "\<forall>w \<in> set (ws_windows s). window_valid w" using ok by (simp add: schedule_ok_def)
  have cs: "\<forall>(day, w) \<in> set ?cs. window_valid w \<and> (\<exists>D. day = D * DAY_MS)"
    using valid before today by auto
  have some: "covers w (week_minute off now) \<longleftrightarrow> (\<exists>day. (day, w) \<in> set ?cs \<and> ?run (day, w))"
    if "w \<in> set (ws_windows s)" for w
    using covers_iff_runs [of w ?M] valid that by (auto simp: week_minute_def div)
  have "map_option (\<lambda>(day, w). pw_mode w) (find ?run ?cs)
      = map_option pw_mode (find (\<lambda>w. covers w (week_minute off now)) (ws_windows s))"
  proof (cases "find ?run ?cs")
    case None
    then have "\<not> covers w (week_minute off now)" if "w \<in> set (ws_windows s)" for w
      using some [OF that] unfolding find_None_iff by blast
    then have "find (\<lambda>w. covers w (week_minute off now)) (ws_windows s) = None"
      by (simp add: find_None_iff)
    with None show ?thesis by simp
  next
    case (Some dw)
    obtain day w where dw: "dw = (day, w)" by (cases dw)
    have "(day, w) \<in> set ?cs" "?run (day, w)"
      using find_Some_D [OF Some] dw by simp_all
    then have w: "w \<in> set (ws_windows s)" "covers w (week_minute off now)"
      using some by auto
    then obtain w' where w': "find (\<lambda>w. covers w (week_minute off now)) (ws_windows s) = Some w'"
      by (cases "find (\<lambda>w. covers w (week_minute off now)) (ws_windows s)") (auto simp: find_None_iff)
    then have "w' = w" using covering_unique [OF ok] w find_Some_D [OF w'] by metis
    with Some dw w' show ?thesis by simp
  qed
  moreover have "validatePowerSchedule z s = Inr ()" using ok by (simp add: validatePowerSchedule_Inr)
  ultimately show ?thesis
    unfolding scheduledModeAt_def Let_def using active_window_fixed [OF z cs, of now]
    by (simp split: option.splits)
qed

section \<open>Boundaries between two instants\<close>

lemma runs_from_days:
  assumes w: "window_valid w" and r: "runs_from w D M"
  shows "D = M div 1440 \<or> D = M div 1440 - 1"
proof -
  have "1440 * (M div 1440) + M mod 1440 = M" "0 \<le> M mod 1440" "M mod 1440 < 1440"
    by (simp_all add: mult_div_mod_eq)
  then show ?thesis
    using window_valid_times(1,2) [OF w] window_duration_cases(2,3) [OF w] r
    unfolding runs_from_def by linarith
qed

lemma covers_iff_runs_ex:
  "window_valid w \<Longrightarrow> covers w ((M + 5760) mod 10080) \<longleftrightarrow> (\<exists>D. runs_from w D M)"
  using covers_iff_runs runs_from_days by blast

lemma cover_change:
  assumes w: "window_valid w"
    and ch: "covers w ((M - 1 + 5760) mod 10080) \<noteq> covers w ((M + 5760) mod 10080)"
  obtains D where "dayActive (pw_days w) (nat ((D + 4) mod 7))"
    and "M = D * 1440 + minutes_or_0 (pw_start w) \<or>
         M = D * 1440 + minutes_or_0 (pw_start w) + window_duration w"
    and "(M - 1) div 1440 - 1 \<le> D" and "D \<le> M div 1440"
proof -
  have m: "(M - 1) div 1440 = M div 1440 \<or> (M - 1) div 1440 = M div 1440 - 1"
  proof -
    have "1440 * (M div 1440) + M mod 1440 = M" "0 \<le> M mod 1440" "M mod 1440 < 1440"
      "1440 * ((M - 1) div 1440) + (M - 1) mod 1440 = M - 1" "0 \<le> (M - 1) mod 1440" "(M - 1) mod 1440 < 1440"
      by (simp_all add: mult_div_mod_eq)
    then show ?thesis by linarith
  qed
  have runs: "(\<exists>D. runs_from w D (M - 1)) \<noteq> (\<exists>D. runs_from w D M)"
    using ch unfolding covers_iff_runs_ex [OF w] .
  then consider D where "runs_from w D M" "\<not> runs_from w D (M - 1)"
    | D where "runs_from w D (M - 1)" "\<not> runs_from w D M" by blast
  then show ?thesis
  proof cases
    case 1
    then have "M = D * 1440 + minutes_or_0 (pw_start w)" by (auto simp: runs_from_def)
    with 1 that [of D] runs_from_days [OF w 1(1)] show ?thesis by (auto simp: runs_from_def)
  next
    case 2
    then have "M = D * 1440 + minutes_or_0 (pw_start w) + window_duration w"
      by (auto simp: runs_from_def)
    with 2 that [of D] runs_from_days [OF w 2(1)] m show ?thesis by (auto simp: runs_from_def)
  qed
qed

lemma boundaries_of_day_fixed:
  assumes ok: "schedule_ok z s" and z: "fixed_offset z (ws_timezone s) off"
  shows "boundaries_of_day z s (D * DAY_MS) = Inr (concat (map (\<lambda>w.
      [(D * 1440 + minutes_or_0 (pw_start w) - off) * 60000,
       (D * 1440 + minutes_or_0 (pw_start w) + window_duration w - off) * 60000])
    (filter (\<lambda>w. dayActive (pw_days w) (nat ((D + 4) mod 7))) (ws_windows s))))"
proof -
  have day: "getUTCDay (D * DAY_MS) = nat ((D + 4) mod 7)" by (simp add: getUTCDay_def DAY_MS_def)
  have valid: "window_valid w" if "w \<in> set (ws_windows s)" for w
    using ok that by (simp add: schedule_ok_def)
  show ?thesis
    unfolding boundaries_of_day_def day
    by (subst map_err_all) (auto simp: window_at_fixed [OF z valid refl])
qed

lemma changed_find:
  assumes "(case find P xs of Some w \<Rightarrow> f w | None \<Rightarrow> d) \<noteq> (case find Q xs of Some w \<Rightarrow> f w | None \<Rightarrow> d)"
  obtains w where "w \<in> set xs" "P w \<noteq> Q w"
  using assms find_cong [of xs xs P Q] by metis

lemma mode_change_boundary:
  assumes ok: "schedule_ok z s" and z: "fixed_offset z (ws_timezone s) off"
    and ch: "scheduledModeAt z s (t - 1) \<noteq> scheduledModeAt z s t"
  obtains D w where "w \<in> set (ws_windows s)" "dayActive (pw_days w) (nat ((D + 4) mod 7))"
    and "t = (D * 1440 + minutes_or_0 (pw_start w) - off) * 60000 \<or>
         t = (D * 1440 + minutes_or_0 (pw_start w) + window_duration w - off) * 60000"
    and "((t - 1) div 60000 + off) div 1440 - 1 \<le> D" and "D \<le> (t div 60000 + off) div 1440"
proof -
  let ?M = "t div 60000 + off"
  obtain w where w: "w \<in> set (ws_windows s)"
      "covers w (week_minute off (t - 1)) \<noteq> covers w (week_minute off t)"
    using ch unfolding scheduledModeAt_fixed [OF ok z] by (auto elim: changed_find)
  have valid: "window_valid w" using ok w(1) by (simp add: schedule_ok_def)
  have "60000 * (t div 60000) + t mod 60000 = t" "0 \<le> t mod 60000" "t mod 60000 < 60000"
    "60000 * ((t - 1) div 60000) + (t - 1) mod 60000 = t - 1" "0 \<le> (t - 1) mod 60000" "(t - 1) mod 60000 < 60000"
    by (simp_all add: mult_div_mod_eq)
  then have "(t - 1) div 60000 = t div 60000 \<or> (t - 1) div 60000 = t div 60000 - 1 \<and> t = t div 60000 * 60000"
    by linarith
  then have t: "(t - 1) div 60000 + off = ?M - 1" "t = (?M - off) * 60000"
    using w(2) by (auto simp: week_minute_def)
  obtain D where D: "dayActive (pw_days w) (nat ((D + 4) mod 7))"
      "?M = D * 1440 + minutes_or_0 (pw_start w) \<or>
       ?M = D * 1440 + minutes_or_0 (pw_start w) + window_duration w"
      "(?M - 1) div 1440 - 1 \<le> D" "D \<le> ?M div 1440"
    using cover_change [OF valid, of ?M] w(2) unfolding week_minute_def t(1) by metis
  show thesis
    by (rule that [OF w(1) D(1) _ D(3) [folded t(1)] D(4)]) (use D(2) t(2) in metis)
qed

lemma day_range:
  fixes from_ms t until_ms off D :: int
  assumes "from_ms < t" "t < until_ms" "((t - 1) div 60000 + off) div 1440 - 1 \<le> D"
    "D \<le> (t div 60000 + off) div 1440"
  defines "F \<equiv> (from_ms div 60000 + off) div 1440"
  shows "F - 1 \<le> D" and "D - (F - 1) < - ((from_ms - until_ms) div 86400000) + 4"
proof -
  let ?T = "(t div 60000 + off) div 1440"
  have "from_ms div 60000 \<le> (t - 1) div 60000" using assms(1) by (intro zdiv_mono1) auto
  then have "F \<le> ((t - 1) div 60000 + off) div 1440" unfolding F_def by (intro zdiv_mono1) auto
  then show "F - 1 \<le> D" using assms(3) by linarith
  let ?q = "(from_ms - until_ms) div 86400000"
  have "86400000 * ?q + (from_ms - until_ms) mod 86400000 = from_ms - until_ms"
    "0 \<le> (from_ms - until_ms) mod 86400000" by (simp_all add: mult_div_mod_eq)
  then have "t \<le> from_ms + (- ?q * 1440) * 60000" using assms(2) by linarith
  then have "t div 60000 \<le> (from_ms + (- ?q * 1440) * 60000) div 60000" by (rule zdiv_mono1) simp
  also have "\<dots> = from_ms div 60000 + - ?q * 1440" by (subst div_mult_self1) simp_all
  finally have "t div 60000 + off \<le> (from_ms div 60000 + off) + - ?q * 1440" by linarith
  then have "?T \<le> ((from_ms div 60000 + off) + - ?q * 1440) div 1440" by (rule zdiv_mono1) simp
  also have "\<dots> = F + - ?q" unfolding F_def by (subst div_mult_self1) simp_all
  finally show "D - (F - 1) < - ?q + 4" using assms(4) by linarith
qed

lemma concat_upt_mem: "i < n \<Longrightarrow> t \<in> set (f i) \<Longrightarrow> t \<in> set (concat (map f [0..<n]))"
  by auto

lemma boundaries_contain_change:
  assumes ok: "schedule_ok z s" and en: "ws_enabled s" and z: "fixed_offset z (ws_timezone s) off"
    and t: "from_ms < t" "t < until_ms"
    and ch: "scheduledModeAt z s (t - 1) \<noteq> scheduledModeAt z s t"
  shows "\<exists>ts. scheduleBoundaryInstants z s from_ms until_ms = Inr ts \<and> t \<in> set ts"
proof -
  let ?F = "(from_ms div 60000 + off) div 1440"
  let ?n = "nat (- ((from_ms - until_ms) div DAY_MS) + 4)"
  let ?bs = "\<lambda>D. concat (map (\<lambda>w.
      [(D * 1440 + minutes_or_0 (pw_start w) - off) * 60000,
       (D * 1440 + minutes_or_0 (pw_start w) + window_duration w - off) * 60000])
    (filter (\<lambda>w. dayActive (pw_days w) (nat ((D + 4) mod 7))) (ws_windows s)))"
  obtain D w where D: "w \<in> set (ws_windows s)" "dayActive (pw_days w) (nat ((D + 4) mod 7))"
      "t = (D * 1440 + minutes_or_0 (pw_start w) - off) * 60000 \<or>
       t = (D * 1440 + minutes_or_0 (pw_start w) + window_duration w - off) * 60000"
      and r: "((t - 1) div 60000 + off) div 1440 - 1 \<le> D" "D \<le> (t div 60000 + off) div 1440"
    using mode_change_boundary [OF ok z ch] by blast
  have "(from_ms div 60000 + off) * 60000 div DAY_MS = ?F"
    unfolding DAY_MS_def using div_mult_mult2 [of 60000 "from_ms div 60000 + off" 1440] by simp
  then have first: "local_day z (ws_timezone s) from_ms = ?F * DAY_MS"
    using z by (simp add: local_day_def fixed_offset_def)
  have step: "?F * DAY_MS - DAY_MS + int i * DAY_MS = (?F - 1 + int i) * DAY_MS" for i
    by (simp add: algebra_simps)
  have all: "map_err (\<lambda>index. boundaries_of_day z s (?F * DAY_MS - DAY_MS + int index * DAY_MS)) [0..<?n]
      = Inr (map (\<lambda>index. ?bs (?F - 1 + int index)) [0..<?n])"
    unfolding step boundaries_of_day_fixed [OF ok z] by (rule map_err_all) simp
  define i where "i = nat (D - (?F - 1))"
  have i: "?F - 1 + int i = D" "i < ?n"
    using day_range [OF t r] by (auto simp: i_def DAY_MS_def)
  have "w \<in> set (filter (\<lambda>w. dayActive (pw_days w) (nat ((D + 4) mod 7))) (ws_windows s))"
    using D(1,2) by (simp del: dayActive_bit)
  then have "t \<in> set (?bs D)" unfolding set_concat set_map using D(3)
    by (intro UN_I [OF imageI]) auto
  then have "t \<in> set (?bs (?F - 1 + int i))" unfolding i(1) .
  with i(2) have "t \<in> set (concat (map (\<lambda>index. ?bs (?F - 1 + int index)) [0..<?n]))"
    by (rule concat_upt_mem)
  then obtain bs where bs: "map_err (\<lambda>index. boundaries_of_day z s (?F * DAY_MS - DAY_MS + int index * DAY_MS)) [0..<?n]
      = Inr bs" "t \<in> set (concat bs)"
    unfolding all by blast
  have "validatePowerSchedule z s = Inr ()" using ok by (simp add: validatePowerSchedule_Inr)
  then have "scheduleBoundaryInstants z s from_ms until_ms
      = Inr (sort (remdups (filter (\<lambda>t. from_ms < t \<and> t < until_ms) (concat bs))))"
    unfolding scheduleBoundaryInstants_def Let_def first bs(1) using en
    by (simp only: bind_err_simps if_False not_True_eq_False)
  moreover have "t \<in> set (sort (remdups (filter (\<lambda>t. from_ms < t \<and> t < until_ms) (concat bs))))"
    using bs(2) t by simp
  ultimately show ?thesis by blast
qed

section \<open>Boundaries in any zone\<close>

lemma find_map_upt:
  assumes "find P (map f [0..<n]) = Some y"
  shows "\<exists>a < n. y = f a \<and> P y \<and> (\<forall>b < a. \<not> P (f b))"
  using assms unfolding find_Some_iff by auto

lemma localBoundary_Inr:
  assumes "localBoundary z day t tz occ = Inr r"
  obtains a where "a < 181" "r \<in> set (boundary_matches z tz (day + minutes_or_0 t * 60000 + int a * 60000))"
    "\<And>b. b < a \<Longrightarrow> boundary_matches z tz (day + minutes_or_0 t * 60000 + int b * 60000) = []"
proof -
  define f where "f = (\<lambda>a. boundary_matches z tz (day + minutes_or_0 t * 60000 + int a * 60000))"
  obtain ms where ms: "find (\<lambda>ms. ms \<noteq> []) (map f [0..<181]) = Some ms"
    and r: "r = (case occ of Earlier \<Rightarrow> Min (set ms) | Later \<Rightarrow> Max (set ms))"
    using assms unfolding localBoundary_def Let_def f_def by (auto split: option.splits)
  obtain a where a: "a < 181" "ms = f a" "ms \<noteq> []" "\<And>b. b < a \<Longrightarrow> f b = []"
    using find_map_upt [OF ms] by blast
  have "r \<in> set ms" unfolding r using a(3) by (cases occ) (simp_all only: occurrence.case, simp_all)
  with a that show thesis unfolding f_def by blast
qed

lemma localBoundary_occurrences:
  assumes "localBoundary z day t tz Earlier = Inr a" "localBoundary z day t tz Later = Inr b"
  shows "a \<le> b" and "wallMs z tz a = wallMs z tz b"
proof -
  define f where "f = (\<lambda>a. boundary_matches z tz (day + minutes_or_0 t * 60000 + int a * 60000))"
  obtain ms where ms: "find (\<lambda>ms. ms \<noteq> []) (map f [0..<181]) = Some ms" "a = Min (set ms)" "b = Max (set ms)"
    using assms unfolding localBoundary_def Let_def f_def by (auto split: option.splits)
  then have ne: "ms \<noteq> []" and ex: "\<exists>k. ms = f k" using find_map_upt [OF ms(1)] by auto
  show "a \<le> b" unfolding ms(2,3) using ne by simp
  have "a \<in> set ms" "b \<in> set ms" unfolding ms(2,3) using ne by simp_all
  then show "wallMs z tz a = wallMs z tz b" using ex by (auto simp: f_def boundary_matches_def)
qed

section \<open>Properties\<close>

lemma mod_circle:
  fixes x a L :: int
  assumes "0 \<le> x" "x < 10080" "0 \<le> a" "a < 10080"
  shows "(x - a) mod 10080 < L \<longleftrightarrow> (a \<le> x \<and> x - a < L) \<or> (x < a \<and> x - a + 10080 < L)"
proof (cases "a \<le> x")
  case True
  then have "(x - a) mod 10080 = x - a" using assms by (intro mod_pos_pos_trivial) auto
  with True show ?thesis by auto
next
  case False
  have "(x - a) mod 10080 = (x - a + 10080) mod 10080" by simp
  also have "\<dots> = x - a + 10080" using assms False by (intro mod_pos_pos_trivial) auto
  finally show ?thesis using False by auto
qed

definition fixed_intl :: "int \<Rightarrow> intl" where
  "fixed_intl off =
     \<lparr>isValidTimezone = (\<lambda>_. True), wallMs = (\<lambda>_ t. (t div 60000 + off) * 60000), isoText = (\<lambda>_. [])\<rparr>"

lemma fixed_intl_offset [simp]: "fixed_offset (fixed_intl off) tz off"
  by (simp add: fixed_offset_def fixed_intl_def)

definition night_schedule :: weekly_schedule where
  "night_schedule =
     \<lparr>ws_enabled = True, ws_timezone = ''UTC'', ws_defaultMode = Dynamic,
      ws_windows = [\<lparr>pw_days = 127, pw_start = ''22:00'', pw_end = ''06:00'', pw_mode = Low\<rparr>],
      ws_version = 1\<rparr>"

lemma night_schedule_valid: "validatePowerSchedule (fixed_intl off) night_schedule = Inr ()"
proof -
  have "window_valid \<lparr>pw_days = 127, pw_start = ''22:00'', pw_end = ''06:00'', pw_mode = Low\<rparr>"
    by code_simp
  then show ?thesis
    by (simp add: validatePowerSchedule_Inr schedule_ok_def night_schedule_def fixed_intl_def isWritablePowerMode_def)
qed

lemma find_exists: "x \<in> set xs \<Longrightarrow> P x \<Longrightarrow> \<exists>y. find P xs = Some y"
  by (induction xs) auto

text \<open>C25: For a schedule that passes validation, in a zone with a fixed UTC offset, the mode at an
  instant is the mode of the window whose weekly circle (Sunday 00:00 based, the start day owns an
  overnight window) covers that local minute, and the default mode when no window does.\<close>

theorem scheduled_mode_is_covering_window:
  assumes "validatePowerSchedule z s = Inr ()" "fixed_offset z (ws_timezone s) off"
  shows "(\<forall>w \<in> set (ws_windows s). covers w (week_minute off now)
            \<longrightarrow> scheduledModeAt z s now = Inr (pw_mode w)) \<and>
         ((\<forall>w \<in> set (ws_windows s). \<not> covers w (week_minute off now))
            \<longrightarrow> scheduledModeAt z s now = Inr (ws_defaultMode s))"
proof -
  have ok: "schedule_ok z s" using assms(1) by (simp add: validatePowerSchedule_Inr)
  note mode = scheduledModeAt_fixed [OF ok assms(2), of now]
  have "scheduledModeAt z s now = Inr (pw_mode w)"
    if c: "w \<in> set (ws_windows s)" "covers w (week_minute off now)" for w
  proof -
    obtain w' where w': "find (\<lambda>w. covers w (week_minute off now)) (ws_windows s) = Some w'"
      using find_exists [where P = "\<lambda>w. covers w (week_minute off now)", OF c] by blast
    then have "w' = w" using covering_unique [OF ok] c find_Some_D [OF w'] by metis
    with w' show ?thesis by (simp add: mode)
  qed
  moreover have "scheduledModeAt z s now = Inr (ws_defaultMode s)"
    if "\<forall>w \<in> set (ws_windows s). \<not> covers w (week_minute off now)"
    using that find_None_iff [of "\<lambda>w. covers w (week_minute off now)" "ws_windows s"] by (auto simp: mode)
  ultimately show ?thesis by blast
qed

theorem scheduled_mode_is_covering_window_witness:
  "scheduledModeAt (fixed_intl 60) night_schedule (23 * 3600000) = Inr Low"
proof -
  have "covers (hd (ws_windows night_schedule)) (week_minute 60 (23 * 3600000))" by code_simp
  moreover have "ws_windows night_schedule = [hd (ws_windows night_schedule)]"
      "pw_mode (hd (ws_windows night_schedule)) = Low" by (simp_all add: night_schedule_def)
  ultimately show ?thesis
    using scheduled_mode_is_covering_window [OF night_schedule_valid [of 60] fixed_intl_offset, of "23 * 3600000"]
    by (metis list.set_intros(1))
qed

text \<open>In a zone with a fixed UTC offset, \<open>scheduleBoundaryInstants\<close> misses no change of mode:
  every instant strictly inside the range at which the scheduled mode differs from the millisecond
  before is one of the boundaries it returns (they release a drift hold and end an override).\<close>

theorem boundaries_miss_no_change:
  assumes "validatePowerSchedule z s = Inr ()" "ws_enabled s" "fixed_offset z (ws_timezone s) off"
    and "from_ms < t" "t < until_ms" "scheduledModeAt z s (t - 1) \<noteq> scheduledModeAt z s t"
  shows "\<exists>ts. scheduleBoundaryInstants z s from_ms until_ms = Inr ts \<and> t \<in> set ts"
  using assms by (intro boundaries_contain_change) (simp_all add: validatePowerSchedule_Inr)

lemma ex_less_7: "(\<exists>d < (7::nat). P d) \<longleftrightarrow> P 0 \<or> P 1 \<or> P 2 \<or> P 3 \<or> P 4 \<or> P 5 \<or> P 6"
  unfolding less_7_cases by blast

lemma night_windows:
  "ws_windows night_schedule = [\<lparr>pw_days = 127, pw_start = ''22:00'', pw_end = ''06:00'', pw_mode = Low\<rparr>]"
  by (simp add: night_schedule_def)

lemma night_opens: "scheduledModeAt (fixed_intl 0) night_schedule (22 * 3600000 - 1) = Inr Dynamic"
    "scheduledModeAt (fixed_intl 0) night_schedule (22 * 3600000) = Inr Low"
proof -
  have ok: "schedule_ok (fixed_intl 0) night_schedule"
    using night_schedule_valid by (simp add: validatePowerSchedule_Inr)
  have "\<not> covers (hd (ws_windows night_schedule)) (week_minute 0 (22 * 3600000 - 1))"
    "covers (hd (ws_windows night_schedule)) (week_minute 0 (22 * 3600000))"
  proof -
    have "week_minute 0 (22 * 3600000 - 1) = 7079" "week_minute 0 (22 * 3600000) = 7080"
      by (simp_all add: week_minute_def)
    moreover have "minutes_or_0 ''22:00'' = 1320"
        "window_duration \<lparr>pw_days = 127, pw_start = ''22:00'', pw_end = ''06:00'', pw_mode = Low\<rparr> = 480"
      by code_simp+
    then have "\<not> covers (hd (ws_windows night_schedule)) 7079" "covers (hd (ws_windows night_schedule)) 7080"
      unfolding night_windows list.sel covers_def ex_less_7 by simp_all
    ultimately show "\<not> covers (hd (ws_windows night_schedule)) (week_minute 0 (22 * 3600000 - 1))"
      "covers (hd (ws_windows night_schedule)) (week_minute 0 (22 * 3600000))" by simp_all
  qed
  then have "find (\<lambda>w. covers w (week_minute 0 (22 * 3600000 - 1))) (ws_windows night_schedule) = None"
    "find (\<lambda>w. covers w (week_minute 0 (22 * 3600000))) (ws_windows night_schedule)
       = Some (hd (ws_windows night_schedule))"
    by (simp_all only: night_windows list.sel find.simps if_True if_False)
  then show "scheduledModeAt (fixed_intl 0) night_schedule (22 * 3600000 - 1) = Inr Dynamic"
    "scheduledModeAt (fixed_intl 0) night_schedule (22 * 3600000) = Inr Low"
    unfolding scheduledModeAt_fixed [OF ok fixed_intl_offset]
    by (simp_all only: option.case) (simp_all add: night_schedule_def)
qed


end
