(* ===== verification/Power_Decision.thy ===== *)
theory Power_Decision
  imports Power_Rate Power_Schedule
begin

text \<open>
  The power decision, the third part of \<open>services/powerPolicy.ts\<close>: price rules with hysteresis
  latches, the validity of a price, and \<open>resolvePowerDecision\<close>, which picks the target mode or
  none. Stored schedules and price policies are records whose \<open>typeof\<close> checks hold by their
  types; a mode may still be any string (\<open>Other\<close>). The parsed instants of a price are options,
  \<open>None\<close> where \<open>Date.parse\<close> gives \<open>NaN\<close>.
\<close>

record price_rule =
  pr_enabled :: bool
  pr_threshold :: string
  pr_hysteresis :: string

record expensive_rule = price_rule +
  pr_capMode :: power_mode

record price_policy =
  pp_enabled :: bool
  pp_basis :: string
  pp_contractRef :: string
  pp_area :: string
  pp_priceOnlyDefault :: "power_mode option"
  pp_minUpshift :: "int option"
  pp_expensive :: expensive_rule
  pp_cheap :: price_rule
  pp_version :: int

record applicable_price =
  ap_rate :: string
  ap_basis :: string
  ap_contract_ref :: string
  ap_area :: string
  ap_start :: "int option"
  ap_end :: "int option"
  ap_status :: string
  ap_contract_revision :: string
  ap_source_revision :: string

record price_latch =
  l_expensive :: bool
  l_cheap :: bool
  l_policyVersion :: int
  l_priceRevision :: string

record manual_override =
  mo_mode :: power_mode
  mo_expiresAt :: "int option"

record decision_input =
  di_now :: int
  di_controlEnabled :: bool
  di_paused :: bool
  di_driftHold :: bool
  di_actual :: power_mode
  di_supported :: "power_mode list"
  di_schedule :: weekly_schedule
  di_policy :: price_policy
  di_price :: "applicable_price option"
  di_previousLatch :: "price_latch option"
  di_override :: "manual_override option"
  di_manualAction :: bool

datatype decision_reason =
    Disabled | Paused | Drift_hold | Unsafe_actual_mode | Unsupported_mode
  | No_automation | Manual | By_schedule | By_default | Price_high | Price_low
  | Price_unavailable_fallback | Policy_invalid

datatype price_status = Status_disabled | Status_valid | Status_unavailable

record power_decision =
  pd_target :: "power_mode option"
  pd_base :: "power_mode option"
  pd_actual :: power_mode
  pd_reason :: decision_reason
  pd_priceStatus :: price_status
  pd_validUntil :: "int option"
  pd_latch :: price_latch
  pd_policyError :: "string option"

section \<open>Validation\<close>

definition rule_rate :: "bool \<Rightarrow> string \<Rightarrow> int fallible" where
  \<comment> \<open>\<open>rule.enabled ? parseDkkPerKwh(text) : 0n\<close>\<close>
  "rule_rate enabled txt = (if enabled then parseDkkPerKwh txt else Inr 0)"

definition PRICE_BASES :: "string list" where
  "PRICE_BASES = [''variable_retail_including_vat'', ''spot_only_excluding_retail_additions'']"

definition validatePricePolicy :: "price_policy \<Rightarrow> unit fallible" where
  "validatePricePolicy policy =
     guard_err (pp_basis policy \<notin> set PRICE_BASES) ''Invalid price basis'' (
     guard_err (pp_enabled policy \<and> (pp_contractRef policy = [] \<or> pp_area policy = []))
       ''Price contract and area required'' (
     guard_err (case pp_priceOnlyDefault policy of Some m \<Rightarrow> m \<noteq> Other [] \<and> \<not> isWritablePowerMode m | None \<Rightarrow> False)
       ''Invalid price-only default'' (
     guard_err (case pp_minUpshift policy of Some m \<Rightarrow> m < 0 \<or> m > 1440 | None \<Rightarrow> False)
       ''Invalid minimum automatic upshift interval'' (
     guard_err (pr_capMode (pp_expensive policy) \<notin> {Low, Dynamic}) ''Invalid expensive-price cap mode'' (
     bind_err (rule_rate (pr_enabled (pp_expensive policy)) (pr_threshold (pp_expensive policy))) (\<lambda>upper.
     bind_err (rule_rate (pr_enabled (pp_cheap policy)) (pr_threshold (pp_cheap policy))) (\<lambda>lower.
     bind_err (rule_rate (pr_enabled (pp_expensive policy)) (pr_hysteresis (pp_expensive policy))) (\<lambda>upperHysteresis.
     bind_err (rule_rate (pr_enabled (pp_cheap policy)) (pr_hysteresis (pp_cheap policy))) (\<lambda>lowerHysteresis.
     guard_err (upperHysteresis < 0 \<or> lowerHysteresis < 0) ''Hysteresis cannot be negative'' (
     guard_err (pr_enabled (pp_expensive policy) \<and> pr_enabled (pp_cheap policy)
                \<and> lower + lowerHysteresis \<ge> upper - upperHysteresis) ''Price-rule release bands overlap''
       (Inr ())))))))))))"

definition validPrice :: "decision_input \<Rightarrow> bool" where
  "validPrice inp =
     (case di_price inp of
        None \<Rightarrow> False
      | Some price \<Rightarrow>
          if ap_status price \<noteq> ''valid'' \<or> ap_basis price \<noteq> pp_basis (di_policy inp)
             \<or> ap_contract_ref price \<noteq> pp_contractRef (di_policy inp) \<or> ap_area price \<noteq> pp_area (di_policy inp)
             \<or> ap_contract_revision price = [] \<or> ap_source_revision price = [] then False
          else (case (ap_start price, ap_end price) of
                  (Some start, Some end_at) \<Rightarrow>
                    if start \<le> di_now inp \<and> di_now inp < end_at
                    then (case parseDkkPerKwh (ap_rate price) of Inl _ \<Rightarrow> False | Inr _ \<Rightarrow> True) else False
                | _ \<Rightarrow> False))"

definition errorText :: "string \<Rightarrow> string" where
  "errorText msg = take 200 msg"

definition caught :: "'a fallible \<Rightarrow> string option" where
  "caught r = (case r of Inl e \<Rightarrow> Some (errorText e) | Inr _ \<Rightarrow> None)"

definition rate_or_0 :: "string \<Rightarrow> int" where
  \<comment> \<open>a rate whose text has been validated\<close>
  "rate_or_0 s = (case parseDkkPerKwh s of Inr m \<Rightarrow> m | Inl _ \<Rightarrow> 0)"

section \<open>The decision\<close>

definition fresh_latch :: "decision_input \<Rightarrow> price_latch" where
  "fresh_latch inp =
     \<lparr>l_expensive = False, l_cheap = False, l_policyVersion = pp_version (di_policy inp),
      l_priceRevision = (case di_price inp of
         Some p \<Rightarrow> ap_contract_revision p @ ''/'' @ ap_source_revision p | None \<Rightarrow> [])\<rparr>"

definition carried_latch :: "decision_input \<Rightarrow> price_latch" where
  "carried_latch inp =
     (case di_previousLatch inp of
        Some l \<Rightarrow> if l_policyVersion l = l_policyVersion (fresh_latch inp) then l else fresh_latch inp
      | None \<Rightarrow> fresh_latch inp)"

definition evaluated_latch :: "decision_input \<Rightarrow> price_latch" where
  \<comment> \<open>the latch once a valid price has been compared with the thresholds\<close>
  "evaluated_latch inp =
     (let policy = di_policy inp;
          current = (case di_price inp of Some p \<Rightarrow> rate_or_0 (ap_rate p) | None \<Rightarrow> 0);
          upper = (if pr_enabled (pp_expensive policy) then rate_or_0 (pr_threshold (pp_expensive policy)) else 0);
          lower = (if pr_enabled (pp_cheap policy) then rate_or_0 (pr_threshold (pp_cheap policy)) else 0);
          old_expensive = (case di_previousLatch inp of
             Some l \<Rightarrow> l_policyVersion l = pp_version policy \<and> l_expensive l | None \<Rightarrow> False);
          old_cheap = (case di_previousLatch inp of
             Some l \<Rightarrow> l_policyVersion l = pp_version policy \<and> l_cheap l | None \<Rightarrow> False)
      in (fresh_latch inp)
           \<lparr>l_expensive := pr_enabled (pp_expensive policy) \<and>
              (current > upper \<or> old_expensive \<and> current > upper - rate_or_0 (pr_hysteresis (pp_expensive policy))),
            l_cheap := pr_enabled (pp_cheap policy) \<and>
              (current < lower \<or> old_cheap \<and> current < lower + rate_or_0 (pr_hysteresis (pp_cheap policy)))\<rparr>)"

definition base_mode :: "intl \<Rightarrow> decision_input \<Rightarrow> string option \<Rightarrow> string option \<Rightarrow> power_mode option fallible" where
  "base_mode z inp scheduleError priceError =
     (if scheduleError \<noteq> None then Inr None
      else if ws_enabled (di_schedule inp)
           then bind_err (scheduledModeAt z (di_schedule inp) (di_now inp)) (\<lambda>m. Inr (Some m))
      else if pp_enabled (di_policy inp) \<and> priceError = None then Inr (pp_priceOnlyDefault (di_policy inp))
      else Inr None)"

definition override_active :: "decision_input \<Rightarrow> bool" where
  "override_active inp =
     (case di_override inp of
        None \<Rightarrow> False
      | Some ov \<Rightarrow> (case mo_expiresAt ov of None \<Rightarrow> True | Some t \<Rightarrow> t > di_now inp))"

definition override_mode :: "decision_input \<Rightarrow> power_mode" where
  "override_mode inp = (case di_override inp of Some ov \<Rightarrow> mo_mode ov | None \<Rightarrow> Unknown_mode)"

definition capped :: "expensive_rule \<Rightarrow> power_mode \<Rightarrow> power_mode" where
  "capped rule target = (if mode_above target (pr_capMode rule) then pr_capMode rule else target)"

text \<open>The part of the decision that is reached when nothing above it returned.\<close>

definition automatic_decision ::
  "decision_input \<Rightarrow> power_mode \<Rightarrow>
   (decision_reason \<Rightarrow> power_mode option \<Rightarrow> price_status \<Rightarrow> int option \<Rightarrow> price_latch \<Rightarrow> power_decision) \<Rightarrow> power_decision"
where
  "automatic_decision inp base result =
     (let policy = di_policy inp;
          calm = (if ws_enabled (di_schedule inp) then By_schedule else By_default);
          (target, reason, status, validUntil, latch) =
            (if pp_enabled policy \<and> (pr_enabled (pp_expensive policy) \<or> pr_enabled (pp_cheap policy)) then
               if validPrice inp then
                 let latch = evaluated_latch inp;
                     until_ms = (case di_price inp of Some p \<Rightarrow> ap_end p | None \<Rightarrow> None)
                 in if l_expensive latch
                    then (capped (pp_expensive policy) base, Price_high, Status_valid, until_ms, latch)
                    else if l_cheap latch then (High, Price_low, Status_valid, until_ms, latch)
                    else (base, calm, Status_valid, until_ms, latch)
               else (base, Price_unavailable_fallback, Status_unavailable, None, fresh_latch inp)
             else (base, calm, Status_disabled, None, fresh_latch inp))
      in if target \<in> set (di_supported inp) then result reason (Some target) status validUntil latch
         else result Unsupported_mode None status validUntil latch)"

definition corrupt_price_decision ::
  "decision_input \<Rightarrow> power_mode option \<Rightarrow>
   (decision_reason \<Rightarrow> power_mode option \<Rightarrow> price_status \<Rightarrow> int option \<Rightarrow> price_latch \<Rightarrow> power_decision) \<Rightarrow> power_decision"
where
  "corrupt_price_decision inp base result =
     (case base of
        None \<Rightarrow> result Policy_invalid None Status_unavailable None (fresh_latch inp)
      | Some b \<Rightarrow>
          let rule = pp_expensive (di_policy inp);
              target = (if pr_enabled rule \<and> (pr_capMode rule = Low \<or> pr_capMode rule = Dynamic)
                        then capped rule b else b)
          in if mode_above target (di_actual inp)
             then result Policy_invalid None Status_unavailable None (fresh_latch inp)
             else if target \<in> set (di_supported inp)
             then result Policy_invalid (Some target) Status_unavailable None (fresh_latch inp)
             else result Unsupported_mode None Status_unavailable None (fresh_latch inp))"

definition resolvePowerDecision :: "intl \<Rightarrow> decision_input \<Rightarrow> power_decision fallible" where
  "resolvePowerDecision z inp =
     (let scheduleError = caught (validatePowerSchedule z (di_schedule inp));
          priceError = caught (validatePricePolicy (di_policy inp));
          carried = carried_latch inp;
          policyError = (if scheduleError \<noteq> None then scheduleError else priceError)
      in bind_err (base_mode z inp scheduleError priceError) (\<lambda>baseMode.
        let result = (\<lambda>reason target status validUntil latch.
              \<lparr>pd_target = target, pd_base = baseMode, pd_actual = di_actual inp, pd_reason = reason,
               pd_priceStatus = status, pd_validUntil = validUntil, pd_latch = latch,
               pd_policyError = policyError\<rparr>);
            early = (\<lambda>reason target. result reason target Status_disabled None carried);
            manual = (if override_mode inp \<in> set (di_supported inp)
                      then early Manual (Some (override_mode inp)) else early Unsupported_mode None)
        in Inr (
          if \<not> di_controlEnabled inp then early Disabled None
          else if di_actual inp = Os_control \<or> di_actual inp = Unknown_mode then early Unsafe_actual_mode None
          else if di_manualAction inp \<and> override_active inp then manual
          else if di_paused inp then early Paused None
          else if di_driftHold inp then early Drift_hold None
          else if override_active inp then manual
          else if scheduleError \<noteq> None then early Policy_invalid None
          else if priceError \<noteq> None then corrupt_price_decision inp baseMode result
          else (case baseMode of
                  None \<Rightarrow> early No_automation None
                | Some b \<Rightarrow> if b = Other [] then early No_automation None
                            else automatic_decision inp b result))))"

section \<open>Facts about the branches\<close>

definition decision_of ::
  "decision_input \<Rightarrow> power_mode option \<Rightarrow> string option \<Rightarrow>
   decision_reason \<Rightarrow> power_mode option \<Rightarrow> price_status \<Rightarrow> int option \<Rightarrow> price_latch \<Rightarrow> power_decision" where
  "decision_of inp base err reason target status until_ms latch =
     \<lparr>pd_target = target, pd_base = base, pd_actual = di_actual inp, pd_reason = reason,
      pd_priceStatus = status, pd_validUntil = until_ms, pd_latch = latch, pd_policyError = err\<rparr>"

lemma decision_of_simps [simp]:
  "pd_target (decision_of inp b e r t s u l) = t"
  "pd_base (decision_of inp b e r t s u l) = b"
  "pd_reason (decision_of inp b e r t s u l) = r"
  "pd_latch (decision_of inp b e r t s u l) = l"
  "pd_policyError (decision_of inp b e r t s u l) = e"
  by (simp_all add: decision_of_def)

definition schedule_error :: "intl \<Rightarrow> decision_input \<Rightarrow> string option" where
  "schedule_error z inp = caught (validatePowerSchedule z (di_schedule inp))"

definition price_error :: "decision_input \<Rightarrow> string option" where
  "price_error inp = caught (validatePricePolicy (di_policy inp))"

definition branches :: "intl \<Rightarrow> decision_input \<Rightarrow> power_mode option \<Rightarrow> string option \<Rightarrow> power_decision" where
  "branches z inp b e =
     (let early = (\<lambda>reason target. decision_of inp b e reason target Status_disabled None (carried_latch inp));
        manual = (if override_mode inp \<in> set (di_supported inp)
                  then early Manual (Some (override_mode inp)) else early Unsupported_mode None)
    in if \<not> di_controlEnabled inp then early Disabled None
      else if di_actual inp = Os_control \<or> di_actual inp = Unknown_mode then early Unsafe_actual_mode None
      else if di_manualAction inp \<and> override_active inp then manual
      else if di_paused inp then early Paused None
      else if di_driftHold inp then early Drift_hold None
      else if override_active inp then manual
      else if schedule_error z inp \<noteq> None then early Policy_invalid None
      else if price_error inp \<noteq> None then corrupt_price_decision inp b (decision_of inp b e)
      else (case b of
              None \<Rightarrow> early No_automation None
            | Some b' \<Rightarrow> if b' = Other [] then early No_automation None
                        else automatic_decision inp b' (decision_of inp b e)))"

lemma resolve_Inr:
  assumes "resolvePowerDecision z inp = Inr d"
  obtains b e where "base_mode z inp (schedule_error z inp) (price_error inp) = Inr b"
    and "e = (if schedule_error z inp \<noteq> None then schedule_error z inp else price_error inp)"
    and "d = branches z inp b e"
  using assms that
  unfolding resolvePowerDecision_def Let_def schedule_error_def [symmetric] price_error_def [symmetric]
    bind_err_Inr_iff decision_of_def branches_def by blast

lemma automatic_target:
  "pd_target (automatic_decision inp b (decision_of inp b' e)) = Some m \<Longrightarrow> m \<in> set (di_supported inp)"
  by (auto simp: automatic_decision_def Let_def split: if_splits)

lemma corrupt_target:
  assumes "pd_target (corrupt_price_decision inp b (decision_of inp b' e)) = Some m"
  shows "m \<in> set (di_supported inp)" "\<not> mode_above m (di_actual inp)"
    and "\<exists>base. b = Some base \<and> \<not> mode_above m base"
    and "pr_enabled (pp_expensive (di_policy inp)) \<Longrightarrow> pr_capMode (pp_expensive (di_policy inp)) \<in> {Low, Dynamic}
      \<Longrightarrow> \<not> mode_above m (pr_capMode (pp_expensive (di_policy inp)))"
  using assms
  by (auto simp: corrupt_price_decision_def capped_def Let_def mode_above_def MODE_ORDER_def
      split: option.splits if_splits power_mode.splits)

lemma corrupt_reason:
  "pd_reason (corrupt_price_decision inp b (decision_of inp b' e)) \<in> {Policy_invalid, Unsupported_mode}"
  "pd_latch (corrupt_price_decision inp b (decision_of inp b' e)) = fresh_latch inp"
  by (auto simp: corrupt_price_decision_def Let_def split: option.splits)

lemma validatePricePolicy_bands:
  assumes "validatePricePolicy p = Inr ()" "pr_enabled (pp_expensive p)" "pr_enabled (pp_cheap p)"
  shows "rate_or_0 (pr_threshold (pp_cheap p)) + rate_or_0 (pr_hysteresis (pp_cheap p))
       < rate_or_0 (pr_threshold (pp_expensive p)) - rate_or_0 (pr_hysteresis (pp_expensive p))"
    and "0 \<le> rate_or_0 (pr_hysteresis (pp_expensive p))" "0 \<le> rate_or_0 (pr_hysteresis (pp_cheap p))"
  using assms unfolding validatePricePolicy_def guard_err_Inr_iff bind_err_Inr_iff rule_rate_def rate_or_0_def
  by auto

lemma evaluated_latch_exclusive:
  assumes "validatePricePolicy (di_policy inp) = Inr ()"
  shows "\<not> (l_expensive (evaluated_latch inp) \<and> l_cheap (evaluated_latch inp))"
proof
  assume both: "l_expensive (evaluated_latch inp) \<and> l_cheap (evaluated_latch inp)"
  then have en: "pr_enabled (pp_expensive (di_policy inp))" "pr_enabled (pp_cheap (di_policy inp))"
    by (simp_all add: evaluated_latch_def Let_def)
  note bands = validatePricePolicy_bands [OF assms en]
  let ?c = "case di_price inp of Some p \<Rightarrow> rate_or_0 (ap_rate p) | None \<Rightarrow> 0"
  have "?c > rate_or_0 (pr_threshold (pp_expensive (di_policy inp))) - rate_or_0 (pr_hysteresis (pp_expensive (di_policy inp)))"
    "?c < rate_or_0 (pr_threshold (pp_cheap (di_policy inp))) + rate_or_0 (pr_hysteresis (pp_cheap (di_policy inp)))"
    using both bands en by (auto simp: evaluated_latch_def Let_def)
  with bands(1) show False by linarith
qed

lemma caught_None: "caught r = None \<longleftrightarrow> (\<exists>x. r = Inr x)"
  by (cases r) (simp_all add: caught_def)

lemma price_error_None: "price_error inp = None \<longleftrightarrow> validatePricePolicy (di_policy inp) = Inr ()"
  by (auto simp: price_error_def caught_None)

definition latch_exclusive :: "price_latch \<Rightarrow> bool" where
  "latch_exclusive l = (\<not> (l_expensive l \<and> l_cheap l))"

lemma carried_exclusive:
  "(\<forall>l. di_previousLatch inp = Some l \<longrightarrow> latch_exclusive l) \<Longrightarrow> latch_exclusive (carried_latch inp)"
  "latch_exclusive (fresh_latch inp)"
  by (auto simp: carried_latch_def fresh_latch_def latch_exclusive_def split: option.splits)

lemma automatic_latch:
  "pd_latch (automatic_decision inp b (decision_of inp b' e)) \<in> {evaluated_latch inp, fresh_latch inp}"
  by (auto simp: automatic_decision_def Let_def)

lemma capped_facts: "\<not> mode_above (capped rule m) m" 
    "isWritablePowerMode m \<Longrightarrow> pr_capMode rule \<in> {Low, Dynamic} \<Longrightarrow> \<not> mode_above (capped rule m) (pr_capMode rule)"
  by (auto simp: capped_def mode_above_def MODE_ORDER_def isWritablePowerMode_def
      split: option.splits power_mode.splits)

lemma mode_above_irrefl [simp]: "\<not> mode_above m m"
  by (auto simp: mode_above_def split: option.splits)

lemma automatic_above:
  "pd_target (automatic_decision inp b (decision_of inp b' e)) = Some m \<Longrightarrow> mode_above m b
    \<Longrightarrow> pd_reason (automatic_decision inp b (decision_of inp b' e)) = Price_low"
  by (auto simp: automatic_decision_def Let_def capped_facts split: if_splits)

lemma evaluated_latch_again:
  "evaluated_latch (inp\<lparr>di_previousLatch := Some (evaluated_latch inp)\<rparr>) = evaluated_latch inp"
  "l_policyVersion (evaluated_latch inp) = pp_version (di_policy inp)"
  by (auto simp: evaluated_latch_def fresh_latch_def Let_def)

lemma corrupt_upd [simp]:
  "corrupt_price_decision (inp\<lparr>di_previousLatch := x\<rparr>) b r = corrupt_price_decision inp b r"
  by (cases b) (simp_all add: corrupt_price_decision_def fresh_latch_def Let_def)

lemma previousLatch_sel:
  "di_policy (inp\<lparr>di_previousLatch := x\<rparr>) = di_policy inp"
  "di_schedule (inp\<lparr>di_previousLatch := x\<rparr>) = di_schedule inp"
  "di_supported (inp\<lparr>di_previousLatch := x\<rparr>) = di_supported inp"
  "di_price (inp\<lparr>di_previousLatch := x\<rparr>) = di_price inp"
  by simp_all

lemma previousLatch_upd [simp]:
  "base_mode z (inp\<lparr>di_previousLatch := x\<rparr>) e e' = base_mode z inp e e'"
  "schedule_error z (inp\<lparr>di_previousLatch := x\<rparr>) = schedule_error z inp"
  "price_error (inp\<lparr>di_previousLatch := x\<rparr>) = price_error inp"
  "fresh_latch (inp\<lparr>di_previousLatch := x\<rparr>) = fresh_latch inp"
  "validPrice (inp\<lparr>di_previousLatch := x\<rparr>) = validPrice inp"
  "override_mode (inp\<lparr>di_previousLatch := x\<rparr>) = override_mode inp"
  "override_active (inp\<lparr>di_previousLatch := x\<rparr>) = override_active inp"
  "decision_of (inp\<lparr>di_previousLatch := x\<rparr>) = decision_of inp"
  by (simp_all add: base_mode_def schedule_error_def price_error_def fresh_latch_def validPrice_def
      override_mode_def override_active_def decision_of_def fun_eq_iff
      split: option.splits)

lemma carried_again: "carried_latch (inp\<lparr>di_previousLatch := Some (carried_latch inp)\<rparr>) = carried_latch inp"
  by (auto simp: carried_latch_def split: option.splits)

lemma automatic_again:
  "automatic_decision (inp\<lparr>di_previousLatch := Some (pd_latch (automatic_decision inp b (decision_of inp b' e)))\<rparr>)
     b (decision_of inp b' e) = automatic_decision inp b (decision_of inp b' e)"
proof (cases "pp_enabled (di_policy inp) \<and>
    (pr_enabled (pp_expensive (di_policy inp)) \<or> pr_enabled (pp_cheap (di_policy inp))) \<and> validPrice inp")
  case True
  then have "pd_latch (automatic_decision inp b (decision_of inp b' e)) = evaluated_latch inp"
    by (auto simp: automatic_decision_def Let_def)
  then show ?thesis
    unfolding automatic_decision_def previousLatch_upd previousLatch_sel
    by (simp only: evaluated_latch_again)
next
  case False
  then consider "(pp_enabled (di_policy inp) \<and>
      (pr_enabled (pp_expensive (di_policy inp)) \<or> pr_enabled (pp_cheap (di_policy inp)))) = False"
    | "validPrice inp = False" by blast
  then have "automatic_decision (inp\<lparr>di_previousLatch := x\<rparr>) b r = automatic_decision inp b r" for x r
  proof cases
    case 1
    show ?thesis
      unfolding automatic_decision_def previousLatch_upd previousLatch_sel Let_def 1 if_False ..
  next
    case 2
    show ?thesis
      unfolding automatic_decision_def previousLatch_upd previousLatch_sel 2 if_False ..
  qed
  then show ?thesis .
qed

lemma resolve_eq:
  "resolvePowerDecision z inp =
     bind_err (base_mode z inp (schedule_error z inp) (price_error inp))
       (\<lambda>b. Inr (branches z inp b (if schedule_error z inp \<noteq> None then schedule_error z inp else price_error inp)))"
  unfolding resolvePowerDecision_def Let_def schedule_error_def [symmetric] price_error_def [symmetric]
    decision_of_def branches_def ..

lemma branches_again:
  "branches z (inp\<lparr>di_previousLatch := Some (pd_latch (branches z inp b e))\<rparr>) b e = branches z inp b e"
  by (auto simp: branches_def Let_def carried_again automatic_again split: option.splits)

section \<open>Properties\<close>

definition demo_policy :: price_policy where
  "demo_policy =
     \<lparr>pp_enabled = True, pp_basis = ''variable_retail_including_vat'', pp_contractRef = ''c'', pp_area = ''DK1'',
      pp_priceOnlyDefault = Some Dynamic, pp_minUpshift = None,
      pp_expensive = \<lparr>pr_enabled = True, pr_threshold = ''3'', pr_hysteresis = ''0.5'', pr_capMode = Low\<rparr>,
      pp_cheap = \<lparr>pr_enabled = True, pr_threshold = ''1'', pr_hysteresis = ''0.25''\<rparr>, pp_version = 7\<rparr>"

definition demo_input :: "string \<Rightarrow> decision_input" where
  "demo_input rate =
     \<lparr>di_now = 1000, di_controlEnabled = True, di_paused = False, di_driftHold = False, di_actual = Dynamic,
      di_supported = [Low, Dynamic, High],
      di_schedule = night_schedule\<lparr>ws_enabled := False, ws_windows := []\<rparr>, di_policy = demo_policy,
      di_price = Some \<lparr>ap_rate = rate, ap_basis = ''variable_retail_including_vat'', ap_contract_ref = ''c'',
        ap_area = ''DK1'', ap_start = Some 0, ap_end = Some 3600000, ap_status = ''valid'',
        ap_contract_revision = ''r1'', ap_source_revision = ''s1''\<rparr>,
      di_previousLatch = None, di_override = None, di_manualAction = False\<rparr>"

lemma resolve_target_gate:
  assumes "resolvePowerDecision z inp = Inr d" "pd_target d = Some m"
  shows "di_controlEnabled inp \<and> di_actual inp \<noteq> Os_control \<and> di_actual inp \<noteq> Unknown_mode
    \<and> m \<in> set (di_supported inp)
    \<and> (\<not> di_paused inp \<and> \<not> di_driftHold inp
       \<or> di_manualAction inp \<and> override_active inp \<and> m = override_mode inp)"
  using assms
  by (elim resolve_Inr) (auto simp: branches_def Let_def split: if_splits option.splits
      dest: automatic_target corrupt_target(1))

text \<open>C9: \<open>resolvePowerDecision\<close> names a target only when physical control is enabled, the
  observed mode is known and not under OS control, the target is one the hardware supports, and
  automation is neither paused nor held for drift, except that an explicit manual command with a live
  override passes the pause and the hold, and then the target is the override's mode.\<close>

theorem target_only_when_allowed:
  assumes "resolvePowerDecision z inp = Inr d" "pd_target d = Some m"
  shows "di_controlEnabled inp \<and> di_actual inp \<noteq> Os_control \<and> di_actual inp \<noteq> Unknown_mode
    \<and> m \<in> set (di_supported inp)
    \<and> (\<not> di_paused inp \<and> \<not> di_driftHold inp
       \<or> di_manualAction inp \<and> override_active inp \<and> m = override_mode inp)"
  using assms by (rule resolve_target_gate)

theorem target_only_when_allowed_witness:
  "\<exists>d. resolvePowerDecision (fixed_intl 0) (demo_input ''4,5'') = Inr d \<and> pd_target d = Some Low
     \<and> Low \<in> set (di_supported (demo_input ''4,5''))"
proof -
  have "case resolvePowerDecision (fixed_intl 0) (demo_input ''4,5'') of Inr d \<Rightarrow> pd_target d = Some Low | Inl _ \<Rightarrow> False"
    by code_simp
  then have "\<exists>d. resolvePowerDecision (fixed_intl 0) (demo_input ''4,5'') = Inr d \<and> pd_target d = Some Low"
    by (auto split: sum.splits)
  with target_only_when_allowed [of "fixed_intl 0" "demo_input ''4,5''" _ Low] show ?thesis by blast
qed

text \<open>The price latch settles in one step: deciding again with the latch the decision returned,
  all other inputs unchanged, gives the same decision, so the controller's second and third
  evaluation before a write do not flip the selection at a threshold.\<close>

theorem decision_settles:
  assumes "resolvePowerDecision z inp = Inr d"
  shows "resolvePowerDecision z (inp\<lparr>di_previousLatch := Some (pd_latch d)\<rparr>) = Inr d"
  using assms by (auto simp: resolve_eq bind_err_Inr_iff branches_again)


text \<open>The expensive and the cheap latch are never both set in a decision, whatever the rates,
  the hysteresis and the stored schedule and policy are, as long as the stored latch was not
  already contradictory: a price policy that validates has disjoint release bands.\<close>

theorem latches_exclusive:
  assumes "resolvePowerDecision z inp = Inr d"
    and "\<And>l. di_previousLatch inp = Some l \<Longrightarrow> \<not> (l_expensive l \<and> l_cheap l)"
  shows "\<not> (l_expensive (pd_latch d) \<and> l_cheap (pd_latch d))"
proof -
  have carried: "latch_exclusive (carried_latch inp)"
    using assms(2) by (intro carried_exclusive) (simp add: latch_exclusive_def)
  have auto: "latch_exclusive (pd_latch (automatic_decision inp b (decision_of inp b' e)))"
    if "price_error inp = None" for b b' e
    using automatic_latch [of inp b b' e] evaluated_latch_exclusive [of inp] that carried_exclusive(2) [of inp]
    by (auto simp: latch_exclusive_def price_error_None)
  have "latch_exclusive (pd_latch d)"
    using assms(1) carried carried_exclusive(2)
    by (elim resolve_Inr)
      (auto simp: branches_def Let_def corrupt_reason auto split: option.splits)
  then show ?thesis by (simp add: latch_exclusive_def)
qed


text \<open>Corrupt price data only restricts: when the stored price policy does not validate, an
  automatic decision either names no target or one that is not above the observed mode, nor above
  the baseline mode, nor above an enabled cap.\<close>

theorem corrupt_policy_never_boosts:
  assumes "resolvePowerDecision z inp = Inr d" "validatePricePolicy (di_policy inp) = Inl msg"
    and "\<not> override_active inp" "pd_target d = Some m"
  shows "pd_reason d = Policy_invalid \<and> \<not> mode_above m (di_actual inp)
    \<and> (\<exists>b. pd_base d = Some b \<and> \<not> mode_above m b)
    \<and> (pr_enabled (pp_expensive (di_policy inp)) \<and> pr_capMode (pp_expensive (di_policy inp)) \<in> {Low, Dynamic}
       \<longrightarrow> \<not> mode_above m (pr_capMode (pp_expensive (di_policy inp))))"
proof -
  have "price_error inp \<noteq> None" using assms(2) by (simp add: price_error_None)
  then obtain b e where d: "d = corrupt_price_decision inp b (decision_of inp b e)"
    using assms(1,3,4) by (elim resolve_Inr) (auto simp: branches_def Let_def split: if_splits)
  have "pd_base d = b" "pd_reason d = Policy_invalid"
    using assms(4) by (auto simp: d corrupt_price_decision_def Let_def split: option.splits if_splits)
  with corrupt_target [OF assms(4) [unfolded d]] show ?thesis by auto
qed


end
