(* ===== verification/Power_Store.thy ===== *)
theory Power_Store
  imports Power_Decision
begin

text \<open>
  The control store, \<open>services/powerControlStore.ts\<close> and \<open>services/powerDecisionContext.ts\<close>: the
  rows of \<open>hardware_connections\<close>, \<open>hardware_power_policies\<close> and \<open>hardware_power_operations\<close>, and
  every operation of \<open>PowerControlStore\<close> that is a single statement or a transaction in the code as one
  atomic step on them. \<open>load\<close> and \<open>claimStillCurrent\<close> await several statements: this theory has the
  statements, and \<open>Power_Controller\<close> runs them one step each. \<open>now\<close> is the store's clock in milliseconds. The decrypted iLO
  credentials that \<open>load\<close> copies into the snapshot are left out.
\<close>

section \<open>Decision context\<close>

record capabilities =
  cap_runtimeMode :: string
  cap_supportedModes :: "power_mode list option"

definition supportedModesFrom :: "capabilities option \<Rightarrow> power_mode list" where
  "supportedModesFrom caps =
     (case caps of
        None \<Rightarrow> []
      | Some value \<Rightarrow>
          if cap_runtimeMode value \<noteq> ''supported'' then []
          else filter isWritablePowerMode
                 (case cap_supportedModes value of Some ms \<Rightarrow> ms | None \<Rightarrow> [Low, Dynamic, High]))"

definition storedManualOverride :: "power_mode option \<Rightarrow> int option \<Rightarrow> manual_override option" where
  "storedManualOverride mode expiresAt =
     (case mode of
        Some m \<Rightarrow> if isWritablePowerMode m then Some \<lparr>mo_mode = m, mo_expiresAt = expiresAt\<rparr> else None
      | None \<Rightarrow> None)"

definition observedMode :: "power_mode \<Rightarrow> power_mode" where
  "observedMode m = (if m = Low \<or> m = Dynamic \<or> m = High \<or> m = Os_control then m else Unknown_mode)"

record control_snapshot =
  cs_hardwareId :: int
  cs_configVersion :: int
  cs_policyVersion :: int
  cs_controlEnabled :: bool
  cs_automationEnabled :: bool
  cs_paused :: bool
  cs_driftHold :: bool
  cs_driftHoldUntil :: "int option"
  cs_supportedModes :: "power_mode list"
  cs_schedule :: weekly_schedule
  cs_pricePolicy :: price_policy
  cs_latch :: "price_latch option"
  cs_manualOverride :: "manual_override option"
  cs_lastVerifiedMode :: "power_mode option"
  cs_lastAutomaticUpshiftAt :: "int option"
  cs_failureCount :: nat
  cs_nextAttemptAt :: "int option"
  cs_pendingTarget :: "power_mode option"
  cs_pendingOperationId :: "int option"

definition controllerDecisionInput ::
  "control_snapshot \<Rightarrow> int \<Rightarrow> power_mode \<Rightarrow> applicable_price option \<Rightarrow> bool \<Rightarrow> decision_input" where
  "controllerDecisionInput st now actualMode price manual =
     \<lparr>di_now = now,
      di_controlEnabled = cs_controlEnabled st \<and> (cs_automationEnabled st \<or> manual),
      di_paused = cs_paused st, di_driftHold = cs_driftHold st, di_actual = actualMode,
      di_supported = cs_supportedModes st, di_schedule = cs_schedule st, di_policy = cs_pricePolicy st,
      di_price = price, di_previousLatch = cs_latch st, di_override = cs_manualOverride st,
      di_manualAction = manual\<rparr>"

section \<open>Rows\<close>

datatype op_outcome = Requested | Verified | Already_set | Unknown | Failed | Stale | Unavailable | Not_applied

definition outcome_text :: "op_outcome \<Rightarrow> string" where
  "outcome_text o' = (case o' of
     Requested \<Rightarrow> ''requested'' | Verified \<Rightarrow> ''verified'' | Already_set \<Rightarrow> ''already_set''
   | Unknown \<Rightarrow> ''unknown'' | Failed \<Rightarrow> ''failed'' | Stale \<Rightarrow> ''stale''
   | Unavailable \<Rightarrow> ''unavailable'' | Not_applied \<Rightarrow> ''not_applied'')"

definition mode_text :: "power_mode \<Rightarrow> string" where
  "mode_text m = (case m of Low \<Rightarrow> ''low'' | Dynamic \<Rightarrow> ''dynamic'' | High \<Rightarrow> ''high''
   | Os_control \<Rightarrow> ''os_control'' | Unknown_mode \<Rightarrow> ''unknown'' | Other s \<Rightarrow> s)"

datatype actor = Manual_actor | Automation_actor

record operation_audit =
  au_configVersion :: int
  au_policyVersion :: int
  au_scheduleVersion :: int
  au_pricePolicyVersion :: int
  au_price :: "applicable_price option"
  au_thresholds :: "(expensive_rule \<times> price_rule \<times> int) option"

record connection_row =
  c_config_version :: int
  c_control_enabled :: bool
  c_active :: bool
  c_capabilities :: "capabilities option"

record policy_row =
  p_version :: int
  p_automation_enabled :: bool
  p_paused :: bool
  p_drift_hold :: bool
  p_drift_hold_until :: "int option"
  p_schedule :: weekly_schedule
  p_price_policy :: price_policy
  p_latch :: "price_latch option"
  p_manual_mode :: "power_mode option"
  p_manual_expires_at :: "int option"
  p_last_verified_mode :: "power_mode option"
  p_failure_count :: nat
  p_next_attempt_at :: "int option"
  p_pending_target :: "power_mode option"
  p_pending_operation_id :: "int option"
  p_claim_token :: "string option"
  p_claim_expires_at :: "int option"
  p_last_outcome :: "string option"
  p_last_outcome_at :: "int option"
  p_last_error :: "string option"
  p_failure_notified_at :: "int option"
  p_updated_at :: int

datatype operation_reason = Decided decision_reason | Abandoned_claim

record operation_row =
  o_id :: int
  o_hardware :: int
  o_actor :: actor
  o_actor_user :: "int option"
  o_prior :: "power_mode option"
  o_target :: "power_mode option"
  o_reason :: operation_reason
  o_policy_version :: int
  o_price_revision :: "string option"
  o_audit :: "operation_audit option"
  o_claim_token :: string
  o_outcome :: op_outcome
  o_error_category :: "string option"
  o_completed_at :: "int option"
  o_occurred_at :: int

record control_db =
  cd_connections :: "int \<Rightarrow> connection_row option"
  cd_policies :: "int \<Rightarrow> policy_row option"
  cd_operations :: "operation_row list"
  cd_next_operation :: int
  cd_global_pause :: bool
  cd_notices :: "(string \<times> int \<times> string) list"

record claim_outcome =
  co_actor :: actor
  co_actorUserId :: "int option"
  co_outcome :: op_outcome
  co_prior :: "power_mode option"
  co_target :: power_mode
  co_decision :: power_decision
  co_audit :: "operation_audit option"
  co_operationId :: "int option"
  co_errorCategory :: "string option"

datatype note_kind = Read_failed | Host_not_running | Note_policy_invalid

definition note_text :: "note_kind \<Rightarrow> string" where
  "note_text k = (case k of Read_failed \<Rightarrow> ''read_failed'' | Host_not_running \<Rightarrow> ''host_not_running''
   | Note_policy_invalid \<Rightarrow> ''policy_invalid'')"

definition READ_PROBLEMS :: "string list" where
  "READ_PROBLEMS = map note_text [Read_failed, Host_not_running, Note_policy_invalid]"

record observation_note =
  n_outcome :: note_kind
  n_error :: string
  n_countsAsFailure :: bool

text \<open>\<open>UPDATE hardware_power_policies SET f WHERE hardware_id = hw AND where\<close>; the flag says whether a row matched.\<close>

definition update_policy ::
  "int \<Rightarrow> (policy_row \<Rightarrow> bool) \<Rightarrow> (policy_row \<Rightarrow> policy_row) \<Rightarrow> control_db \<Rightarrow> bool \<times> control_db" where
  "update_policy hw cond f db =
     (case cd_policies db hw of
        Some p \<Rightarrow> if cond p then (True, db\<lparr>cd_policies := (cd_policies db)(hw \<mapsto> f p)\<rparr>) else (False, db)
      | None \<Rightarrow> (False, db))"

definition insert_operation :: "operation_row \<Rightarrow> control_db \<Rightarrow> int \<times> control_db" where
  "insert_operation r db =
     (let i = cd_next_operation db
      in (i, db\<lparr>cd_operations := cd_operations db @ [r\<lparr>o_id := i\<rparr>], cd_next_operation := i + 1\<rparr>))"

definition update_operations ::
  "(operation_row \<Rightarrow> bool) \<Rightarrow> (operation_row \<Rightarrow> operation_row) \<Rightarrow> control_db \<Rightarrow> control_db" where
  "update_operations cond f db =
     db\<lparr>cd_operations := map (\<lambda>r. if cond r then f r else r) (cd_operations db)\<rparr>"

definition FAILURE_NOTIFY_THRESHOLD :: nat where
  "FAILURE_NOTIFY_THRESHOLD = 3"

definition failureBackoffMs :: "nat \<Rightarrow> int" where
  "failureBackoffMs failureCount = min 60 (2 ^ (failureCount - 1)) * 60000"

definition notify :: "string \<Rightarrow> int \<Rightarrow> string \<Rightarrow> control_db \<Rightarrow> control_db" where
  "notify event hw detail db = db\<lparr>cd_notices := cd_notices db @ [(event, hw, detail)]\<rparr>"

section \<open>Operations\<close>

definition order_case :: "power_mode option \<Rightarrow> int" where
  \<comment> \<open>\<open>CASE mode WHEN 'high' THEN 2 WHEN 'dynamic' THEN 1 ELSE 0 END\<close>\<close>
  "order_case m = (if m = Some High then 2 else if m = Some Dynamic then 1 else 0)"

definition last_upshift :: "control_db \<Rightarrow> int \<Rightarrow> int option" where
  "last_upshift db hw =
     (let ts = map o_occurred_at (filter (\<lambda>r. o_hardware r = hw \<and> o_actor r = Automation_actor
                 \<and> o_outcome r = Verified \<and> order_case (o_target r) > order_case (o_prior r)) (cd_operations db))
      in if ts = [] then None else Some (Max (set ts)))"

text \<open>The statements of \<open>load\<close>: the two joined rows, the last automatic upshift, the global pause.\<close>

definition load_rows :: "control_db \<Rightarrow> int \<Rightarrow> (connection_row \<times> policy_row) option" where
  "load_rows db hw =
     (case (cd_connections db hw, cd_policies db hw) of
        (Some c, Some p) \<Rightarrow> if c_active c then Some (c, p) else None
      | _ \<Rightarrow> None)"

definition snapshot_of ::
  "int \<Rightarrow> connection_row \<Rightarrow> policy_row \<Rightarrow> int option \<Rightarrow> bool \<Rightarrow> control_snapshot" where
  "snapshot_of hw c p upshift paused =
     \<lparr>cs_hardwareId = hw, cs_configVersion = c_config_version c, cs_policyVersion = p_version p,
      cs_controlEnabled = c_control_enabled c, cs_automationEnabled = p_automation_enabled p,
      cs_paused = paused, cs_driftHold = p_drift_hold p,
      cs_driftHoldUntil = p_drift_hold_until p, cs_supportedModes = supportedModesFrom (c_capabilities c),
      cs_schedule = p_schedule p, cs_pricePolicy = p_price_policy p, cs_latch = p_latch p,
      cs_manualOverride = storedManualOverride (p_manual_mode p) (p_manual_expires_at p),
      cs_lastVerifiedMode = p_last_verified_mode p,
      cs_lastAutomaticUpshiftAt = upshift,
      cs_failureCount = p_failure_count p, cs_nextAttemptAt = p_next_attempt_at p,
      cs_pendingTarget = (case p_pending_target p of
        Some m \<Rightarrow> if isWritablePowerMode m then Some m else None | None \<Rightarrow> None),
      cs_pendingOperationId = p_pending_operation_id p\<rparr>"

definition expired_claim :: "int \<Rightarrow> policy_row \<Rightarrow> bool" where
  \<comment> \<open>\<open>claim_token IS NOT NULL AND claim_expires_at < now\<close>\<close>
  "expired_claim now p =
     (p_claim_token p \<noteq> None \<and> (case p_claim_expires_at p of Some t \<Rightarrow> t < now | None \<Rightarrow> False))"

definition abandoned_row :: "int \<Rightarrow> int \<Rightarrow> string \<Rightarrow> int \<Rightarrow> operation_row" where
  "abandoned_row now hw token version =
     \<lparr>o_id = 0, o_hardware = hw, o_actor = Automation_actor, o_actor_user = None, o_prior = None,
      o_target = None, o_reason = Abandoned_claim, o_policy_version = version, o_price_revision = None, o_audit = None,
      o_claim_token = token, o_outcome = Unknown, o_error_category = Some ''abandoned_claim_before_dispatch'',
      o_completed_at = Some now, o_occurred_at = now\<rparr>"

definition is_requested :: "int \<Rightarrow> string \<Rightarrow> operation_row \<Rightarrow> bool" where
  "is_requested hw token r = (o_hardware r = hw \<and> o_claim_token r = token \<and> o_outcome r = Requested)"

definition releaseExpiredClaim :: "int \<Rightarrow> int \<Rightarrow> control_db \<Rightarrow> control_db" where
  "releaseExpiredClaim now hw db =
     (case cd_policies db hw of
        None \<Rightarrow> db
      | Some row \<Rightarrow>
          (case p_claim_token row of
             None \<Rightarrow> db
           | Some token \<Rightarrow>
               if \<not> expired_claim now row then db
               else
                 let requested = find (is_requested hw token) (cd_operations db);
                     db1 = update_operations (is_requested hw token)
                             (\<lambda>r. r\<lparr>o_outcome := Unknown, o_error_category := Some ''abandoned_claim'',
                                   o_completed_at := Some now\<rparr>) db;
                     db2 = (if requested = None
                            then snd (insert_operation (abandoned_row now hw token (p_version row)) db1) else db1);
                     pend = (\<lambda>p. case requested of
                         Some r \<Rightarrow> (case o_target r of
                             Some m \<Rightarrow> if isWritablePowerMode m
                                then p\<lparr>p_pending_target := Some m, p_pending_operation_id := Some (o_id r),
                                       p_next_attempt_at := None\<rparr> else p
                           | None \<Rightarrow> p)
                       | None \<Rightarrow> p)
                 in snd (update_policy hw (\<lambda>p. p_claim_token p = Some token)
                      (\<lambda>p. pend (p\<lparr>p_claim_token := None, p_claim_expires_at := None,
                         p_last_outcome := Some ''unknown'', p_last_outcome_at := Some now,
                         p_last_error := Some (if requested \<noteq> None then ''abandoned_claim''
                                               else ''abandoned_claim_before_dispatch''),
                         p_updated_at := now\<rparr>)) db2)))"

definition releaseExpiredClaims :: "int \<Rightarrow> int list \<Rightarrow> control_db \<Rightarrow> nat \<times> control_db" where
  \<comment> \<open>\<open>hws\<close> lists the hardware ids of the policy table\<close>
  "releaseExpiredClaims now hws db =
     (let rows = filter (\<lambda>hw. case cd_policies db hw of Some p \<Rightarrow> expired_claim now p | None \<Rightarrow> False) hws
      in (length rows, fold (releaseExpiredClaim now) rows db))"

definition claim :: "control_snapshot \<Rightarrow> string \<Rightarrow> int \<Rightarrow> control_db \<Rightarrow> bool \<times> control_db" where
  "claim snapshot token expiresAt db =
     update_policy (cs_hardwareId snapshot)
       (\<lambda>p. p_version p = cs_policyVersion snapshot \<and> p_claim_token p = None \<and>
            (case cd_connections db (cs_hardwareId snapshot) of
               Some h \<Rightarrow> c_config_version h = cs_configVersion snapshot \<and> c_active h \<and> c_control_enabled h
             | None \<Rightarrow> False))
       (\<lambda>p. p\<lparr>p_claim_token := Some token, p_claim_expires_at := Some expiresAt\<rparr>) db"

definition lease_held :: "int \<Rightarrow> string \<Rightarrow> policy_row \<Rightarrow> bool" where
  \<comment> \<open>\<open>claim_token = token AND claim_expires_at > now\<close>\<close>
  "lease_held now token p =
     (p_claim_token p = Some token \<and> (case p_claim_expires_at p of Some t \<Rightarrow> t > now | None \<Rightarrow> False))"

definition renewClaim :: "int \<Rightarrow> int \<Rightarrow> string \<Rightarrow> int \<Rightarrow> control_db \<Rightarrow> bool \<times> control_db" where
  "renewClaim now hw token expiresAt db =
     update_policy hw (lease_held now token) (\<lambda>p. p\<lparr>p_claim_expires_at := Some expiresAt\<rparr>) db"

definition claim_row_current :: "int \<Rightarrow> control_snapshot \<Rightarrow> string \<Rightarrow> bool \<Rightarrow> control_db \<Rightarrow> bool" where
  \<comment> \<open>what \<open>claimStillCurrent\<close> asks of the joined row; the global pause is read before\<close>
  "claim_row_current now snapshot token manual db =
     (case (cd_policies db (cs_hardwareId snapshot), cd_connections db (cs_hardwareId snapshot)) of
        (Some p, Some c) \<Rightarrow>
          lease_held now token p \<and> p_version p = cs_policyVersion snapshot
          \<and> c_config_version c = cs_configVersion snapshot
          \<and> (manual \<or> p_automation_enabled p) \<and> c_control_enabled c \<and> c_active c
      | _ \<Rightarrow> False)"

definition operationValues :: "int \<Rightarrow> string \<Rightarrow> claim_outcome \<Rightarrow> op_outcome \<Rightarrow> string option \<Rightarrow> int option \<Rightarrow> int \<Rightarrow> operation_row" where
  "operationValues hw token outcome result err completed occurred =
     \<lparr>o_id = 0, o_hardware = hw, o_actor = co_actor outcome, o_actor_user = co_actorUserId outcome,
      o_prior = co_prior outcome, o_target = Some (co_target outcome),
      o_reason = Decided (pd_reason (co_decision outcome)),
      o_policy_version = (case co_audit outcome of Some a \<Rightarrow> au_policyVersion a
        | None \<Rightarrow> l_policyVersion (pd_latch (co_decision outcome))),
      o_price_revision = (if pd_priceStatus (co_decision outcome) = Status_valid
        \<and> l_priceRevision (pd_latch (co_decision outcome)) \<noteq> []
        then Some (l_priceRevision (pd_latch (co_decision outcome))) else None),
      o_audit = co_audit outcome, o_claim_token = token, o_outcome = result, o_error_category = err,
      o_completed_at = completed, o_occurred_at = occurred\<rparr>"

definition recordRequested ::
  "int \<Rightarrow> int \<Rightarrow> string \<Rightarrow> claim_outcome \<Rightarrow> int \<Rightarrow> control_db \<Rightarrow> int option \<times> control_db" where
  "recordRequested now hw token outcome leaseUntil db =
     (let (held, db1) = update_policy hw (lease_held now token) (\<lambda>p. p\<lparr>p_claim_expires_at := Some leaseUntil\<rparr>) db
      in if \<not> held then (None, db)
         else let (i, db2) = insert_operation (operationValues hw token outcome Requested None None now) db1
              in (Some i, db2))"

definition join_errors :: "string option list \<Rightarrow> string option" where
  "join_errors es =
     (let ts = filter (\<lambda>t. t \<noteq> []) (List.map_filter id es)
      in if ts = [] then None else Some (join_with '';'' ts))"

definition finish_policy :: "int \<Rightarrow> claim_outcome \<Rightarrow> int \<Rightarrow> string option \<Rightarrow> policy_row \<Rightarrow> policy_row" where
  "finish_policy now outcome operationId errorCategory p =
     (let set0 = p\<lparr>p_claim_token := None, p_claim_expires_at := None,
            p_last_outcome := Some (outcome_text (co_outcome outcome)), p_last_outcome_at := Some now,
            p_latch := Some (pd_latch (co_decision outcome)), p_updated_at := now\<rparr>;
          failures = p_failure_count p + 1
      in if co_outcome outcome = Verified \<or> co_outcome outcome = Already_set then
           set0\<lparr>p_last_verified_mode := Some (co_target outcome), p_failure_count := 0, p_next_attempt_at := None,
             p_pending_target := None, p_pending_operation_id := None, p_last_error := None,
             p_failure_notified_at := None\<rparr>
         else if co_outcome outcome = Unknown \<or> co_outcome outcome = Failed then
           let set1 = set0\<lparr>p_failure_count := failures,
                 p_next_attempt_at := Some (now + failureBackoffMs failures),
                 p_last_error := Some (case errorCategory of Some e \<Rightarrow> e
                   | None \<Rightarrow> if co_outcome outcome = Unknown then ''unverified'' else ''failed'')\<rparr>;
               set2 = (if co_outcome outcome = Unknown
                       then set1\<lparr>p_pending_target := Some (co_target outcome), p_pending_operation_id := Some operationId\<rparr>
                       else set1)
           in if FAILURE_NOTIFY_THRESHOLD \<le> failures \<and> p_failure_notified_at p = None
              then set2\<lparr>p_failure_notified_at := Some now\<rparr> else set2
         else if co_outcome outcome = Unavailable then set0\<lparr>p_last_error := errorCategory\<rparr>
         else set0)"

definition finish_notices :: "claim_outcome \<Rightarrow> string option \<Rightarrow> policy_row \<Rightarrow> (string \<times> string) list" where
  "finish_notices outcome errorCategory p =
     (let failures = p_failure_count p + 1
      in if co_outcome outcome = Verified \<or> co_outcome outcome = Already_set then
           (if p_failure_notified_at p \<noteq> None
            then [(''hardware.power_control_recovered'', ''Mode '' @ mode_text (co_target outcome) @ '' verified'')] else [])
         else if (co_outcome outcome = Unknown \<or> co_outcome outcome = Failed)
                 \<and> FAILURE_NOTIFY_THRESHOLD \<le> failures \<and> p_failure_notified_at p = None then
           [(''hardware.power_control_failing'', show_nat failures @ '' consecutive mode attempts ended ''
              @ outcome_text (co_outcome outcome)
              @ (case errorCategory of Some e \<Rightarrow> '' ('' @ e @ '')'' | None \<Rightarrow> []))]
         else [])"

definition finish_operation ::
  "int \<Rightarrow> int \<Rightarrow> string \<Rightarrow> claim_outcome \<Rightarrow> string option \<Rightarrow> control_db \<Rightarrow> int \<times> control_db" where
  "finish_operation now hw token outcome errorCategory db =
     (let i = (case co_operationId outcome of Some i \<Rightarrow> i | None \<Rightarrow> 0)
      in if i \<noteq> 0 then
           (i, update_operations (\<lambda>r. o_id r = i \<and> o_hardware r = hw \<and> o_claim_token r = token)
                 (\<lambda>r. r\<lparr>o_outcome := co_outcome outcome, o_prior := co_prior outcome,
                       o_error_category := errorCategory, o_completed_at := Some now\<rparr>) db)
         else insert_operation (operationValues hw token outcome (co_outcome outcome) errorCategory (Some now) now) db)"

definition finish :: "int \<Rightarrow> int \<Rightarrow> string \<Rightarrow> claim_outcome \<Rightarrow> control_db \<Rightarrow> control_db" where
  "finish now hw token outcome db =
     (let holds = (case cd_policies db hw of Some p \<Rightarrow> p_claim_token p = Some token | None \<Rightarrow> False);
          errorCategory = join_errors [co_errorCategory outcome, if holds then None else Some ''lease_lost''];
          (operationId, db1) = finish_operation now hw token outcome errorCategory db
      in if \<not> holds then db1
         else let db2 = snd (update_policy hw (\<lambda>p. p_claim_token p = Some token)
                    (finish_policy now outcome operationId errorCategory) db1)
              in fold (\<lambda>(event, detail). notify event hw detail)
                   (case cd_policies db hw of Some p \<Rightarrow> finish_notices outcome errorCategory p | None \<Rightarrow> []) db2)"

definition had_read_problem :: "policy_row \<Rightarrow> bool" where
  "had_read_problem p = (case p_last_outcome p of Some t \<Rightarrow> t \<in> set READ_PROBLEMS | None \<Rightarrow> False)"

definition observe ::
  "int \<Rightarrow> int \<Rightarrow> int \<Rightarrow> power_decision \<Rightarrow> power_mode \<Rightarrow> observation_note option \<Rightarrow> control_db \<Rightarrow> control_db" where
  "observe now hw version decision actual note db =
     snd (update_policy hw (\<lambda>p. p_version p = version \<and> p_claim_token p = None)
       (\<lambda>p. let set0 = p\<lparr>p_latch := Some (pd_latch decision), p_updated_at := now\<rparr>;
                 set1 = (if pd_target decision = Some actual
                         then set0\<lparr>p_last_verified_mode := Some actual, p_failure_count := 0, p_next_attempt_at := None\<rparr>
                         else set0)
             in (case note of
                   Some n \<Rightarrow> set1\<lparr>p_last_outcome := Some (note_text (n_outcome n)), p_last_error := Some (n_error n),
                                   p_last_outcome_at := Some now\<rparr>
                 | None \<Rightarrow> if had_read_problem p
                           then set1\<lparr>p_last_error := None, p_last_outcome := Some ''reachable''\<rparr> else set1)) db)"

definition recordUnavailable :: "int \<Rightarrow> int \<Rightarrow> observation_note \<Rightarrow> control_db \<Rightarrow> control_db" where
  "recordUnavailable now hw note db =
     (if note_text (n_outcome note) \<notin> set READ_PROBLEMS then db
      else case cd_policies db hw of
        None \<Rightarrow> db
      | Some current \<Rightarrow>
          if p_claim_token current \<noteq> None then db
          else
            let failures = p_failure_count current + 1;
                notice = n_countsAsFailure note \<and> FAILURE_NOTIFY_THRESHOLD \<le> failures
                         \<and> p_failure_notified_at current = None;
                db1 = snd (update_policy hw (\<lambda>p. p_claim_token p = None)
                  (\<lambda>p. let set0 = p\<lparr>p_last_outcome := Some (note_text (n_outcome note)), p_last_error := Some (n_error note),
                            p_last_outcome_at := Some now, p_updated_at := now\<rparr>;
                            set1 = (if n_countsAsFailure note
                              then set0\<lparr>p_failure_count := failures, p_next_attempt_at := Some (now + failureBackoffMs failures)\<rparr>
                              else set0)
                        in if notice then set1\<lparr>p_failure_notified_at := Some now\<rparr> else set1) db)
            in if notice
               then notify ''hardware.power_control_failing'' hw
                      (show_nat failures @ '' consecutive iLO reads failed ('' @ n_error note @ '')'') db1
               else db1)"

definition resolvePending :: "int \<Rightarrow> int \<Rightarrow> int option \<Rightarrow> bool \<Rightarrow> power_mode \<Rightarrow> control_db \<Rightarrow> control_db" where
  "resolvePending now hw operationId verified actual db =
     (case cd_policies db hw of
        None \<Rightarrow> db
      | Some current \<Rightarrow>
          if p_claim_token current \<noteq> None \<or> p_pending_target current = None then db
          else
            let db1 = (case operationId of
                    Some i \<Rightarrow> if i \<noteq> 0
                      then update_operations (\<lambda>r. o_id r = i \<and> o_hardware r = hw \<and> o_outcome r = Unknown)
                        (\<lambda>r. r\<lparr>o_outcome := (if verified then Verified else Not_applied),
                              o_error_category := Some (if verified then ''verified_on_later_read''
                                                        else ''not_applied_on_later_read''),
                              o_completed_at := Some now\<rparr>) db
                      else db
                  | None \<Rightarrow> db);
                db2 = snd (update_policy hw (\<lambda>p. p_claim_token p = None)
                  (\<lambda>p. let set0 = p\<lparr>p_pending_target := None, p_pending_operation_id := None,
                            p_last_outcome_at := Some now, p_updated_at := now\<rparr>
                        in if verified
                           then set0\<lparr>p_last_verified_mode := Some actual, p_last_outcome := Some ''verified'',
                             p_failure_count := 0, p_next_attempt_at := None, p_last_error := None,
                             p_failure_notified_at := None\<rparr>
                           else set0\<lparr>p_last_outcome := Some ''not_applied''\<rparr>) db1)
            in if verified \<and> p_failure_notified_at current \<noteq> None
               then notify ''hardware.power_control_recovered'' hw
                      (''Mode '' @ mode_text actual @ '' verified on a later read'') db2
               else db2)"

definition holdExternalDrift :: "int \<Rightarrow> int \<Rightarrow> int \<Rightarrow> power_mode \<Rightarrow> int option \<Rightarrow> control_db \<Rightarrow> control_db" where
  "holdExternalDrift now hw version actual holdUntil db =
     snd (update_policy hw (\<lambda>p. p_version p = version \<and> p_claim_token p = None)
       (\<lambda>p. p\<lparr>p_drift_hold := True, p_drift_hold_until := holdUntil,
               p_last_outcome := Some (''external_drift:'' @ mode_text actual), p_last_outcome_at := Some now,
               p_version := version + 1, p_updated_at := now\<rparr>) db)"

definition releaseDriftHold :: "int \<Rightarrow> int \<Rightarrow> int \<Rightarrow> power_mode \<Rightarrow> control_db \<Rightarrow> bool \<times> control_db" where
  "releaseDriftHold now hw version actual db =
     update_policy hw (\<lambda>p. p_version p = version \<and> p_drift_hold p \<and> p_claim_token p = None)
       (\<lambda>p. p\<lparr>p_drift_hold := False, p_drift_hold_until := None, p_last_verified_mode := Some actual,
               p_last_outcome := Some ''drift_hold_released'', p_last_outcome_at := Some now,
               p_version := version + 1, p_updated_at := now\<rparr>) db"

definition automatedHardwareIds :: "int list \<Rightarrow> control_db \<Rightarrow> int list" where
  "automatedHardwareIds hws db =
     filter (\<lambda>hw. case (cd_connections db hw, cd_policies db hw) of
         (Some c, Some p) \<Rightarrow> c_active c \<and> c_control_enabled c \<and> p_automation_enabled p | _ \<Rightarrow> False) hws"

section \<open>Leases\<close>

text \<open>
  The contract the controller relies on: a table of leases with a holder token and an expiry, on
  which any process may act at any time. Only the holder's own \<open>ends\<close> action, or any action after
  the expiry, takes a lease away; a lease is granted only where there is none.
\<close>

locale lease_table =
  fixes lease :: "'db \<Rightarrow> 'hw \<Rightarrow> ('tok \<times> int) option"
    and run :: "'act \<Rightarrow> int \<Rightarrow> 'db \<Rightarrow> 'db"
    and ends :: "'act \<Rightarrow> ('hw \<times> 'tok) option"
    and renews :: "'act \<Rightarrow> ('hw \<times> 'tok \<times> int) option"
  assumes kept: "lease db hw = Some (tok, e) \<Longrightarrow> now \<le> e \<Longrightarrow> ends a \<noteq> Some (hw, tok) \<Longrightarrow>
      lease (run a now db) hw = Some (tok, e) \<or>
      (\<exists>e'. renews a = Some (hw, tok, e') \<and> lease (run a now db) hw = Some (tok, e'))"
begin

definition run_all :: "('act \<times> int) list \<Rightarrow> 'db \<Rightarrow> 'db" where
  "run_all as db = fold (\<lambda>(a, now). run a now) as db"

lemma lease_survives:
  assumes "lease db hw = Some (tok, e)" "limit \<le> e"
    and "\<forall>(a, now) \<in> set as. now \<le> limit \<and> ends a \<noteq> Some (hw, tok)
           \<and> (\<forall>e'. renews a = Some (hw, tok, e') \<longrightarrow> limit \<le> e')"
  shows "\<exists>e'. lease (run_all as db) hw = Some (tok, e') \<and> limit \<le> e'"
  using assms
proof (induction as arbitrary: db e)
  case Nil
  then show ?case by (simp add: run_all_def)
next
  case (Cons x as)
  obtain a now where x: "x = (a, now)" by (cases x)
  have step: "now \<le> e" "ends a \<noteq> Some (hw, tok)"
    and renew: "\<And>e'. renews a = Some (hw, tok, e') \<Longrightarrow> limit \<le> e'"
    using Cons.prems x by auto
  obtain e' where e': "lease (run a now db) hw = Some (tok, e')" "limit \<le> e'"
    using kept [OF Cons.prems(1) step] renew Cons.prems(2) by blast
  have "\<exists>e''. lease (run_all as (run a now db)) hw = Some (tok, e'') \<and> limit \<le> e''"
    using Cons.prems(3) by (intro Cons.IH [OF e']) auto
  then show ?case by (simp add: run_all_def x)
qed

lemma no_second_holder:
  assumes "lease db hw = Some (tok, e)" "limit \<le> e"
    and "\<forall>(a, now) \<in> set as. now \<le> limit \<and> ends a \<noteq> Some (hw, tok)
           \<and> (\<forall>e'. renews a = Some (hw, tok, e') \<longrightarrow> limit \<le> e')"
    and "lease (run_all as db) hw = Some (tok', e')"
  shows "tok' = tok"
  using lease_survives [OF assms(1-3)] assms(4) by auto

end

datatype store_action =
    A_release int
  | A_claim control_snapshot string int
  | A_renew int string int
  | A_requested int string claim_outcome int
  | A_finish int string claim_outcome
  | A_observe int int power_decision power_mode "observation_note option"
  | A_unavailable int observation_note
  | A_pending int "int option" bool power_mode
  | A_hold int int power_mode "int option"
  | A_unhold int int power_mode

definition run_store :: "store_action \<Rightarrow> int \<Rightarrow> control_db \<Rightarrow> control_db" where
  "run_store a now db =
     (case a of
        A_release hw \<Rightarrow> releaseExpiredClaim now hw db
      | A_claim snapshot token e \<Rightarrow> snd (claim snapshot token e db)
      | A_renew hw token e \<Rightarrow> snd (renewClaim now hw token e db)
      | A_requested hw token outcome e \<Rightarrow> snd (recordRequested now hw token outcome e db)
      | A_finish hw token outcome \<Rightarrow> finish now hw token outcome db
      | A_observe hw v d m n \<Rightarrow> observe now hw v d m n db
      | A_unavailable hw n \<Rightarrow> recordUnavailable now hw n db
      | A_pending hw i b m \<Rightarrow> resolvePending now hw i b m db
      | A_hold hw v m t \<Rightarrow> holdExternalDrift now hw v m t db
      | A_unhold hw v m \<Rightarrow> snd (releaseDriftHold now hw v m db))"

definition action_token :: "store_action \<Rightarrow> (int \<times> string) option" where
  "action_token a =
     (case a of A_renew hw token _ \<Rightarrow> Some (hw, token) | A_requested hw token _ _ \<Rightarrow> Some (hw, token)
      | A_finish hw token _ \<Rightarrow> Some (hw, token) | _ \<Rightarrow> None)"

definition store_lease :: "control_db \<Rightarrow> int \<Rightarrow> (string \<times> int) option" where
  "store_lease db hw =
     (case cd_policies db hw of
        Some p \<Rightarrow> (case (p_claim_token p, p_claim_expires_at p) of (Some t, Some e) \<Rightarrow> Some (t, e) | _ \<Rightarrow> None)
      | None \<Rightarrow> None)"

definition action_ends :: "store_action \<Rightarrow> (int \<times> string) option" where
  "action_ends a = (case a of A_finish hw token _ \<Rightarrow> Some (hw, token) | _ \<Rightarrow> None)"

definition action_renews :: "store_action \<Rightarrow> (int \<times> string \<times> int) option" where
  "action_renews a =
     (case a of A_renew hw token e \<Rightarrow> Some (hw, token, e) | A_requested hw token _ e \<Rightarrow> Some (hw, token, e) | _ \<Rightarrow> None)"

lemma policies_update_policy:
  "cd_policies (snd (update_policy hw c f db)) hw' =
     (if hw' = hw then map_option (\<lambda>p. if c p then f p else p) (cd_policies db hw) else cd_policies db hw')"
  by (auto simp: update_policy_def split: option.splits)

lemma fst_update_policy:
  "fst (update_policy hw c f db) \<longleftrightarrow> (\<exists>p. cd_policies db hw = Some p \<and> c p)"
  by (auto simp: update_policy_def split: option.splits)

lemma policies_others [simp]:
  "cd_policies (snd (insert_operation r db)) = cd_policies db"
  "cd_policies (update_operations c g db) = cd_policies db"
  "cd_policies (notify ev hw d db) = cd_policies db"
  by (simp_all add: insert_operation_def Let_def update_operations_def notify_def)

lemma policies_fold_notify [simp]:
  "cd_policies (fold (\<lambda>(event, detail). notify event hw detail) ns db) = cd_policies db"
  by (induction ns arbitrary: db) auto

lemma policies_finish_operation [simp]:
  "cd_policies (snd (finish_operation now hw token outcome err db)) = cd_policies db"
  by (simp add: finish_operation_def Let_def)

lemma policies_finish:
  "cd_policies (finish now hw token outcome db) hw' =
     (if hw' = hw then map_option (\<lambda>p. if p_claim_token p = Some token
        then finish_policy now outcome
          (fst (finish_operation now hw token outcome (join_errors [co_errorCategory outcome, None]) db))
          (join_errors [co_errorCategory outcome, None]) p
        else p) (cd_policies db hw) else cd_policies db hw')"
  by (auto simp: finish_def Let_def policies_update_policy case_prod_beta split: option.splits)

lemma policies_requested:
  "cd_policies (snd (recordRequested now hw token outcome e db)) hw' =
     cd_policies (snd (renewClaim now hw token e db)) hw'"
  by (auto simp: recordRequested_def renewClaim_def Let_def policies_update_policy fst_update_policy
      update_policy_def insert_operation_def split: prod.splits option.splits)

lemma policies_release:
  "cd_policies db hw' = Some p \<Longrightarrow> \<not> expired_claim now p \<Longrightarrow> 
    cd_policies (releaseExpiredClaim now hw db) hw' = Some p"
  by (auto simp: releaseExpiredClaim_def Let_def policies_update_policy split: option.splits)

text \<open>While a lease runs, only its holder changes the policy row.\<close>

lemma row_frozen:
  assumes p: "cd_policies db hw = Some p" "p_claim_token p = Some tok" "p_claim_expires_at p = Some e"
    and now: "now \<le> e" and a: "action_token a \<noteq> Some (hw, tok)"
  shows "cd_policies (run_store a now db) hw = Some p"
proof (cases a)
  case (A_release hw')
  have "\<not> expired_claim now p" using p now by (simp add: expired_claim_def)
  then show ?thesis by (simp add: run_store_def A_release policies_release p)
next
  case (A_finish hw' tok' outcome)
  then show ?thesis using p a by (auto simp: run_store_def policies_finish action_token_def)
next
  case (A_unavailable hw' n)
  then show ?thesis using p
    by (auto simp: run_store_def recordUnavailable_def Let_def policies_update_policy split: option.splits)
next
  case (A_pending hw' i b m)
  then show ?thesis using p
    by (auto simp: run_store_def resolvePending_def Let_def policies_update_policy split: option.splits)
qed (use p a in \<open>auto simp: run_store_def claim_def renewClaim_def policies_requested policies_update_policy
      lease_held_def observe_def holdExternalDrift_def releaseDriftHold_def action_token_def\<close>)

lemma store_lease_Some:
  "store_lease db hw = Some (t, e) \<longleftrightarrow>
     (\<exists>p. cd_policies db hw = Some p \<and> p_claim_token p = Some t \<and> p_claim_expires_at p = Some e)"
  by (auto simp: store_lease_def split: option.splits)

lemma store_lease_kept:
  assumes l: "store_lease db hw = Some (tok, e)" and now: "now \<le> e" and a: "action_ends a \<noteq> Some (hw, tok)"
  shows "store_lease (run_store a now db) hw = Some (tok, e) \<or>
      (\<exists>e'. action_renews a = Some (hw, tok, e') \<and> store_lease (run_store a now db) hw = Some (tok, e'))"
proof -
  obtain p where p: "cd_policies db hw = Some p" "p_claim_token p = Some tok" "p_claim_expires_at p = Some e"
    using l by (auto simp: store_lease_Some)
  show ?thesis
  proof (cases "action_token a = Some (hw, tok)")
    case False
    then show ?thesis using row_frozen [OF p now False] p by (auto simp: store_lease_Some)
  next
    case True
    then show ?thesis using p a
      by (auto simp: action_token_def action_ends_def action_renews_def run_store_def store_lease_def
          policies_requested renewClaim_def policies_update_policy split: store_action.splits)
  qed
qed

interpretation control_lease: lease_table store_lease run_store action_ends action_renews
  by unfold_locales (rule store_lease_kept)

section \<open>Notices\<close>

abbreviation FAILING :: string where "FAILING \<equiv> ''hardware.power_control_failing''"
abbreviation RECOVERED :: string where "RECOVERED \<equiv> ''hardware.power_control_recovered''"

definition hw_events :: "control_db \<Rightarrow> int \<Rightarrow> string list" where
  "hw_events db hw = map fst (filter (\<lambda>(event, h, detail). h = hw) (cd_notices db))"

definition notified :: "control_db \<Rightarrow> int \<Rightarrow> bool" where
  "notified db hw = (case cd_policies db hw of Some p \<Rightarrow> p_failure_notified_at p \<noteq> None | None \<Rightarrow> False)"

definition notice_step :: "string list \<Rightarrow> bool \<Rightarrow> string list \<Rightarrow> bool \<Rightarrow> bool" where
  "notice_step evs n evs' n' =
     (evs' = evs \<and> n' = n \<or> evs' = evs @ [FAILING] \<and> \<not> n \<and> n' \<or> evs' = evs @ [RECOVERED] \<and> n \<and> \<not> n')"

definition alternating :: "string list \<Rightarrow> bool \<Rightarrow> bool" where
  "alternating evs n =
     (set evs \<subseteq> {FAILING, RECOVERED} \<and> successively (\<noteq>) evs \<and> (evs \<noteq> [] \<longrightarrow> hd evs = FAILING)
      \<and> (n \<longleftrightarrow> evs \<noteq> [] \<and> last evs = FAILING))"

lemma alternating_step:
  assumes "alternating evs n" "notice_step evs n evs' n'"
  shows "alternating evs' n'"
  using assms by (cases "evs = []") (auto simp: alternating_def notice_step_def successively_append_iff)

lemma hw_events_notify: "hw_events (notify ev hw d db) hw' = hw_events db hw' @ (if hw' = hw then [ev] else [])"
  by (simp add: hw_events_def notify_def)

lemma hw_events_others [simp]:
  "hw_events (snd (update_policy hw c f db)) hw' = hw_events db hw'"
  "hw_events (snd (insert_operation r db)) hw' = hw_events db hw'"
  "hw_events (update_operations oc g db) hw' = hw_events db hw'"
  by (simp_all add: hw_events_def update_policy_def insert_operation_def Let_def update_operations_def
      split: option.splits)

lemma notified_update:
  assumes "\<And>p. cd_policies db hw = Some p \<Longrightarrow> c p \<Longrightarrow> p_failure_notified_at (f p) = p_failure_notified_at p"
  shows "notified (snd (update_policy hw c f db)) hw' = notified db hw'"
  using assms by (auto simp: notified_def policies_update_policy split: option.splits)

lemma notified_others [simp]:
  "notified (snd (insert_operation r db)) hw' = notified db hw'"
  "notified (update_operations c g db) hw' = notified db hw'"
  "notified (notify ev hw d db) hw' = notified db hw'"
  by (simp_all add: notified_def)

lemma notice_same: "hw_events db' hw = hw_events db hw \<Longrightarrow> notified db' hw = notified db hw \<Longrightarrow>
    notice_step (hw_events db hw) (notified db hw) (hw_events db' hw) (notified db' hw)"
  by (simp add: notice_step_def)

lemma notice_refl: "n' = n \<Longrightarrow> notice_step evs n evs n'"
  by (simp add: notice_step_def)

lemma finish_notices_step:
  "notice_step evs (p_failure_notified_at p \<noteq> None) (evs @ map fst (finish_notices outcome err p))
     (p_failure_notified_at (finish_policy now outcome i err' p) \<noteq> None)"
  by (cases "co_outcome outcome") (auto simp: notice_step_def finish_notices_def finish_policy_def Let_def)

lemma hw_events_fold_notify:
  "hw_events (fold (\<lambda>(event, detail). notify event hw detail) ns db) hw' =
     hw_events db hw' @ (if hw' = hw then map fst ns else [])"
  by (induction ns arbitrary: db) (auto simp: hw_events_notify)

lemma hw_events_insert:
  "hw_events (db\<lparr>cd_operations := x, cd_next_operation := y\<rparr>) hw = hw_events db hw"
  by (simp add: hw_events_def)

lemma hw_events_finish_operation [simp]:
  "hw_events (snd (finish_operation now hw token outcome err db)) hw' = hw_events db hw'"
  by (simp add: finish_operation_def Let_def)

lemma hw_events_finish:
  "hw_events (finish now hw token outcome db) hw' =
     hw_events db hw' @ (if hw' = hw then
       (case cd_policies db hw of
          Some p \<Rightarrow> if p_claim_token p = Some token
             then map fst (finish_notices outcome (join_errors [co_errorCategory outcome, None]) p) else []
        | None \<Rightarrow> []) else [])"
  by (auto simp: finish_def Let_def hw_events_fold_notify case_prod_beta split: option.splits)

lemma notified_finish:
  "notified (finish now hw token outcome db) hw' =
     (if hw' = hw then
       (case cd_policies db hw of
          Some p \<Rightarrow> if p_claim_token p = Some token
            then p_failure_notified_at (finish_policy now outcome 0 None p) \<noteq> None else p_failure_notified_at p \<noteq> None
        | None \<Rightarrow> False) else notified db hw')"
  by (auto simp: notified_def policies_finish finish_policy_def Let_def split: option.splits)

lemma finish_notice_step:
  "notice_step (hw_events db hw') (notified db hw')
     (hw_events (finish now hw token outcome db) hw') (notified (finish now hw token outcome db) hw')"
proof (cases "hw' = hw \<and> (\<exists>p. cd_policies db hw = Some p \<and> p_claim_token p = Some token)")
  case True
  then obtain p where p: "cd_policies db hw = Some p" "p_claim_token p = Some token" "hw' = hw" by blast
  then have "notified db hw' = (p_failure_notified_at p \<noteq> None)"
    "notified (finish now hw token outcome db) hw' = (p_failure_notified_at (finish_policy now outcome 0 None p) \<noteq> None)"
    by (simp_all add: notified_finish notified_def [of db])
  with p show ?thesis
    using finish_notices_step [of "hw_events db hw" p outcome _ now 0 None]
    by (simp add: hw_events_finish)
next
  case False
  then have "hw_events (finish now hw token outcome db) hw' = hw_events db hw'"
    "notified (finish now hw token outcome db) hw' = notified db hw'"
    by (auto simp: hw_events_finish notified_finish notified_def [of db] split: option.splits)
  then show ?thesis by (rule notice_same)
qed

lemma unavailable_notice_step:
  "notice_step (hw_events db hw') (notified db hw')
     (hw_events (recordUnavailable now hw n db) hw') (notified (recordUnavailable now hw n db) hw')"
  by (auto simp: recordUnavailable_def Let_def notice_step_def hw_events_notify notified_def policies_update_policy
      split: option.splits)

lemma pending_notice_step:
  "notice_step (hw_events db hw') (notified db hw')
     (hw_events (resolvePending now hw i v m db) hw') (notified (resolvePending now hw i v m db) hw')"
proof (cases "\<exists>p. cd_policies db hw = Some p \<and> p_claim_token p = None \<and> p_pending_target p \<noteq> None")
  case False
  then have "resolvePending now hw i v m db = db"
    by (auto simp: resolvePending_def split: option.splits)
  then show ?thesis by (simp add: notice_refl)
next
  case True
  then obtain p t where p: "cd_policies db hw = Some p" "p_claim_token p = None" "p_pending_target p = Some t"
    by blast
  define db1 where "db1 = (case i of Some j \<Rightarrow> if j \<noteq> 0
      then update_operations (\<lambda>r. o_id r = j \<and> o_hardware r = hw \<and> o_outcome r = Unknown)
        (\<lambda>r. r\<lparr>o_outcome := (if v then Verified else Not_applied),
              o_error_category := Some (if v then ''verified_on_later_read'' else ''not_applied_on_later_read''),
              o_completed_at := Some now\<rparr>) db
      else db | None \<Rightarrow> db)"
  have same: "cd_policies db1 = cd_policies db" "hw_events db1 h = hw_events db h" for h
    by (simp_all add: db1_def split: option.splits)
  define f where "f = (\<lambda>p :: policy_row. let set0 = p\<lparr>p_pending_target := None, p_pending_operation_id := None,
        p_last_outcome_at := Some now, p_updated_at := now\<rparr>
      in if v then set0\<lparr>p_last_verified_mode := Some m, p_last_outcome := Some ''verified'',
           p_failure_count := 0, p_next_attempt_at := None, p_last_error := None, p_failure_notified_at := None\<rparr>
         else set0\<lparr>p_last_outcome := Some ''not_applied''\<rparr>)"
  define db2 where "db2 = snd (update_policy hw (\<lambda>p. p_claim_token p = None) f db1)"
  have r: "resolvePending now hw i v m db =
      (if v \<and> p_failure_notified_at p \<noteq> None
       then notify RECOVERED hw (''Mode '' @ mode_text m @ '' verified on a later read'') db2 else db2)"
    unfolding resolvePending_def db2_def f_def db1_def Let_def p(1) option.case p(2,3) by simp
  have pol: "cd_policies db2 h = (if h = hw then Some (f p) else cd_policies db h)" for h
    using p by (simp add: db2_def policies_update_policy same)
  have ev: "hw_events db2 h = hw_events db h" for h by (simp add: db2_def same)
  have n: "p_failure_notified_at (f p) = (if v then None else p_failure_notified_at p)"
    by (simp add: f_def Let_def)
  show ?thesis
  proof (cases "hw' = hw")
    case False
    then show ?thesis by (auto simp: r hw_events_notify ev notified_def pol intro!: notice_refl)
  next
    case True
    have "notified db2 hw = (\<not> v \<and> p_failure_notified_at p \<noteq> None)"
      by (simp add: notified_def pol n)
    moreover have "notified db hw = (p_failure_notified_at p \<noteq> None)" using p by (simp add: notified_def)
    ultimately show ?thesis by (auto simp: True r hw_events_notify ev notice_step_def)
  qed
qed

lemma release_notice_step:
  "notice_step (hw_events db hw') (notified db hw')
     (hw_events (releaseExpiredClaim now hw db) hw') (notified (releaseExpiredClaim now hw db) hw')"
  by (intro notice_same)
    (auto simp: releaseExpiredClaim_def Let_def notified_def policies_update_policy split: option.splits)

lemma store_notice_step:
  "notice_step (hw_events db hw) (notified db hw) (hw_events (run_store a now db) hw) (notified (run_store a now db) hw)"
proof (cases a)
  case (A_requested hw' token outcome e)
  then show ?thesis
    by (intro notice_same) (auto simp: run_store_def notified_def policies_requested renewClaim_def
        policies_update_policy recordRequested_def Let_def insert_operation_def hw_events_insert update_policy_def
        hw_events_def split: option.splits prod.splits)
qed (auto simp: run_store_def claim_def renewClaim_def observe_def holdExternalDrift_def releaseDriftHold_def
    finish_notice_step unavailable_notice_step pending_notice_step release_notice_step Let_def
    split: option.splits intro!: notice_refl notified_update)

lemma alternating_run:
  "alternating (hw_events db hw) (notified db hw) \<Longrightarrow>
   alternating (hw_events (fold (\<lambda>(a, now). run_store a now) as db) hw)
     (notified (fold (\<lambda>(a, now). run_store a now) as db) hw)"
proof (induction as arbitrary: db)
  case Nil
  then show ?case by simp
next
  case (Cons x as)
  obtain a now where "x = (a, now)" by (cases x)
  with Cons.IH [OF alternating_step [OF Cons.prems store_notice_step]] show ?case by simp
qed

lemma failureBackoffMs_mono: "m \<le> n \<Longrightarrow> failureBackoffMs m \<le> failureBackoffMs n"
proof -
  assume "m \<le> n"
  then have "(2::int) ^ (m - 1) \<le> 2 ^ (n - 1)" by (intro power_increasing) auto
  then show ?thesis unfolding failureBackoffMs_def by (simp add: min_le_iff_disj)
qed

lemma failureBackoffMs_bounds: "60000 \<le> failureBackoffMs n" "failureBackoffMs n \<le> 3600000"
proof -
  have "(1::int) \<le> 2 ^ (n - 1)" by simp
  then show "60000 \<le> failureBackoffMs n" "failureBackoffMs n \<le> 3600000"
    unfolding failureBackoffMs_def by linarith+
qed

section \<open>The row written before a dispatch\<close>

definition requested_rows :: "control_db \<Rightarrow> int \<Rightarrow> string \<Rightarrow> operation_row list" where
  "requested_rows db hw token = filter (is_requested hw token) (cd_operations db)"

lemma filter_update:
  "(\<And>r. c r \<Longrightarrow> \<not> P r \<and> \<not> P (f r)) \<Longrightarrow> filter P (map (\<lambda>r. if c r then f r else r) xs) = filter P xs"
  by (induction xs) auto

lemma operations_update_policy [simp]:
  "cd_operations (snd (update_policy hw c f db)) = cd_operations db"
  "cd_next_operation (snd (update_policy hw c f db)) = cd_next_operation db"
  by (simp_all add: update_policy_def split: option.splits)

lemma operations_notify [simp]: "cd_operations (notify ev hw d db) = cd_operations db"
  by (simp add: notify_def)

lemma operations_fold_notify [simp]:
  "cd_operations (fold (\<lambda>(event, detail). notify event hw detail) ns db) = cd_operations db"
  by (induction ns arbitrary: db) auto

lemma requested_insert:
  "\<not> is_requested hw token (r\<lparr>o_id := cd_next_operation db\<rparr>) \<Longrightarrow>
    requested_rows (snd (insert_operation r db)) hw token = requested_rows db hw token"
  by (simp add: requested_rows_def insert_operation_def Let_def)

lemma requested_update:
  "(\<And>r. c r \<Longrightarrow> \<not> is_requested hw token r \<and> \<not> is_requested hw token (f r)) \<Longrightarrow>
    requested_rows (update_operations c f db) hw token = requested_rows db hw token"
  by (simp add: requested_rows_def update_operations_def filter_update)

lemma requested_policy [simp]:
  "requested_rows (snd (update_policy hw c f db)) hw' token = requested_rows db hw' token"
  by (simp add: requested_rows_def)

lemma requested_notify [simp]:
  "requested_rows (notify ev h d db) hw token = requested_rows db hw token"
  by (simp add: requested_rows_def)

lemma requested_fold:
  "requested_rows (fold (\<lambda>(event, detail). notify event h detail) ns db) hw token = requested_rows db hw token"
  by (simp add: requested_rows_def)

lemma requested_finish:
  assumes "(hw', token') \<noteq> (hw, token)"
  shows "requested_rows (finish now hw' token' outcome db) hw token = requested_rows db hw token"
proof -
  have upd: "requested_rows (update_operations (\<lambda>r. o_id r = i \<and> o_hardware r = hw' \<and> o_claim_token r = token')
      (\<lambda>r. r\<lparr>o_outcome := oc, o_prior := pr, o_error_category := er, o_completed_at := co\<rparr>) db) hw token
      = requested_rows db hw token" for i oc pr er co
    using assms by (intro requested_update) (auto simp: is_requested_def)
  have ins: "requested_rows (snd (insert_operation (operationValues hw' token' outcome oc er co n) db)) hw token
      = requested_rows db hw token" for oc er co n
    using assms by (intro requested_insert) (auto simp: is_requested_def operationValues_def)
  have "requested_rows (snd (finish_operation now hw' token' outcome er db)) hw token = requested_rows db hw token" for er
    by (simp add: finish_operation_def Let_def upd ins)
  then show ?thesis
    by (simp add: finish_def Let_def case_prod_beta requested_fold)
qed

lemma requested_release:
  assumes "hw' \<noteq> hw"
  shows "requested_rows (releaseExpiredClaim now hw' db) hw token = requested_rows db hw token"
proof -
  have upd: "requested_rows (update_operations (is_requested hw' t)
      (\<lambda>r. r\<lparr>o_outcome := Unknown, o_error_category := er, o_completed_at := co\<rparr>) db) hw token
      = requested_rows db hw token" for t er co
    using assms by (intro requested_update) (auto simp: is_requested_def)
  have ins: "requested_rows (snd (insert_operation (abandoned_row now hw' t v) db')) hw token
      = requested_rows db' hw token" for t v db'
    by (intro requested_insert) (simp add: is_requested_def abandoned_row_def)
  show ?thesis
    by (simp add: releaseExpiredClaim_def Let_def upd ins split: option.splits)
qed

lemma requested_pending:
  "requested_rows (resolvePending now hw' i v m db) hw token = requested_rows db hw token"
proof -
  have upd: "requested_rows (update_operations (\<lambda>r. o_id r = j \<and> o_hardware r = hw' \<and> o_outcome r = Unknown)
      (\<lambda>r. r\<lparr>o_outcome := oc, o_error_category := er, o_completed_at := co\<rparr>) db) hw token
      = requested_rows db hw token" if "oc \<in> {Verified, Not_applied}" for j oc er co
    using that by (intro requested_update) (auto simp: is_requested_def)
  show ?thesis
    by (simp add: resolvePending_def Let_def upd split: option.splits)
qed

lemma requested_frozen:
  assumes p: "cd_policies db hw = Some p" "p_claim_token p = Some tok" "p_claim_expires_at p = Some e"
    and now: "now \<le> e" and a: "action_token a \<noteq> Some (hw, tok)"
  shows "requested_rows (run_store a now db) hw tok = requested_rows db hw tok"
proof (cases a)
  case (A_release hw')
  have "releaseExpiredClaim now hw db = db"
    using p now by (simp add: releaseExpiredClaim_def expired_claim_def)
  then show ?thesis using requested_release [of hw' hw] by (cases "hw' = hw") (simp_all add: run_store_def A_release)
next
  case (A_finish hw' tok' outcome)
  then show ?thesis using a by (simp add: run_store_def action_token_def requested_finish)
next
  case (A_requested hw' tok' outcome e')
  have "requested_rows (snd (insert_operation (operationValues hw' tok' outcome Requested None None now) db')) hw tok
      = requested_rows db' hw tok" for db'
    using a A_requested by (intro requested_insert) (auto simp: is_requested_def operationValues_def action_token_def)
  then show ?thesis
    by (simp add: run_store_def A_requested recordRequested_def Let_def split: prod.splits)
      (metis requested_policy snd_conv)
next
  case (A_unavailable hw' n)
  show ?thesis
    by (simp add: run_store_def A_unavailable recordUnavailable_def Let_def split: option.splits)
qed (simp_all add: run_store_def claim_def renewClaim_def observe_def holdExternalDrift_def releaseDriftHold_def
    requested_pending)

definition others_until :: "int \<Rightarrow> string \<Rightarrow> int \<Rightarrow> (store_action \<times> int) list \<Rightarrow> bool" where
  \<comment> \<open>actions no later than the limit, none of them under this token\<close>
  "others_until hw tok limit as = (\<forall>(a, now) \<in> set as. now \<le> limit \<and> action_token a \<noteq> Some (hw, tok))"

lemma frozen_run:
  assumes "cd_policies db hw = Some p" "p_claim_token p = Some tok" "p_claim_expires_at p = Some e"
    and "others_until hw tok e as"
  shows "cd_policies (fold (\<lambda>(a, now). run_store a now) as db) hw = Some p \<and>
         requested_rows (fold (\<lambda>(a, now). run_store a now) as db) hw tok = requested_rows db hw tok"
  using assms
proof (induction as arbitrary: db)
  case Nil
  then show ?case by simp
next
  case (Cons x as)
  obtain a now where x: "x = (a, now)" by (cases x)
  have a: "now \<le> e" "action_token a \<noteq> Some (hw, tok)" "others_until hw tok e as"
    using Cons.prems(4) by (auto simp: x others_until_def)
  show ?case
    using Cons.IH [OF row_frozen [OF Cons.prems(1-3) a(1,2)] Cons.prems(2,3) a(3)]
      requested_frozen [OF Cons.prems(1-3) a(1,2)] by (simp add: x)
qed

lemma recordRequested_Some:
  assumes "recordRequested now hw tok outcome L db = (Some i, db1)"
  obtains p where "cd_policies db hw = Some p" "lease_held now tok p"
    and "cd_policies db1 hw = Some (p\<lparr>p_claim_expires_at := Some L\<rparr>)"
    and "requested_rows db1 hw tok = requested_rows db hw tok
          @ [(operationValues hw tok outcome Requested None None now)\<lparr>o_id := i\<rparr>]"
proof -
  have held: "fst (update_policy hw (lease_held now tok) (\<lambda>p. p\<lparr>p_claim_expires_at := Some L\<rparr>) db)"
    using assms by (simp add: recordRequested_def Let_def case_prod_beta split: if_splits)
  then obtain p where p: "cd_policies db hw = Some p" "lease_held now tok p"
    by (auto simp: fst_update_policy)
  have eq: "i = cd_next_operation db"
    "db1 = snd (insert_operation (operationValues hw tok outcome Requested None None now)
        (snd (update_policy hw (lease_held now tok) (\<lambda>p. p\<lparr>p_claim_expires_at := Some L\<rparr>) db)))"
    using assms held by (auto simp: recordRequested_def Let_def case_prod_beta insert_operation_def)
  have "cd_policies db1 hw = Some (p\<lparr>p_claim_expires_at := Some L\<rparr>)"
    using p by (simp add: eq policies_update_policy)
  moreover have "requested_rows db1 hw tok = requested_rows db hw tok
      @ [(operationValues hw tok outcome Requested None None now)\<lparr>o_id := i\<rparr>]"
    by (simp add: eq insert_operation_def Let_def requested_rows_def is_requested_def operationValues_def)
  ultimately show thesis using p that by blast
qed

lemma find_filter: "find P xs = (case filter P xs of [] \<Rightarrow> None | x # _ \<Rightarrow> Some x)"
  by (induction xs) auto

lemma filter_cleared:
  "(\<And>r. c r \<Longrightarrow> \<not> P (f r)) \<Longrightarrow> (\<And>r. \<not> c r \<Longrightarrow> \<not> P r) \<Longrightarrow>
    filter P (map (\<lambda>r. if c r then f r else r) xs) = []"
  by (induction xs) auto

lemma requested_rows_updated:
  assumes "r \<in> set (requested_rows db hw tok)"
  shows "f r \<in> set (cd_operations (update_operations (is_requested hw tok) f db))"
  using assms by (force simp: requested_rows_def update_operations_def)

lemma release_requested:
  assumes p: "cd_policies db hw = Some p" "p_claim_token p = Some tok" "expired_claim now p"
    and r: "requested_rows db hw tok = [r]" "o_target r = Some m" "isWritablePowerMode m"
  shows "requested_rows (releaseExpiredClaim now hw db) hw tok = []"
    and "\<exists>q. cd_policies (releaseExpiredClaim now hw db) hw = Some q \<and> p_claim_token q = None
      \<and> p_pending_target q = Some m \<and> p_pending_operation_id q = Some (o_id r) \<and> p_next_attempt_at q = None
      \<and> p_last_outcome q = Some ''unknown'' \<and> p_last_error q = Some ''abandoned_claim''"
    and "r\<lparr>o_outcome := Unknown, o_error_category := Some ''abandoned_claim'', o_completed_at := Some now\<rparr>
      \<in> set (cd_operations (releaseExpiredClaim now hw db))"
proof -
  have f: "find (is_requested hw tok) (cd_operations db) = Some r"
    using r(1) by (simp add: find_filter requested_rows_def)
  have "requested_rows (update_operations (is_requested hw tok)
      (\<lambda>r. r\<lparr>o_outcome := Unknown, o_error_category := er, o_completed_at := co\<rparr>) db) hw tok = []" for er co
    unfolding requested_rows_def update_operations_def
    by (simp, intro filter_cleared) (simp_all add: is_requested_def)
  then show "requested_rows (releaseExpiredClaim now hw db) hw tok = []"
    using p f by (simp add: releaseExpiredClaim_def Let_def)
  show "\<exists>q. cd_policies (releaseExpiredClaim now hw db) hw = Some q \<and> p_claim_token q = None
      \<and> p_pending_target q = Some m \<and> p_pending_operation_id q = Some (o_id r) \<and> p_next_attempt_at q = None
      \<and> p_last_outcome q = Some ''unknown'' \<and> p_last_error q = Some ''abandoned_claim''"
    using p f r(2,3) by (simp add: releaseExpiredClaim_def Let_def policies_update_policy)
  have "r \<in> set (requested_rows db hw tok)" using r(1) by simp
  from requested_rows_updated [OF this]
  show "r\<lparr>o_outcome := Unknown, o_error_category := Some ''abandoned_claim'', o_completed_at := Some now\<rparr>
      \<in> set (cd_operations (releaseExpiredClaim now hw db))"
    using p f by (simp add: releaseExpiredClaim_def Let_def)
qed

section \<open>Properties\<close>

text \<open>While a lease on a node runs, whatever other processes do to the store (claims, renewals and
  results under other tokens, observations, drift holds, expiry sweeps) leaves that node's policy row
  and its \<open>requested\<close> rows exactly as they are, so the lease holder is the only writer of the node.\<close>

theorem leased_node_has_one_writer:
  assumes "cd_policies db hw = Some p" "p_claim_token p = Some tok" "p_claim_expires_at p = Some e"
    and "others_until hw tok e as"
  shows "cd_policies (fold (\<lambda>(a, now). run_store a now) as db) hw = Some p \<and>
         requested_rows (fold (\<lambda>(a, now). run_store a now) as db) hw tok = requested_rows db hw tok"
  using assms by (rule frozen_run)

definition demo_policy_row :: policy_row where
  "demo_policy_row =
     \<lparr>p_version = 4, p_automation_enabled = True, p_paused = False, p_drift_hold = False,
      p_drift_hold_until = None, p_schedule = night_schedule\<lparr>ws_enabled := False, ws_windows := []\<rparr>,
      p_price_policy = demo_policy, p_latch = None, p_manual_mode = None, p_manual_expires_at = None,
      p_last_verified_mode = None, p_failure_count = 0, p_next_attempt_at = None, p_pending_target = None,
      p_pending_operation_id = None, p_claim_token = None, p_claim_expires_at = None, p_last_outcome = None,
      p_last_outcome_at = None, p_last_error = None, p_failure_notified_at = None, p_updated_at = 0\<rparr>"

definition demo_db :: control_db where
  "demo_db =
     \<lparr>cd_connections = [1 \<mapsto> \<lparr>c_config_version = 2, c_control_enabled = True, c_active = True,
        c_capabilities = Some \<lparr>cap_runtimeMode = ''supported'', cap_supportedModes = None\<rparr>\<rparr>],
      cd_policies = [1 \<mapsto> demo_policy_row], cd_operations = [], cd_next_operation = 1,
      cd_global_pause = False, cd_notices = []\<rparr>"

definition demo_leased :: control_db where
  "demo_leased = demo_db\<lparr>cd_policies := [1 \<mapsto> demo_policy_row\<lparr>p_claim_token := Some ''a'', p_claim_expires_at := Some 240000\<rparr>]\<rparr>"


text \<open>C2: The lease is mutual exclusion across processes: from a state where token \<open>tok\<close> holds the
  node's lease, no sequence of store actions at times up to the limit, in which \<open>tok\<close> itself does not
  finish and renews at most beyond the limit, puts the node under another token.\<close>

theorem lease_is_exclusive:
  assumes "store_lease db hw = Some (tok, e)" "limit \<le> e"
    and "\<forall>(a, now) \<in> set as. now \<le> limit \<and> action_ends a \<noteq> Some (hw, tok)
           \<and> (\<forall>e'. action_renews a = Some (hw, tok, e') \<longrightarrow> limit \<le> e')"
  shows "\<exists>e'. store_lease (fold (\<lambda>(a, now). run_store a now) as db) hw = Some (tok, e') \<and> limit \<le> e'"
  using control_lease.lease_survives [OF assms] by (simp only: control_lease.run_all_def)

theorem lease_is_exclusive_witness:
  "\<exists>e'. store_lease (fold (\<lambda>(a, now). run_store a now)
      [(A_renew 1 ''a'' 500000, 1000), (A_release 1, 2000), (A_unhold 1 4 High, 3000)] demo_leased) 1
    = Some (''a'', e') \<and> 240000 \<le> e'"
  by (rule lease_is_exclusive [where e = 240000])
    (auto simp: demo_leased_def store_lease_def action_ends_def action_renews_def)

text \<open>C10: A process that dies after it wrote its \<open>requested\<close> row never loses the write: once the lease
  has run out, the sweep settles exactly that row as \<open>unknown\<close> with the error \<open>abandoned_claim\<close> (no
  \<open>requested\<close> row is left under the token), frees the node, notes the unknown outcome on its policy and
  leaves the target and the operation pending with no backoff, whatever other processes did in between.\<close>

theorem abandoned_write_becomes_pending:
  assumes req: "recordRequested now hw tok outcome L db = (Some i, db1)"
    and fresh: "requested_rows db hw tok = []" and target: "isWritablePowerMode (co_target outcome)"
    and others: "others_until hw tok L as" and late: "L < now'"
  defines "db2 \<equiv> releaseExpiredClaim now' hw (fold (\<lambda>(a, t). run_store a t) as db1)"
  shows "requested_rows db2 hw tok = [] \<and>
    (operationValues hw tok outcome Unknown (Some ''abandoned_claim'') (Some now') now)\<lparr>o_id := i\<rparr>
      \<in> set (cd_operations db2) \<and>
    (\<exists>q. cd_policies db2 hw = Some q \<and> p_claim_token q = None \<and> p_next_attempt_at q = None
       \<and> p_pending_target q = Some (co_target outcome) \<and> p_pending_operation_id q = Some i
       \<and> p_last_outcome q = Some ''unknown'' \<and> p_last_error q = Some ''abandoned_claim'')"
proof -
  obtain p where p: "cd_policies db hw = Some p" "lease_held now tok p"
    and q: "cd_policies db1 hw = Some (p\<lparr>p_claim_expires_at := Some L\<rparr>)"
    and r: "requested_rows db1 hw tok = [(operationValues hw tok outcome Requested None None now)\<lparr>o_id := i\<rparr>]"
    using recordRequested_Some [OF req] fresh by (metis append_Nil)
  let ?db = "fold (\<lambda>(a, t). run_store a t) as db1"
  have t: "p_claim_token p = Some tok" using p(2) by (simp add: lease_held_def)
  have "cd_policies ?db hw = Some (p\<lparr>p_claim_expires_at := Some L\<rparr>) \<and>
      requested_rows ?db hw tok = requested_rows db1 hw tok"
    by (rule frozen_run [OF q _ _ others]) (simp_all add: t)
  then have s: "cd_policies ?db hw = Some (p\<lparr>p_claim_expires_at := Some L\<rparr>)"
    "requested_rows ?db hw tok = [(operationValues hw tok outcome Requested None None now)\<lparr>o_id := i\<rparr>]"
    using r by simp_all
  have "p_claim_token (p\<lparr>p_claim_expires_at := Some L\<rparr>) = Some tok"
    "expired_claim now' (p\<lparr>p_claim_expires_at := Some L\<rparr>)"
    using t late by (simp_all add: expired_claim_def)
  note rel = release_requested [OF s(1) this s(2) _ target]
  show ?thesis unfolding db2_def using rel by (auto simp: operationValues_def)
qed

definition demo_outcome :: claim_outcome where
  "demo_outcome =
     \<lparr>co_actor = Automation_actor, co_actorUserId = None, co_outcome = Stale, co_prior = Some Dynamic,
      co_target = Low,
      co_decision = \<lparr>pd_target = Some Low, pd_base = Some Dynamic, pd_actual = Dynamic, pd_reason = Price_high,
        pd_priceStatus = Status_valid, pd_validUntil = None,
        pd_latch = \<lparr>l_expensive = True, l_cheap = False, l_policyVersion = 7, l_priceRevision = ''r''\<rparr>,
        pd_policyError = None\<rparr>,
      co_audit = None, co_operationId = None, co_errorCategory = None\<rparr>"

theorem abandoned_write_becomes_pending_witness:
  "requested_rows (releaseExpiredClaim 300001 1
     (fold (\<lambda>(a, t). run_store a t) [(A_hold 1 4 High None, 200000)]
       (snd (recordRequested 1000 1 ''a'' demo_outcome 300000 demo_leased)))) 1 ''a'' = []"
proof -
  have req: "recordRequested 1000 1 ''a'' demo_outcome 300000 demo_leased
      = (Some 1, snd (recordRequested 1000 1 ''a'' demo_outcome 300000 demo_leased))"
    by (simp add: recordRequested_def update_policy_def insert_operation_def Let_def lease_held_def
        demo_leased_def demo_db_def)
  have "requested_rows demo_leased 1 ''a'' = []" "isWritablePowerMode (co_target demo_outcome)"
    "others_until 1 ''a'' 300000 [(A_hold 1 4 High None, 200000)]"
    by (simp_all add: requested_rows_def demo_leased_def demo_db_def demo_outcome_def isWritablePowerMode_def
        others_until_def action_token_def)
  from abandoned_write_becomes_pending [OF req this, of 300001] show ?thesis by simp
qed

text \<open>Failure notices are sent once per outage: over any sequence of store actions, the notices of
  a node alternate between \<open>power_control_failing\<close> and \<open>power_control_recovered\<close>, starting with a
  failure, and the node is marked as notified exactly when the last one was a failure.\<close>

theorem failure_notices_alternate:
  fixes db hw
  assumes "hw_events db hw = []" "\<not> notified db hw"
  defines "db' \<equiv> \<lambda>as. fold (\<lambda>(a, now). run_store a now) as db"
  shows "set (hw_events (db' as) hw) \<subseteq> {FAILING, RECOVERED} \<and> successively (\<noteq>) (hw_events (db' as) hw)
    \<and> (hw_events (db' as) hw \<noteq> [] \<longrightarrow> hd (hw_events (db' as) hw) = FAILING)
    \<and> (notified (db' as) hw \<longleftrightarrow> hw_events (db' as) hw \<noteq> [] \<and> last (hw_events (db' as) hw) = FAILING)"
proof -
  have "alternating (hw_events db hw) (notified db hw)"
    using assms(1,2) by (simp add: alternating_def)
  from alternating_run [OF this, of as] show ?thesis
    unfolding db'_def alternating_def by blast
qed

definition read_failed_note :: observation_note where
  "read_failed_note = \<lparr>n_outcome = Read_failed, n_error = ''timeout'', n_countsAsFailure = True\<rparr>"


text \<open>The failure backoff starts at one minute, doubles with each consecutive failure and never
  exceeds one hour, however many failures there were.\<close>

theorem failure_backoff_shape:
  "failureBackoffMs 1 = 60000 \<and> (\<forall>n. failureBackoffMs (Suc (Suc n)) = min 3600000 (2 * failureBackoffMs (Suc n)))
   \<and> (\<forall>n. 60000 \<le> failureBackoffMs n \<and> failureBackoffMs n \<le> 3600000)"
proof -
  have "failureBackoffMs (Suc (Suc n)) = min 3600000 (2 * failureBackoffMs (Suc n))" for n
    unfolding failureBackoffMs_def by (simp add: min_def)
  moreover have "failureBackoffMs 1 = 60000" by (simp add: failureBackoffMs_def)
  ultimately show ?thesis using failureBackoffMs_bounds by blast
qed

end
