(* ===== verification/Power_Controller.thy ===== *)
theory Power_Controller
  imports Power_Store
begin

text \<open>
  The reconciler, \<open>services/powerController.ts\<close>, with \<open>setRuntimeMode\<close> of \<open>services/iloAdapter.ts\<close>
  and \<open>services/manualPowerOverride.ts\<close>. One call of \<open>reconcile\<close> is a sequence of steps; before
  each awaited step other processes may change the database (\<open>e_act\<close>), and the clock, the iLO's
  answers and the price service's answers are read from the environment by step number, so every
  interleaving at the awaits is an environment. Every access of the database is appended to \<open>w_log\<close>
  with its step number and the database as it was found and left; \<open>w_patches\<close> lists the PATCH requests
  sent, each with its node, its mode and the accesses that preceded it.
  The deadline of the write call is the pair \<open>e_abandoned\<close> (the flag the guard sees) and
  \<open>e_write_deadline\<close> (the call was given up).
\<close>

datatype ilo_error = Ilo string | Deadline | Other_error string

datatype host_power = On | Off | Booting | Power_unknown

record runtime_state =
  rs_mode :: power_mode
  rs_power :: host_power

record discovery =
  d_mode :: power_mode
  d_supported :: bool
  d_origin :: "string option"
  d_power :: "host_power option"

record controller_timings =
  leaseMs :: int
  readTimeoutMs :: int
  writeTimeoutMs :: int
  dispatchBudgetMs :: int

definition DEFAULT_TIMINGS :: controller_timings where
  "DEFAULT_TIMINGS = \<lparr>leaseMs = 240000, readTimeoutMs = 45000, writeTimeoutMs = 120000, dispatchBudgetMs = 90000\<rparr>"

record control_env =
  e_act :: "nat \<Rightarrow> control_db \<Rightarrow> control_db"
  e_clock :: "nat \<Rightarrow> int"
  e_read :: "nat \<Rightarrow> ilo_error + runtime_state"
  e_price :: "nat \<Rightarrow> applicable_price option"
  e_discover :: "nat \<Rightarrow> ilo_error + discovery"
  e_patch :: "nat \<Rightarrow> ilo_error option"
  e_abandoned :: "nat \<Rightarrow> bool"
  e_write_deadline :: bool
  e_intl :: intl
  e_token :: string
  e_timings :: controller_timings

type_synonym db_access = "nat \<times> control_db \<times> control_db"

record world =
  w_db :: control_db
  w_step :: nat
  w_log :: "db_access list"
  w_patches :: "(int \<times> power_mode \<times> db_access list) list"
  w_active :: "int list"

definition ORDER :: "power_mode \<Rightarrow> int" where
  "ORDER m = (case m of Low \<Rightarrow> 0 | Dynamic \<Rightarrow> 1 | High \<Rightarrow> 2 | _ \<Rightarrow> -1)"

definition sameSelection :: "power_decision \<Rightarrow> power_decision \<Rightarrow> bool" where
  "sameSelection a b =
     (pd_target a = pd_target b \<and> pd_reason a = pd_reason b \<and> pd_validUntil a = pd_validUntil b
      \<and> l_priceRevision (pd_latch a) = l_priceRevision (pd_latch b)
      \<and> l_policyVersion (pd_latch a) = l_policyVersion (pd_latch b))"

definition is_letter :: "char \<Rightarrow> bool" where
  "is_letter c = (let n = of_char c :: nat in (65 \<le> n \<and> n \<le> 90) \<or> (97 \<le> n \<and> n \<le> 122))"

definition errorCategory :: "ilo_error \<Rightarrow> string" where
  "errorCategory err =
     (case err of
        Ilo code \<Rightarrow> code
      | Deadline \<Rightarrow> ''timeout''
      | Other_error name \<Rightarrow>
          if 1 \<le> length name \<and> length name \<le> 40 \<and> list_all is_letter name then name else ''unknown'')"

definition operationAudit :: "control_snapshot \<Rightarrow> power_decision \<Rightarrow> applicable_price option \<Rightarrow> operation_audit" where
  "operationAudit snapshot decision price =
     (let policy = cs_pricePolicy snapshot
      in \<lparr>au_configVersion = cs_configVersion snapshot, au_policyVersion = cs_policyVersion snapshot,
          au_scheduleVersion = ws_version (cs_schedule snapshot), au_pricePolicyVersion = pp_version policy,
          au_price = (if pd_priceStatus decision = Status_valid then price else None),
          au_thresholds = (if pp_enabled policy
            then Some (pp_expensive policy, pp_cheap policy,
                       case pp_minUpshift policy of Some m \<Rightarrow> m | None \<Rightarrow> 5)
            else None)\<rparr>)"

section \<open>Steps\<close>

definition tick :: "control_env \<Rightarrow> world \<Rightarrow> world" where
  "tick e w = w\<lparr>w_db := e_act e (w_step w) (w_db w), w_step := Suc (w_step w)\<rparr>"

definition now_of :: "control_env \<Rightarrow> world \<Rightarrow> int" where
  "now_of e w = e_clock e (w_step w)"

definition db_step :: "control_env \<Rightarrow> (int \<Rightarrow> control_db \<Rightarrow> 'a \<times> control_db) \<Rightarrow> world \<Rightarrow> 'a \<times> world" where
  "db_step e f w =
     (let w' = tick e w; (r, db) = f (now_of e w') (w_db w')
      in (r, w'\<lparr>w_db := db, w_log := w_log w' @ [(w_step w', w_db w', db)]\<rparr>))"

definition db_update :: "control_env \<Rightarrow> (int \<Rightarrow> control_db \<Rightarrow> control_db) \<Rightarrow> world \<Rightarrow> world" where
  "db_update e f w = snd (db_step e (\<lambda>now db. ((), f now db)) w)"

definition read_state :: "control_env \<Rightarrow> world \<Rightarrow> (ilo_error + runtime_state) \<times> world" where
  "read_state e w = (e_read e (w_step w), tick e w)"

definition decision ::
  "control_env \<Rightarrow> control_snapshot \<Rightarrow> power_mode \<Rightarrow> bool \<Rightarrow> world
    \<Rightarrow> (string + power_decision) \<times> applicable_price option \<times> world" where
  "decision e snapshot actualMode manual w =
     (let now = now_of e w;
          priced = pp_enabled (cs_pricePolicy snapshot) \<and> \<not> manual;
          price = (if priced then e_price e (w_step w) else None)
      in (resolvePowerDecision (e_intl e) (controllerDecisionInput snapshot now actualMode price manual),
          price, if priced then tick e w else w))"

definition withinUpshiftDwell :: "int \<Rightarrow> control_snapshot \<Rightarrow> power_mode \<Rightarrow> power_mode \<Rightarrow> bool \<Rightarrow> bool" where
  "withinUpshiftDwell now snapshot actual target manual =
     (if manual \<or> \<not> pp_enabled (cs_pricePolicy snapshot) then False
      else case cs_lastAutomaticUpshiftAt snapshot of
        None \<Rightarrow> False
      | Some t \<Rightarrow>
          if ORDER target \<le> ORDER actual then False
          else let minutes = (case pp_minUpshift (cs_pricePolicy snapshot) of Some m \<Rightarrow> m | None \<Rightarrow> 5)
               in now < t + minutes * 60000)"

definition driftHoldUntil :: "control_env \<Rightarrow> int \<Rightarrow> control_snapshot \<Rightarrow> power_mode \<Rightarrow> int option" where
  "driftHoldUntil e now snapshot actual =
     (if actual = Os_control \<or> actual = Unknown_mode \<or> \<not> ws_enabled (cs_schedule snapshot) then None
      else case scheduleBoundaryInstants (e_intl e) (cs_schedule snapshot) now (now + 8 * 86400000) of
        Inr (t # _) \<Rightarrow> Some t
      | _ \<Rightarrow> None)"

definition inBackoff :: "int \<Rightarrow> control_snapshot \<Rightarrow> bool \<Rightarrow> bool" where
  "inBackoff now snapshot manual =
     (\<not> manual \<and> (case cs_nextAttemptAt snapshot of Some t \<Rightarrow> now < t | None \<Rightarrow> False))"

section \<open>The hardware write\<close>

text \<open>
  \<open>setRuntimeMode\<close>: discovery, the pre-dispatch guard, one PATCH that is never retried, and a
  bounded readback. \<open>g\<close> is what the guard hands back besides its verdict.
\<close>

definition readback :: "control_env \<Rightarrow> power_mode \<Rightarrow> nat \<Rightarrow> world \<Rightarrow> op_outcome \<times> world" where
  "readback e target attempts w =
     fold (\<lambda>_ (outcome, w).
        if outcome = Verified then (outcome, w)
        else (case e_read e (w_step w) of
                Inr st \<Rightarrow> (if rs_mode st = target then Verified else outcome)
              | Inl _ \<Rightarrow> outcome, tick e w)) [0..<attempts] (Unknown, w)"

definition system_path :: "string \<Rightarrow> bool" where
  \<comment> \<open>\<open>/^\\/(?:redfish|rest)\\/v1\\/Systems\\/[^/?#]+\\/?$/\<close>\<close>
  "system_path path =
     (\<exists>pre \<in> {''/redfish/v1/Systems/'', ''/rest/v1/Systems/''}. starts_with pre path \<and>
        (let r = drop (length pre) path;
             body = (if ends_with ''/'' r then butlast r else r)
         in body \<noteq> [] \<and> list_all (\<lambda>c. c \<noteq> CHR ''/'' \<and> c \<noteq> CHR ''?'' \<and> c \<noteq> CHR ''#'') body))"

definition regulator_origin :: "string \<Rightarrow> bool" where
  "regulator_origin origin =
     (case split_on (CHR ''#'') origin of
        path # property # _ \<Rightarrow>
          property \<in> {''Oem.Hp.PowerRegulatorMode'', ''Oem.Hpe.PowerRegulatorMode''} \<and> system_path path
      | _ \<Rightarrow> False)"

definition send_patch ::
  "control_env \<Rightarrow> int \<Rightarrow> power_mode \<Rightarrow> power_mode \<Rightarrow> 'g \<Rightarrow> world
    \<Rightarrow> (ilo_error + (power_mode \<times> op_outcome)) \<times> 'g \<times> world" where
  "send_patch e hw target prior g w2 =
     (let w3 = w2\<lparr>w_patches := w_patches w2 @ [(hw, target, w_log w2)]\<rparr>;
          w4 = tick e w3;
          (oc, w5) = readback e target 3 w4
      in case e_patch e (w_step w3) of
           Some err \<Rightarrow> if err = Ilo ''timeout'' then (Inr (prior, oc), g, w5) else (Inl err, g, w4)
         | None \<Rightarrow> (Inr (prior, oc), g, w5))"

definition setRuntimeMode ::
  "control_env \<Rightarrow> int \<Rightarrow> power_mode \<Rightarrow> (world \<Rightarrow> ((ilo_error + bool) \<times> 'g) \<times> world) \<Rightarrow> 'g \<Rightarrow> world
    \<Rightarrow> (ilo_error + (power_mode \<times> op_outcome)) \<times> 'g \<times> world" where
  "setRuntimeMode e hw target guard g0 w =
     (if \<not> isWritablePowerMode target then (Inl (Ilo ''invalid_target''), g0, w)
      else case e_discover e (w_step w) of
        Inl err \<Rightarrow> (Inl err, g0, tick e w)
      | Inr before \<Rightarrow>
          let w1 = tick e w in
          if d_mode before = Os_control \<or> d_mode before = Unknown_mode \<or> \<not> d_supported before \<or> d_origin before \<in> {None, Some []}
          then (Inl (Ilo ''missing_endpoint''), g0, w1)
          else if d_power before \<noteq> Some On then (Inl (Ilo ''host_not_running''), g0, w1)
          else if d_mode before = target then (Inr (d_mode before, Already_set), g0, w1)
          else if \<not> regulator_origin (the (d_origin before)) then (Inl (Ilo ''missing_endpoint''), g0, w1)
          else
            let ((verdict, g), w2) = guard w1 in
            case verdict of Inl err \<Rightarrow> (Inl err, g, w2) | Inr ok \<Rightarrow>
            if \<not> ok then (Inl (Ilo ''policy_changed''), g, w2)
            else send_patch e hw target (d_mode before) g w2)"

section \<open>Dispatch\<close>

datatype reconcile_status =
    S_not_configured | S_disabled | S_busy | S_hold | S_already_set | S_stale | S_verified | S_unknown
  | S_failed | S_unavailable | S_backoff

definition status_of :: "op_outcome \<Rightarrow> reconcile_status" where
  "status_of oc = (case oc of Verified \<Rightarrow> S_verified | Already_set \<Rightarrow> S_already_set | Unknown \<Rightarrow> S_unknown
     | Failed \<Rightarrow> S_failed | Stale \<Rightarrow> S_stale | Unavailable \<Rightarrow> S_unavailable | _ \<Rightarrow> S_unknown)"

definition lease_until :: "control_env \<Rightarrow> world \<Rightarrow> int" where
  "lease_until e w = now_of e w + leaseMs (e_timings e)"

definition versions_match :: "control_snapshot \<Rightarrow> control_snapshot \<Rightarrow> bool" where
  "versions_match s initial =
     (cs_configVersion s = cs_configVersion initial \<and> cs_policyVersion s = cs_policyVersion initial)"

definition query :: "control_env \<Rightarrow> (int \<Rightarrow> control_db \<Rightarrow> 'a) \<Rightarrow> world \<Rightarrow> 'a \<times> world" where
  "query e f w = db_step e (\<lambda>now db. (f now db, db)) w"

text \<open>\<open>load\<close> and \<open>claimStillCurrent\<close> of the store, one step per awaited statement.\<close>

definition load_step :: "control_env \<Rightarrow> int \<Rightarrow> world \<Rightarrow> control_snapshot option \<times> world" where
  "load_step e hw w =
     (let (joined, w1) = query e (\<lambda>_ db. load_rows db hw) w in
      case joined of
        None \<Rightarrow> (None, w1)
      | Some (c, p) \<Rightarrow>
          let (upshift, w2) = query e (\<lambda>_ db. last_upshift db hw) w1;
              (paused, w3) = (if p_paused p then (True, w2) else query e (\<lambda>_ db. cd_global_pause db) w2)
          in (Some (snapshot_of hw c p upshift paused), w3))"

definition current_step :: "control_env \<Rightarrow> control_snapshot \<Rightarrow> bool \<Rightarrow> world \<Rightarrow> bool \<times> world" where
  "current_step e snapshot manual w =
     (let (off, w1) = (if manual then (False, w) else query e (\<lambda>_ db. cd_global_pause db) w)
      in if off then (False, w1)
         else query e (\<lambda>now db. claim_row_current now snapshot (e_token e) manual db) w1)"

text \<open>The pre-dispatch guard; its second result is the id of the \<open>requested\<close> row once dispatched.\<close>

definition dispatch_guard ::
  "control_env \<Rightarrow> int \<Rightarrow> control_snapshot \<Rightarrow> bool \<Rightarrow> int \<Rightarrow> power_decision \<Rightarrow> power_mode \<Rightarrow> power_mode
    \<Rightarrow> claim_outcome \<Rightarrow> world \<Rightarrow> ((ilo_error + bool) \<times> int option) \<times> world" where
  "dispatch_guard e hw initial manual claimedAt renewed current target outcome w =
     (if e_abandoned e (w_step w) \<or> now_of e w - claimedAt > dispatchBudgetMs (e_timings e) then ((Inr False, None), w)
      else
        let (still, w1) = current_step e initial manual w in
        if \<not> still then ((Inr False, None), w1)
        else
          let (latest, w2) = load_step e hw w1 in
          (case latest of
             None \<Rightarrow> ((Inr False, None), w2)
           | Some l \<Rightarrow>
               if \<not> versions_match l initial then ((Inr False, None), w2)
               else
                 let (r, _, w3) = decision e l current manual w2 in
                 (case r of
                    Inl _ \<Rightarrow> ((Inl (Other_error ''Error''), None), w3)
                  | Inr atDispatch \<Rightarrow>
                      if \<not> sameSelection renewed atDispatch \<or> pd_target atDispatch \<noteq> Some target
                         \<or> withinUpshiftDwell (now_of e w3) l current target manual \<or> e_abandoned e (w_step w3)
                      then ((Inr False, None), w3)
                      else
                        let lease = lease_until e w3;
                            (i, w4) = db_step e (\<lambda>now db. recordRequested now hw (e_token e) outcome lease db) w3
                        in if i = None \<or> e_abandoned e (w_step w4) then ((Inr False, None), w4)
                           else ((Inr True, i), w4))))"

definition refused_codes :: "string list" where
  "refused_codes = [''authentication_failed'', ''insufficient_privilege'', ''conflict'', ''invalid_target'']"

definition failed_attempt ::
  "ilo_error \<Rightarrow> bool \<Rightarrow> claim_outcome \<Rightarrow> reconcile_status \<times> power_decision \<times> claim_outcome" where
  "failed_attempt err dispatched outcome =
     (let refused = (case err of Ilo code \<Rightarrow> code \<in> set refused_codes | _ \<Rightarrow> False);
          oc = (if dispatched \<and> \<not> refused then Unknown else Failed)
      in (status_of oc, co_decision outcome,
          outcome\<lparr>co_outcome := oc, co_errorCategory := Some (errorCategory err)\<rparr>))"

definition conclude_write ::
  "ilo_error + (power_mode \<times> op_outcome) \<Rightarrow> bool \<Rightarrow> power_decision \<Rightarrow> claim_outcome
    \<Rightarrow> reconcile_status \<times> power_decision \<times> claim_outcome" where
  "conclude_write r dispatched renewed outcome =
     (case r of
        Inl err \<Rightarrow>
          if err = Ilo ''policy_changed'' then (S_stale, renewed, outcome)
          else if err = Ilo ''host_not_running'' then
            (S_unavailable, renewed, outcome\<lparr>co_outcome := Unavailable, co_errorCategory := Some ''host_not_running''\<rparr>)
          else failed_attempt err dispatched outcome
      | Inr (prior, oc) \<Rightarrow>
          (status_of oc, renewed, outcome\<lparr>co_outcome := oc, co_prior := Some prior\<rparr>))"

definition write_attempt ::
  "control_env \<Rightarrow> int \<Rightarrow> control_snapshot \<Rightarrow> bool \<Rightarrow> int \<Rightarrow> power_decision \<Rightarrow> power_mode \<Rightarrow> power_mode
    \<Rightarrow> claim_outcome \<Rightarrow> world \<Rightarrow> (reconcile_status \<times> power_decision \<times> claim_outcome) \<times> world" where
  "write_attempt e hw initial manual claimedAt renewed current target outcome w =
     (let (r0, i, w1) = setRuntimeMode e hw target
            (dispatch_guard e hw initial manual claimedAt renewed current target outcome) None w;
          r = (if e_write_deadline e then Inl Deadline else r0);
          outcome1 = outcome\<lparr>co_operationId := (if i = None then co_operationId outcome else i)\<rparr>
      in (conclude_write r (i \<noteq> None) renewed outcome1, w1))"

definition attempt ::
  "control_env \<Rightarrow> int \<Rightarrow> control_snapshot \<Rightarrow> power_decision \<Rightarrow> bool \<Rightarrow> int \<Rightarrow> claim_outcome
    \<Rightarrow> world \<Rightarrow> (reconcile_status \<times> power_decision \<times> claim_outcome) \<times> world" where
  "attempt e hw initial selected manual claimedAt outcome w =
     (let (fresh0, w1) = load_step e hw w in
      case fresh0 of
        None \<Rightarrow> ((S_stale, selected, outcome), w1)
      | Some fresh \<Rightarrow>
          if \<not> versions_match fresh initial then ((S_stale, selected, outcome), w1)
          else
            let (still, w2) = current_step e initial manual w1 in
            if \<not> still then ((S_stale, selected, outcome), w2)
            else
              let lease = lease_until e w2;
                  (renewedLease, w3) = db_step e (\<lambda>now db. renewClaim now hw (e_token e) lease db) w2 in
              if \<not> renewedLease then ((S_stale, selected, outcome), w3)
              else
                let (st, w4) = read_state e w3 in
                (case st of
                   Inl err \<Rightarrow> (failed_attempt err False outcome, w4)
                 | Inr state \<Rightarrow>
                     if rs_power state \<noteq> On then
                       ((S_unavailable, selected, outcome\<lparr>co_outcome := Unavailable, co_prior := Some (rs_mode state),
                          co_errorCategory := Some ''host_not_running''\<rparr>), w4)
                     else
                       let current = rs_mode state;
                           (r, price, w5) = decision e fresh current manual w4
                       in (case r of
                             Inl _ \<Rightarrow> (failed_attempt (Other_error ''Error'') False outcome, w5)
                           | Inr renewed \<Rightarrow>
                               (case pd_target renewed of
                                  None \<Rightarrow> ((S_stale, renewed, outcome), w5)
                                | Some target \<Rightarrow>
                                    if \<not> sameSelection selected renewed then ((S_stale, renewed, outcome), w5)
                                    else
                                      let outcome1 = outcome\<lparr>co_prior := Some current, co_target := target,
                                            co_decision := renewed, co_audit := Some (operationAudit fresh renewed price)\<rparr>
                                      in if current = target
                                         then ((S_already_set, renewed, outcome1\<lparr>co_outcome := Already_set\<rparr>), w5)
                                         else if withinUpshiftDwell (now_of e w5) fresh current target manual
                                         then ((S_hold, renewed, outcome1), w5)
                                         else write_attempt e hw initial manual claimedAt renewed current target outcome1 w5))))"

definition dispatch ::
  "control_env \<Rightarrow> int \<Rightarrow> control_snapshot \<Rightarrow> power_decision \<Rightarrow> power_mode \<Rightarrow> power_mode \<Rightarrow> bool \<Rightarrow> int option
    \<Rightarrow> world \<Rightarrow> (reconcile_status \<times> power_decision) \<times> world" where
  "dispatch e hw initial selected target actual manual actorUserId w =
     (let token = e_token e;
          claimedAt = now_of e w;
          lease = lease_until e w;
          (got, w1) = db_step e (\<lambda>_ db. claim initial token lease db) w
      in if \<not> got then ((S_busy, selected), w1)
         else
           let outcome0 = \<lparr>co_actor = (if manual then Manual_actor else Automation_actor), co_actorUserId = actorUserId,
                  co_outcome = Stale, co_prior = Some actual, co_target = target, co_decision = selected,
                  co_audit = Some (operationAudit initial selected None), co_operationId = None, co_errorCategory = None\<rparr>;
               ((status, d, outcome), w2) = attempt e hw initial selected manual claimedAt outcome0 w1
           in ((status, d), db_update e (\<lambda>now db. finish now hw token outcome db) w2))"

section \<open>Reconcile\<close>

definition observe_step ::
  "control_env \<Rightarrow> int \<Rightarrow> control_snapshot \<Rightarrow> power_decision \<Rightarrow> power_mode \<Rightarrow> observation_note option \<Rightarrow> world \<Rightarrow> world" where
  "observe_step e hw s d actual n w =
     db_update e (\<lambda>now db. observe now hw (cs_policyVersion s) d actual n db) w"

text \<open>After a successful read: resolve a pending write, hold drift, decide and dispatch.\<close>

definition act_on ::
  "control_env \<Rightarrow> int \<Rightarrow> bool \<Rightarrow> int option \<Rightarrow> control_snapshot \<Rightarrow> power_mode \<Rightarrow> world
    \<Rightarrow> (string + reconcile_status \<times> power_decision option) \<times> world" where
  "act_on e hw manual actorUserId initial actual w =
     (let (r, _, w1) = decision e initial actual manual w in
      case r of
        Inl err \<Rightarrow> (Inl err, w1)
      | Inr selected \<Rightarrow>
          let n = (case pd_policyError selected of
                Some err \<Rightarrow> Some \<lparr>n_outcome = Note_policy_invalid, n_error = err, n_countsAsFailure = False\<rparr>
              | None \<Rightarrow> None)
          in (case pd_target selected of
                None \<Rightarrow> (Inr (S_hold, Some selected), observe_step e hw initial selected actual n w1)
              | Some target \<Rightarrow>
                  if target = actual
                  then (Inr (S_already_set, Some selected), observe_step e hw initial selected actual n w1)
                  else
                    let w2 = (if n \<noteq> None then observe_step e hw initial selected actual n w1 else w1)
                    in if withinUpshiftDwell (now_of e w2) initial actual target manual
                       then (Inr (S_hold, Some selected), w2)
                       else let ((status, d), w3) = dispatch e hw initial selected target actual manual actorUserId w2
                            in (Inr (status, Some d), w3)))"

definition after_read ::
  "control_env \<Rightarrow> int \<Rightarrow> bool \<Rightarrow> int option \<Rightarrow> control_snapshot \<Rightarrow> power_mode \<Rightarrow> world
    \<Rightarrow> (string + reconcile_status \<times> power_decision option) \<times> world" where
  "after_read e hw manual actorUserId initial0 actual w =
     (let (initial, w1) =
         (case cs_pendingTarget initial0 of
            Some t \<Rightarrow>
              let applied = (actual = t)
              in (initial0\<lparr>cs_pendingTarget := None, cs_pendingOperationId := None,
                    cs_lastVerifiedMode := (if applied then Some actual else cs_lastVerifiedMode initial0)\<rparr>,
                  db_update e (\<lambda>now db. resolvePending now hw (cs_pendingOperationId initial0) applied actual db) w)
          | None \<Rightarrow> (initial0, w));
          drifted = (case cs_lastVerifiedMode initial of Some m \<Rightarrow> m \<noteq> actual | None \<Rightarrow> False)
      in if \<not> manual \<and> drifted \<and> \<not> cs_driftHold initial
         then (Inr (S_hold, None),
               let hold = driftHoldUntil e (now_of e w1) initial actual
               in db_update e (\<lambda>now db. holdExternalDrift now hw (cs_policyVersion initial) actual hold db) w1)
         else if \<not> manual \<and> cs_driftHold initial
                 \<and> (case cs_driftHoldUntil initial of Some t \<Rightarrow> now_of e w1 \<ge> t | None \<Rightarrow> False) \<and> ORDER actual \<ge> 0
         then
           let (released, w2) = db_step e (\<lambda>now db. releaseDriftHold now hw (cs_policyVersion initial) actual db) w1
           in if released
              then (let (reloaded, w3) = load_step e hw w2
                    in (case reloaded of
                          None \<Rightarrow> (Inr (S_not_configured, None), w3)
                        | Some s \<Rightarrow> act_on e hw manual actorUserId s actual w3))
              else act_on e hw manual actorUserId initial actual w2
         else act_on e hw manual actorUserId initial actual w1)"

definition reconcile_body ::
  "control_env \<Rightarrow> int \<Rightarrow> bool \<Rightarrow> int option \<Rightarrow> world \<Rightarrow> (string + reconcile_status \<times> power_decision option) \<times> world" where
  "reconcile_body e hw manual actorUserId w =
     (let w1 = db_update e (\<lambda>now db. releaseExpiredClaim now hw db) w;
          (loaded, w2) = load_step e hw w1
      in case loaded of
           None \<Rightarrow> (Inr (S_not_configured, None), w2)
         | Some initial \<Rightarrow>
             if \<not> cs_controlEnabled initial \<or> \<not> manual \<and> \<not> cs_automationEnabled initial
             then (Inr (S_disabled, None), w2)
             else if inBackoff (now_of e w2) initial manual then (Inr (S_backoff, None), w2)
             else
               let (st, w3) = read_state e w2 in
               (case st of
                  Inl err \<Rightarrow>
                    (Inr (S_unavailable, None),
                     db_update e (\<lambda>now db. recordUnavailable now hw
                       \<lparr>n_outcome = Read_failed, n_error = errorCategory err, n_countsAsFailure = True\<rparr> db) w3)
                | Inr state \<Rightarrow>
                    if rs_power state \<noteq> On
                    then (Inr (S_unavailable, None),
                      db_update e (\<lambda>now db. recordUnavailable now hw
                        \<lparr>n_outcome = Host_not_running,
                         n_error = (case rs_power state of Off \<Rightarrow> ''off'' | Booting \<Rightarrow> ''booting'' | On \<Rightarrow> ''on''
                                    | Power_unknown \<Rightarrow> ''unknown''), n_countsAsFailure = False\<rparr> db) w3)
                    else after_read e hw manual actorUserId initial (rs_mode state) w3))"

definition reconcile ::
  "control_env \<Rightarrow> int \<Rightarrow> bool \<Rightarrow> int option \<Rightarrow> world \<Rightarrow> (string + reconcile_status \<times> power_decision option) \<times> world" where
  "reconcile e hw manual actorUserId w =
     (if hw \<in> set (w_active w) then (Inr (S_busy, None), w)
      else
        let (r, w') = reconcile_body e hw manual actorUserId (w\<lparr>w_active := hw # w_active w\<rparr>)
        in (r, w'\<lparr>w_active := removeAll hw (w_active w')\<rparr>))"

section \<open>Manual overrides\<close>

datatype duration_kind = Minutes | Next_schedule_boundary | Until_cleared | Bad_kind

record duration_request =
  dr_kind :: "duration_kind option"
  dr_minutes :: "int option"
  dr_untilCleared :: "bool option"

definition resolveManualExpiry ::
  "intl \<Rightarrow> duration_request \<Rightarrow> weekly_schedule \<Rightarrow> int \<Rightarrow> int option fallible" where
  "resolveManualExpiry z request schedule now =
     (let kind = (case dr_kind request of Some k \<Rightarrow> k
            | None \<Rightarrow> if dr_untilCleared request = Some True then Until_cleared else Minutes)
      in if kind = Bad_kind \<or> dr_untilCleared request = Some True \<and> kind \<noteq> Until_cleared
            \<or> dr_untilCleared request = Some False \<and> kind = Until_cleared
         then Inl ''Invalid manual override duration''
         else if kind = Minutes then
           (let minutes = (case dr_minutes request of Some m \<Rightarrow> m | None \<Rightarrow> 180)
            in if minutes < 1 \<or> minutes > 1440 then Inl ''Invalid manual override duration''
               else Inr (Some (now + minutes * 60000)))
         else if dr_minutes request \<noteq> None then Inl ''Invalid manual override duration''
         else if kind = Until_cleared then Inr None
         else if \<not> ws_enabled schedule then Inl ''Enable a weekly schedule to use the next-boundary override''
         else bind_err (scheduleBoundaryInstants z schedule now (now + 8 * 86400000)) (\<lambda>bs.
           case bs of [] \<Rightarrow> Inl ''No next weekly schedule boundary is configured'' | t # _ \<Rightarrow> Inr (Some t)))"

section \<open>What a reconcile may send\<close>

text \<open>A step is \<open>calm\<close> when it sends no PATCH; it only moves the step counter on and adds accesses.\<close>

definition calm :: "world \<Rightarrow> world \<Rightarrow> bool" where
  "calm w w' \<longleftrightarrow> w_patches w' = w_patches w \<and> w_step w \<le> w_step w' \<and>
     (\<exists>l. w_log w' = w_log w @ l \<and> list_all (\<lambda>x. w_step w < fst x) l)"

lemma calm_refl [simp, intro]: "calm w w"
  by (simp add: calm_def)

lemma calm_trans: "calm w w1 \<Longrightarrow> calm w1 w2 \<Longrightarrow> calm w w2"
  by (fastforce simp: calm_def list_all_iff)

lemma calm_tick: "calm w (tick e w)"
  by (simp add: calm_def tick_def)

lemma calm_db_step: "calm w (snd (db_step e f w))"
  by (simp add: calm_def tick_def db_step_def Let_def case_prod_beta)

lemma calm_query: "calm w (snd (query e f w))"
  by (simp add: query_def calm_db_step)

lemma calm_db_update: "calm w (db_update e g w)"
  by (simp add: db_update_def calm_db_step)

lemma calm_observe: "calm w (observe_step e hw s d m n w)"
  by (simp add: observe_step_def calm_db_update)

lemma calm_read: "calm w (snd (read_state e w))"
  by (simp add: read_state_def calm_tick)

lemma calm_decision: "calm w (snd (snd (decision e s m b w)))"
  by (simp add: decision_def Let_def calm_tick)

lemma calm_load: "calm w (snd (load_step e hw w))"
  by (auto simp: load_step_def Let_def case_prod_beta split: option.splits intro!: calm_query intro: calm_trans)

lemma calm_current: "calm w (snd (current_step e s manual w))"
  by (auto simp: current_step_def Let_def case_prod_beta intro!: calm_query intro: calm_trans)

lemmas calm_steps = calm_tick calm_db_step calm_query calm_db_update calm_observe calm_read calm_decision
  calm_load calm_current

lemmas calm_then [intro!] = calm_steps [THEN calm_trans [rotated]]

lemma calm_active [simp]: "calm w (w1\<lparr>w_active := a\<rparr>) = calm w w1" "calm (w\<lparr>w_active := a\<rparr>) w1 = calm w w1"
  by (simp_all add: calm_def)

lemma calm_readback: "calm w (snd (readback e target n w))"
proof -
  have "calm w (snd (fold (\<lambda>_ (outcome, w).
        if outcome = Verified then (outcome, w)
        else (case e_read e (w_step w) of
                Inr st \<Rightarrow> (if rs_mode st = target then Verified else outcome)
              | Inl _ \<Rightarrow> outcome, tick e w)) xs (oc, w)))" for xs :: "nat list" and oc w
    by (induction xs arbitrary: oc w) (auto intro: calm_trans [OF calm_tick])
  then show ?thesis by (simp add: readback_def)
qed

lemma calm_guard: "calm w (snd (dispatch_guard e hw initial manual c renewed current target outcome w))"
  by (auto simp: dispatch_guard_def Let_def case_prod_beta split: option.splits sum.splits)


text \<open>What the log of a run says about a PATCH: the statements of one \<open>load\<close>, in order and with what
  each of them found, and the whole licence - the mode that this run last read from the iLO, the
  snapshot and the decision it led to, and the \<open>requested\<close> row as the last access.\<close>

definition snapshot_read :: "int \<Rightarrow> db_access list \<Rightarrow> control_snapshot \<Rightarrow> bool" where
  "snapshot_read hw reads s \<longleftrightarrow>
     (\<exists>k1 db1 k2 db2 c p. load_rows db1 hw = Some (c, p) \<and>
        (p_paused p \<and> reads = [(k1, db1, db1), (k2, db2, db2)]
           \<and> s = snapshot_of hw c p (last_upshift db2 hw) True
         \<or> (\<exists>k3 db3. \<not> p_paused p \<and> reads = [(k1, db1, db1), (k2, db2, db2), (k3, db3, db3)]
           \<and> s = snapshot_of hw c p (last_upshift db2 hw) (cd_global_pause db3))))"

definition dispatch_input :: "control_env \<Rightarrow> control_snapshot \<Rightarrow> nat \<Rightarrow> power_mode \<Rightarrow> bool \<Rightarrow> decision_input" where
  \<comment> \<open>the input of a decision taken at step \<open>t\<close>: its clock and the price service's answer there\<close>
  "dispatch_input e s t actual manual =
     controllerDecisionInput s (e_clock e t) actual
       (if pp_enabled (cs_pricePolicy s) \<and> \<not> manual then e_price e t else None) manual"

definition licensed ::
  "control_env \<Rightarrow> int \<Rightarrow> bool \<Rightarrow> power_mode \<Rightarrow> nat \<Rightarrow> power_mode \<Rightarrow> nat \<Rightarrow> int \<Rightarrow> db_access list \<Rightarrow> bool" where
  "licensed e hw manual actual r target k i log \<longleftrightarrow>
     (\<exists>before reads s d outcome lease db db'.
        log = before @ reads @ [(k, db, db')] \<and> list_all (\<lambda>x. r < fst x) reads
        \<and> snapshot_read hw reads s
        \<and> resolvePowerDecision (e_intl e) (dispatch_input e s (fst (last reads)) actual manual) = Inr d
        \<and> pd_target d = Some target
        \<and> recordRequested (e_clock e k) hw (e_token e) outcome lease db = (Some i, db')
        \<and> co_target outcome = target)"

lemma query_log: "w_log (snd (query e f w)) = w_log w @ [(Suc (w_step w), e_act e (w_step w) (w_db w), e_act e (w_step w) (w_db w))]"
  and query_step: "w_step (snd (query e f w)) = Suc (w_step w)"
  and query_result: "fst (query e f w) = f (e_clock e (Suc (w_step w))) (e_act e (w_step w) (w_db w))"
  by (simp_all add: query_def db_step_def tick_def now_of_def Let_def)

lemma load_step_read:
  assumes "load_step e hw w = (Some s, w')"
  shows "\<exists>reads. w_log w' = w_log w @ reads \<and> snapshot_read hw reads s
    \<and> list_all (\<lambda>x. w_step w < fst x) reads \<and> fst (last reads) = w_step w'"
proof -
  let ?w1 = "snd (query e (\<lambda>_ db. load_rows db hw) w)"
  let ?w2 = "snd (query e (\<lambda>_ db. last_upshift db hw) ?w1)"
  from assms obtain c p where rows: "fst (query e (\<lambda>_ db. load_rows db hw) w) = Some (c, p)"
    by (auto simp: load_step_def Let_def case_prod_beta split: option.splits)
  show ?thesis
  proof (cases "p_paused p")
    case True
    with assms rows show ?thesis
      by (auto simp: load_step_def Let_def case_prod_beta query_log query_step query_result snapshot_read_def)
  next
    case False
    with assms rows show ?thesis
      by (auto simp: load_step_def Let_def case_prod_beta query_log query_step query_result snapshot_read_def)
  qed
qed

lemma decision_result:
  "fst (decision e s actual manual w) = resolvePowerDecision (e_intl e) (dispatch_input e s (w_step w) actual manual)"
  by (simp add: decision_def dispatch_input_def Let_def now_of_def)

lemma db_step_log: "db_step e f w = (r, w') \<Longrightarrow>
    (let db = e_act e (w_step w) (w_db w); k = Suc (w_step w)
     in w_step w' = k \<and> w_log w' = w_log w @ [(k, db, w_db w')] \<and> f (e_clock e k) db = (r, w_db w'))"
  by (auto simp: db_step_def tick_def now_of_def Let_def case_prod_beta)

lemma calm_log: "calm w w' \<Longrightarrow> \<exists>l. w_log w' = w_log w @ l"
  and calm_step: "calm w w' \<Longrightarrow> w_step w \<le> w_step w'"
  and calm_patches: "calm w w' \<Longrightarrow> w_patches w' = w_patches w"
  by (auto simp: calm_def)

lemma guard_licensed:
  assumes "dispatch_guard e hw initial manual c renewed current target outcome w = ((Inr True, i), w')"
    and "co_target outcome = target" and "r < w_step w"
  shows "\<exists>j l. i = Some j \<and> w_log w' = w_log w @ l \<and> licensed e hw manual current r target (w_step w') j l"
proof -
  obtain still w1 where s1: "current_step e initial manual w = (still, w1)" by (rule prod.exhaust)
  obtain latest w2 where s2: "load_step e hw w1 = (latest, w2)" by (rule prod.exhaust)
  note start = assms(1) [unfolded dispatch_guard_def s1 Let_def split_conv s2]
  from start obtain s where l: "latest = Some s" "still" "versions_match s initial"
    by (auto split: if_splits option.splits)
  obtain res price w3 where s3: "decision e s current manual w2 = (res, price, w3)" by (rule prod_cases3)
  from start obtain d where d: "res = Inr d" "pd_target d = Some target"
    by (auto simp: l s3 split: if_splits sum.splits)
  obtain m w4 where s4: "db_step e (\<lambda>now db. recordRequested now hw (e_token e) outcome (lease_until e w3) db) w3 = (m, w4)"
    by (rule prod.exhaust)
  from start have j: "m = i" "i \<noteq> None" "w' = w4" by (auto simp: l s3 d s4 split: if_splits)
  then obtain j where i: "i = Some j" by blast
  obtain reads where reads: "w_log w2 = w_log w1 @ reads" "snapshot_read hw reads s"
      "list_all (\<lambda>x. w_step w1 < fst x) reads" "fst (last reads) = w_step w2"
    using load_step_read [OF s2 [unfolded l]] by blast
  have w1: "calm w w1" using calm_current [of w e initial manual] s1 by simp
  then obtain before where before: "w_log w1 = w_log w @ before" using calm_log by blast
  have "list_all (\<lambda>x. r < fst x) reads"
    using reads(3) assms(3) calm_step [OF w1] by (auto simp: list_all_iff)
  moreover have "w_log w3 = w_log w2" using s3 by (auto simp: decision_def Let_def tick_def)
  then have "w_log w4 = w_log w @ before @ reads @ [(w_step w4, e_act e (w_step w3) (w_db w3), w_db w4)]"
    and "recordRequested (e_clock e (w_step w4)) hw (e_token e) outcome (lease_until e w3) (e_act e (w_step w3) (w_db w3))
      = (Some j, w_db w4)"
    using db_step_log [OF s4] reads(1) before j i by (simp_all add: Let_def)
  moreover have "resolvePowerDecision (e_intl e) (dispatch_input e s (fst (last reads)) current manual) = Inr d"
    using decision_result [of e s current manual w2] s3 d(1) reads(4) by simp
  ultimately show ?thesis
    unfolding licensed_def using i j(3) reads(2) d(2) assms(2) by blast
qed


lemma setRuntimeMode_split:
  obtains (quiet) "snd (snd (setRuntimeMode e hw target guard g0 w)) \<in> {w, tick e w, snd (guard (tick e w))}"
  | (sent) prior g where "fst (guard (tick e w)) = (Inr True, g)"
      and "setRuntimeMode e hw target guard g0 w = send_patch e hw target prior g (snd (guard (tick e w)))"
proof (cases "isWritablePowerMode target")
  case False
  then show ?thesis using quiet by (simp add: setRuntimeMode_def)
next
  case writable: True
  show ?thesis
  proof (cases "e_discover e (w_step w)")
    case (Inl err)
    then show ?thesis using quiet writable by (simp add: setRuntimeMode_def)
  next
    case (Inr before)
    let ?w1 = "tick e w"
    obtain v g1 w2 where gd: "guard ?w1 = ((v, g1), w2)" by (metis surjective_pairing)
    show ?thesis
    proof (cases "d_mode before = Os_control \<or> d_mode before = Unknown_mode \<or> \<not> d_supported before
        \<or> d_origin before \<in> {None, Some []} \<or> d_power before \<noteq> Some On \<or> d_mode before = target
        \<or> \<not> regulator_origin (the (d_origin before))")
      case True
      then have "snd (snd (setRuntimeMode e hw target guard g0 w)) = tick e w"
        unfolding setRuntimeMode_def Let_def Inr sum.case using writable by (auto split: if_splits)
      then show ?thesis using quiet by simp
    next
      case False
      then have eq: "setRuntimeMode e hw target guard g0 w =
          (case v of Inl err \<Rightarrow> (Inl err, g1, w2)
           | Inr ok \<Rightarrow> if \<not> ok then (Inl (Ilo ''policy_changed''), g1, w2)
                      else send_patch e hw target (d_mode before) g1 w2)"
        unfolding setRuntimeMode_def Let_def Inr sum.case gd split_conv using writable by auto
      show ?thesis
      proof (cases "v = Inr True")
        case True
        then show ?thesis using sent [of g1 "d_mode before"] eq gd by simp
      next
        case False
        then have "snd (snd (setRuntimeMode e hw target guard g0 w)) = w2"
          unfolding eq by (auto split: sum.splits)
        then show ?thesis using quiet gd by simp
      qed
    qed
  qed
qed

lemma readback_outcome: "fst (readback e target n w) \<in> {Verified, Unknown}"
proof -
  have "oc \<in> {Verified, Unknown} \<Longrightarrow> fst (fold (\<lambda>_ (outcome, w).
      if outcome = Verified then (outcome, w)
      else (case e_read e (w_step w) of
              Inr st \<Rightarrow> (if rs_mode st = target then Verified else outcome)
            | Inl _ \<Rightarrow> outcome, tick e w)) xs (oc, w)) \<in> {Verified, Unknown}" for xs :: "nat list" and oc w
    by (induction xs arbitrary: oc w) (auto split: sum.splits)
  then show ?thesis by (simp add: readback_def)
qed


lemma readback_verified:
  assumes "fst (readback e target n w) = Verified"
  shows "\<exists>j st. w_step w \<le> j \<and> e_read e j = Inr st \<and> rs_mode st = target"
proof -
  have "fst (fold (\<lambda>_ (outcome, w).
      if outcome = Verified then (outcome, w)
      else (case e_read e (w_step w) of
              Inr st \<Rightarrow> (if rs_mode st = target then Verified else outcome)
            | Inl _ \<Rightarrow> outcome, tick e w)) xs (oc, w)) = Verified \<Longrightarrow> oc \<noteq> Verified \<Longrightarrow>
      \<exists>j st. w_step w \<le> j \<and> e_read e j = Inr st \<and> rs_mode st = target" for xs :: "nat list" and oc w
  proof (induction xs arbitrary: oc w)
    case (Cons x xs)
    show ?case
    proof (cases "\<exists>st. e_read e (w_step w) = Inr st \<and> rs_mode st = target")
      case False
      with Cons.prems have "\<exists>j st. w_step (tick e w) \<le> j \<and> e_read e j = Inr st \<and> rs_mode st = target"
        by (intro Cons.IH [of oc]) (auto split: sum.splits)
      then show ?thesis by (auto simp: tick_def dest: Suc_leD)
    qed blast
  qed simp
  then show ?thesis using assms by (simp add: readback_def)
qed

lemma send_patch_facts:
  fixes e hw target prior0 g w
  defines "r \<equiv> send_patch e hw target prior0 g w"
  shows "w_patches (snd (snd r)) = w_patches w @ [(hw, target, w_log w)]"
    and "fst (snd r) = g"
    and "(\<exists>prior oc. fst r = Inr (prior, oc) \<and> (oc = Unknown \<or> oc = Verified \<and>
            (\<exists>j st. w_step w < j \<and> e_read e j = Inr st \<and> rs_mode st = target)))
      \<or> (\<exists>err. fst r = Inl err \<and> e_patch e (w_step w) = Some err)"
proof -
  let ?w4 = "tick e (w\<lparr>w_patches := w_patches w @ [(hw, target, w_log w)]\<rparr>)"
  have w4: "w_patches ?w4 = w_patches w @ [(hw, target, w_log w)]" "w_step ?w4 = Suc (w_step w)"
    by (simp_all add: tick_def)
  note rb = calm_patches [OF calm_readback [of ?w4 e target 3]] readback_outcome [of e target 3 ?w4]
    readback_verified [of e target 3 ?w4]
  show "w_patches (snd (snd r)) = w_patches w @ [(hw, target, w_log w)]" "fst (snd r) = g"
    using rb(1) w4 by (auto simp: r_def send_patch_def Let_def case_prod_beta split: option.splits)
  show "(\<exists>prior oc. fst r = Inr (prior, oc) \<and> (oc = Unknown \<or> oc = Verified \<and>
            (\<exists>j st. w_step w < j \<and> e_read e j = Inr st \<and> rs_mode st = target)))
      \<or> (\<exists>err. fst r = Inl err \<and> e_patch e (w_step w) = Some err)"
    using rb(2,3) w4(2) by (auto simp: r_def send_patch_def Let_def case_prod_beta Suc_le_eq split: option.splits)
qed

text \<open>What a run may have sent: nothing, or one PATCH licensed by what this run read and wrote.\<close>

definition patch_ok :: "control_env \<Rightarrow> int \<Rightarrow> bool \<Rightarrow> world \<Rightarrow> world \<Rightarrow> bool" where
  "patch_ok e hw manual w w' =
     (w_patches w' = w_patches w \<or>
      (\<exists>target l r st k i. w_patches w' = w_patches w @ [(hw, target, w_log w @ l)]
         \<and> w_step w \<le> r \<and> e_read e r = Inr st \<and> rs_power st = On
         \<and> licensed e hw manual (rs_mode st) r target k i l))"

lemma patch_ok_same: "calm w w' \<Longrightarrow> patch_ok e hw manual w w'"
  by (simp add: patch_ok_def calm_def)

lemma licensed_before: "licensed e hw manual actual r target k i l \<Longrightarrow> licensed e hw manual actual r target k i (l0 @ l)"
  unfolding licensed_def by (metis append.assoc)

lemma patch_ok_before:
  assumes "patch_ok e hw manual w1 w'" "calm w w1"
  shows "patch_ok e hw manual w w'"
proof -
  obtain l0 where l0: "w_patches w1 = w_patches w" "w_step w \<le> w_step w1" "w_log w1 = w_log w @ l0"
    using assms(2) by (auto simp: calm_def)
  show ?thesis
  proof (cases "w_patches w' = w_patches w1")
    case True
    then show ?thesis by (simp add: patch_ok_def l0)
  next
    case False
    then obtain target l r st k i where p: "w_patches w' = w_patches w1 @ [(hw, target, w_log w1 @ l)]"
      "w_step w1 \<le> r" "e_read e r = Inr st" "rs_power st = On" "licensed e hw manual (rs_mode st) r target k i l"
      using assms(1) unfolding patch_ok_def by blast
    have "w_patches w' = w_patches w @ [(hw, target, w_log w @ (l0 @ l))]" "w_step w \<le> r"
      using p(1,2) l0 by simp_all
    with p(3-5) licensed_before [OF p(5)] show ?thesis unfolding patch_ok_def by blast
  qed
qed

lemma patch_ok_after: "w_patches w1 = w_patches w' \<Longrightarrow> patch_ok e hw manual w w1 = patch_ok e hw manual w w'"
  by (simp add: patch_ok_def)

lemma patch_ok_steps [simp]:
  "patch_ok e hw manual w (snd (db_step e f w1)) = patch_ok e hw manual w w1"
  "patch_ok e hw manual w (db_update e g w1) = patch_ok e hw manual w w1"
  by (intro patch_ok_after calm_patches calm_steps)+

lemma write_attempt_world:
  "snd (write_attempt e hw initial manual c renewed current target outcome w) =
     snd (snd (setRuntimeMode e hw target
       (dispatch_guard e hw initial manual c renewed current target outcome) None w))"
  by (simp add: write_attempt_def Let_def case_prod_beta)

text \<open>A write attempt that sent a PATCH: the guard licensed it and the call ended as the PATCH did.\<close>

lemma write_attempt_sent:
  assumes target: "co_target outcome = target" and r: "r < w_step w"
    and sent: "w_patches (snd (write_attempt e hw initial manual c renewed current target outcome w)) \<noteq> w_patches w"
  obtains k i l where
    "w_patches (snd (write_attempt e hw initial manual c renewed current target outcome w))
       = w_patches w @ [(hw, target, w_log w @ l)]"
    and "licensed e hw manual current r target k i l"
    and "fst (snd (setRuntimeMode e hw target
           (dispatch_guard e hw initial manual c renewed current target outcome) None w)) = Some i"
    and "(\<exists>prior oc. fst (setRuntimeMode e hw target
             (dispatch_guard e hw initial manual c renewed current target outcome) None w) = Inr (prior, oc)
           \<and> (oc = Unknown \<or> oc = Verified \<and> (\<exists>j st. k < j \<and> e_read e j = Inr st \<and> rs_mode st = target)))
      \<or> (\<exists>err. fst (setRuntimeMode e hw target
             (dispatch_guard e hw initial manual c renewed current target outcome) None w) = Inl err
           \<and> e_patch e k = Some err)"
proof -
  let ?g = "dispatch_guard e hw initial manual c renewed current target outcome"
  show thesis
  proof (cases rule: setRuntimeMode_split [of e hw target ?g None w])
    case quiet
    then have "calm w (snd (snd (setRuntimeMode e hw target ?g None w)))"
      using calm_trans [OF calm_tick calm_guard] calm_tick by auto
    with sent calm_patches show ?thesis unfolding write_attempt_world by blast
  next
    case (sent prior g)
    obtain w2 where g: "?g (tick e w) = ((Inr True, g), w2)" using sent(1) by (metis surjective_pairing)
    have "calm (tick e w) w2" using calm_guard [of "tick e w"] g by (metis snd_conv)
    then have w2: "calm w w2" by (rule calm_trans [OF calm_tick])
    have "r < w_step (tick e w)" using r by (simp add: tick_def)
    from guard_licensed [OF g target this] obtain i l where
      l: "g = Some i" "w_log w2 = w_log w @ l" "licensed e hw manual current r target (w_step w2) i l"
      by (auto simp: tick_def)
    have eq: "setRuntimeMode e hw target ?g None w = send_patch e hw target prior g w2"
      using sent(2) g by simp
    show ?thesis
    proof (rule that [of l "w_step w2" i], unfold write_attempt_world eq)
      show "w_patches (snd (snd (send_patch e hw target prior g w2))) = w_patches w @ [(hw, target, w_log w @ l)]"
        using l(2) calm_patches [OF w2] by (simp add: send_patch_facts(1))
      show "fst (snd (send_patch e hw target prior g w2)) = Some i"
        using l(1) by (simp add: send_patch_facts(2))
    qed (rule l(3), rule send_patch_facts(3))
  qed
qed


lemma write_attempt_ok:
  assumes "e_read e r = Inr st" "rs_power st = On" "co_target outcome = target" "r < w_step w1" "w_step w \<le> r" "calm w w1"
  shows "patch_ok e hw manual w (snd (write_attempt e hw initial manual c renewed (rs_mode st) target outcome w1))"
proof (cases "w_patches (snd (write_attempt e hw initial manual c renewed (rs_mode st) target outcome w1)) = w_patches w1")
  case True
  then show ?thesis using calm_patches [OF assms(6)] by (simp add: patch_ok_def)
next
  case False
  obtain l0 where l0: "w_log w1 = w_log w @ l0" using calm_log [OF assms(6)] by blast
  show ?thesis
  proof (rule write_attempt_sent [OF assms(3,4) False])
    fix k i l
    assume "w_patches (snd (write_attempt e hw initial manual c renewed (rs_mode st) target outcome w1))
        = w_patches w1 @ [(hw, target, w_log w1 @ l)]"
      and l: "licensed e hw manual (rs_mode st) r target k i l"
    then have "w_patches (snd (write_attempt e hw initial manual c renewed (rs_mode st) target outcome w1))
        = w_patches w @ [(hw, target, w_log w @ l0 @ l)]"
      using calm_patches [OF assms(6)] l0 by simp
    with assms(1,2,5) licensed_before [OF l] show ?thesis unfolding patch_ok_def by blast
  qed
qed

lemma read_state_result [simp]: "fst (read_state e w) = e_read e (w_step w)" "w_step (snd (read_state e w)) = Suc (w_step w)"
  by (simp_all add: read_state_def tick_def)

text \<open>Where an attempt reaches its write call: after a read of a running host, with the mode it found.\<close>

lemma attempt_cases:
  obtains (quiet) "calm w (snd (attempt e hw initial selected manual c outcome w))"
  | (call) r st renewed target outcome1 w1 where "e_read e r = Inr st" "rs_power st = On" "r < w_step w1"
      "w_step w \<le> r" "calm w w1" "co_target outcome1 = target"
      "attempt e hw initial selected manual c outcome w
         = write_attempt e hw initial manual c renewed (rs_mode st) target outcome1 w1"
proof -
  obtain fresh w1 where s1: "load_step e hw w = (fresh, w1)" by (rule prod.exhaust)
  obtain still w2 where s2: "current_step e initial manual w1 = (still, w2)" by (rule prod.exhaust)
  obtain ok w3 where s3: "db_step e (\<lambda>now db. renewClaim now hw (e_token e) (lease_until e w2) db) w2 = (ok, w3)"
    by (rule prod.exhaust)
  have w1: "calm w w1" using calm_load [of w e hw] s1 by simp
  have w2: "calm w w2" using calm_current [of w1 e initial manual] s2 w1 by (auto intro: calm_trans)
  have w3: "calm w w3" using calm_db_step [of w2 e] s3 w2 by (metis calm_trans snd_conv)
  note eq = attempt_def [of e hw initial selected manual c outcome w, unfolded s1 Let_def split_conv s2 s3]
  show thesis
  proof (cases "\<exists>s st. fresh = Some s \<and> versions_match s initial \<and> still \<and> ok \<and> e_read e (w_step w3) = Inr st")
    case False
    then have "snd (attempt e hw initial selected manual c outcome w) \<in> {w1, w2, w3, snd (read_state e w3)}"
      unfolding eq by (auto simp: case_prod_beta split: option.splits sum.splits)
    then show ?thesis using w1 w2 w3 by (intro quiet) auto
  next
    case True
    then obtain s st where t: "fresh = Some s" "versions_match s initial" "still" "ok" "e_read e (w_step w3) = Inr st"
      by blast
    obtain w4 where rd: "read_state e w3 = (Inr st, w4)"
      using t(5) by (metis prod.collapse read_state_result(1))
    then have w4_eq: "w4 = snd (read_state e w3)" by simp
    obtain res price w5 where s5: "decision e s (rs_mode st) manual w4 = (res, price, w5)"
      by (rule prod_cases3)
    have w4: "calm w w4" "w_step w4 = Suc (w_step w3)" using w3 by (auto simp: w4_eq)
    have w45: "calm w4 w5" using calm_decision s5 by (metis snd_conv)
    have w5: "calm w w5" "w_step w3 < w_step w5"
      using calm_trans [OF w4(1) w45] calm_step [OF w45] w4(2) by simp_all
    have "snd (attempt e hw initial selected manual c outcome w) \<in> {w4, w5} \<or>
      (\<exists>renewed target outcome1. co_target outcome1 = target \<and> rs_power st = On \<and>
         attempt e hw initial selected manual c outcome w
           = write_attempt e hw initial manual c renewed (rs_mode st) target outcome1 w5)"
    proof (cases "rs_power st = On \<and> (\<exists>renewed target. res = Inr renewed \<and> pd_target renewed = Some target)")
      case False
      then show ?thesis
        by (cases "rs_power st = On"; cases res) (auto simp: eq t(1-4) rd s5 split: option.splits)
    next
      case True
      then obtain renewed target where res: "rs_power st = On" "res = Inr renewed" "pd_target renewed = Some target"
        by blast
      have start: "attempt e hw initial selected manual c outcome w =
          (if \<not> sameSelection selected renewed then ((S_stale, renewed, outcome), w5)
           else
             let outcome1 = outcome\<lparr>co_prior := Some (rs_mode st), co_target := target,
                   co_decision := renewed, co_audit := Some (operationAudit s renewed price)\<rparr>
             in if rs_mode st = target
                then ((S_already_set, renewed, outcome1\<lparr>co_outcome := Already_set\<rparr>), w5)
                else if withinUpshiftDwell (now_of e w5) s (rs_mode st) target manual
                then ((S_hold, renewed, outcome1), w5)
                else write_attempt e hw initial manual c renewed (rs_mode st) target outcome1 w5)"
        by (simp add: eq t(1-4) rd s5 res)
      show ?thesis
      proof (cases "\<not> sameSelection selected renewed \<or> rs_mode st = target
          \<or> withinUpshiftDwell (now_of e w5) s (rs_mode st) target manual")
        case True
        then show ?thesis unfolding start Let_def by auto
      next
        case False
        then have "attempt e hw initial selected manual c outcome w
          = write_attempt e hw initial manual c renewed (rs_mode st) target
              (outcome\<lparr>co_prior := Some (rs_mode st), co_target := target,
                 co_decision := renewed, co_audit := Some (operationAudit s renewed price)\<rparr>) w5"
          unfolding start Let_def by simp
        moreover have "co_target (outcome\<lparr>co_prior := Some (rs_mode st), co_target := target,
            co_decision := renewed, co_audit := Some (operationAudit s renewed price)\<rparr>) = target" by simp
        ultimately show ?thesis using res(1) by blast
      qed
    qed
    then show ?thesis
      using call [OF t(5) _ w5(2) calm_step [OF w3] w5(1)] quiet w4(1) w5(1) by auto
  qed
qed

lemma attempt_ok: "patch_ok e hw manual w (snd (attempt e hw initial selected manual c outcome w))"
  by (cases rule: attempt_cases [of w e hw initial selected manual c outcome])
    (simp_all add: patch_ok_same write_attempt_ok)

lemma dispatch_ok: "patch_ok e hw manual w (snd (dispatch e hw initial selected target actual manual u w))"
  by (auto simp: dispatch_def Let_def case_prod_beta intro!: patch_ok_same patch_ok_before [OF attempt_ok])

lemma act_on_ok: "patch_ok e hw manual w (snd (act_on e hw manual u initial actual w))"
  by (auto simp: act_on_def Let_def case_prod_beta split: option.splits sum.splits
      intro: patch_ok_same patch_ok_before [OF dispatch_ok])

lemma after_read_ok: "patch_ok e hw manual w (snd (after_read e hw manual u initial actual w))"
  by (auto simp: after_read_def Let_def case_prod_beta split: option.splits sum.splits
      intro: patch_ok_same patch_ok_before [OF act_on_ok])

lemma reconcile_body_ok: "patch_ok e hw manual w (snd (reconcile_body e hw manual u w))"
  by (auto simp: reconcile_body_def Let_def case_prod_beta split: option.splits sum.splits
      intro: patch_ok_same patch_ok_before [OF after_read_ok])

lemma reconcile_ok: "patch_ok e hw manual w (snd (reconcile e hw manual u w))"
proof -
  have "patch_ok e hw manual w (snd (reconcile_body e hw manual u (w\<lparr>w_active := hw # w_active w\<rparr>)))"
    by (rule patch_ok_before [OF reconcile_body_ok]) simp
  then show ?thesis
    by (auto simp: reconcile_def Let_def case_prod_beta patch_ok_def)
qed

section \<open>Leases and outcomes of a dispatch\<close>

lemma recordRequested_row:
  assumes "recordRequested now hw tok outcome L db = (Some i, db')"
  shows "\<exists>p row. cd_policies db hw = Some p \<and> lease_held now tok p \<and> cd_operations db' = cd_operations db @ [row]
    \<and> o_hardware row = hw \<and> o_target row = Some (co_target outcome) \<and> o_claim_token row = tok \<and> o_outcome row = Requested"
  using assms
  by (auto simp: recordRequested_def update_policy_def insert_operation_def operationValues_def Let_def
      split: option.splits if_splits)

lemma finish_policy_token: "p_claim_token (finish_policy now outcome i err p) = None"
  by (simp add: finish_policy_def Let_def)

lemma finish_clears_token:
  "cd_policies (finish now hw token outcome db) hw = Some p \<Longrightarrow> p_claim_token p \<noteq> Some token"
  by (auto simp: policies_finish split: if_splits dest: arg_cong [where f = p_claim_token]
      simp: finish_policy_token)

lemma db_update_db: "\<exists>now db. w_db (db_update e g w) = g now db"
  by (auto simp: db_update_def db_step_def Let_def)

text \<open>How a write call that was dispatched ends, whether or not its deadline passed.\<close>

lemma write_conclusion:
  fixes outcome1 renewed
  defines "res d r \<equiv> snd (snd (conclude_write (if d then Inl Deadline else r) True renewed outcome1))"
  assumes r: "(\<exists>prior oc. r = Inr (prior, oc) \<and> (oc = Unknown \<or> oc = Verified \<and> V)) \<or> (\<exists>err. r = Inl err \<and> e_patch e k = Some err)"
    and codes: "\<And>k. e_patch e k \<noteq> Some (Ilo ''policy_changed'') \<and> e_patch e k \<noteq> Some (Ilo ''host_not_running'')"
  shows "co_operationId (res d r) = co_operationId outcome1 \<and> co_target (res d r) = co_target outcome1
    \<and> (co_outcome (res d r) = Unknown \<or> co_outcome (res d r) = Verified \<and> V
       \<or> co_outcome (res d r) = Failed \<and> (\<exists>code. e_patch e k = Some (Ilo code) \<and> code \<in> set refused_codes))"
proof (cases "d \<or> (\<exists>prior oc. r = Inr (prior, oc))")
  case True
  then show ?thesis using r by (auto simp: res_def conclude_write_def failed_attempt_def Let_def)
next
  case False
  with r obtain err where err: "r = Inl err" "e_patch e k = Some err" "\<not> d" by blast
  then have "err \<noteq> Ilo ''policy_changed''" "err \<noteq> Ilo ''host_not_running''" using codes [of k] by auto
  then have "res d r = snd (snd (failed_attempt err True outcome1))"
    using err by (simp add: res_def conclude_write_def)
  then show ?thesis using err(2)
    by (cases err) (auto simp: failed_attempt_def Let_def)
qed

lemma attempt_sent:
  assumes sent: "w_patches (snd (attempt e hw initial selected manual c outcome w)) \<noteq> w_patches w"
    and codes: "\<And>k. e_patch e k \<noteq> Some (Ilo ''policy_changed'') \<and> e_patch e k \<noteq> Some (Ilo ''host_not_running'')"
  defines "o' \<equiv> snd (snd (fst (attempt e hw initial selected manual c outcome w)))"
  shows "\<exists>before k db db' i sent L.
    w_patches (snd (attempt e hw initial selected manual c outcome w))
      = w_patches w @ [(hw, co_target o', before @ [(k, db, db')])]
    \<and> recordRequested (e_clock e k) hw (e_token e) sent L db = (Some i, db')
    \<and> co_target sent = co_target o' \<and> co_operationId o' = Some i
    \<and> (co_outcome o' = Unknown
       \<or> co_outcome o' = Verified \<and> (\<exists>j st. k < j \<and> e_read e j = Inr st \<and> rs_mode st = co_target o')
       \<or> co_outcome o' = Failed \<and> (\<exists>code. e_patch e k = Some (Ilo code) \<and> code \<in> set refused_codes))"
proof (cases rule: attempt_cases [of w e hw initial selected manual c outcome])
  case quiet
  with sent show ?thesis by (simp add: calm_patches)
next
  case (call r st renewed target outcome1 w1)
  let ?g = "dispatch_guard e hw initial manual c renewed (rs_mode st) target outcome1"
  let ?r = "fst (setRuntimeMode e hw target ?g None w1)"
  have "w_patches (snd (write_attempt e hw initial manual c renewed (rs_mode st) target outcome1 w1)) \<noteq> w_patches w1"
    using sent calm_patches [OF call(5)] unfolding call(7) by simp
  then show ?thesis
  proof (rule write_attempt_sent [OF call(6,3)])
    fix k i l
    assume p: "w_patches (snd (write_attempt e hw initial manual c renewed (rs_mode st) target outcome1 w1))
        = w_patches w1 @ [(hw, target, w_log w1 @ l)]"
      and l: "licensed e hw manual (rs_mode st) r target k i l"
      and i: "fst (snd (setRuntimeMode e hw target ?g None w1)) = Some i"
      and res: "(\<exists>prior oc. ?r = Inr (prior, oc) \<and>
             (oc = Unknown \<or> oc = Verified \<and> (\<exists>j st. k < j \<and> e_read e j = Inr st \<and> rs_mode st = target)))
           \<or> (\<exists>err. ?r = Inl err \<and> e_patch e k = Some err)"
    define r' where "r' = (if e_write_deadline e then Inl Deadline else ?r)"
    have o': "o' = snd (snd (conclude_write r' True renewed (outcome1\<lparr>co_operationId := Some i\<rparr>)))"
      unfolding o'_def call(7) by (simp add: write_attempt_def Let_def case_prod_beta r'_def i)
    obtain before db db' sent L where rec: "l = before @ [(k, db, db')]"
      "recordRequested (e_clock e k) hw (e_token e) sent L db = (Some i, db')" "co_target sent = target"
      using l unfolding licensed_def by (metis append.assoc)
    have "co_operationId o' = Some i \<and> co_target o' = target \<and> (co_outcome o' = Unknown
       \<or> co_outcome o' = Verified \<and> (\<exists>j st. k < j \<and> e_read e j = Inr st \<and> rs_mode st = target)
       \<or> co_outcome o' = Failed \<and> (\<exists>code. e_patch e k = Some (Ilo code) \<and> code \<in> set refused_codes))"
      using write_conclusion [OF res codes] call(6) unfolding o' r'_def by simp
    moreover have "w_patches (snd (attempt e hw initial selected manual c outcome w))
        = w_patches w @ [(hw, target, (w_log w1 @ before) @ [(k, db, db')])]"
      unfolding call(7) p rec(1) using calm_patches [OF call(5)] by simp
    ultimately show ?thesis using rec(2,3) by metis
  qed
qed

definition demo_env :: control_env where
  "demo_env =
     \<lparr>e_act = (\<lambda>_ db. db), e_clock = (\<lambda>k. 1000 + int k),
      e_read = (\<lambda>k. Inr \<lparr>rs_mode = Dynamic, rs_power = On\<rparr>),
      e_price = (\<lambda>_. di_price (demo_input ''4.5'')),
      e_discover = (\<lambda>_. Inr \<lparr>d_mode = Dynamic, d_supported = True,
        d_origin = Some ''/redfish/v1/Systems/1#Oem.Hpe.PowerRegulatorMode'', d_power = Some On\<rparr>),
      e_patch = (\<lambda>_. None), e_abandoned = (\<lambda>_. False), e_write_deadline = False,
      e_intl = fixed_intl 0, e_token = ''a'', e_timings = DEFAULT_TIMINGS\<rparr>"

definition demo_world :: world where
  "demo_world = \<lparr>w_db = demo_db, w_step = 0, w_log = [], w_patches = [], w_active = []\<rparr>"

definition demo_snapshot :: control_snapshot where
  "demo_snapshot = the (fst (load_step demo_env 1 demo_world))"

definition demo_selected :: power_decision where
  "demo_selected = (case fst (decision demo_env demo_snapshot Dynamic False demo_world) of Inr d \<Rightarrow> d | Inl _ \<Rightarrow> co_decision demo_outcome)"

section \<open>Properties\<close>

text \<open>C1: One \<open>reconcile\<close> sends at most one PATCH to its node. When it sends one, the run's own record
  (\<open>w_log\<close>: every access of the database in order, with what was found and left) shows, before the
  PATCH: (a) this run read the mode of the running host from the iLO (step \<open>r\<close>); (b) after that it
  loaded a fresh snapshot \<open>s\<close> of the rows, and the decision on \<open>s\<close>, on the mode read, on the clock and
  on the price service's answer of that moment asks for exactly this mode, with control enabled,
  automation on and neither paused nor held (or an explicit manual command), among the supported
  modes; (c) as the last access, the \<open>requested\<close> row for this node and mode was appended while the
  node's policy row carried this process's unexpired lease. This holds for every interleaving of other
  processes at the awaits, every clock and every answer of the iLO and the price service.\<close>

theorem patch_needs_request_and_decision:
  fixes e :: control_env and w :: world and u :: "int option" and hw :: int and manual :: bool
  defines "w' \<equiv> snd (reconcile e hw manual u w)"
  shows "w_patches w' = w_patches w \<or>
    (\<exists>target before reads k db db' r st s d p row.
       w_patches w' = w_patches w @ [(hw, target, w_log w @ before @ reads @ [(k, db, db')])]
       \<and> w_step w \<le> r \<and> e_read e r = Inr st \<and> rs_power st = On
       \<and> list_all (\<lambda>x. r < fst x) reads \<and> snapshot_read hw reads s
       \<and> resolvePowerDecision (e_intl e) (dispatch_input e s (fst (last reads)) (rs_mode st) manual) = Inr d
       \<and> pd_target d = Some target
       \<and> cs_controlEnabled s \<and> (cs_automationEnabled s \<or> manual) \<and> target \<in> set (cs_supportedModes s)
       \<and> (\<not> cs_paused s \<and> \<not> cs_driftHold s \<or> manual)
       \<and> cd_policies db hw = Some p \<and> lease_held (e_clock e k) (e_token e) p
       \<and> cd_operations db' = cd_operations db @ [row] \<and> o_hardware row = hw \<and> o_target row = Some target
       \<and> o_claim_token row = e_token e \<and> o_outcome row = Requested)"
proof -
  have "patch_ok e hw manual w w'" unfolding w'_def by (rule reconcile_ok)
  then consider "w_patches w' = w_patches w"
    | target before reads k db db' r st s d outcome lease i
      where "w_patches w' = w_patches w @ [(hw, target, w_log w @ before @ reads @ [(k, db, db')])]"
        "w_step w \<le> r" "e_read e r = Inr st" "rs_power st = On"
        "list_all (\<lambda>x. r < fst x) reads" "snapshot_read hw reads s"
        "resolvePowerDecision (e_intl e) (dispatch_input e s (fst (last reads)) (rs_mode st) manual) = Inr d"
        "pd_target d = Some target"
        "recordRequested (e_clock e k) hw (e_token e) outcome lease db = (Some i, db')" "co_target outcome = target"
    unfolding patch_ok_def licensed_def by blast
  then show ?thesis
  proof cases
    case 1
    then show ?thesis by blast
  next
    case 2
    have gates: "cs_controlEnabled s" "cs_automationEnabled s \<or> manual" "target \<in> set (cs_supportedModes s)"
        "\<not> cs_paused s \<and> \<not> cs_driftHold s \<or> manual"
      using resolve_target_gate [OF 2(7,8)] by (auto simp: dispatch_input_def controllerDecisionInput_def)
    from recordRequested_row [OF 2(9)] obtain p row where
      "cd_policies db hw = Some p" "lease_held (e_clock e k) (e_token e) p"
      "cd_operations db' = cd_operations db @ [row]" "o_hardware row = hw" "o_target row = Some target"
      "o_claim_token row = e_token e" "o_outcome row = Requested"
      using 2(10) by metis
    with 2(1-8) gates show ?thesis by blast
  qed
qed

text \<open>A dispatch never leaks its lease: unless the claim itself was refused (status \<open>busy\<close>), on
  every path out of the dispatch (stale data, an unreadable iLO, a failed or unknown write, success)
  the node's policy row is no longer under this dispatch's token.\<close>

theorem dispatch_frees_lease:
  assumes "fst (fst (dispatch e hw initial selected target actual manual u w)) \<noteq> S_busy"
    and "cd_policies (w_db (snd (dispatch e hw initial selected target actual manual u w))) hw = Some p"
  shows "p_claim_token p \<noteq> Some (e_token e)"
proof -
  obtain got w1 where c: "db_step e (\<lambda>_ db. claim initial (e_token e) (lease_until e w) db) w = (got, w1)"
    by (rule prod.exhaust)
  have got: "got"
  proof (rule ccontr)
    assume "\<not> got"
    then have "dispatch e hw initial selected target actual manual u w = ((S_busy, selected), w1)"
      unfolding dispatch_def Let_def c split_conv by simp
    with assms(1) show False by simp
  qed
  obtain outcome w2 where "snd (dispatch e hw initial selected target actual manual u w)
      = db_update e (\<lambda>now db. finish now hw (e_token e) outcome db) w2"
    unfolding dispatch_def Let_def c split_conv using got by (simp add: case_prod_beta)
  then show ?thesis
    using assms(2) db_update_db [of e "\<lambda>now db. finish now hw (e_token e) outcome db" w2]
      finish_clears_token by metis
qed


text \<open>C5: A PATCH that was sent is never forgotten. Whenever an attempt sent one, it sent exactly one; the
  access right before it (step \<open>k\<close>) is the \<open>recordRequested\<close> that wrote the \<open>requested\<close> row for its mode,
  and the attempt's result carries the id \<open>i\<close> of exactly that row and is \<open>unknown\<close> (so the target stays
  pending and is read back before anything else is sent), or \<open>verified\<close> because the iLO showed the mode
  after the PATCH, or \<open>failed\<close> after an answer to this PATCH that proves the iLO did not apply it. The
  iLO transport only raises its own codes: \<open>policy_changed\<close> and \<open>host_not_running\<close> are raised before the
  request.\<close>

theorem sent_patch_is_recorded:
  assumes "w_patches (snd (attempt e hw initial selected manual c outcome w)) \<noteq> w_patches w"
    and "\<And>k. e_patch e k \<noteq> Some (Ilo ''policy_changed'') \<and> e_patch e k \<noteq> Some (Ilo ''host_not_running'')"
  defines "o' \<equiv> snd (snd (fst (attempt e hw initial selected manual c outcome w)))"
  shows "\<exists>before k db db' i sent L.
    w_patches (snd (attempt e hw initial selected manual c outcome w))
      = w_patches w @ [(hw, co_target o', before @ [(k, db, db')])]
    \<and> recordRequested (e_clock e k) hw (e_token e) sent L db = (Some i, db')
    \<and> co_target sent = co_target o' \<and> co_operationId o' = Some i
    \<and> (co_outcome o' = Unknown
       \<or> co_outcome o' = Verified \<and> (\<exists>j st. k < j \<and> e_read e j = Inr st \<and> rs_mode st = co_target o')
       \<or> co_outcome o' = Failed \<and> (\<exists>code. e_patch e k = Some (Ilo code) \<and> code \<in> set refused_codes))"
  unfolding o'_def by (rule attempt_sent [OF assms(1,2)])

theorem sent_patch_is_recorded_witness:
  "\<exists>i. co_operationId (snd (snd (fst (attempt demo_env 1 demo_snapshot demo_selected False 1000 demo_outcome
     (demo_world\<lparr>w_db := demo_leased\<rparr>))))) = Some i"
proof -
  let ?w = "demo_world\<lparr>w_db := demo_leased\<rparr>"
  have "map (\<lambda>(hw, m, _). (hw, m)) (w_patches (snd (attempt demo_env 1 demo_snapshot demo_selected False 1000 demo_outcome ?w)))
      = [(1, Low)]" by code_simp
  moreover have "w_patches ?w = []" by (simp add: demo_world_def)
  ultimately have "w_patches (snd (attempt demo_env 1 demo_snapshot demo_selected False 1000 demo_outcome ?w)) \<noteq> w_patches ?w"
    by (metis list.map_disc_iff not_Cons_self2)
  from sent_patch_is_recorded [OF this] show ?thesis by (auto simp: demo_env_def)
qed

definition late_env :: control_env where
  \<comment> \<open>the deadline of the write call passes while the \<open>requested\<close> row is being committed\<close>
  "late_env = demo_env\<lparr>e_abandoned := (\<lambda>k. 23 \<le> k), e_write_deadline := True\<rparr>"

definition left_behind :: "int \<Rightarrow> world \<Rightarrow> nat \<times> op_outcome list \<times> string option option" where
  \<comment> \<open>the PATCHes sent, the outcomes of the operation rows, the node's lease\<close>
  "left_behind hw w = (length (w_patches w), map o_outcome (cd_operations (w_db w)),
     map_option p_claim_token (cd_policies (w_db w) hw))"

lemma late_run: "left_behind 1 (snd (reconcile late_env 1 False None demo_world)) = (0, [Requested, Failed], Some None)"
  by code_simp

text \<open>A write call whose deadline passes while its \<open>requested\<close> row commits leaves that row behind:
  nothing is sent, the lease is freed and the result is recorded in a second row, but the first stays
  \<open>requested\<close> for good, because the expiry sweep only looks at nodes that are still leased.\<close>

theorem late_request_row_is_orphaned:
  defines "db \<equiv> w_db (snd (reconcile late_env 1 False None demo_world))"
  shows "map o_outcome (cd_operations db) = [Requested, Failed]
    \<and> w_patches (snd (reconcile late_env 1 False None demo_world)) = []
    \<and> (\<forall>now. releaseExpiredClaim now 1 db = db)"
proof -
  have run: "w_patches (snd (reconcile late_env 1 False None demo_world)) = []"
      "map o_outcome (cd_operations db) = [Requested, Failed]" "map_option p_claim_token (cd_policies db 1) = Some None"
    using late_run unfolding left_behind_def db_def by simp_all
  have "releaseExpiredClaim now 1 db = db" for now
    using run(3) by (auto simp: releaseExpiredClaim_def)
  with run(1,2) show ?thesis by blast
qed

lemma boundaries_in_range:
  "scheduleBoundaryInstants z s a b = Inr ts \<Longrightarrow> t \<in> set ts \<Longrightarrow> a < t \<and> t < b"
  by (auto simp: scheduleBoundaryInstants_def bind_err_Inr_iff Let_def split: if_splits)

text \<open>A manual override without an expiry only comes from an explicit until-cleared request; any other
  accepted request ends in the future, within a day for a duration and within eight days for the next
  schedule boundary.\<close>

theorem manual_override_expires:
  assumes "resolveManualExpiry z request schedule now = Inr r"
  shows "(r = None \<longrightarrow> dr_kind request = Some Until_cleared \<or> dr_kind request = None \<and> dr_untilCleared request = Some True)
    \<and> (\<forall>t. r = Some t \<longrightarrow> now < t \<and> t \<le> now + 8 * 86400000
         \<and> (dr_kind request \<noteq> Some Next_schedule_boundary \<longrightarrow> t \<le> now + 86400000))"
proof -
  have head: "\<exists>t. r = Some t \<and> now < t \<and> t < now + 691200000"
    if bd: "bind_err (scheduleBoundaryInstants z schedule now (now + 691200000))
         (case_list (Inl msg) (\<lambda>t ts. Inr (Some t))) = Inr r" for msg
  proof -
    obtain ts where ts: "scheduleBoundaryInstants z schedule now (now + 691200000) = Inr ts"
      "(case ts of [] \<Rightarrow> Inl msg | t # _ \<Rightarrow> Inr (Some t)) = Inr r"
      using bd unfolding bind_err_Inr_iff by blast
    then obtain t us where "ts = t # us" "r = Some t" by (cases ts) auto
    with boundaries_in_range [OF ts(1), of t] show ?thesis by simp
  qed
  obtain kind where kind: "kind = (case dr_kind request of Some k \<Rightarrow> k
      | None \<Rightarrow> if dr_untilCleared request = Some True then Until_cleared else Minutes)" by blast
  show ?thesis
    using assms unfolding resolveManualExpiry_def Let_def kind [symmetric]
    by (cases kind) (use kind in \<open>auto split: if_splits option.splits list.splits dest!: head\<close>)
qed


end
