(* ===== verification/Json.thy ===== *)
theory Json
  imports Prelude
begin

text \<open>
  The JavaScript values workflow parameters and upstream replies are made of, with the
  coercions the code applies to them (\<open>String(v)\<close>, \<open>Number(v)\<close>, truth value, property access),
  and the templates of \<open>workflows/template.ts\<close>. Numbers are integers or \<open>NaN\<close>; a numeric string
  is one in decimal integer notation. Property access reads own properties only.
\<close>

datatype json =
    JUndef | JNull | JBool bool | JNum int | JNaN | JStr string
  | JArr "json list" | JObj "(string \<times> json) list"

definition nullish :: "json \<Rightarrow> bool" where
  "nullish v = (v = JUndef \<or> v = JNull)"

definition jtruthy :: "json \<Rightarrow> bool" where
  "jtruthy v = (case v of JUndef \<Rightarrow> False | JNull \<Rightarrow> False | JBool b \<Rightarrow> b | JNum n \<Rightarrow> n \<noteq> 0 | JNaN \<Rightarrow> False
     | JStr s \<Rightarrow> s \<noteq> [] | JArr _ \<Rightarrow> True | JObj _ \<Rightarrow> True)"

text \<open>\<open>a ?? b\<close> and \<open>a || b\<close>\<close>

definition coalesce :: "json \<Rightarrow> json \<Rightarrow> json" where
  "coalesce a b = (if nullish a then b else a)"

definition or_else :: "json \<Rightarrow> json \<Rightarrow> json" where
  "or_else a b = (if jtruthy a then a else b)"

fun to_str :: "json \<Rightarrow> string" where
  "to_str JUndef = ''undefined''"
| "to_str JNull = ''null''"
| "to_str (JBool b) = (if b then ''true'' else ''false'')"
| "to_str (JNum n) = show_int n"
| "to_str JNaN = ''NaN''"
| "to_str (JStr s) = s"
| "to_str (JArr vs) = join_with '','' (map (\<lambda>v. if nullish v then [] else to_str v) vs)"
| "to_str (JObj _) = ''[object Object]''"

definition int_literal :: "string \<Rightarrow> bool" where
  "int_literal s =
     (case s of [] \<Rightarrow> False
      | c # cs \<Rightarrow> if c = CHR ''-'' \<or> c = CHR ''+'' then all_digits cs else all_digits s)"

definition number_of_string :: "string \<Rightarrow> json" where
  "number_of_string s =
     (let t = js_trim s in if t = [] then JNum 0
      else if int_literal t then (case parse_int t of Some n \<Rightarrow> JNum n | None \<Rightarrow> JNaN) else JNaN)"

definition to_num :: "json \<Rightarrow> json" where
  "to_num v = (case v of JUndef \<Rightarrow> JNaN | JNull \<Rightarrow> JNum 0 | JBool b \<Rightarrow> JNum (if b then 1 else 0)
     | JNum n \<Rightarrow> JNum n | JNaN \<Rightarrow> JNaN | JStr s \<Rightarrow> number_of_string s
     | JArr _ \<Rightarrow> number_of_string (to_str v) | JObj _ \<Rightarrow> JNaN)"

text \<open>\<open>Number(a) === Number(b)\<close>: \<open>NaN\<close> equals nothing\<close>

definition same_number :: "json \<Rightarrow> json \<Rightarrow> bool" where
  "same_number a b = (to_num a = to_num b \<and> to_num a \<noteq> JNaN)"

definition index_of_key :: "string \<Rightarrow> nat option" where
  \<comment> \<open>the canonical array index a property name denotes\<close>
  "index_of_key k =
     (if all_digits k \<and> show_nat (nat_of_digits k) = k then Some (nat_of_digits k) else None)"

definition js_get :: "json \<Rightarrow> string \<Rightarrow> json" where
  "js_get v k =
     (case v of
        JObj kvs \<Rightarrow> (case map_of kvs k of Some x \<Rightarrow> x | None \<Rightarrow> JUndef)
      | JArr vs \<Rightarrow>
          (if k = ''length'' then JNum (int (length vs))
           else case index_of_key k of
                  Some i \<Rightarrow> if i < length vs then vs ! i else JUndef
                | None \<Rightarrow> JUndef)
      | JStr s \<Rightarrow>
          (if k = ''length'' then JNum (int (length s))
           else case index_of_key k of
                  Some i \<Rightarrow> if i < length s then JStr [s ! i] else JUndef
                | None \<Rightarrow> JUndef)
      | _ \<Rightarrow> JUndef)"

definition elements :: "json \<Rightarrow> json list" where
  "elements v = (case v of JArr vs \<Rightarrow> vs | _ \<Rightarrow> [])"

lemma js_get_JObj [simp]: "js_get (JObj kvs) k = (case map_of kvs k of Some x \<Rightarrow> x | None \<Rightarrow> JUndef)"
  by (simp add: js_get_def)

lemma jtruthy_simps [simp]:
  "\<not> jtruthy JUndef" "\<not> jtruthy JNull" "jtruthy (JBool b) = b" "jtruthy (JNum n) = (n \<noteq> 0)"
  "jtruthy (JStr s) = (s \<noteq> [])" "jtruthy (JArr vs)" "jtruthy (JObj kvs)"
  by (simp_all add: jtruthy_def)

section \<open>Templates\<close>

text \<open>
  A token is \<open>{{\<close>, a non-empty text without \<open>}\<close>, and \<open>}}\<close>; the global expression takes the leftmost
  ones, so a text is a sequence of plain characters and tokens. \<open>token_at\<close> gives the trimmed
  path of the token a text starts with, and what follows it.
\<close>

definition token_at :: "string \<Rightarrow> (string \<times> string) option" where
  "token_at s =
     (if starts_with ''{{'' s then
        (let body = takeWhile (\<lambda>c. c \<noteq> CHR ''}'') (drop 2 s);
             rest = dropWhile (\<lambda>c. c \<noteq> CHR ''}'') (drop 2 s)
         in if body \<noteq> [] \<and> starts_with ''}}'' rest then Some (js_trim body, drop 2 rest) else None)
      else None)"

lemma token_at_shorter: "token_at s = Some (t, rest) \<Longrightarrow> length rest < length s"
proof -
  assume a: "token_at s = Some (t, rest)"
  then have s: "starts_with ''{{'' s" and r: "rest = drop 2 (dropWhile (\<lambda>c. c \<noteq> CHR ''}'') (drop 2 s))"
    by (auto simp: token_at_def Let_def split: if_splits)
  have "length rest \<le> length (drop 2 s)" using r length_dropWhile_le [of _ "drop 2 s"]
    by (simp add: le_diff_conv2 diff_le_mono) (metis diff_le_self le_trans length_drop length_dropWhile_le)
  moreover have "2 \<le> length s" using s by (auto simp: starts_with_def) (metis length_Cons length_take min.absorb_iff2 min_def numeral_2_eq_2 list.size(3))
  ultimately show ?thesis by simp
qed

function pieces :: "string \<Rightarrow> (char + string) list" where
  "pieces [] = []"
| "pieces (c # cs) =
     (case token_at (c # cs) of
        Some (t, rest) \<Rightarrow> Inr t # pieces rest
      | None \<Rightarrow> Inl c # pieces cs)"
  by pat_completeness auto
termination
  by (relation "measure length") (auto dest!: token_at_shorter)

definition whole_token :: "string \<Rightarrow> string option" where
  "whole_token s = (case token_at (js_trim s) of Some (t, []) \<Rightarrow> Some t | _ \<Rightarrow> None)"

fun walk :: "json \<Rightarrow> string list \<Rightarrow> json" where
  "walk cur [] = cur"
| "walk cur (part # ps) = (if nullish cur then JUndef else walk (js_get cur part) ps)"

definition path_parts :: "string \<Rightarrow> string list" where
  "path_parts path = filter (\<lambda>p. p \<noteq> []) (map js_trim (split_on (CHR ''.'') path))"

definition resolvePath :: "json \<Rightarrow> string \<Rightarrow> json" where
  "resolvePath ctx path = walk ctx (path_parts path)"

definition fill :: "(string \<Rightarrow> string) \<Rightarrow> (char + string) list \<Rightarrow> string" where
  "fill f ps = concat (map (\<lambda>p. case p of Inl c \<Rightarrow> [c] | Inr t \<Rightarrow> f t) ps)"

definition render_string :: "string \<Rightarrow> json \<Rightarrow> json" where
  "render_string s ctx =
     (case whole_token s of
        Some t \<Rightarrow> (let r = resolvePath ctx t in if r = JUndef then JStr [] else r)
      | None \<Rightarrow>
          JStr (fill (\<lambda>t. let r = resolvePath ctx t in if nullish r then [] else to_str r) (pieces s)))"

fun renderValue :: "json \<Rightarrow> json \<Rightarrow> json" where
  "renderValue (JStr s) ctx = render_string s ctx"
| "renderValue (JArr vs) ctx = JArr (map (\<lambda>v. renderValue v ctx) vs)"
| "renderValue (JObj kvs) ctx = JObj (map (\<lambda>kv. (fst kv, renderValue (snd kv) ctx)) kvs)"
| "renderValue v ctx = v"

definition renderParams :: "json \<Rightarrow> json \<Rightarrow> json" where
  "renderParams params ctx = renderValue (or_else params (JObj [])) ctx"

definition evaluateCondition :: "json \<Rightarrow> json \<Rightarrow> bool" where
  "evaluateCondition condition ctx =
     (if nullish condition then True
      else let t = js_trim (to_str condition) in
        if t = [] then True
        else (case renderValue (JStr t) ctx of
                JBool False \<Rightarrow> False
              | JNull \<Rightarrow> False
              | JUndef \<Rightarrow> False
              | JNum n \<Rightarrow> n \<noteq> 0
              | JNaN \<Rightarrow> True
              | r \<Rightarrow> js_lower (js_trim (to_str r)) \<notin> {[], ''false'', ''0'', ''no''}))"

fun collectTokens :: "json \<Rightarrow> string list" where
  "collectTokens (JStr s) = concat (map (\<lambda>p. case p of Inl _ \<Rightarrow> [] | Inr t \<Rightarrow> [t]) (pieces s))"
| "collectTokens (JArr vs) = concat (map collectTokens vs)"
| "collectTokens (JObj kvs) = concat (map (\<lambda>kv. collectTokens (snd kv)) kvs)"
| "collectTokens v = []"

section \<open>What a rendering reads\<close>

lemma starts_with_decomp: "starts_with p s \<longleftrightarrow> (\<exists>r. s = p @ r)"
  unfolding starts_with_def by (metis append_eq_conv_conj append_take_drop_id)

lemma token_at_Some_decomp:
  assumes "token_at s = Some (t, r)"
  obtains body where "s = ''{{'' @ body @ ''}}'' @ r" "body \<noteq> []" "CHR ''}'' \<notin> set body" "t = js_trim body"
proof -
  let ?b = "takeWhile (\<lambda>c. c \<noteq> CHR ''}'') (drop 2 s)"
  let ?d = "dropWhile (\<lambda>c. c \<noteq> CHR ''}'') (drop 2 s)"
  from assms have s: "starts_with ''{{'' s" and b: "?b \<noteq> []" and d: "starts_with ''}}'' ?d"
    and t: "t = js_trim ?b" and r: "r = drop 2 ?d"
    by (auto simp: token_at_def Let_def split: if_splits)
  from d r have "?d = ''}}'' @ r" by (auto simp: starts_with_decomp)
  moreover from s have "s = ''{{'' @ drop 2 s" by (auto simp: starts_with_decomp)
  ultimately have "s = ''{{'' @ ?b @ ''}}'' @ r" by (metis takeWhile_dropWhile_id)
  moreover have "CHR ''}'' \<notin> set ?b" by (auto dest: set_takeWhileD)
  ultimately show thesis using that b t by blast
qed

lemma takeWhile_body: "CHR ''}'' \<notin> set body \<Longrightarrow>
  takeWhile (\<lambda>c. c \<noteq> CHR ''}'') (body @ CHR ''}'' # r) = body \<and>
  dropWhile (\<lambda>c. c \<noteq> CHR ''}'') (body @ CHR ''}'' # r) = CHR ''}'' # r"
  by (induction body) auto

lemma token_at_intro:
  "body \<noteq> [] \<Longrightarrow> CHR ''}'' \<notin> set body \<Longrightarrow> token_at (''{{'' @ body @ ''}}'' @ r) = Some (js_trim body, r)"
  using takeWhile_body [of body "CHR ''}'' # r"] by (simp add: token_at_def Let_def starts_with_def)

lemma token_at_append: "token_at u = Some (t, r) \<Longrightarrow> token_at (u @ v) = Some (t, r @ v)"
  by (erule token_at_Some_decomp) (use token_at_intro [of _ "r @ v"] in simp)

lemma token_at_ws: "is_ws c \<Longrightarrow> token_at (c # cs) = None"
  by (auto simp: token_at_def starts_with_def is_ws_def Let_def)

lemma pieces_ws: "list_all is_ws a \<Longrightarrow> pieces (a @ s) = map Inl a @ pieces s"
  by (induction a) (auto simp: token_at_ws)

lemma dropWhile_split: "\<exists>a. s = a @ dropWhile P s \<and> list_all P a"
  by (rule exI [of _ "takeWhile P s"]) (auto simp: list_all_iff dest: set_takeWhileD)

lemma js_trim_split: "\<exists>a b. s = a @ js_trim s @ b \<and> list_all is_ws a"
proof -
  obtain a where a: "s = a @ dropWhile is_ws s" "list_all is_ws a" using dropWhile_split by blast
  obtain b where "rev (dropWhile is_ws s) = b @ dropWhile is_ws (rev (dropWhile is_ws s))"
    using dropWhile_split by blast
  then have "dropWhile is_ws s = js_trim s @ rev b" by (metis js_trim_def rev_append rev_rev_ident)
  with a show ?thesis by metis
qed

lemma whole_token_piece:
  assumes "whole_token s = Some t"
  shows "Inr t \<in> set (pieces s)"
proof -
  obtain a b where s: "s = a @ js_trim s @ b" and a: "list_all is_ws a" using js_trim_split by blast
  from assms have w: "token_at (js_trim s) = Some (t, [])"
    by (auto simp: whole_token_def split: option.splits prod.splits list.splits)
  have t: "token_at (js_trim s @ b) = Some (t, b)" using token_at_append [OF w, of b] by simp
  then have "pieces (js_trim s @ b) = Inr t # pieces b"
    by (cases "js_trim s @ b") (simp_all add: token_at_def starts_with_def)
  moreover have "pieces s = map Inl a @ pieces (js_trim s @ b)"
    by (subst s) (simp only: pieces_ws [OF a])
  ultimately show ?thesis by simp
qed

lemma tokens_of_pieces:
  "set (concat (map (\<lambda>p. case p of Inl _ \<Rightarrow> [] | Inr t \<Rightarrow> [t]) ps)) = {t. Inr t \<in> set ps}"
  by (induction ps) (auto split: sum.splits)

lemma collectTokens_JStr: "set (collectTokens (JStr s)) = {t. Inr t \<in> set (pieces s)}"
  by (simp only: collectTokens.simps tokens_of_pieces)

lemma fill_cong: "(\<And>t. Inr t \<in> set ps \<Longrightarrow> f t = g t) \<Longrightarrow> fill f ps = fill g ps"
  by (induction ps) (auto simp: fill_def split: sum.splits)

lemma render_string_cong:
  assumes "\<And>t. Inr t \<in> set (pieces s) \<Longrightarrow> resolvePath c1 t = resolvePath c2 t"
  shows "render_string s c1 = render_string s c2"
proof (cases "whole_token s")
  case (Some t)
  then show ?thesis using assms [OF whole_token_piece] by (simp add: render_string_def)
next
  case None
  have "fill (\<lambda>t. let r = resolvePath c1 t in if nullish r then [] else to_str r) (pieces s)
      = fill (\<lambda>t. let r = resolvePath c2 t in if nullish r then [] else to_str r) (pieces s)"
    by (rule fill_cong) (simp add: assms)
  with None show ?thesis by (simp add: render_string_def)
qed

lemma renderValue_cong:
  "(\<And>t. t \<in> set (collectTokens v) \<Longrightarrow> resolvePath c1 t = resolvePath c2 t) \<Longrightarrow> renderValue v c1 = renderValue v c2"
proof (induction v c1 rule: renderValue.induct)
  case (1 s ctx)
  then show ?case using render_string_cong [of s ctx c2] collectTokens_JStr [of s] by simp
qed auto

lemma pieces_no_token: "(\<And>t. Inr t \<notin> set (pieces s)) \<Longrightarrow> pieces s = map Inl s"
proof (induction s rule: pieces.induct)
  case (2 c cs)
  show ?case
  proof (cases "token_at (c # cs)")
    case None
    have "pieces cs = map Inl cs"
    proof (rule 2(1) [OF None])
      show "Inr t \<notin> set (pieces cs)" for t using 2(3) [of t] None by simp
    qed
    with None show ?thesis by simp
  next
    case (Some p)
    then have "Inr (fst p) \<in> set (pieces (c # cs))" by (cases p) simp
    with 2(3) show ?thesis by blast
  qed
qed simp

lemma fill_literal: "fill f (map Inl s) = s"
  by (induction s) (simp_all add: fill_def)

lemma renderValue_literal: "collectTokens v = [] \<Longrightarrow> renderValue v ctx = v"
proof (induction v ctx rule: renderValue.induct)
  case (1 s ctx)
  then have none: "Inr t \<notin> set (pieces s)" for t using collectTokens_JStr [of s] by auto
  then have "whole_token s = None" using whole_token_piece [of s] by (cases "whole_token s") auto
  with pieces_no_token [OF none] show ?case by (simp add: render_string_def fill_literal)
next
  case (3 kvs ctx)
  then have "map (\<lambda>kv. (fst kv, renderValue (snd kv) ctx)) kvs = kvs" by (intro map_idI) auto
  then show ?case by simp
qed (auto intro: map_idI)

lemma evaluateCondition_cong:
  assumes "\<And>t. t \<in> set (collectTokens (JStr (js_trim (to_str c)))) \<Longrightarrow> resolvePath c1 t = resolvePath c2 t"
  shows "evaluateCondition c c1 = evaluateCondition c c2"
proof -
  have eq: "renderValue (JStr (js_trim (to_str c))) c1 = renderValue (JStr (js_trim (to_str c))) c2"
    by (rule renderValue_cong) (rule assms)
  show ?thesis unfolding evaluateCondition_def Let_def eq ..
qed

text \<open>Templates read what the preview says they read: if two contexts agree on every token that
  \<open>collectTokens\<close> lists, parameters render to the same value and a condition is decided the same, and
  parameters without tokens render to themselves.\<close>

theorem template_reads_its_tokens:
  "((\<forall>t \<in> set (collectTokens v). resolvePath c1 t = resolvePath c2 t) \<longrightarrow> renderValue v c1 = renderValue v c2)
   \<and> ((\<forall>t \<in> set (collectTokens (JStr (js_trim (to_str v)))). resolvePath c1 t = resolvePath c2 t)
        \<longrightarrow> evaluateCondition v c1 = evaluateCondition v c2)
   \<and> (collectTokens v = [] \<longrightarrow> renderValue v c1 = v)"
  using renderValue_cong [of v c1 c2] evaluateCondition_cong [of v c1 c2] renderValue_literal [of v c1]
  by blast


end
