(* ===== verification/Http_Error.thy ===== *)
theory Http_Error
  imports Json
begin

text \<open>
  \<open>utils/httpError.ts\<close>: which status a failed request is answered with, and whether the text of
  an error is the portal's own prose or came from an upstream system. \<open>th_expose\<close> is
  \<open>err.expose !== false\<close>. The translation of upstream failures (\<open>utils/upstreamError.ts\<close>) is the
  argument \<open>upstream\<close>.
\<close>

record thrown =
  th_name :: string
  th_message :: string
  th_statusCode :: json
  th_status :: json
  th_expose :: bool
  th_code :: json
  th_field :: json

datatype any_error = Thrown thrown | Text string | No_error

definition plain_error :: "string \<Rightarrow> thrown" where
  "plain_error msg = \<lparr>th_name = ''Error'', th_message = msg, th_statusCode = JUndef, th_status = JUndef,
     th_expose = True, th_code = JUndef, th_field = JUndef\<rparr>"

definition tagStatus :: "thrown \<Rightarrow> json \<Rightarrow> thrown" where
  "tagStatus err status = err\<lparr>th_statusCode := status, th_status := status\<rparr>"

definition http_thrown :: "nat \<Rightarrow> string \<Rightarrow> thrown" where
  "http_thrown status msg = tagStatus (plain_error msg) (JNum (int status))"

definition coerceStatus :: "json \<Rightarrow> int option" where
  "coerceStatus v =
     (case (case v of JStr s \<Rightarrow> if js_trim s \<noteq> [] then to_num v else v | _ \<Rightarrow> v) of
        JNum n \<Rightarrow> if n < 400 \<or> n > 599 then None else Some n
      | _ \<Rightarrow> None)"

definition explicit_status :: "thrown \<Rightarrow> int option" where
  \<comment> \<open>\<open>coerceStatus(err.statusCode) ?? coerceStatus(err.status)\<close>\<close>
  "explicit_status e =
     (case coerceStatus (th_statusCode e) of Some n \<Rightarrow> Some n | None \<Rightarrow> coerceStatus (th_status e))"

definition isPortalAuthoredError :: "any_error \<Rightarrow> bool" where
  "isPortalAuthoredError err =
     (case err of
        Thrown e \<Rightarrow> th_expose e \<and> (case explicit_status e of Some n \<Rightarrow> n \<le> 499 | None \<Rightarrow> False)
      | _ \<Rightarrow> False)"

definition resolveErrorStatus :: "any_error \<Rightarrow> int" where
  "resolveErrorStatus err =
     (case err of
        Thrown e \<Rightarrow> if \<not> th_expose e then 500
                    else (case explicit_status e of Some n \<Rightarrow> n | None \<Rightarrow> 500)
      | _ \<Rightarrow> 500)"

definition hasHttpStatus :: "any_error \<Rightarrow> bool" where
  "hasHttpStatus err = (case err of Thrown e \<Rightarrow> th_expose e \<and> explicit_status e \<noteq> None | _ \<Rightarrow> False)"

definition messageOf :: "any_error \<Rightarrow> string" where
  "messageOf err = (case err of Text s \<Rightarrow> s | Thrown e \<Rightarrow> th_message e | No_error \<Rightarrow> [])"

datatype 'u error_body =
    Portal_body string "string option" "string option"
  | Upstream_body 'u

definition errorPayload :: "(any_error \<Rightarrow> 'u) \<Rightarrow> any_error \<Rightarrow> int \<Rightarrow> 'u error_body" where
  "errorPayload upstream err status =
     (if status < 500 \<and> isPortalAuthoredError err then
        (let msg = (if messageOf err = [] then ''Request failed'' else messageOf err)
         in case err of
              Thrown e \<Rightarrow>
                if th_name e = ''ValidationError''
                then Portal_body msg
                       (Some (take 64 (to_str (or_else (th_code e) (JStr ''VALIDATION_ERROR'')))))
                       (if jtruthy (th_field e) then Some (take 128 (to_str (th_field e))) else None)
                else Portal_body msg None None
            | _ \<Rightarrow> Portal_body msg None None)
      else Upstream_body (upstream err))"

definition sendError :: "(any_error \<Rightarrow> 'u) \<Rightarrow> any_error \<Rightarrow> nat \<Rightarrow> (int \<times> 'u error_body) \<times> nat" where
  \<comment> \<open>the last argument and result count the \<open>upstream_failures\<close> metric\<close>
  "sendError upstream err failures =
     (let status = resolveErrorStatus err
      in ((status, errorPayload upstream err status), if status \<ge> 500 then Suc failures else failures))"

lemma coerceStatus_range: "coerceStatus v = Some n \<Longrightarrow> 400 \<le> n \<and> n \<le> 599"
  by (auto simp: coerceStatus_def split: json.splits if_splits)

lemma explicit_status_range: "explicit_status e = Some n \<Longrightarrow> 400 \<le> n \<and> n \<le> 599"
  by (auto simp: explicit_status_def split: option.splits dest: coerceStatus_range)

lemma resolveErrorStatus_range: "400 \<le> resolveErrorStatus err \<and> resolveErrorStatus err \<le> 599"
  by (auto simp: resolveErrorStatus_def split: any_error.splits option.splits dest: explicit_status_range)

lemma http_thrown_status: "400 \<le> status \<Longrightarrow> status \<le> 599 \<Longrightarrow>
  explicit_status (http_thrown status msg) = Some (int status)"
  by (simp add: explicit_status_def http_thrown_def tagStatus_def coerceStatus_def)

text \<open>C36: Upstream text never reaches the browser as the portal's own: whatever is thrown, the
  answer has an error status; a message is quoted verbatim only when the error is an exposable object
  with an explicit 4xx status, which is then the status of the answer; anything thrown by an upstream
  client (\<open>expose = false\<close>), with whatever remote status, is answered with 500 and a translated body.\<close>

theorem upstream_text_never_quoted:
  "(case sendError upstream err n of ((status, body), _) \<Rightarrow>
      400 \<le> status \<and> status \<le> 599
      \<and> (case body of
           Portal_body msg _ _ \<Rightarrow>
             status \<le> 499 \<and> (\<exists>e. err = Thrown e \<and> th_expose e \<and> explicit_status e = Some status)
         | Upstream_body u \<Rightarrow> u = upstream err)
      \<and> (\<forall>e. err = Thrown e \<and> \<not> th_expose e \<longrightarrow> status = 500 \<and> body = Upstream_body (upstream err)))"
proof -
  have "isPortalAuthoredError err \<Longrightarrow> \<exists>e. err = Thrown e \<and> th_expose e \<and> explicit_status e = Some (resolveErrorStatus err)"
    by (auto simp: isPortalAuthoredError_def resolveErrorStatus_def split: any_error.splits option.splits)
  moreover have "err = Thrown e \<Longrightarrow> \<not> th_expose e \<Longrightarrow> resolveErrorStatus err = 500 \<and> \<not> isPortalAuthoredError err" for e
    by (simp add: resolveErrorStatus_def isPortalAuthoredError_def)
  ultimately show ?thesis using resolveErrorStatus_range [of err]
    by (auto simp: sendError_def Let_def errorPayload_def split: any_error.splits)
qed

theorem upstream_text_never_quoted_witness:
  "fst (sendError (\<lambda>_. ''translated'')
      (Thrown ((http_thrown 401 ''bad api key'')\<lparr>th_expose := False\<rparr>)) 0) = (500, Upstream_body ''translated'')"
  using upstream_text_never_quoted [where upstream = "\<lambda>_. ''translated''"
      and err = "Thrown ((http_thrown 401 ''bad api key'')\<lparr>th_expose := False\<rparr>)" and n = 0]
  by (auto split: prod.splits)

end
