(* ===== verification/Cert_Slots.thy ===== *)
theory Cert_Slots
  imports Json
begin

text \<open>
  \<open>utils/certSlots.ts\<close>: which entries the server-certificate list of an inspection profile gets
  when a certificate is attached. A slot is identified by the subject encoded in the name
  (\<open>certSlotKey\<close>), so that a renewal replaces its predecessor.
\<close>

definition SERVER_CERT_MAX :: nat where
  "SERVER_CERT_MAX = 10"

definition WILDCARD_PREFIXES :: "string list" where
  "WILDCARD_PREFIXES = [''wildcard_'', ''wildcard-'', ''wildcard.'', ''star_'', ''star-'', ''star.'', ''*.'', ''_.'']"

definition stripCertDateSuffix :: "string \<Rightarrow> string" where
  "stripCertDateSuffix s =
     (let keep = length s - 9; m = drop keep s
      in if length m = 9 \<and> (hd m = CHR ''_'' \<or> hd m = CHR ''-'') \<and> list_all is_digit (tl m)
         then (let d = nat_of_digits (take 2 (tl m)); mo = nat_of_digits (take 2 (drop 2 (tl m)))
               in if d < 1 \<or> d > 31 \<or> mo < 1 \<or> mo > 12 then s else take keep s)
         else s)"

fun squeeze_dots :: "string \<Rightarrow> string" where
  "squeeze_dots (a # b # s) =
     (if a = CHR ''.'' \<and> b = CHR ''.'' then squeeze_dots (b # s) else a # squeeze_dots (b # s))"
| "squeeze_dots s = s"

definition strip_dots :: "string \<Rightarrow> string" where
  "strip_dots s = rev (dropWhile (\<lambda>c. c = CHR ''.'') (rev (dropWhile (\<lambda>c. c = CHR ''.'') s)))"

definition certNameToSubject :: "string \<Rightarrow> string" where
  "certNameToSubject name =
     (let s0 = js_lower (js_trim (stripCertDateSuffix name));
          pre = find (\<lambda>p. starts_with p s0) WILDCARD_PREFIXES;
          s1 = (case pre of Some p \<Rightarrow> drop (length p) s0 | None \<Rightarrow> s0);
          s = strip_dots (squeeze_dots (map (\<lambda>c. if c = CHR ''_'' \<or> c = CHR ''-'' then CHR ''.'' else c) s1))
      in if s = [] then [] else if pre \<noteq> None then ''*.'' @ s else s)"

definition certSlotKey :: "string \<Rightarrow> string" where
  "certSlotKey name =
     (let s = certNameToSubject name in if s \<noteq> [] then s else js_lower (js_trim name))"

definition isWildcardCertName :: "string \<Rightarrow> bool" where
  "isWildcardCertName name = starts_with ''*.'' (certNameToSubject name)"

definition certWildcardCovers :: "string \<Rightarrow> string \<Rightarrow> bool" where
  "certWildcardCovers certName domain =
     (let subject = certNameToSubject certName in
      if \<not> starts_with ''*.'' subject then False
      else let base = drop 2 subject;
               t = js_lower (js_trim domain);
               d = (if ends_with ''.'' t then butlast t else t)
           in if base = [] \<or> \<not> ends_with (CHR ''.'' # base) d then False
              else let label = take (length d - length base - 1) d
                   in label \<noteq> [] \<and> CHR ''.'' \<notin> set label)"

datatype cert_plan =
    Already_attached
  | Covered string
  | Replace string "string list"
  | Append "string list"
  | Limit

definition entry_name :: "json \<Rightarrow> string" where
  "entry_name c = js_trim (to_str (or_else (if jtruthy c then js_get c ''name'' else c) (or_else c (JStr []))))"

definition entry_names :: "json \<Rightarrow> string list" where
  "entry_names v = filter (\<lambda>n. n \<noteq> []) (map entry_name (elements v))"

fun find_index :: "('a \<Rightarrow> bool) \<Rightarrow> 'a list \<Rightarrow> nat option" where
  "find_index P [] = None"
| "find_index P (x # xs) = (if P x then Some 0 else map_option Suc (find_index P xs))"

definition planServerCertList :: "string list \<Rightarrow> string \<Rightarrow> string \<Rightarrow> nat \<Rightarrow> cert_plan" where
  "planServerCertList existing certName domain limit =
     (if certName \<in> set existing then Already_attached
      else case find_index (\<lambda>n. certSlotKey n = certSlotKey certName) existing of
             Some i \<Rightarrow> Replace (existing ! i) (existing[i := certName])
           | None \<Rightarrow>
               (case (if domain \<noteq> [] then find (\<lambda>n. certWildcardCovers n domain) existing else None) of
                  Some c \<Rightarrow> Covered c
                | None \<Rightarrow> if length existing \<ge> limit then Limit else Append (existing @ [certName])))"

definition planned_list :: "string list \<Rightarrow> cert_plan \<Rightarrow> string list" where
  \<comment> \<open>the list the profile has afterwards\<close>
  "planned_list existing p = (case p of Replace _ l \<Rightarrow> l | Append l \<Rightarrow> l | _ \<Rightarrow> existing)"

lemma find_index_Some:
  "find_index P xs = Some i \<Longrightarrow> i < length xs \<and> P (xs ! i) \<and> (\<forall>j < i. \<not> P (xs ! j))"
  by (induction xs arbitrary: i) (auto split: if_splits simp: nth_Cons' less_Suc_eq_0_disj)

lemma find_index_None: "find_index P xs = None \<Longrightarrow> \<forall>x \<in> set xs. \<not> P x"
  by (induction xs) (auto split: if_splits)

lemma distinct_map_update:
  "distinct (map k xs) \<Longrightarrow> i < length xs \<Longrightarrow> k (xs ! i) = k y \<Longrightarrow> distinct (map k (xs[i := y]))"
  by (metis list_update_id map_update nth_map)

lemma update_keeps: "x \<in> set xs \<Longrightarrow> i < length xs \<Longrightarrow> x \<noteq> xs ! i \<Longrightarrow> x \<in> set (xs[i := y])"
  by (metis in_set_conv_nth length_list_update nth_list_update_neq)

lemma plan_cases:
  assumes "planServerCertList existing certName domain limit = p"
  shows "(p = Already_attached \<and> certName \<in> set existing)
     \<or> (\<exists>i. i < length existing \<and> certSlotKey (existing ! i) = certSlotKey certName
            \<and> p = Replace (existing ! i) (existing[i := certName]))
     \<or> (\<exists>c \<in> set existing. p = Covered c \<and> certWildcardCovers c domain)
     \<or> ((\<forall>n \<in> set existing. certSlotKey n \<noteq> certSlotKey certName)
        \<and> (p = Limit \<and> limit \<le> length existing \<or> p = Append (existing @ [certName]) \<and> length existing < limit))"
  using assms unfolding planServerCertList_def
  by (auto split: if_splits option.splits dest!: find_index_Some find_index_None simp: find_Some_iff)

text \<open>C37: Attaching a certificate keeps the profile sound: the resulting list is no longer than the cap
  (if it was within it), no two of its entries stand for the same subject (if that held before), every
  entry for another subject is still there, and unless the profile is full or a wildcard entry covers
  the host, the certificate itself is in the list.\<close>

theorem cert_plan_keeps_slots:
  fixes certName domain :: string
  assumes "distinct (map certSlotKey existing)" "length existing \<le> limit"
  defines "p \<equiv> planServerCertList existing certName domain limit"
  defines "l \<equiv> planned_list existing p"
  shows "length l \<le> limit \<and> distinct (map certSlotKey l)
         \<and> (\<forall>n \<in> set existing. certSlotKey n \<noteq> certSlotKey certName \<longrightarrow> n \<in> set l)
         \<and> (certName \<in> set l \<or> p = Limit \<and> length existing = limit
            \<or> (\<exists>c \<in> set existing. p = Covered c \<and> certWildcardCovers c domain))"
  using plan_cases [OF refl, of existing certName domain limit] assms(1,2)
  unfolding l_def p_def
  by (elim disjE exE bexE conjE)
    (auto simp: planned_list_def distinct_map_update set_update_memI intro: update_keeps)

theorem cert_plan_keeps_slots_witness:
  "planServerCertList [''jackjack_dk_26072026'', ''wildcard_aaris_tech_22062026''] ''jackjack_dk_30102026'' [] 10
     = Replace ''jackjack_dk_26072026'' [''jackjack_dk_30102026'', ''wildcard_aaris_tech_22062026'']
   \<and> ''wildcard_aaris_tech_22062026'' \<in> set (planned_list [''jackjack_dk_26072026'', ''wildcard_aaris_tech_22062026'']
        (planServerCertList [''jackjack_dk_26072026'', ''wildcard_aaris_tech_22062026''] ''jackjack_dk_30102026'' [] 10))"
proof -
  let ?e = "[''jackjack_dk_26072026'', ''wildcard_aaris_tech_22062026'']"
  have d: "distinct (map certSlotKey ?e)" by code_simp
  have k: "certSlotKey ''wildcard_aaris_tech_22062026'' \<noteq> certSlotKey ''jackjack_dk_30102026''" by code_simp
  have p: "planServerCertList ?e ''jackjack_dk_30102026'' [] 10
     = Replace ''jackjack_dk_26072026'' [''jackjack_dk_30102026'', ''wildcard_aaris_tech_22062026'']" by code_simp
  show ?thesis
    using cert_plan_keeps_slots [OF d, of 10 "''jackjack_dk_30102026''" "[]"] k p by simp
qed

end
