(* ===== verification/Fortigate.thy ===== *)
theory Fortigate
  imports Http_Error Cert_Slots "HOL-Library.Sublist"
begin

text \<open>
  \<open>fortigate.ts\<close>: the client of the firewall's REST API. The HTTP exchange itself is the
  parameter \<open>cl_send\<close> (method, URL, body, and a state \<open>'w\<close> it may read and change); everything the
  client does around it - the URL and scope of a request, which requests a method sends, how it
  reads the replies and which failures it swallows - is modelled. A null VDOM is the empty string,
  a missing body is \<open>JUndef\<close>. \<open>cl_parse\<close> is \<open>JSON.parse\<close> (\<open>None\<close> where it throws). Log output is left out.
\<close>

record 'w client =
  cl_vdom :: string
  cl_verifyTls :: bool
  cl_allowInsecure :: bool
  cl_parse :: "string \<Rightarrow> json option"
  cl_send :: "string \<Rightarrow> string \<Rightarrow> json \<Rightarrow> 'w \<Rightarrow> (thrown + json) \<times> 'w"

definition bind_call :: "('w \<Rightarrow> ('e + 'a) \<times> 'w) \<Rightarrow> ('a \<Rightarrow> 'w \<Rightarrow> ('e + 'b) \<times> 'w) \<Rightarrow> 'w \<Rightarrow> ('e + 'b) \<times> 'w" where
  "bind_call m f w = (case m w of (Inl e, w') \<Rightarrow> (Inl e, w') | (Inr x, w') \<Rightarrow> f x w')"

definition return_call :: "'a \<Rightarrow> 'w \<Rightarrow> ('e + 'a) \<times> 'w" where
  "return_call x w = (Inr x, w)"

definition throw_call :: "'e \<Rightarrow> 'w \<Rightarrow> ('e + 'a) \<times> 'w" where
  "throw_call e w = (Inl e, w)"

definition catch_call :: "('w \<Rightarrow> ('e + 'a) \<times> 'w) \<Rightarrow> ('e \<Rightarrow> 'w \<Rightarrow> ('e + 'a) \<times> 'w) \<Rightarrow> 'w \<Rightarrow> ('e + 'a) \<times> 'w" where
  "catch_call m h w = (case m w of (Inl e, w') \<Rightarrow> h e w' | (Inr x, w') \<Rightarrow> (Inr x, w'))"

section \<open>Requests\<close>

definition hex_digit :: "nat \<Rightarrow> char" where
  "hex_digit d = (if d < 10 then char_of (48 + d) else char_of (55 + d))"

definition percent :: "nat \<Rightarrow> string" where
  "percent n = [CHR ''%'', hex_digit (n div 16), hex_digit (n mod 16)]"

definition uri_plain :: "char \<Rightarrow> bool" where
  "uri_plain c =
     (let n = of_char c :: nat in 97 \<le> n \<and> n \<le> 122 \<or> 65 \<le> n \<and> n \<le> 90 \<or> is_digit c
        \<or> c \<in> set ''-_.!~*'' \<or> n = 39 \<or> c = CHR ''('' \<or> c = CHR '')'')"

definition encodeURIComponent :: "string \<Rightarrow> string" where
  \<comment> \<open>the code units above 127 are two bytes in UTF-8\<close>
  "encodeURIComponent s = concat (map (\<lambda>c.
     if uri_plain c then [c]
     else let n = of_char c :: nat in
          if n < 128 then percent n else percent (192 + n div 64) @ percent (128 + n mod 64)) s)"

definition scopeParam :: "'w client \<Rightarrow> string \<Rightarrow> string" where
  "scopeParam cl vdomOverride =
     (if vdomOverride = ''global'' then ''global=1''
      else ''vdom='' @ encodeURIComponent (if vdomOverride \<noteq> [] then vdomOverride else cl_vdom cl))"

definition request_url :: "'w client \<Rightarrow> string \<Rightarrow> string \<Rightarrow> string" where
  "request_url cl path vdomOverride =
     ''/api/v2/'' @ path @ (if CHR ''?'' \<in> set path then ''&'' else ''?'') @ scopeParam cl vdomOverride"

definition request :: "'w client \<Rightarrow> string \<Rightarrow> string \<Rightarrow> json \<Rightarrow> string \<Rightarrow> 'w \<Rightarrow> (thrown + json) \<times> 'w" where
  "request cl meth path data vdomOverride w =
     (if \<not> cl_verifyTls cl \<and> \<not> cl_allowInsecure cl then
        (Inl (plain_error ''FortiGate TLS verification is disabled. Re-enable TLS verification or set ALLOW_INSECURE_UPSTREAM_TLS=true as a temporary exception.''), w)
      else cl_send cl meth (request_url cl path vdomOverride) (if jtruthy data then data else JUndef) w)"

text \<open>\<open>res.results || []\<close>, \<open>res.results?.[0] || null\<close> in a \<open>try\<close>, and \<open>res.results?.[0] || res || null\<close>\<close>

definition type_error :: thrown where
  "type_error = (plain_error ''Cannot read properties of null'')\<lparr>th_name := ''TypeError''\<rparr>"

definition list_results :: "json \<Rightarrow> 'w \<Rightarrow> (thrown + json) \<times> 'w" where
  "list_results res w =
     (if nullish res then (Inl type_error, w) else (Inr (or_else (js_get res ''results'') (JArr [])), w))"

definition get_list :: "'w client \<Rightarrow> string \<Rightarrow> string \<Rightarrow> 'w \<Rightarrow> (thrown + json) \<times> 'w" where
  "get_list cl path vdom = bind_call (request cl ''GET'' path JNull vdom) list_results"

definition get_or_null :: "'w client \<Rightarrow> string \<Rightarrow> string \<Rightarrow> 'w \<Rightarrow> (thrown + json) \<times> 'w" where
  "get_or_null cl path vdom =
     catch_call
       (bind_call (request cl ''GET'' path JNull vdom)
          (\<lambda>res. if nullish res then throw_call type_error
                 else return_call (or_else (js_get (js_get res ''results'') ''0'') JNull)))
       (\<lambda>_. return_call JNull)"

definition get_first :: "'w client \<Rightarrow> string \<Rightarrow> string \<Rightarrow> 'w \<Rightarrow> (thrown + json) \<times> 'w" where
  "get_first cl path vdom =
     bind_call (request cl ''GET'' path JNull vdom)
       (\<lambda>res. if nullish res then throw_call type_error
              else return_call (or_else (js_get (js_get res ''results'') ''0'') (or_else res JNull)))"

section \<open>The methods\<close>

definition getSystemStatus where
  "getSystemStatus cl = request cl ''GET'' ''monitor/system/status'' JNull []"

definition getInterfaces where
  "getInterfaces cl vdom = get_list cl ''cmdb/system/interface'' vdom"
definition getInterface where
  "getInterface cl name = get_or_null cl (''cmdb/system/interface/'' @ encodeURIComponent name) []"

definition createVlanInterface ::
  "'w client \<Rightarrow> string \<Rightarrow> json \<Rightarrow> string \<Rightarrow> string \<Rightarrow> string \<Rightarrow> string \<Rightarrow> 'w \<Rightarrow> (thrown + json) \<times> 'w" where
  "createVlanInterface cl name vlanId parent ip netmask description =
     request cl ''POST'' ''cmdb/system/interface''
       (JObj ([(''name'', JStr name), (''vdom'', JStr (cl_vdom cl)), (''type'', JStr ''vlan''), (''vlanid'', vlanId),
               (''interface'', JStr parent), (''ip'', JStr (ip @ '' '' @ netmask)), (''allowaccess'', JStr ''ping''),
               (''role'', JStr ''undefined'')]
             @ (if description \<noteq> [] then [(''description'', JStr description)] else []))) ''global''"

definition deleteInterface where
  "deleteInterface cl name =
  request cl ''DELETE'' (''cmdb/system/interface/'' @ encodeURIComponent name) JNull ''global''"

definition getPolicies where
  "getPolicies cl vdom = get_list cl ''cmdb/firewall/policy'' vdom"
definition getPolicy where
  "getPolicy cl policyId vdom = get_first cl (''cmdb/firewall/policy/'' @ to_str policyId) vdom"
definition createPolicy where
  "createPolicy cl policy vdom = request cl ''POST'' ''cmdb/firewall/policy'' policy vdom"
definition deletePolicy where
  "deletePolicy cl policyId vdom =
  request cl ''DELETE'' (''cmdb/firewall/policy/'' @ to_str policyId) JNull vdom"
definition movePolicy where
  "movePolicy cl policyId position refPolicyId vdom =
  request cl ''PUT'' (''cmdb/firewall/policy/'' @ to_str policyId @ ''?action=move&'' @ position @ ''='' @ to_str refPolicyId) JNull vdom"
definition updatePolicy where
  "updatePolicy cl policyId data vdom =
  request cl ''PUT'' (''cmdb/firewall/policy/'' @ to_str policyId) data vdom"

definition getStaticRoutes where
  "getStaticRoutes cl vdom = get_list cl ''cmdb/router/static'' vdom"
definition createStaticRoute where
  "createStaticRoute cl dst netmask gateway device vdom =
  request cl ''POST'' ''cmdb/router/static''
    (JObj [(''dst'', JStr (dst @ '' '' @ netmask)), (''gateway'', JStr gateway), (''device'', JStr device)]) vdom"
definition deleteStaticRoute where
  "deleteStaticRoute cl routeId vdom =
  request cl ''DELETE'' (''cmdb/router/static/'' @ to_str routeId) JNull vdom"

definition getDhcpServers where
  "getDhcpServers cl = get_list cl ''cmdb/system.dhcp/server'' []"
definition getDhcpServer where
  "getDhcpServer cl serverId = get_first cl (''cmdb/system.dhcp/server/'' @ to_str serverId) []"

definition createDhcpServer ::
  "'w client \<Rightarrow> string \<Rightarrow> string \<Rightarrow> string \<Rightarrow> string \<Rightarrow> string \<Rightarrow> json \<times> json \<Rightarrow> 'w \<Rightarrow> (thrown + json) \<times> 'w" where
  "createDhcpServer cl iface gateway netmask startIp endIp dns =
     request cl ''POST'' ''cmdb/system.dhcp/server''
       (JObj ([(''default-gateway'', JStr gateway), (''netmask'', JStr netmask), (''interface'', JStr iface),
               (''ip-range'', JArr [JObj [(''start-ip'', JStr startIp), (''end-ip'', JStr endIp)]]),
               (''lease-time'', JNum 86400), (''dns-service'', JStr ''specify'')]
             @ (if jtruthy (fst dns) then [(''dns-server1'', fst dns)] else [])
             @ (if jtruthy (snd dns) then [(''dns-server2'', snd dns)] else []))) []"

definition deleteDhcpServer where
  "deleteDhcpServer cl serverId =
  request cl ''DELETE'' (''cmdb/system.dhcp/server/'' @ to_str serverId) JNull []"
definition updateDhcpServer where
  "updateDhcpServer cl serverId data =
  request cl ''PUT'' (''cmdb/system.dhcp/server/'' @ to_str serverId) data []"
definition getDhcpLeases where
  "getDhcpLeases cl = get_list cl ''monitor/system/dhcp'' []"

definition getAddressObjects where
  "getAddressObjects cl vdom = get_list cl ''cmdb/firewall/address'' vdom"
definition getAddressObject where
  "getAddressObject cl name vdom = get_or_null cl (''cmdb/firewall/address/'' @ encodeURIComponent name) vdom"

definition createAddressObject :: "'w client \<Rightarrow> json \<Rightarrow> string \<Rightarrow> string \<Rightarrow> 'w \<Rightarrow> (thrown + json) \<times> 'w" where
  "createAddressObject cl nameOrData subnet vdom =
     request cl ''POST'' ''cmdb/firewall/address''
       (case nameOrData of JObj _ \<Rightarrow> nameOrData | JArr _ \<Rightarrow> nameOrData | JNull \<Rightarrow> nameOrData
        | _ \<Rightarrow> JObj [(''name'', nameOrData), (''type'', JStr ''ipmask''), (''subnet'', JStr subnet)]) vdom"

definition updateAddressObject where
  "updateAddressObject cl name data vdom =
  request cl ''PUT'' (''cmdb/firewall/address/'' @ encodeURIComponent name) data vdom"
definition deleteAddressObject where
  "deleteAddressObject cl name vdom =
  request cl ''DELETE'' (''cmdb/firewall/address/'' @ encodeURIComponent name) JNull vdom"

definition getServiceObjects where
  "getServiceObjects cl vdom = get_list cl ''cmdb/firewall.service/custom'' vdom"
definition getServiceObject where
  "getServiceObject cl name vdom =
  get_or_null cl (''cmdb/firewall.service/custom/'' @ encodeURIComponent name) vdom"
definition createServiceObject where
  "createServiceObject cl data vdom = request cl ''POST'' ''cmdb/firewall.service/custom'' data vdom"
definition updateServiceObject where
  "updateServiceObject cl name data vdom =
  request cl ''PUT'' (''cmdb/firewall.service/custom/'' @ encodeURIComponent name) data vdom"
definition deleteServiceObject where
  "deleteServiceObject cl name vdom =
  request cl ''DELETE'' (''cmdb/firewall.service/custom/'' @ encodeURIComponent name) JNull vdom"

definition getVips where
  "getVips cl vdom = get_list cl ''cmdb/firewall/vip'' vdom"
definition getVip where
  "getVip cl name vdom = get_or_null cl (''cmdb/firewall/vip/'' @ encodeURIComponent name) vdom"
definition createVip where
  "createVip cl data vdom = request cl ''POST'' ''cmdb/firewall/vip'' data vdom"
definition deleteVip where
  "deleteVip cl name vdom =
  request cl ''DELETE'' (''cmdb/firewall/vip/'' @ encodeURIComponent name) JNull vdom"
definition getAddressGroups where
  "getAddressGroups cl vdom = get_list cl ''cmdb/firewall/addrgrp'' vdom"

definition getLocalCertificates where
  "getLocalCertificates cl vdom = get_list cl ''cmdb/vpn.certificate/local'' vdom"
definition getLocalCertificate where
  "getLocalCertificate cl name vdom =
  get_or_null cl (''cmdb/vpn.certificate/local/'' @ encodeURIComponent name) vdom"
definition getSslSshProfiles where
  "getSslSshProfiles cl vdom = get_list cl ''cmdb/firewall/ssl-ssh-profile'' vdom"
definition getSslSshProfile where
  "getSslSshProfile cl name vdom =
  get_or_null cl (''cmdb/firewall/ssl-ssh-profile/'' @ encodeURIComponent name) vdom"

definition getManagedSwitches where
  "getManagedSwitches cl vdom = get_list cl ''cmdb/switch-controller/managed-switch'' vdom"
definition getManagedSwitch where
  "getManagedSwitch cl serial vdom =
  get_or_null cl (''cmdb/switch-controller/managed-switch/'' @ encodeURIComponent serial) vdom"
definition getSwitchControllerVlan where
  "getSwitchControllerVlan cl name vdom =
  get_or_null cl (''cmdb/switch-controller/vlan/'' @ encodeURIComponent name) vdom"

definition createSwitchControllerVlan :: "'w client \<Rightarrow> string \<Rightarrow> json \<Rightarrow> string \<Rightarrow> string \<Rightarrow> 'w \<Rightarrow> (thrown + json) \<times> 'w" where
  "createSwitchControllerVlan cl name vlanId description vdom =
     request cl ''POST'' ''cmdb/switch-controller/vlan''
       (JObj ([(''name'', JStr name), (''vdom'', JStr (if vdom \<noteq> [] then vdom else ''root'')), (''vlan-id'', vlanId)]
             @ (if description \<noteq> [] then [(''description'', JStr description)] else []))) vdom"

definition deleteSwitchControllerVlan where
  "deleteSwitchControllerVlan cl name vdom =
  request cl ''DELETE'' (''cmdb/switch-controller/vlan/'' @ encodeURIComponent name) JNull vdom"


section \<open>Switch ports and inspection profiles\<close>

fun set_field :: "string \<Rightarrow> json \<Rightarrow> (string \<times> json) list \<Rightarrow> (string \<times> json) list" where
  "set_field k v [] = [(k, v)]"
| "set_field k v ((k', v') # kvs) = (if k' = k then (k, v) # kvs else (k', v') # set_field k v kvs)"

definition js_put :: "string \<Rightarrow> json \<Rightarrow> json \<Rightarrow> json" where
  "js_put k v ob = (case ob of JObj kvs \<Rightarrow> JObj (set_field k v kvs) | _ \<Rightarrow> ob)"

definition allowed_vlans :: "json \<Rightarrow> json list" where
  "allowed_vlans port =
     map (\<lambda>v. or_else (js_get v ''name'') (js_get v ''vlan-name'')) (elements (or_else (js_get port ''allowed-vlans'') (JArr [])))"

definition vlan_entries :: "json list \<Rightarrow> json" where
  "vlan_entries names = JArr (map (\<lambda>n. JObj [(''vlan-name'', n)]) names)"

definition switch_port :: "'w client \<Rightarrow> string \<Rightarrow> string \<Rightarrow> string \<Rightarrow> 'w \<Rightarrow> (thrown + json) \<times> 'w" where
  "switch_port cl serial portName vdom =
     bind_call (getManagedSwitch cl serial vdom) (\<lambda>sw.
       if \<not> jtruthy sw then throw_call (plain_error (''Managed switch '' @ serial @ '' not found''))
       else (case find (\<lambda>p. js_get p ''port-name'' = JStr portName) (elements (or_else (js_get sw ''ports'') (JArr []))) of
               None \<Rightarrow> throw_call (plain_error (''Port '' @ portName @ '' not found on switch '' @ serial))
             | Some port \<Rightarrow> return_call port))"

definition put_port :: "'w client \<Rightarrow> string \<Rightarrow> string \<Rightarrow> json \<Rightarrow> 'w \<Rightarrow> (thrown + json) \<times> 'w" where
  "put_port cl serial vdom port =
     request cl ''PUT'' (''cmdb/switch-controller/managed-switch/'' @ encodeURIComponent serial)
       (JObj [(''ports'', JArr [port])]) vdom"

definition updateManagedSwitchPort ::
  "'w client \<Rightarrow> string \<Rightarrow> string \<Rightarrow> string \<Rightarrow> bool \<Rightarrow> string \<Rightarrow> 'w \<Rightarrow> (thrown + json) \<times> 'w" where
  "updateManagedSwitchPort cl serial portName vlanName trunk vdom =
     bind_call (switch_port cl serial portName vdom) (\<lambda>port.
       let port1 = (if trunk then
                      (let existing = allowed_vlans port
                       in if JStr vlanName \<in> set existing then port
                          else js_put ''allowed-vlans'' (vlan_entries (existing @ [JStr vlanName])) port)
                    else js_put ''vlan'' (JStr vlanName) port)
       in put_port cl serial vdom (js_put ''export-to'' (JStr ''root'') port1))"

definition removeManagedSwitchPortVlan ::
  "'w client \<Rightarrow> string \<Rightarrow> string \<Rightarrow> string \<Rightarrow> string \<Rightarrow> 'w \<Rightarrow> (thrown + json) \<times> 'w" where
  "removeManagedSwitchPortVlan cl serial portName vlanName vdom =
     bind_call (switch_port cl serial portName vdom) (\<lambda>port.
       let existing = allowed_vlans port;
           filtered = filter (\<lambda>n. n \<noteq> JStr vlanName) existing
       in if length filtered = length existing then return_call JUndef
          else put_port cl serial vdom (js_put ''allowed-vlans'' (vlan_entries filtered) port))"

datatype cert_result =
    Cert_kept cert_plan "string list"
  | Cert_changed cert_plan "string list"

definition put_certs :: "'w client \<Rightarrow> string \<Rightarrow> string \<Rightarrow> string list \<Rightarrow> 'w \<Rightarrow> (thrown + json) \<times> 'w" where
  "put_certs cl profileName vdom names =
     request cl ''PUT'' (''cmdb/firewall/ssl-ssh-profile/'' @ encodeURIComponent profileName)
       (JObj [(''server-cert-mode'', JStr ''replace''), (''server-cert'', JArr (map (\<lambda>n. JObj [(''name'', JStr n)]) names))]) vdom"

definition no_profile :: "string \<Rightarrow> thrown" where
  "no_profile profileName = plain_error (''SSL/SSH inspection profile \"'' @ profileName @ ''\" not found'')"

definition cert_limit_error :: "string \<Rightarrow> string list \<Rightarrow> thrown" where
  "cert_limit_error profileName occupied =
     (plain_error (''SSL inspection profile \"'' @ profileName @ ''\" is full: FortiOS allows '' @ show_nat SERVER_CERT_MAX
        @ '' server certificates per profile and all '' @ show_nat SERVER_CERT_MAX @ '' slots are taken. ''
        @ ''Free a slot on the FortiGate, or issue one certificate covering several names, then retry. Occupied slots: ''
        @ join_with '', '' occupied))\<lparr>th_name := ''ServerCertLimitError'', th_code := JStr ''server_cert_limit''\<rparr>"

definition setInspectionServerCert ::
  "'w client \<Rightarrow> string \<Rightarrow> string \<Rightarrow> string \<Rightarrow> string \<Rightarrow> 'w \<Rightarrow> (thrown + cert_result) \<times> 'w" where
  "setInspectionServerCert cl profileName certName vdom domain =
     bind_call (getSslSshProfile cl profileName vdom) (\<lambda>profile.
       if \<not> jtruthy profile then throw_call (no_profile profileName)
       else let existing = entry_names (js_get profile ''server-cert'');
                plan = planServerCertList existing certName domain SERVER_CERT_MAX
            in case plan of
                 Limit \<Rightarrow> throw_call (cert_limit_error profileName existing)
               | Already_attached \<Rightarrow> return_call (Cert_kept plan existing)
               | Covered _ \<Rightarrow> return_call (Cert_kept plan existing)
               | Replace _ l \<Rightarrow> bind_call (put_certs cl profileName vdom l) (\<lambda>_. return_call (Cert_changed plan l))
               | Append l \<Rightarrow> bind_call (put_certs cl profileName vdom l) (\<lambda>_. return_call (Cert_changed plan l)))"

record detach_result =
  dt_removed :: "string list"
  dt_remaining :: "string list"
  dt_skipped :: bool

definition detachInspectionServerCert ::
  "'w client \<Rightarrow> string \<Rightarrow> string \<Rightarrow> string \<Rightarrow> 'w \<Rightarrow> (thrown + detach_result) \<times> 'w" where
  "detachInspectionServerCert cl profileName certName vdom =
     bind_call (getSslSshProfile cl profileName vdom) (\<lambda>profile.
       if \<not> jtruthy profile then throw_call (no_profile profileName)
       else let existing = entry_names (js_get profile ''server-cert'');
                key = certSlotKey certName;
                remaining = filter (\<lambda>n. certSlotKey n \<noteq> key) existing;
                removed = filter (\<lambda>n. certSlotKey n = key) existing
            in if removed = [] then return_call \<lparr>dt_removed = [], dt_remaining = remaining, dt_skipped = False\<rparr>
               else if remaining = [] then return_call \<lparr>dt_removed = [], dt_remaining = existing, dt_skipped = True\<rparr>
               else bind_call (put_certs cl profileName vdom remaining)
                      (\<lambda>_. return_call \<lparr>dt_removed = removed, dt_remaining = remaining, dt_skipped = False\<rparr>))"

section \<open>Subnets and the legacy teardown of a VLAN\<close>

record subnet =
  sn_ip :: string
  sn_netmask :: string
  sn_network :: string
  sn_networkIp :: string
  sn_dhcpStart :: string
  sn_dhcpEnd :: string
  sn_gateway :: string

definition subnetFromBase :: "string \<Rightarrow> subnet" where
  "subnetFromBase base =
     \<lparr>sn_ip = base @ ''.1'', sn_netmask = ''255.255.255.0'', sn_network = base @ ''.0/24'', sn_networkIp = base @ ''.0'',
      sn_dhcpStart = base @ ''.10'', sn_dhcpEnd = base @ ''.254'', sn_gateway = base @ ''.1''\<rparr>"

definition octet_text :: "int option \<Rightarrow> string" where
  "octet_text n = (case n of Some i \<Rightarrow> show_int i | None \<Rightarrow> ''NaN'')"

definition tag_subnet :: "string \<Rightarrow> json \<Rightarrow> subnet option" where
  \<comment> \<open>the formula of \<open>vlanTagToSubnet\<close> and \<open>deriveSubnet\<close>, which differ in the first octet\<close>
  "tag_subnet firstOctet tag =
     (let s = pad_start 4 (CHR ''0'') (to_str tag)
      in if length s \<noteq> 4 then None
         else let oct2 = parse_int (take 2 s); oct3 = parse_int (drop 2 s)
              in if (case oct2 of Some n \<Rightarrow> n > 255 | None \<Rightarrow> False) \<or> (case oct3 of Some n \<Rightarrow> n > 255 | None \<Rightarrow> False) then None
                 else Some (subnetFromBase (firstOctet @ ''.'' @ octet_text oct2 @ ''.'' @ octet_text oct3)))"

definition vlanTagToSubnet :: "json \<Rightarrow> subnet option" where
  "vlanTagToSubnet tag = tag_subnet ''10'' tag"

end
