(* ===== verification/Ip_Address.thy ===== *)
theory Ip_Address
  imports Json "HOL-Library.Word"
begin

text \<open>
  IPv4 addresses and prefixes: \<open>utils/ipPolicy.ts\<close>, which compares masked 32-bit words, and
  \<open>utils/publicIpPools.ts\<close>, which computes with the address as a number and plans which addresses
  of a pool are stored.
\<close>

unbundle bit_operations_syntax

section \<open>Masked words\<close>

text \<open>\<open>net.isIP(v) === 4\<close>: four decimal octets without leading zeros\<close>

definition octet :: "string \<Rightarrow> nat option" where
  "octet s = (if all_digits s \<and> nat_of_digits s \<le> 255 \<and> show_nat (nat_of_digits s) = s
              then Some (nat_of_digits s) else None)"

definition octets :: "string \<Rightarrow> nat list option" where
  "octets s = (let ps = map octet (split_on (CHR ''.'') s)
               in if length ps = 4 \<and> None \<notin> set ps then Some (map the ps) else None)"

definition ipv4Number :: "string \<Rightarrow> 32 word option" where
  "ipv4Number value =
     map_option (foldl (\<lambda>result part. push_bit 8 result OR word_of_nat part) 0) (octets value)"

definition prefix_mask :: "nat \<Rightarrow> 32 word" where
  "prefix_mask prefix = (if prefix = 0 then 0 else push_bit (32 - prefix) (-1))"

definition ipv4InCidr :: "string \<Rightarrow> string \<Rightarrow> bool" where
  "ipv4InCidr ip cidr =
     (let parts = split_on (CHR ''/'') cidr;
          network = hd parts;
          prefix = (case parts of _ # p # _ \<Rightarrow> number_of_string p | _ \<Rightarrow> JNaN)
      in case (ipv4Number ip, ipv4Number network, prefix) of
           (Some a, Some n, JNum p) \<Rightarrow>
             if p < 0 \<or> p > 32 then False else a AND prefix_mask (nat p) = n AND prefix_mask (nat p)
         | _ \<Rightarrow> False)"

section \<open>Addresses as numbers\<close>

definition normalizeIpv4 :: "string \<Rightarrow> string" where
  "normalizeIpv4 value =
     (let raw = js_trim value; os = split_on (CHR ''.'') raw
      in if length os \<noteq> 4 \<or> \<not> list_all (\<lambda>p. all_digits p \<and> length p \<le> 3) os then []
         else if list_ex (\<lambda>p. length p > 1 \<and> hd p = CHR ''0'') os then []
         else if list_ex (\<lambda>p. nat_of_digits p > 255) os then []
         else join_with ''.'' (map (\<lambda>p. show_nat (nat_of_digits p)) os))"

definition ipv4ToInt :: "string \<Rightarrow> nat option" where
  "ipv4ToInt value =
     (let a = normalizeIpv4 value
      in if a = [] then None
         else Some (foldl (\<lambda>acc p. acc * 256 + nat_of_digits p) 0 (split_on (CHR ''.'') a)))"

definition intToIpv4 :: "nat \<Rightarrow> string" where
  "intToIpv4 v =
     (if v > 4294967295 then []
      else join_with ''.'' (map (\<lambda>divisor. show_nat (v div divisor mod 256)) [16777216, 65536, 256, 1]))"

record cidr =
  ci_prefix :: nat
  ci_size :: nat
  ci_network :: nat
  ci_broadcast :: nat
  ci_cidr :: string

definition parseCidr :: "string \<Rightarrow> cidr option" where
  "parseCidr value =
     (let raw = js_trim value;
          addr = takeWhile (\<lambda>c. c \<noteq> CHR ''/'') raw;
          p = drop (length addr + 1) raw
      in if addr = [] \<or> \<not> list_all (\<lambda>c. is_digit c \<or> c = CHR ''.'') addr
            \<or> CHR ''/'' \<notin> set raw \<or> \<not> all_digits p \<or> length p > 2 then None
         else (case ipv4ToInt addr of
                 None \<Rightarrow> None
               | Some base \<Rightarrow>
                   let prefix = nat_of_digits p in
                   if prefix > 32 then None
                   else let size = 2 ^ (32 - prefix); network = (base div size) * size
                        in Some \<lparr>ci_prefix = prefix, ci_size = size, ci_network = network,
                                 ci_broadcast = network + size - 1,
                                 ci_cidr = intToIpv4 network @ ''/'' @ show_nat prefix\<rparr>))"

definition cidrContains :: "string \<Rightarrow> string \<Rightarrow> bool" where
  "cidrContains c a =
     (case (parseCidr c, ipv4ToInt a) of
        (Some p, Some i) \<Rightarrow> ci_network p \<le> i \<and> i \<le> ci_broadcast p
      | _ \<Rightarrow> False)"

definition MAX_POOL_EXPANSION :: nat where
  "MAX_POOL_EXPANSION = 1024"

definition expandCidrAddresses :: "string \<Rightarrow> nat \<Rightarrow> string + string list" where
  "expandCidrAddresses c limit =
     (case parseCidr c of
        None \<Rightarrow> Inl (''\"'' @ js_trim c @ ''\" is not a valid IPv4 CIDR'')
      | Some p \<Rightarrow>
          if ci_size p > limit
          then Inl (ci_cidr p @ '' contains '' @ show_nat (ci_size p) @ '' addresses, more than the ''
                 @ show_nat limit @ '' this pool may enumerate at once'')
          else Inr (map intToIpv4 [ci_network p..<Suc (ci_broadcast p)]))"

section \<open>Planning the rows of a pool\<close>

record pool_row =
  po_address :: string
  po_reserved :: bool
  po_reason :: string

record pool_plan =
  pl_add :: "pool_row list"
  pl_duplicates :: "string list"
  pl_invalid :: "string list"
  pl_outOfRange :: "string list"

definition reservedMap :: "(string \<times> string) list \<Rightarrow> string \<Rightarrow> string option" where
  \<comment> \<open>a later entry for an address overrides an earlier one\<close>
  "reservedMap reserved =
     map_of (rev (filter (\<lambda>e. fst e \<noteq> []) (map (\<lambda>(a, r). (normalizeIpv4 a, r)) reserved)))"

definition addressSet :: "string list \<Rightarrow> string list" where
  "addressSet rows = filter (\<lambda>a. a \<noteq> []) (map normalizeIpv4 rows)"

fun plan_candidates ::
  "string \<Rightarrow> (string \<Rightarrow> string option) \<Rightarrow> string list \<Rightarrow> string list \<Rightarrow> string list \<Rightarrow> pool_plan \<Rightarrow> pool_plan" where
  "plan_candidates c reserved known seen [] r = r"
| "plan_candidates c reserved known seen (cand # cands) r =
     (let a = normalizeIpv4 cand in
      if a = [] then plan_candidates c reserved known seen cands (r\<lparr>pl_invalid := pl_invalid r @ [js_trim cand]\<rparr>)
      else if js_trim c \<noteq> [] \<and> \<not> cidrContains c a
      then plan_candidates c reserved known seen cands (r\<lparr>pl_outOfRange := pl_outOfRange r @ [a]\<rparr>)
      else if a \<in> set seen then plan_candidates c reserved known seen cands r
      else if a \<in> set known
      then plan_candidates c reserved known (a # seen) cands (r\<lparr>pl_duplicates := pl_duplicates r @ [a]\<rparr>)
      else plan_candidates c reserved known (a # seen) cands
             (r\<lparr>pl_add := pl_add r @ [\<lparr>po_address = a, po_reserved = (reserved a \<noteq> None),
                   po_reason = (case reserved a of Some s \<Rightarrow> s | None \<Rightarrow> [])\<rparr>]\<rparr>))"

definition planPoolAddresses ::
  "string \<Rightarrow> string list \<Rightarrow> (string \<times> string) list \<Rightarrow> string list \<Rightarrow> nat \<Rightarrow> string + pool_plan" where
  "planPoolAddresses c addresses reserved existing limit =
     (let explicit = filter (\<lambda>a. js_trim a \<noteq> []) addresses
      in bind_err (if explicit \<noteq> [] then Inr explicit
                   else if js_trim c \<noteq> [] then expandCidrAddresses c limit
                   else Inl ''Provide a CIDR or an explicit list of addresses'')
           (\<lambda>source. Inr (plan_candidates c (reservedMap reserved) (addressSet existing) [] source
               \<lparr>pl_add = [], pl_duplicates = [], pl_invalid = [], pl_outOfRange = []\<rparr>)))"

definition usablePoolAddresses :: "(string \<times> string) list \<Rightarrow> string list" where
  \<comment> \<open>rows as state and address\<close>
  "usablePoolAddresses rows =
     filter (\<lambda>a. a \<noteq> [])
       (map (\<lambda>r. normalizeIpv4 (snd r)) (filter (\<lambda>r. (if fst r = [] then ''available'' else fst r) = ''available'') rows))"

section \<open>Canonical text\<close>

definition dotted :: "nat list \<Rightarrow> string" where
  "dotted ns = join_with ''.'' (map show_nat ns)"

definition quad :: "nat list \<Rightarrow> bool" where
  "quad ns = (length ns = 4 \<and> list_all (\<lambda>n. n \<le> 255) ns)"

definition quad_value :: "nat list \<Rightarrow> nat" where
  "quad_value ns = foldl (\<lambda>acc n. acc * 256 + n) 0 ns"

lemma quad_cases:
  assumes "quad ns"
  obtains a b c d where "ns = [a, b, c, d]" "a \<le> 255" "b \<le> 255" "c \<le> 255" "d \<le> 255"
  using assms that by (auto simp: quad_def numeral_eq_Suc length_Suc_conv)

lemma digit_not_special: "is_digit c \<Longrightarrow> c \<noteq> CHR ''.'' \<and> c \<noteq> CHR ''/'' \<and> \<not> is_ws c"
  by (auto simp: is_digit_def is_ws_def Let_def)

lemma show_nat_chars: "c \<in> set (show_nat n) \<Longrightarrow> is_digit c"
  using show_nat_list_all [of n] by (simp add: list_all_iff)

lemma split_dotted: "ns \<noteq> [] \<Longrightarrow> split_on (CHR ''.'') (dotted ns) = map show_nat ns"
  unfolding dotted_def
  by (rule split_on_join) (auto dest!: show_nat_chars digit_not_special)

lemma set_join_with: "set (join_with sep ss) \<subseteq> set sep \<union> (\<Union>s \<in> set ss. set s)"
  by (induction sep ss rule: join_with.induct) auto

lemma dotted_chars: "c \<in> set (dotted ns) \<Longrightarrow> is_digit c \<or> c = CHR ''.''"
  using set_join_with [of "''.''" "map show_nat ns"] by (auto simp: dotted_def dest: show_nat_chars)

lemma dotted_not_Nil: "ns \<noteq> [] \<Longrightarrow> dotted ns \<noteq> []"
  by (cases ns; cases "tl ns") (auto simp: dotted_def)

lemma js_trim_dotted [simp]: "js_trim (dotted ns) = dotted ns"
proof (rule js_trim_id)
  show "list_all (\<lambda>c. \<not> is_ws c) (dotted ns)"
    by (auto simp: list_all_iff is_ws_def is_digit_def dest!: dotted_chars)
qed

lemma canonical_octet:
  assumes "n \<le> 255"
  shows "all_digits (show_nat n) \<and> length (show_nat n) \<le> 3
         \<and> \<not> (length (show_nat n) > 1 \<and> hd (show_nat n) = CHR ''0'')"
proof -
  have "length (show_nat n) \<le> 3" by (rule length_show_nat_le) (use assms in simp_all)
  moreover have "length (show_nat 0) = 1" by (simp add: show_nat.simps)
  ultimately show ?thesis using show_nat_digits show_nat_hd_zero [of n] by auto
qed

lemma normalizeIpv4_dotted:
  assumes "quad ns"
  shows "normalizeIpv4 (dotted ns) = dotted ns"
proof -
  obtain a b c d where ns: "ns = [a, b, c, d]" and le: "a \<le> 255" "b \<le> 255" "c \<le> 255" "d \<le> 255"
    using assms by (rule quad_cases)
  have "split_on (CHR ''.'') (js_trim (dotted ns)) = map show_nat ns"
    by (simp add: split_dotted ns)
  then show ?thesis
    using le canonical_octet [OF le(1)] canonical_octet [OF le(2)] canonical_octet [OF le(3)] canonical_octet [OF le(4)]
    by (simp add: normalizeIpv4_def Let_def ns dotted_def)
qed

lemma normalizeIpv4_cases:
  assumes "normalizeIpv4 s \<noteq> []"
  obtains ns where "quad ns" "normalizeIpv4 s = dotted ns"
proof -
  let ?os = "split_on (CHR ''.'') (js_trim s)"
  have "length ?os = 4" "\<not> list_ex (\<lambda>p. nat_of_digits p > 255) ?os"
    and n: "normalizeIpv4 s = dotted (map nat_of_digits ?os)"
    using assms by (auto simp: normalizeIpv4_def Let_def dotted_def comp_def split: if_splits)
  then have "quad (map nat_of_digits ?os)" by (auto simp: quad_def list_ex_iff list_all_iff not_less)
  with n that show thesis by blast
qed

lemma ipv4ToInt_dotted: "quad ns \<Longrightarrow> ipv4ToInt (dotted ns) = Some (quad_value ns)"
proof -
  assume q: "quad ns"
  then have "ns \<noteq> []" by (auto simp: quad_def)
  then have "foldl (\<lambda>acc p. acc * 256 + nat_of_digits p) 0 (split_on (CHR ''.'') (dotted ns)) = quad_value ns"
    by (simp add: split_dotted quad_value_def foldl_map)
  with q \<open>ns \<noteq> []\<close> show ?thesis by (simp add: ipv4ToInt_def Let_def normalizeIpv4_dotted dotted_not_Nil)
qed

lemma ipv4ToInt_cases:
  assumes "ipv4ToInt s = Some v"
  obtains ns where "quad ns" "normalizeIpv4 s = dotted ns" "v = quad_value ns"
proof -
  from assms have ne: "normalizeIpv4 s \<noteq> []" by (auto simp: ipv4ToInt_def Let_def split: if_splits)
  then obtain ns where q: "quad ns" and n: "normalizeIpv4 s = dotted ns" by (rule normalizeIpv4_cases)
  moreover have "ipv4ToInt s = ipv4ToInt (dotted ns)"
    by (simp add: ipv4ToInt_def n normalizeIpv4_dotted [OF q])
  ultimately show thesis using that assms by (simp add: ipv4ToInt_dotted)
qed

definition int_quad :: "nat \<Rightarrow> nat list" where
  "int_quad v = [v div 16777216 mod 256, v div 65536 mod 256, v div 256 mod 256, v mod 256]"

lemma quad_int_quad: "quad (int_quad v)"
  by (simp add: quad_def int_quad_def less_Suc_eq_le [symmetric])

lemma intToIpv4_dotted: "v \<le> 4294967295 \<Longrightarrow> intToIpv4 v = dotted (int_quad v)"
  by (simp add: intToIpv4_def dotted_def int_quad_def)

lemma quad_value_int_quad: "v \<le> 4294967295 \<Longrightarrow> quad_value (int_quad v) = v"
proof -
  assume v: "v \<le> 4294967295"
  have d: "v div 65536 = v div 256 div 256" "v div 16777216 = v div 256 div 256 div 256"
    by (simp_all add: div_mult2_eq [symmetric])
  have "v div 256 div 256 div 256 mod 256 = v div 256 div 256 div 256"
    using v d(2) by (simp add: less_Suc_eq_le [symmetric] div_less_iff_less_mult)
  moreover have "x div 256 * 256 + x mod 256 = x" for x :: nat by (rule div_mult_mod_eq)
  ultimately show ?thesis by (simp add: quad_value_def int_quad_def d)
qed

lemma quad_value_bound: "quad ns \<Longrightarrow> quad_value ns \<le> 4294967295"
  by (erule quad_cases) (simp add: quad_value_def)

lemma int_quad_quad_value: "quad ns \<Longrightarrow> int_quad (quad_value ns) = ns"
proof -
  assume "quad ns"
  then obtain a b c d where ns: "ns = [a, b, c, d]" and le: "a \<le> 255" "b \<le> 255" "c \<le> 255" "d \<le> 255"
    by (rule quad_cases)
  have cut: "(x * 256 + y) div 256 = x \<and> (x * 256 + y) mod 256 = y" if "y \<le> 255" for x y :: nat
    using that by simp
  let ?v = "((a * 256 + b) * 256 + c) * 256 + d"
  have e: "?v div 65536 = ?v div 256 div 256" "?v div 16777216 = ?v div 256 div 256 div 256"
    by (simp_all only: div_mult2_eq [symmetric]) simp_all
  have "quad_value ns = ?v" by (simp add: ns quad_value_def)
  with e cut [OF le(2), of a] cut [OF le(3), of "a * 256 + b"] cut [OF le(4), of "(a * 256 + b) * 256 + c"] le(1)
  show ?thesis by (simp only: int_quad_def ns) simp
qed

text \<open>Addresses round-trip between text and number: every number below 2^32 prints to a canonical
  text that reads back to it, and every text that is read as an address prints back to its
  canonical form, which is a fixed point of \<open>normalizeIpv4\<close>.\<close>

theorem ipv4_roundtrip:
  "(v \<le> 4294967295 \<longrightarrow> ipv4ToInt (intToIpv4 v) = Some v \<and> normalizeIpv4 (intToIpv4 v) = intToIpv4 v)
   \<and> (ipv4ToInt s = Some n \<longrightarrow> n \<le> 4294967295 \<and> intToIpv4 n = normalizeIpv4 s
        \<and> normalizeIpv4 (normalizeIpv4 s) = normalizeIpv4 s)"
  by (auto simp: intToIpv4_dotted ipv4ToInt_dotted quad_int_quad quad_value_int_quad normalizeIpv4_dotted
      quad_value_bound int_quad_quad_value elim!: ipv4ToInt_cases)


section \<open>Masks and divisions agree\<close>

lemma octet_show_nat: "n \<le> 255 \<Longrightarrow> octet (show_nat n) = Some n"
  by (simp add: octet_def show_nat_digits)

lemma octets_dotted: "quad ns \<Longrightarrow> octets (dotted ns) = Some ns"
  by (erule quad_cases) (simp add: octets_def Let_def split_dotted octet_show_nat)

lemma octets_Some: "octets s = Some ns \<Longrightarrow> quad ns \<and> s = dotted ns"
proof -
  assume a: "octets s = Some ns"
  let ?ps = "split_on (CHR ''.'') s"
  from a have l: "length ?ps = 4" and nn: "None \<notin> set (map octet ?ps)" and ns: "ns = map (the \<circ> octet) ?ps"
    by (auto simp: octets_def Let_def split: if_splits)
  have "\<exists>n. octet p = Some n \<and> n \<le> 255 \<and> show_nat n = p" if "p \<in> set ?ps" for p
  proof -
    from that nn have "octet p \<noteq> None" by (metis image_eqI list.set_map)
    then show ?thesis by (auto simp: octet_def split: if_splits)
  qed
  then have o: "\<forall>p \<in> set ?ps. show_nat ((the \<circ> octet) p) = p \<and> (the \<circ> octet) p \<le> 255" by fastforce
  then have "map show_nat ns = ?ps" by (simp add: ns map_idI)
  then have "dotted ns = s" unfolding dotted_def by (simp only: join_split_on)
  moreover have "length ns = 4" using l by (simp add: ns)
  moreover have "\<forall>n \<in> set ns. n \<le> 255" unfolding ns set_map using o by blast
  ultimately show ?thesis by (simp add: quad_def list_all_iff)
qed

lemma push_or_add:
  assumes "n \<le> 255"
  shows "push_bit 8 (r :: 32 word) OR word_of_nat n = r * 256 + word_of_nat n"
proof -
  have "push_bit 8 r AND word_of_nat n = 0"
  proof (rule bit_word_eqI)
    fix i assume "i < LENGTH(32)"
    have "\<not> bit n i" if "8 \<le> i"
    proof -
      have "n < 2 ^ i" using assms power_increasing [OF that, of "2::nat"] by simp
      then show ?thesis by (simp add: bit_iff_odd)
    qed
    then show "bit (push_bit 8 r AND word_of_nat n) i = bit (0 :: 32 word) i"
      by (auto simp: bit_simps)
  qed
  then have "push_bit 8 r OR word_of_nat n = push_bit 8 r + word_of_nat n"
    by (simp add: disjunctive_add_eq_or)
  then show ?thesis by (simp add: push_bit_eq_mult)
qed

lemma ipv4Number_dotted:
  assumes "quad ns"
  shows "ipv4Number (dotted ns) = Some (word_of_nat (quad_value ns))"
proof -
  obtain a b c d where ns: "ns = [a, b, c, d]" and le: "a \<le> 255" "b \<le> 255" "c \<le> 255" "d \<le> 255"
    using assms by (rule quad_cases)
  have "foldl (\<lambda>r p. push_bit 8 r OR word_of_nat p) (0 :: 32 word) ns = word_of_nat (quad_value ns)"
    by (simp add: ns push_or_add [OF le(1)] push_or_add [OF le(2)] push_or_add [OF le(3)] push_or_add [OF le(4)]
        quad_value_def del: push_bit_of_0)
  with octets_dotted [OF assms] show ?thesis by (simp add: ipv4Number_def)
qed

lemma masked_eq_iff:
  fixes x y :: "32 word"
  assumes "p \<le> 32"
  shows "x AND prefix_mask p = y AND prefix_mask p \<longleftrightarrow> unat x div 2 ^ (32 - p) = unat y div 2 ^ (32 - p)"
proof (cases "p = 0")
  case True
  have "unat z div 2 ^ 32 = 0" for z :: "32 word" using unsigned_less [of z, where 'a = nat] by simp
  then show ?thesis by (simp add: True prefix_mask_def)
next
  case False
  let ?n = "32 - p"
  have "x AND prefix_mask p = y AND prefix_mask p \<longleftrightarrow> drop_bit ?n x = drop_bit ?n y"
  proof
    assume e: "x AND prefix_mask p = y AND prefix_mask p"
    show "drop_bit ?n x = drop_bit ?n y"
    proof (rule bit_word_eqI)
      fix i assume "i < LENGTH(32)"
      have "bit (x AND prefix_mask p) (?n + i) = bit (y AND prefix_mask p) (?n + i)" using e by simp
      then show "bit (drop_bit ?n x) i = bit (drop_bit ?n y) i"
        using False bit_imp_le_length [of x "?n + i"] bit_imp_le_length [of y "?n + i"]
        by (auto simp: bit_simps prefix_mask_def)
    qed
  next
    assume e: "drop_bit ?n x = drop_bit ?n y"
    show "x AND prefix_mask p = y AND prefix_mask p"
    proof (rule bit_word_eqI)
      fix i assume "i < LENGTH(32)"
      have "bit (drop_bit ?n x) (i - ?n) = bit (drop_bit ?n y) (i - ?n)" using e by simp
      then show "bit (x AND prefix_mask p) i = bit (y AND prefix_mask p) i"
        using False by (auto simp: bit_simps prefix_mask_def)
    qed
  qed
  also have "\<dots> \<longleftrightarrow> unat (drop_bit ?n x) = unat (drop_bit ?n y)" by (simp add: word_unat_eq_iff)
  also have "\<dots> \<longleftrightarrow> unat x div 2 ^ ?n = unat y div 2 ^ ?n"
    by (simp only: unat_drop_bit_eq) (simp add: drop_bit_eq_div)
  finally show ?thesis .
qed

lemma block_range:
  fixes i b s :: nat
  assumes "0 < s"
  shows "b div s * s \<le> i \<and> i \<le> b div s * s + s - 1 \<longleftrightarrow> i div s = b div s"
proof
  assume a: "b div s * s \<le> i \<and> i \<le> b div s * s + s - 1"
  define k where "k = b div s * s"
  have "i < k + s" using a assms unfolding k_def [symmetric] by linarith
  then have "i < (b div s + 1) * s" by (simp add: k_def)
  with a show "i div s = b div s" using assms
    by (metis Suc_eq_plus1 div_less_iff_less_mult le_antisym less_Suc_eq_le less_eq_div_iff_mult_less_eq)
next
  assume e: "i div s = b div s"
  have "b div s * s + i mod s = i" "i mod s < s"
    using div_mult_mod_eq [of i s] mod_less_divisor [OF assms, of i] by (simp_all add: e)
  moreover define k where "k = b div s * s"
  ultimately show "b div s * s \<le> i \<and> i \<le> b div s * s + s - 1"
    unfolding k_def [symmetric] by linarith
qed

lemma prefix_text: "parse_int (show_nat p) = Some (int p) \<and> number_of_string (show_nat p) = JNum (int p)"
proof -
  have "list_all (\<lambda>c. \<not> is_ws c) (show_nat p)"
    using show_nat_chars digit_not_special by (auto simp: list_all_iff)
  then have "js_trim (show_nat p) = show_nat p" by (rule js_trim_id)
  moreover have "int_literal (show_nat p)"
  proof -
    obtain c cs where c: "show_nat p = c # cs" by (cases "show_nat p") auto
    then have "is_digit c" using show_nat_chars [of c p] by simp
    then show ?thesis using show_nat_digits [of p] c sign_not_digit by (simp add: int_literal_def)
  qed
  ultimately show ?thesis by (simp add: number_of_string_def Let_def)
qed

lemma parseCidr_dotted:
  assumes q: "quad ns" and p: "p \<le> 32"
  shows "\<exists>r. parseCidr (dotted ns @ ''/'' @ show_nat p) = Some r \<and> ci_network r = quad_value ns div 2 ^ (32 - p) * 2 ^ (32 - p)
         \<and> ci_broadcast r = quad_value ns div 2 ^ (32 - p) * 2 ^ (32 - p) + 2 ^ (32 - p) - 1"
proof -
  let ?s = "dotted ns @ ''/'' @ show_nat p"
  have ne: "ns \<noteq> []" using q by (auto simp: quad_def)
  have t: "js_trim ?s = ?s"
  proof (rule js_trim_id)
    show "list_all (\<lambda>c. \<not> is_ws c) ?s"
      by (auto simp: list_all_iff is_ws_def is_digit_def dest!: dotted_chars show_nat_chars)
  qed
  have all: "\<forall>c \<in> set (dotted ns). c \<noteq> CHR ''/''" by (auto simp: is_digit_def dest!: dotted_chars)
  have a: "takeWhile (\<lambda>c. c \<noteq> CHR ''/'') ?s = dotted ns"
    using all by (simp add: takeWhile_append2)
  have d: "list_all (\<lambda>c. is_digit c \<or> c = CHR ''.'') (dotted ns)"
    by (auto simp: list_all_iff dest: dotted_chars)
  have l: "length (show_nat p) \<le> 2" by (rule length_show_nat_le) (use p in simp_all)
  show ?thesis
    unfolding parseCidr_def Let_def t a
    using ne q p d l show_nat_digits [of p]
    by (simp add: ipv4ToInt_dotted dotted_not_Nil Let_def)
qed

lemma ipv4InCidr_dotted:
  assumes a: "quad a" and n: "quad n" and p: "p \<le> 32"
  shows "ipv4InCidr (dotted a) (dotted n @ ''/'' @ show_nat p) \<longleftrightarrow> quad_value a div 2 ^ (32 - p) = quad_value n div 2 ^ (32 - p)"
proof -
  let ?c = "dotted n @ ''/'' @ show_nat p"
  have noslash: "CHR ''/'' \<notin> set (dotted n)" by (auto simp: is_digit_def dest!: dotted_chars)
  have noslash2: "CHR ''/'' \<notin> set (show_nat p)" by (auto simp: is_digit_def dest!: show_nat_chars)
  have "split_on (CHR ''/'') ?c = [dotted n, show_nat p]"
    using split_on_append [OF noslash, of "show_nat p"] split_on_no_sep [OF noslash2] by simp
  moreover have u: "unat (word_of_nat (quad_value ns) :: 32 word) = quad_value ns" if "quad ns" for ns
    using quad_value_bound [OF that] by (simp add: unat_of_nat)
  ultimately show ?thesis
    using a n p by (simp add: ipv4InCidr_def Let_def prefix_text ipv4Number_dotted masked_eq_iff [OF p])
qed

text \<open>The two prefix tests agree: for a canonical address, a canonical network and a prefix length of
  at most 32, comparing masked 32-bit words (\<open>ipv4InCidr\<close>) and comparing with the bounds of the block
  (\<open>cidrContains\<close>) give the same answer, which is that the leading bits are equal.\<close>

theorem cidr_tests_agree:
  assumes "octets ip = Some a" "octets net = Some n" "p \<le> 32"
  shows "ipv4InCidr ip (net @ ''/'' @ show_nat p) = cidrContains (net @ ''/'' @ show_nat p) ip
         \<and> (cidrContains (net @ ''/'' @ show_nat p) ip
              \<longleftrightarrow> quad_value a div 2 ^ (32 - p) = quad_value n div 2 ^ (32 - p))"
proof -
  from assms octets_Some have qa: "quad a" "ip = dotted a" and qn: "quad n" "net = dotted n" by blast+
  let ?c = "net @ ''/'' @ show_nat p"
  have "ipv4InCidr ip ?c \<longleftrightarrow> quad_value a div 2 ^ (32 - p) = quad_value n div 2 ^ (32 - p)"
    using ipv4InCidr_dotted [OF qa(1) qn(1) assms(3)] qa(2) qn(2) by simp
  moreover obtain r where "parseCidr ?c = Some r" "ci_network r = quad_value n div 2 ^ (32 - p) * 2 ^ (32 - p)"
      "ci_broadcast r = quad_value n div 2 ^ (32 - p) * 2 ^ (32 - p) + 2 ^ (32 - p) - 1"
    using parseCidr_dotted [OF qn(1) assms(3)] qn(2) by auto
  then have "cidrContains ?c ip \<longleftrightarrow> quad_value a div 2 ^ (32 - p) = quad_value n div 2 ^ (32 - p)"
    using qa block_range [of "2 ^ (32 - p)" "quad_value n" "quad_value a"]
    by (simp add: cidrContains_def ipv4ToInt_dotted)
  ultimately show ?thesis by blast
qed


section \<open>The planned rows\<close>

lemma parseCidr_bounds:
  assumes "parseCidr c = Some r"
  shows "ci_broadcast r \<le> 4294967295 \<and> ci_broadcast r = ci_network r + ci_size r - 1 \<and> 0 < ci_size r"
proof -
  let ?a = "takeWhile (\<lambda>c. c \<noteq> CHR ''/'') (js_trim c)"
  define p where "p = nat_of_digits (drop (length ?a + 1) (js_trim c))"
  obtain base where i: "ipv4ToInt ?a = Some base" and p: "p \<le> 32"
    and r: "ci_network r = base div 2 ^ (32 - p) * 2 ^ (32 - p)" "ci_size r = 2 ^ (32 - p)"
           "ci_broadcast r = ci_network r + ci_size r - 1"
    using assms unfolding parseCidr_def Let_def p_def [symmetric]
    by (auto split: if_splits option.splits)
  have b: "base \<le> 4294967295" using i by (rule ipv4ToInt_cases) (simp add: quad_value_bound)
  let ?s = "2 ^ (32 - p) :: nat"
  have "base < 2 ^ p * ?s" using b p by (simp add: power_add [symmetric])
  then have "base div ?s < 2 ^ p" by (simp add: div_less_iff_less_mult)
  then have "(base div ?s + 1) * ?s \<le> 2 ^ p * ?s" by (intro mult_le_mono1) simp
  also have "\<dots> = 4294967296" using p by (simp add: power_add [symmetric])
  finally have "ci_network r + ci_size r \<le> 4294967296" using r by simp
  moreover have "0 < ci_size r" using r(2) by simp
  ultimately show ?thesis using r(3) by linarith
qed

definition candidate_ok :: "string \<Rightarrow> string \<Rightarrow> bool" where
  "candidate_ok c a = (a \<noteq> [] \<and> (js_trim c = [] \<or> cidrContains c a))"

lemma plan_candidates_spec:
  assumes "distinct (map po_address (pl_add r))" "set (map po_address (pl_add r)) \<subseteq> set seen"
    "\<forall>row \<in> set (pl_add r). po_reserved row \<longleftrightarrow> reserved (po_address row) \<noteq> None"
  shows "distinct (map po_address (pl_add (plan_candidates c reserved known seen cands r)))
    \<and> po_address ` set (pl_add (plan_candidates c reserved known seen cands r))
       = po_address ` set (pl_add r) \<union> ({a \<in> normalizeIpv4 ` set cands. candidate_ok c a} - set seen - set known)
    \<and> (\<forall>row \<in> set (pl_add (plan_candidates c reserved known seen cands r)).
         po_reserved row \<longleftrightarrow> reserved (po_address row) \<noteq> None)"
  using assms
proof (induction c reserved known seen cands r rule: plan_candidates.induct)
  case (2 c reserved known seen cand cands r)
  let ?a = "normalizeIpv4 cand"
  note IH = "2.IH" [of ?a, OF refl]
  consider (invalid) "?a = []" | (outside) "?a \<noteq> []" "js_trim c \<noteq> [] \<and> \<not> cidrContains c ?a"
    | (again) "?a \<noteq> []" "\<not> (js_trim c \<noteq> [] \<and> \<not> cidrContains c ?a)" "?a \<in> set seen"
    | (stored) "?a \<noteq> []" "\<not> (js_trim c \<noteq> [] \<and> \<not> cidrContains c ?a)" "?a \<notin> set seen" "?a \<in> set known"
    | (fresh) "?a \<noteq> []" "\<not> (js_trim c \<noteq> [] \<and> \<not> cidrContains c ?a)" "?a \<notin> set seen" "?a \<notin> set known"
    by blast
  then show ?case
  proof cases
    case invalid
    have "plan_candidates c reserved known seen (cand # cands) r
        = plan_candidates c reserved known seen cands (r\<lparr>pl_invalid := pl_invalid r @ [js_trim cand]\<rparr>)"
      using invalid by (auto simp: Let_def)
    with IH(1) [OF invalid] "2.prems" invalid show ?thesis by (auto simp: candidate_ok_def)
  next
    case outside
    have "plan_candidates c reserved known seen (cand # cands) r
        = plan_candidates c reserved known seen cands (r\<lparr>pl_outOfRange := pl_outOfRange r @ [?a]\<rparr>)"
      using outside by (auto simp: Let_def)
    with IH(2) [OF outside] "2.prems" outside show ?thesis by (auto simp: candidate_ok_def)
  next
    case again
    have "plan_candidates c reserved known seen (cand # cands) r = plan_candidates c reserved known seen cands r"
      using again by (auto simp: Let_def)
    with IH(3) [OF again] "2.prems" again show ?thesis by auto
  next
    case stored
    let ?r = "r\<lparr>pl_duplicates := pl_duplicates r @ [?a]\<rparr>"
    have e: "plan_candidates c reserved known seen (cand # cands) r
        = plan_candidates c reserved known (?a # seen) cands ?r"
      using stored by (auto simp: Let_def)
    have s: "{a \<in> normalizeIpv4 ` set (cand # cands). candidate_ok c a} - set seen - set known
        = {a \<in> normalizeIpv4 ` set cands. candidate_ok c a} - set (?a # seen) - set known"
      using stored by auto
    have "set (map po_address (pl_add ?r)) \<subseteq> set (?a # seen)" using "2.prems"(2) by auto
    with IH(4) [OF stored] "2.prems"(1,3) show ?thesis unfolding e s by simp
  next
    case fresh
    let ?row = "\<lparr>po_address = ?a, po_reserved = (reserved ?a \<noteq> None),
                 po_reason = (case reserved ?a of Some s \<Rightarrow> s | None \<Rightarrow> [])\<rparr>"
    let ?r = "r\<lparr>pl_add := pl_add r @ [?row]\<rparr>"
    have e: "plan_candidates c reserved known seen (cand # cands) r
        = plan_candidates c reserved known (?a # seen) cands ?r"
      using fresh by (auto simp: Let_def)
    have "candidate_ok c ?a" using fresh by (auto simp: candidate_ok_def)
    then have s: "po_address ` set (pl_add r) \<union> ({a \<in> normalizeIpv4 ` set (cand # cands). candidate_ok c a} - set seen - set known)
        = po_address ` set (pl_add ?r) \<union> ({a \<in> normalizeIpv4 ` set cands. candidate_ok c a} - set (?a # seen) - set known)"
      using fresh by auto
    have "?a \<notin> po_address ` set (pl_add r)" using "2.prems"(2) fresh by auto
    then have d: "distinct (map po_address (pl_add ?r))" using "2.prems"(1) by simp
    have u: "set (map po_address (pl_add ?r)) \<subseteq> set (?a # seen)" using "2.prems"(2) by auto
    have m: "\<forall>row \<in> set (pl_add ?r). po_reserved row \<longleftrightarrow> reserved (po_address row) \<noteq> None"
      using "2.prems"(3) by auto
    show ?thesis unfolding e s by (rule IH(5) [OF fresh d u m])
  qed
qed auto

lemma expanded_addresses:
  assumes "expandCidrAddresses c limit = Inr source"
  shows "normalizeIpv4 ` set source = {a. normalizeIpv4 a = a \<and> cidrContains c a} \<and> length source \<le> limit"
proof -
  from assms obtain r where r: "parseCidr c = Some r" and l: "ci_size r \<le> limit"
    and s: "source = map intToIpv4 [ci_network r..<Suc (ci_broadcast r)]"
    by (auto simp: expandCidrAddresses_def split: option.splits if_splits)
  from parseCidr_bounds [OF r] have b: "ci_broadcast r \<le> 4294967295" and n: "length source = ci_size r"
    by (simp_all add: s)
  have num: "normalizeIpv4 (intToIpv4 i) = intToIpv4 i \<and> ipv4ToInt (intToIpv4 i) = Some i" if "i \<le> ci_broadcast r" for i
    using that b by (simp add: intToIpv4_dotted normalizeIpv4_dotted quad_int_quad ipv4ToInt_dotted quad_value_int_quad)
  have "a \<in> set source" if a: "normalizeIpv4 a = a" "cidrContains c a" for a
  proof -
    from a(2) r obtain i where i: "ipv4ToInt a = Some i" "ci_network r \<le> i" "i \<le> ci_broadcast r"
      by (auto simp: cidrContains_def split: option.splits)
    then obtain ns where "quad ns" "a = dotted ns" "i = quad_value ns" using a(1) by (metis ipv4ToInt_cases)
    then have "intToIpv4 i = a" using i b by (simp add: intToIpv4_dotted int_quad_quad_value)
    moreover have "i \<in> set [ci_network r..<Suc (ci_broadcast r)]"
      using i by (simp only: set_upt atLeastLessThan_iff less_Suc_eq_le)
    ultimately show ?thesis unfolding s set_map by blast
  qed
  moreover have "normalizeIpv4 a = a \<and> cidrContains c a" if "a \<in> set source" for a
    using that num r by (auto simp: s cidrContains_def)
  ultimately show ?thesis using l n by (auto simp: image_iff)
qed

text \<open>C38: The plan of a pool import is exact: the rows to insert are distinct canonical addresses, none
  of them stored already, all inside the prefix when one is given; every listed address that
  qualifies is among them; with a prefix alone they are exactly the addresses of the prefix that are
  not stored, network and broadcast address included; and exactly the reserved ones are marked so.\<close>

theorem pool_plan_is_exact:
  assumes "planPoolAddresses c addresses reserved existing limit = Inr r"
  shows "distinct (map po_address (pl_add r))
    \<and> po_address ` set (pl_add r) =
       {a. a \<noteq> [] \<and> a \<notin> set (addressSet existing) \<and> (js_trim c = [] \<or> cidrContains c a)
           \<and> (if \<exists>x \<in> set addresses. js_trim x \<noteq> [] then \<exists>x \<in> set addresses. normalizeIpv4 x = a
               else normalizeIpv4 a = a)}
    \<and> (\<forall>row \<in> set (pl_add r). po_reserved row \<longleftrightarrow> reservedMap reserved (po_address row) \<noteq> None)"
proof -
  let ?explicit = "filter (\<lambda>a. js_trim a \<noteq> []) addresses"
  from assms obtain source where s: "(if ?explicit \<noteq> [] then Inr ?explicit
        else if js_trim c \<noteq> [] then expandCidrAddresses c limit
        else Inl ''Provide a CIDR or an explicit list of addresses'') = Inr source"
    and r: "r = plan_candidates c (reservedMap reserved) (addressSet existing) [] source
               \<lparr>pl_add = [], pl_duplicates = [], pl_invalid = [], pl_outOfRange = []\<rparr>"
    by (auto simp: planPoolAddresses_def Let_def bind_err_Inr_iff simp del: filter_empty_conv)
  have blank: "normalizeIpv4 x = []" if "js_trim x = []" for x
    using that by (simp add: normalizeIpv4_def Let_def)
  have q: "normalizeIpv4 x = a \<and> a \<noteq> [] \<Longrightarrow> js_trim x \<noteq> []" for x a using blank by auto
  have "{a \<in> normalizeIpv4 ` set source. candidate_ok c a} =
       {a. a \<noteq> [] \<and> (js_trim c = [] \<or> cidrContains c a)
           \<and> (if ?explicit \<noteq> [] then \<exists>x \<in> set addresses. normalizeIpv4 x = a else normalizeIpv4 a = a)}"
  proof (cases "?explicit = []")
    case True
    then have "js_trim c \<noteq> []" and "expandCidrAddresses c limit = Inr source" using s by (auto split: if_splits)
    with expanded_addresses [of c limit source] True show ?thesis by (auto simp: candidate_ok_def simp del: filter_empty_conv)
  next
    case False
    then have "source = ?explicit" using s by simp
    with False q show ?thesis by (force simp: candidate_ok_def simp del: filter_empty_conv)
  qed
  moreover have "?explicit \<noteq> [] \<longleftrightarrow> (\<exists>x \<in> set addresses. js_trim x \<noteq> [])" by (auto simp: filter_empty_conv)
  ultimately show ?thesis
    using plan_candidates_spec [of "\<lparr>pl_add = [], pl_duplicates = [], pl_invalid = [], pl_outOfRange = []\<rparr>"
        "[]" "reservedMap reserved" c "addressSet existing" source]
    unfolding r [symmetric] by auto
qed

theorem pool_plan_is_exact_witness:
  "\<exists>r. planPoolAddresses ''203.0.113.8/30'' [] [(''203.0.113.8'', ''gateway'')] [''203.0.113.10''] 1024 = Inr r
     \<and> map po_address (pl_add r) = [''203.0.113.8'', ''203.0.113.9'', ''203.0.113.11'']
     \<and> distinct (map po_address (pl_add r))"
proof -
  let ?r = "\<lparr>pl_add = [\<lparr>po_address = ''203.0.113.8'', po_reserved = True, po_reason = ''gateway''\<rparr>,
        \<lparr>po_address = ''203.0.113.9'', po_reserved = False, po_reason = []\<rparr>,
        \<lparr>po_address = ''203.0.113.11'', po_reserved = False, po_reason = []\<rparr>],
      pl_duplicates = [''203.0.113.10''], pl_invalid = [], pl_outOfRange = []\<rparr>"
  have p: "planPoolAddresses ''203.0.113.8/30'' [] [(''203.0.113.8'', ''gateway'')] [''203.0.113.10''] 1024 = Inr ?r"
    by code_simp
  from pool_plan_is_exact [OF p] p show ?thesis by simp
qed

end
