(* ===== verification/Workflow_Catalog.thy ===== *)
theory Workflow_Catalog
  imports Fortigate Ip_Address
begin

text \<open>
  \<open>workflows/catalog.ts\<close>: the actions a workflow step can name. For each action the request body,
  the calls a dry run announces (\<open>plan\<close>) and the execution against the client (\<open>execute\<close>), which
  reports its output, the calls made and the objects created. Parameters are the rendered JSON
  object of the step. The human summaries of calls and the descriptions of the catalog are left
  out.
\<close>

datatype artifact =
    Interface string
  | Address string string
  | Service string string
  | Policy json string
  | Static_route json string
  | Dhcp_server json
  | Vip string string
  | Switch_port_vlan string string string string
  | Switch_controller_vlan string string
  | Other_artifact string

record api_call =
  ac_method :: string
  ac_path :: string
  ac_scope :: string
  ac_body :: json

record step_result =
  sr_skipped :: bool
  sr_output :: json
  sr_artifacts :: "artifact list"
  sr_calls :: "api_call list"

abbreviation api :: "string \<Rightarrow> string \<Rightarrow> string \<Rightarrow> json \<Rightarrow> api_call" where
  "api m p s b \<equiv> \<lparr>ac_method = m, ac_path = p, ac_scope = s, ac_body = b\<rparr>"

definition done_with :: "json \<Rightarrow> artifact list \<Rightarrow> api_call list \<Rightarrow> 'w \<Rightarrow> (thrown + step_result) \<times> 'w" where
  "done_with out arts calls =
     return_call \<lparr>sr_skipped = False, sr_output = out, sr_artifacts = arts, sr_calls = calls\<rparr>"

definition skipped_with :: "json \<Rightarrow> artifact list \<Rightarrow> api_call list \<Rightarrow> 'w \<Rightarrow> (thrown + step_result) \<times> 'w" where
  "skipped_with out arts calls =
     return_call \<lparr>sr_skipped = True, sr_output = out, sr_artifacts = arts, sr_calls = calls\<rparr>"

section \<open>Reading parameters\<close>

abbreviation str :: "json \<Rightarrow> string \<Rightarrow> string" where
  "str p k \<equiv> to_str (js_get p k)"

definition str_or :: "json \<Rightarrow> string \<Rightarrow> string \<Rightarrow> string" where
  \<comment> \<open>\<open>p.k || 'default'\<close> as text\<close>
  "str_or p k d = to_str (or_else (js_get p k) (JStr d))"

definition vdom_of :: "json \<Rightarrow> string" where
  \<comment> \<open>\<open>p.vdom ? String(p.vdom) : null\<close>\<close>
  "vdom_of p = (if jtruthy (js_get p ''vdom'') then str p ''vdom'' else [])"

definition effVdom :: "'w client \<Rightarrow> json \<Rightarrow> string" where
  "effVdom cl p = (if vdom_of p \<noteq> [] then vdom_of p else cl_vdom cl)"

definition not_false :: "json \<Rightarrow> string \<Rightarrow> bool" where
  "not_false p k = (js_get p k \<noteq> JBool False)"

definition scopeOf :: "'w client \<Rightarrow> json \<Rightarrow> string" where
  "scopeOf cl vdom =
     (if vdom = JStr ''global'' then ''global''
      else let v = (if nullish vdom \<or> vdom = JStr [] then [] else to_str vdom)
           in if v \<noteq> [] then v else cl_vdom cl)"

definition asList :: "json \<Rightarrow> json list" where
  "asList v = (if nullish v \<or> v = JStr [] then [] else case v of JArr vs \<Rightarrow> vs | _ \<Rightarrow> [v])"

definition nameObjects :: "json \<Rightarrow> json" where
  "nameObjects v = JArr (map (\<lambda>n. JObj [(''name'', JStr (to_str n))]) (asList v))"

definition bit_count :: "nat \<Rightarrow> nat" where
  "bit_count n = length (filter (\<lambda>i. n div 2 ^ i mod 2 = 1) [0..<32])"

definition uint32 :: "json \<Rightarrow> nat" where
  \<comment> \<open>\<open>Number(v) >>> 0\<close>\<close>
  "uint32 v = (case to_num v of JNum n \<Rightarrow> nat (n mod 2 ^ 32) | _ \<Rightarrow> 0)"

definition sameIpv4Network :: "string \<Rightarrow> string option \<Rightarrow> string \<Rightarrow> string \<Rightarrow> bool" where
  "sameIpv4Network ip netmask expectedIp expectedNetmask =
     (case netmask of
        None \<Rightarrow> False
      | Some m \<Rightarrow>
          m \<noteq> [] \<and> m = expectedNetmask
          \<and> (let prefix = sum_list (map (\<lambda>o'. bit_count (uint32 (JStr o'))) (split_on (CHR ''.'') m))
             in ipv4InCidr ip (expectedIp @ ''/'' @ show_nat prefix)))"

section \<open>Bodies\<close>

definition buildPolicyBody :: "json \<Rightarrow> json" where
  "buildPolicyBody p =
     JObj ([(''name'', JStr (str_or p ''name'' [])),
            (''srcintf'', nameObjects (js_get p ''srcintf'')),
            (''dstintf'', nameObjects (js_get p ''dstintf'')),
            (''srcaddr'', nameObjects (js_get p ''srcaddr'')),
            (''dstaddr'', nameObjects (js_get p ''dstaddr'')),
            (''action'', or_else (js_get p ''action'') (JStr ''accept'')),
            (''schedule'', or_else (js_get p ''schedule'') (JStr ''always'')),
            (''service'', nameObjects (js_get p ''service'')),
            (''logtraffic'', or_else (js_get p ''logtraffic'') (JStr ''all''))]
       @ (if js_get p ''globalLabel'' \<notin> {JUndef, JStr []} then [(''global-label'', JStr (str p ''globalLabel''))] else [])
       @ (if js_get p ''comments'' \<notin> {JUndef, JStr []} then [(''comments'', JStr (str p ''comments''))] else []))"

definition interface_body :: "'w client \<Rightarrow> json \<Rightarrow> json" where
  "interface_body cl p =
     JObj ([(''name'', JStr (str p ''name'')),
            (''vdom'', JStr (if cl_vdom cl \<noteq> [] then cl_vdom cl else str_or p ''vdom'' ''root'')),
            (''type'', JStr ''vlan''),
            (''vlanid'', to_num (js_get p ''vlanId'')),
            (''interface'', JStr (str p ''parentInterface'')),
            (''ip'', JStr (str p ''ip'' @ '' '' @ str p ''netmask'')),
            (''allowaccess'', or_else (js_get p ''allowaccess'') (JStr ''ping'')),
            (''role'', or_else (js_get p ''role'') (JStr ''undefined''))]
       @ (if jtruthy (js_get p ''description'') then [(''description'', JStr (str p ''description''))] else []))"

definition address_body :: "json \<Rightarrow> json" where
  "address_body p =
     JObj ([(''name'', JStr (str p ''name'')), (''type'', or_else (js_get p ''type'') (JStr ''ipmask'')),
            (''subnet'', JStr (str p ''subnet''))]
       @ (if jtruthy (js_get p ''comment'') then [(''comment'', JStr (str p ''comment''))] else []))"

definition service_body :: "json \<Rightarrow> json" where
  "service_body p =
     JObj ([(''name'', JStr (str p ''name''))]
       @ (if jtruthy (js_get p ''comment'') then [(''comment'', JStr (str p ''comment''))] else [])
       @ [(if js_lower (str_or p ''protocol'' ''tcp'') = ''udp'' then ''udp-portrange'' else ''tcp-portrange'',
           JStr (str p ''port''))])"

definition dhcp_body :: "json \<Rightarrow> json" where
  "dhcp_body p =
     JObj ([(''default-gateway'', JStr (str p ''gateway'')), (''netmask'', JStr (str p ''netmask'')),
            (''interface'', JStr (str p ''interface'')),
            (''ip-range'', JArr [JObj [(''start-ip'', JStr (str p ''startIp'')), (''end-ip'', JStr (str p ''endIp''))]]),
            (''lease-time'', JNum 86400), (''dns-service'', JStr ''specify'')]
       @ (if jtruthy (js_get p ''dns1'') then [(''dns-server1'', JStr (str p ''dns1''))] else [])
       @ (if jtruthy (js_get p ''dns2'') then [(''dns-server2'', JStr (str p ''dns2''))] else []))"

definition vip_body :: "json \<Rightarrow> json" where
  "vip_body p =
     JObj ([(''name'', JStr (str p ''name'')), (''extip'', JStr (str p ''extip'')),
            (''mappedip'', JArr [JObj [(''range'', JStr (str p ''mappedip''))]]),
            (''extintf'', or_else (js_get p ''extintf'') (JStr ''any'')),
            (''portforward'', JStr ''enable''), (''extport'', JStr (str p ''extport'')),
            (''mappedport'', JStr (str p ''mappedport''))]
       @ (if js_lower (str_or p ''protocol'' ''tcp'') = ''udp'' then [(''protocol'', JStr ''udp'')] else []))"

definition route_body :: "json \<Rightarrow> json" where
  "route_body p =
     JObj [(''dst'', JStr (str p ''dst'' @ '' '' @ str p ''netmask'')), (''gateway'', JStr (str p ''gateway'')),
           (''device'', JStr (str p ''device''))]"

section \<open>Creating objects\<close>

definition words_ws :: "string \<Rightarrow> string list" where
  \<comment> \<open>\<open>s.trim().split(/\s+/)\<close>\<close>
  "words_ws s = (let ws = filter (\<lambda>w. w \<noteq> []) (split_on (CHR '' '') (map (\<lambda>c. if is_ws c then CHR '' '' else c) s))
                 in if ws = [] then [[]] else ws)"

definition interface_mismatch :: "'w client \<Rightarrow> json \<Rightarrow> json \<Rightarrow> string \<Rightarrow> string option \<Rightarrow> string list" where
  "interface_mismatch cl p existing ip netmask =
     concat [
       (if same_number (js_get existing ''vlanid'') (js_get p ''vlanId'') then []
        else [''VLAN ID '' @ to_str (coalesce (js_get existing ''vlanid'') (JStr ''none''))]),
       (if to_str (coalesce (js_get existing ''interface'') (JStr [])) = str p ''parentInterface'' then []
        else [''parent interface '' @ str_or existing ''interface'' ''none'']),
       (if JStr (to_str (coalesce (js_get existing ''vdom'') (JStr []))) = js_get (interface_body cl p) ''vdom'' then []
        else [''VDOM '' @ str_or existing ''vdom'' ''none'']),
       (if sameIpv4Network ip netmask (str p ''ip'') (str p ''netmask'') then []
        else [''address '' @ str_or existing ''ip'' ''none''])]"

definition adopt_interface :: "'w client \<Rightarrow> json \<Rightarrow> json \<Rightarrow> 'w \<Rightarrow> (thrown + step_result) \<times> 'w" where
  "adopt_interface cl p existing =
     (let name = str p ''name'';
          parts = words_ws (str_or existing ''ip'' []);
          ip = hd parts;
          netmask = (case parts of _ # m # _ \<Rightarrow> Some m | _ \<Rightarrow> None);
          mismatch = interface_mismatch cl p existing ip netmask
      in if mismatch \<noteq> []
         then throw_call (http_thrown 409 (''Interface '' @ name @ '' already exists but does not match this VLAN ('' @
                join_with '', '' mismatch @ ''); an admin must remove or reconfigure it on the firewall before syncing''))
         else skipped_with
                (JObj [(''interfaceName'', JStr name), (''vlanId'', to_num (js_get p ''vlanId'')), (''ip'', JStr ip),
                       (''netmask'', case netmask of Some m \<Rightarrow> JStr m | None \<Rightarrow> JUndef)])
                [] [api ''GET'' (''cmdb/system/interface/'' @ name) (cl_vdom cl) JUndef])"

definition create_interface :: "'w client \<Rightarrow> json \<Rightarrow> 'w \<Rightarrow> (thrown + step_result) \<times> 'w" where
  "create_interface cl p =
     bind_call (request cl ''POST'' ''cmdb/system/interface'' (interface_body cl p) ''global'') (\<lambda>_.
       done_with
         (JObj [(''interfaceName'', JStr (str p ''name'')), (''vlanId'', to_num (js_get p ''vlanId'')),
                (''ip'', JStr (str p ''ip'')), (''netmask'', JStr (str p ''netmask''))])
         [Interface (str p ''name'')]
         [api ''POST'' ''cmdb/system/interface'' ''global'' (interface_body cl p)])"

definition create_vlan_interface :: "'w client \<Rightarrow> json \<Rightarrow> 'w \<Rightarrow> (thrown + step_result) \<times> 'w" where
  "create_vlan_interface cl p =
     (if not_false p ''skipIfExists'' then
        bind_call (getInterface cl (str p ''name'')) (\<lambda>existing.
          if jtruthy existing then adopt_interface cl p existing else create_interface cl p)
      else create_interface cl p)"

text \<open>The named objects share one shape: an existence check that skips, then the creation.\<close>

definition skip_or ::
  "bool \<Rightarrow> ('w \<Rightarrow> (thrown + json) \<times> 'w) \<Rightarrow> (json \<Rightarrow> step_result) \<Rightarrow> ('w \<Rightarrow> (thrown + step_result) \<times> 'w)
    \<Rightarrow> 'w \<Rightarrow> (thrown + step_result) \<times> 'w" where
  "skip_or check look found create =
     (if check then bind_call look (\<lambda>existing. if jtruthy existing then return_call (found existing) else create)
      else create)"

definition skipped_named :: "string \<Rightarrow> string \<Rightarrow> string \<Rightarrow> json \<Rightarrow> step_result" where
  "skipped_named path scope name existing =
     \<lparr>sr_skipped = True, sr_output = JObj [(''name'', JStr name)], sr_artifacts = [],
      sr_calls = [api ''GET'' (path @ name) scope JUndef]\<rparr>"

definition create_address_object :: "'w client \<Rightarrow> json \<Rightarrow> 'w \<Rightarrow> (thrown + step_result) \<times> 'w" where
  "create_address_object cl p =
     (let name = str p ''name''; vdom = vdom_of p; eff = effVdom cl p in
      skip_or (not_false p ''skipIfExists'') (getAddressObject cl name vdom)
        (skipped_named ''cmdb/firewall/address/'' eff name)
        (bind_call
           (if jtruthy (js_get p ''comment'')
                \<or> jtruthy (js_get p ''type'') \<and> js_get p ''type'' \<noteq> JStr ''ipmask''
            then createAddressObject cl (address_body p) [] vdom
            else createAddressObject cl (JStr name) (str p ''subnet'') vdom)
           (\<lambda>_. done_with (JObj [(''name'', JStr name)]) [Address name eff]
                  [api ''POST'' ''cmdb/firewall/address'' eff (address_body p)])))"

definition create_service_object :: "'w client \<Rightarrow> json \<Rightarrow> 'w \<Rightarrow> (thrown + step_result) \<times> 'w" where
  "create_service_object cl p =
     (let name = str p ''name''; vdom = vdom_of p; eff = effVdom cl p in
      skip_or (not_false p ''skipIfExists'') (getServiceObject cl name vdom)
        (skipped_named ''cmdb/firewall.service/custom/'' eff name)
        (bind_call (createServiceObject cl (service_body p) vdom)
           (\<lambda>_. done_with (JObj [(''name'', JStr name)]) [Service name eff]
                  [api ''POST'' ''cmdb/firewall.service/custom'' eff (service_body p)])))"

definition mkey_of :: "json \<Rightarrow> json" where
  \<comment> \<open>\<open>res?.mkey ?? null\<close>\<close>
  "mkey_of res = coalesce (js_get res ''mkey'') JNull"

definition move_after_sibling ::
  "'w client \<Rightarrow> json \<Rightarrow> json \<Rightarrow> json \<Rightarrow> 'w \<Rightarrow> api_call list \<times> 'w" where
  "move_after_sibling cl p body policyId w =
     (let vdom = vdom_of p;
          same = (\<lambda>pol. or_else (js_get pol ''global-label'') (JStr []) = js_get body ''global-label''
                        \<and> str pol ''policyid'' \<noteq> to_str policyId)
      in case getPolicies cl vdom w of
           (Inl _, w1) \<Rightarrow> ([], w1)
         | (Inr allp, w1) \<Rightarrow>
             (case find same (elements allp) of
                None \<Rightarrow> ([], w1)
              | Some sibling \<Rightarrow>
                  (case movePolicy cl policyId ''after'' (js_get sibling ''policyid'') vdom w1 of
                     (Inl _, w2) \<Rightarrow> ([], w2)
                   | (Inr _, w2) \<Rightarrow>
                       ([api ''PUT'' (''cmdb/firewall/policy/'' @ to_str policyId @ ''?action=move&after='' @ str sibling ''policyid'')
                           (effVdom cl p) JUndef], w2))))"

definition create_new_policy :: "'w client \<Rightarrow> json \<Rightarrow> 'w \<Rightarrow> (thrown + step_result) \<times> 'w" where
  "create_new_policy cl p =
     (let body = buildPolicyBody p; eff = effVdom cl p in
      bind_call (createPolicy cl body (vdom_of p)) (\<lambda>res w.
        let policyId = mkey_of res;
            (moved, w1) = (if jtruthy (js_get p ''moveAfterSameLabel'') \<and> \<not> nullish policyId
                              \<and> jtruthy (js_get body ''global-label'')
                           then move_after_sibling cl p body policyId w else ([], w))
        in done_with (JObj [(''policyId'', policyId)])
             (if nullish policyId then [] else [Policy policyId eff])
             (api ''POST'' ''cmdb/firewall/policy'' eff body # moved) w1))"

definition has_srcintf :: "string \<Rightarrow> json \<Rightarrow> bool" where
  "has_srcintf iface pol =
     list_ex (\<lambda>i. js_get i ''name'' = JStr iface) (elements (or_else (js_get pol ''srcintf'') (JArr [])))"

definition create_policy :: "'w client \<Rightarrow> json \<Rightarrow> 'w \<Rightarrow> (thrown + step_result) \<times> 'w" where
  "create_policy cl p =
     (if jtruthy (js_get p ''dedupeBySrcintf'') then
        bind_call (getPolicies cl (vdom_of p)) (\<lambda>allp.
          case find (has_srcintf (str p ''dedupeBySrcintf'')) (elements allp) of
            Some dup \<Rightarrow> skipped_with (JObj [(''policyId'', js_get dup ''policyid'')]) []
                          [api ''GET'' ''cmdb/firewall/policy'' (effVdom cl p) JUndef]
          | None \<Rightarrow> create_new_policy cl p)
      else create_new_policy cl p)"

definition create_new_route :: "'w client \<Rightarrow> json \<Rightarrow> 'w \<Rightarrow> (thrown + step_result) \<times> 'w" where
  "create_new_route cl p =
     bind_call (createStaticRoute cl (str p ''dst'') (str p ''netmask'') (str p ''gateway'') (str p ''device'') (vdom_of p)) (\<lambda>res.
       let routeId = mkey_of res; eff = effVdom cl p
       in done_with (JObj [(''routeId'', routeId)])
            (if nullish routeId then [] else [Static_route routeId eff])
            [api ''POST'' ''cmdb/router/static'' eff (route_body p)])"

definition create_static_route :: "'w client \<Rightarrow> json \<Rightarrow> 'w \<Rightarrow> (thrown + step_result) \<times> 'w" where
  "create_static_route cl p =
     (if not_false p ''dedupeByDst'' then
        bind_call (getStaticRoutes cl (vdom_of p)) (\<lambda>routes.
          case find (\<lambda>r. js_get r ''dst'' = JStr (str p ''dst'' @ '' '' @ str p ''netmask'')) (elements routes) of
            Some existing \<Rightarrow>
              skipped_with (JObj [(''routeId'', or_else (js_get existing ''seq-num'') (js_get existing ''seq_num''))]) []
                [api ''GET'' ''cmdb/router/static'' (effVdom cl p) JUndef]
          | None \<Rightarrow> create_new_route cl p)
      else create_new_route cl p)"

definition create_new_dhcp :: "'w client \<Rightarrow> json \<Rightarrow> 'w \<Rightarrow> (thrown + step_result) \<times> 'w" where
  "create_new_dhcp cl p =
     bind_call (createDhcpServer cl (str p ''interface'') (str p ''gateway'') (str p ''netmask'') (str p ''startIp'') (str p ''endIp'')
                  (or_else (js_get p ''dns1'') (JStr []), or_else (js_get p ''dns2'') (JStr []))) (\<lambda>res.
       let dhcpServerId = mkey_of res
       in done_with (JObj [(''dhcpServerId'', dhcpServerId)])
            (if nullish dhcpServerId then [] else [Dhcp_server dhcpServerId])
            [api ''POST'' ''cmdb/system.dhcp/server'' (cl_vdom cl) (dhcp_body p)])"

definition create_dhcp_server :: "'w client \<Rightarrow> json \<Rightarrow> 'w \<Rightarrow> (thrown + step_result) \<times> 'w" where
  "create_dhcp_server cl p =
     (if not_false p ''dedupeByInterface'' then
        bind_call (getDhcpServers cl) (\<lambda>servers.
          case find (\<lambda>d. js_get d ''interface'' = JStr (str p ''interface'')) (elements servers) of
            Some existing \<Rightarrow> skipped_with (JObj [(''dhcpServerId'', js_get existing ''id'')]) []
                               [api ''GET'' ''cmdb/system.dhcp/server'' (cl_vdom cl) JUndef]
          | None \<Rightarrow> create_new_dhcp cl p)
      else create_new_dhcp cl p)"

definition create_vip :: "'w client \<Rightarrow> json \<Rightarrow> 'w \<Rightarrow> (thrown + step_result) \<times> 'w" where
  "create_vip cl p =
     bind_call (createVip cl (vip_body p) (vdom_of p)) (\<lambda>_.
       done_with (JObj [(''name'', JStr (str p ''name''))]) [Vip (str p ''name'') (effVdom cl p)]
         [api ''POST'' ''cmdb/firewall/vip'' (effVdom cl p) (vip_body p)])"

section \<open>Switches, raw calls and teardown\<close>

definition assign_switch_port :: "'w client \<Rightarrow> json \<Rightarrow> 'w \<Rightarrow> (thrown + step_result) \<times> 'w" where
  "assign_switch_port cl p =
     bind_call (updateManagedSwitchPort cl (str p ''serial'') (str p ''port'') (str p ''vlanName'') (not_false p ''trunk'') (vdom_of p)) (\<lambda>_.
       done_with (JObj [])
         [Switch_port_vlan (str p ''serial'') (str p ''port'') (str p ''vlanName'') (effVdom cl p)]
         [api ''PUT'' (''cmdb/switch-controller/managed-switch/'' @ str p ''serial'') (effVdom cl p) JUndef])"

definition root_vdom_of :: "json \<Rightarrow> string" where
  "root_vdom_of p = (if jtruthy (js_get p ''vdom'') then str p ''vdom'' else ''root'')"

definition register_switch_controller_vlan :: "'w client \<Rightarrow> json \<Rightarrow> 'w \<Rightarrow> (thrown + step_result) \<times> 'w" where
  "register_switch_controller_vlan cl p =
     (let vdom = root_vdom_of p; name = str p ''name'';
          res = (\<lambda>skip. return_call \<lparr>sr_skipped = skip, sr_output = JObj [],
                   sr_artifacts = [Switch_controller_vlan name vdom],
                   sr_calls = [api ''POST'' ''cmdb/switch-controller/vlan'' vdom JUndef]\<rparr>)
      in catch_call
           (bind_call (createSwitchControllerVlan cl name (to_num (js_get p ''vlanId''))
                         (if jtruthy (js_get p ''description'') then str p ''description'' else []) vdom)
              (\<lambda>_. res False))
           (\<lambda>e. if sublist ''-15'' (th_message e) \<or> sublist ''duplicate'' (th_message e) then res True
                else throw_call e))"

definition MAX_CUSTOM_BODY_BYTES :: nat where
  "MAX_CUSTOM_BODY_BYTES = 16384"

definition escape_char :: "char \<Rightarrow> string" where
  "escape_char c =
     (let n = of_char c :: nat in
      if n = 34 then [char_of (92::nat), c] else if n = 92 then [c, c]
      else if n = 8 then [char_of (92::nat), CHR ''b''] else if n = 9 then [char_of (92::nat), CHR ''t'']
      else if n = 10 then [char_of (92::nat), CHR ''n''] else if n = 12 then [char_of (92::nat), CHR ''f'']
      else if n = 13 then [char_of (92::nat), CHR ''r'']
      else if n < 32 then char_of (92::nat) # ''u00'' @ tl (percent n) else [c])"

definition quoted :: "string \<Rightarrow> string" where
  "quoted s = ''\"'' @ concat (map escape_char s) @ ''\"''"

fun stringify :: "json \<Rightarrow> string" where
  "stringify (JStr s) = quoted s"
| "stringify (JArr vs) = ''['' @ join_with '','' (map (\<lambda>v. if v = JUndef then ''null'' else stringify v) vs) @ '']''"
| "stringify (JObj kvs) =
     ''{'' @ join_with '','' (map (\<lambda>kv. quoted (fst kv) @ '':'' @ stringify (snd kv)) (filter (\<lambda>kv. snd kv \<noteq> JUndef) kvs)) @ ''}''"
| "stringify JNaN = ''null''"
| "stringify v = to_str v"

definition byteLength :: "string \<Rightarrow> nat" where
  "byteLength s = sum_list (map (\<lambda>c. if (of_char c :: nat) < 128 then 1 else 2) s)"

definition validate_custom :: "json \<Rightarrow> thrown option" where
  "validate_custom p =
     (let body = js_get p ''body'' in
      if \<not> starts_with ''/api/v2/'' (str_or p ''path'' []) then Some (plain_error ''custom_api_call path must start with /api/v2/'')
      else if \<not> nullish body \<and> body \<noteq> JStr []
              \<and> byteLength (case body of JStr s \<Rightarrow> s | _ \<Rightarrow> stringify body) > MAX_CUSTOM_BODY_BYTES
      then Some (plain_error (''custom_api_call body exceeds '' @ show_nat MAX_CUSTOM_BODY_BYTES @ '' bytes''))
      else None)"

definition custom_body :: "'w client \<Rightarrow> json \<Rightarrow> json" where
  "custom_body cl p =
     (let body = js_get p ''body'' in
      if nullish body \<or> body = JStr [] then JNull
      else case body of JStr s \<Rightarrow> (case cl_parse cl s of Some v \<Rightarrow> v | None \<Rightarrow> body) | _ \<Rightarrow> body)"

definition relPath :: "string \<Rightarrow> string" where
  "relPath path = (if starts_with ''/api/v2/'' path then drop 8 path else path)"

definition custom_api_call :: "'w client \<Rightarrow> json \<Rightarrow> 'w \<Rightarrow> (thrown + step_result) \<times> 'w" where
  "custom_api_call cl p =
     (case validate_custom p of
        Some e \<Rightarrow> throw_call e
      | None \<Rightarrow>
          bind_call (request cl (str_or p ''method'' ''POST'') (relPath (str p ''path'')) (custom_body cl p) (vdom_of p)) (\<lambda>_.
            done_with (JObj []) []
              [api (str_or p ''method'' ''POST'') (relPath (str p ''path'')) (effVdom cl p) (custom_body cl p)]))"

definition deleteArtifact :: "'w client \<Rightarrow> artifact \<Rightarrow> 'w \<Rightarrow> (thrown + json) \<times> 'w" where
  "deleteArtifact cl a =
     (case a of
        Interface name \<Rightarrow> deleteInterface cl name
      | Address name vdom \<Rightarrow> deleteAddressObject cl name vdom
      | Service name vdom \<Rightarrow> deleteServiceObject cl name vdom
      | Policy i vdom \<Rightarrow> deletePolicy cl i vdom
      | Static_route i vdom \<Rightarrow> deleteStaticRoute cl i vdom
      | Dhcp_server i \<Rightarrow> deleteDhcpServer cl i
      | Vip name vdom \<Rightarrow> deleteVip cl name vdom
      | Switch_port_vlan serial port vlanName vdom \<Rightarrow> removeManagedSwitchPortVlan cl serial port vlanName vdom
      | Switch_controller_vlan name vdom \<Rightarrow> deleteSwitchControllerVlan cl name vdom
      | Other_artifact t \<Rightarrow> throw_call (plain_error (''No teardown handler for artifact type \"'' @ t @ ''\"'')))"

definition teardownPath :: "artifact \<Rightarrow> string" where
  "teardownPath a =
     (case a of
        Interface name \<Rightarrow> ''cmdb/system/interface/'' @ name
      | Address name _ \<Rightarrow> ''cmdb/firewall/address/'' @ name
      | Service name _ \<Rightarrow> ''cmdb/firewall.service/custom/'' @ name
      | Policy i _ \<Rightarrow> ''cmdb/firewall/policy/'' @ to_str i
      | Static_route i _ \<Rightarrow> ''cmdb/router/static/'' @ to_str i
      | Dhcp_server i \<Rightarrow> ''cmdb/system.dhcp/server/'' @ to_str i
      | Vip name _ \<Rightarrow> ''cmdb/firewall/vip/'' @ name
      | Switch_port_vlan serial _ _ _ \<Rightarrow> ''cmdb/switch-controller/managed-switch/'' @ serial
      | Switch_controller_vlan name _ \<Rightarrow> ''cmdb/switch-controller/vlan/'' @ name
      | Other_artifact t \<Rightarrow> ''('' @ t @ '')'')"

definition artifact_vdom :: "artifact \<Rightarrow> string" where
  "artifact_vdom a =
     (case a of Address _ v \<Rightarrow> v | Service _ v \<Rightarrow> v | Policy _ v \<Rightarrow> v | Static_route _ v \<Rightarrow> v | Vip _ v \<Rightarrow> v
      | Switch_port_vlan _ _ _ v \<Rightarrow> v | Switch_controller_vlan _ v \<Rightarrow> v | _ \<Rightarrow> [])"

definition describeArtifact :: "artifact \<Rightarrow> string" where
  "describeArtifact a =
     (let suffix = (\<lambda>v. if v \<noteq> [] then '' ('' @ v @ '')'' else []) in
      case a of
        Interface name \<Rightarrow> ''interface '' @ name
      | Address name v \<Rightarrow> ''address '' @ name @ suffix v
      | Service name v \<Rightarrow> ''service '' @ name @ suffix v
      | Policy i v \<Rightarrow> ''policy '' @ to_str i @ suffix v
      | Static_route i v \<Rightarrow> ''route '' @ to_str i @ suffix v
      | Dhcp_server i \<Rightarrow> ''dhcp server '' @ to_str i
      | Vip name v \<Rightarrow> ''vip '' @ name @ suffix v
      | Switch_port_vlan serial port vlanName _ \<Rightarrow> ''switch '' @ serial @ ''/'' @ port @ '' vlan '' @ vlanName
      | Switch_controller_vlan name _ \<Rightarrow> ''switch-controller vlan '' @ name
      | Other_artifact t \<Rightarrow> t)"

text \<open>The recorded artifacts of an earlier run reach the teardown action through the context.\<close>

definition artifact_of_json :: "json \<Rightarrow> artifact" where
  "artifact_of_json a =
     (let t = str a ''type''; name = str a ''name''; v = str_or a ''vdom'' []; i = js_get a ''id'' in
      if t = ''interface'' then Interface name
      else if t = ''address'' then Address name v
      else if t = ''service'' then Service name v
      else if t = ''policy'' then Policy i v
      else if t = ''static_route'' then Static_route i v
      else if t = ''dhcp_server'' then Dhcp_server i
      else if t = ''vip'' then Vip name v
      else if t = ''switch_port_vlan'' then Switch_port_vlan (str a ''serial'') (str a ''port'') (str a ''vlanName'') v
      else if t = ''switch_controller_vlan'' then Switch_controller_vlan name v
      else Other_artifact t)"

definition context_artifacts :: "json \<Rightarrow> artifact list" where
  "context_artifacts ctx = map artifact_of_json (elements (or_else (js_get ctx ''artifacts'') (JArr [])))"

definition teardown_recorded_artifacts :: "'w client \<Rightarrow> json \<Rightarrow> 'w \<Rightarrow> (thrown + step_result) \<times> 'w" where
  "teardown_recorded_artifacts cl ctx w =
     (let arts = rev (context_artifacts ctx);
          w' = fold (\<lambda>a w. snd (deleteArtifact cl a w)) arts w
      in done_with (JObj []) []
           (map (\<lambda>a. api ''DELETE'' (teardownPath a) (if artifact_vdom a \<noteq> [] then artifact_vdom a else cl_vdom cl) JUndef) arts) w')"

section \<open>The catalog\<close>

definition ACTIONS :: "'w client \<Rightarrow> (string \<times> (json \<Rightarrow> json \<Rightarrow> 'w \<Rightarrow> (thrown + step_result) \<times> 'w)) list" where
  "ACTIONS cl =
    [(''create_vlan_interface'', \<lambda>p _. create_vlan_interface cl p),
     (''create_address_object'', \<lambda>p _. create_address_object cl p),
     (''create_service_object'', \<lambda>p _. create_service_object cl p),
     (''create_policy'', \<lambda>p _. create_policy cl p),
     (''create_static_route'', \<lambda>p _. create_static_route cl p),
     (''create_dhcp_server'', \<lambda>p _. create_dhcp_server cl p),
     (''create_vip'', \<lambda>p _. create_vip cl p),
     (''assign_switch_port'', \<lambda>p _. assign_switch_port cl p),
     (''register_switch_controller_vlan'', \<lambda>p _. register_switch_controller_vlan cl p),
     (''custom_api_call'', \<lambda>p _. custom_api_call cl p),
     (''teardown_recorded_artifacts'', \<lambda>_ ctx. teardown_recorded_artifacts cl ctx)]"

definition required_params :: "(string \<times> string list) list" where
  "required_params =
    [(''create_vlan_interface'', [''name'', ''vlanId'', ''parentInterface'', ''ip'', ''netmask'']),
     (''create_address_object'', [''name'', ''subnet'']),
     (''create_service_object'', [''name'', ''protocol'', ''port'']),
     (''create_policy'', [''name'', ''srcintf'', ''dstintf'', ''srcaddr'', ''dstaddr'']),
     (''create_static_route'', [''dst'', ''netmask'', ''gateway'', ''device'']),
     (''create_dhcp_server'', [''interface'', ''gateway'', ''netmask'', ''startIp'', ''endIp'']),
     (''create_vip'', [''name'', ''extip'', ''mappedip'', ''extport'', ''mappedport'']),
     (''assign_switch_port'', [''serial'', ''port'', ''vlanName'']),
     (''register_switch_controller_vlan'', [''name'', ''vlanId'']),
     (''custom_api_call'', [''method'', ''path'']),
     (''teardown_recorded_artifacts'', [])]"

definition param_missing :: "json \<Rightarrow> bool" where
  "param_missing v = (nullish v \<or> v = JStr [] \<or> v = JArr [])"

definition validateStep :: "string \<Rightarrow> json \<Rightarrow> thrown + bool" where
  "validateStep action rawParams =
     (case map_of required_params action of
        None \<Rightarrow> Inl (plain_error (''Unknown workflow action: '' @ action))
      | Some names \<Rightarrow>
          let params = or_else rawParams (JObj []) in
          (case find (\<lambda>n. param_missing (js_get params n)) names of
             Some n \<Rightarrow> Inl (plain_error (''Action \"'' @ action @ ''\" is missing required param \"'' @ n @ ''\"''))
           | None \<Rightarrow>
               if action = ''custom_api_call'' then
                 (case validate_custom params of Some e \<Rightarrow> Inl e | None \<Rightarrow> Inr True)
               else Inr True))"

text \<open>The calls of a dry run\<close>

definition plan_action :: "'w client \<Rightarrow> string \<Rightarrow> json \<Rightarrow> json \<Rightarrow> api_call list" where
  "plan_action cl action p ctx =
     (let scope = scopeOf cl (js_get p ''vdom'') in
      if action = ''create_vlan_interface'' then [api ''POST'' ''cmdb/system/interface'' ''global'' (interface_body cl p)]
      else if action = ''create_address_object'' then [api ''POST'' ''cmdb/firewall/address'' scope (address_body p)]
      else if action = ''create_service_object'' then [api ''POST'' ''cmdb/firewall.service/custom'' scope (service_body p)]
      else if action = ''create_policy'' then [api ''POST'' ''cmdb/firewall/policy'' scope (buildPolicyBody p)]
      else if action = ''create_static_route'' then [api ''POST'' ''cmdb/router/static'' scope (route_body p)]
      else if action = ''create_dhcp_server'' then [api ''POST'' ''cmdb/system.dhcp/server'' (cl_vdom cl) (dhcp_body p)]
      else if action = ''create_vip'' then [api ''POST'' ''cmdb/firewall/vip'' scope (vip_body p)]
      else if action = ''assign_switch_port''
      then [api ''PUT'' (''cmdb/switch-controller/managed-switch/'' @ str p ''serial'') scope JUndef]
      else if action = ''register_switch_controller_vlan''
      then [api ''POST'' ''cmdb/switch-controller/vlan'' (root_vdom_of p)
              (JObj ([(''name'', JStr (str p ''name'')), (''vdom'', JStr (root_vdom_of p)), (''vlan-id'', to_num (js_get p ''vlanId''))]
                   @ (if jtruthy (js_get p ''description'') then [(''description'', JStr (str p ''description''))] else [])))]
      else if action = ''custom_api_call''
      then [api (str_or p ''method'' ''POST'') (relPath (str_or p ''path'' [])) scope (custom_body cl p)]
      else if action = ''teardown_recorded_artifacts'' then
        (if context_artifacts ctx = [] then [api ''DELETE'' ''(recorded artifacts)'' ''(firewall)'' JUndef]
         else map (\<lambda>a. api ''DELETE'' (teardownPath a) (if artifact_vdom a \<noteq> [] then artifact_vdom a else ''(firewall vdom)'') JUndef)
                (rev (context_artifacts ctx)))
      else [])"

end
