(* ===== verification/Workflow_Engine.thy ===== *)
theory Workflow_Engine
  imports Workflow_Catalog
begin

text \<open>
  \<open>workflows/engine.ts\<close>: a workflow run executes its enabled steps in order, records what each
  created, and on a failure that is not ignored deletes it all again; \<open>teardownArtifacts\<close> does the
  same for a recorded run, and \<open>previewWorkflow\<close> renders the calls without making them. Time
  stamps and labels of log entries are left out. A run starts from the client's state \<open>'w\<close>.
\<close>

record wf_step =
  st_position :: int
  st_action :: string
  st_key :: string
  st_params :: json
  st_condition :: json
  st_enabled :: bool
  st_continue :: bool

record log_entry =
  le_stepKey :: string
  le_action :: string
  le_status :: string
  le_error :: string
  le_calls :: "api_call list"
  le_artifacts :: "string list"
  le_reverted :: "(string \<times> string option) list"

record run_state =
  ru_log :: "log_entry list"
  ru_artifacts :: "artifact list"
  ru_outputs :: "(string \<times> json) list"

definition stepKey :: "wf_step \<Rightarrow> string" where
  "stepKey s = (if st_key s \<noteq> [] then st_key s else ''step'' @ show_int (st_position s))"

definition entry :: "wf_step \<Rightarrow> string \<Rightarrow> string \<Rightarrow> log_entry" where
  "entry s status err =
     \<lparr>le_stepKey = stepKey s, le_action = st_action s, le_status = status, le_error = err,
      le_calls = [], le_artifacts = [], le_reverted = []\<rparr>"

definition runContext :: "json \<Rightarrow> (string \<times> json) list \<Rightarrow> json" where
  "runContext context outputs = js_put ''steps'' (JObj outputs) context"

definition is_switch_vlan :: "artifact \<Rightarrow> bool" where
  "is_switch_vlan a = (case a of Switch_controller_vlan _ _ \<Rightarrow> True | _ \<Rightarrow> False)"

definition teardownOrder :: "artifact list \<Rightarrow> artifact list" where
  "teardownOrder artifacts =
     (let reversed = rev artifacts
      in filter (\<lambda>a. \<not> is_switch_vlan a) reversed @ filter is_switch_vlan reversed)"

fun delete_all :: "'w client \<Rightarrow> artifact list \<Rightarrow> 'w \<Rightarrow> (artifact \<times> thrown option) list \<times> 'w" where
  "delete_all cl [] w = ([], w)"
| "delete_all cl (a # as) w =
     (let (r, w1) = deleteArtifact cl a w;
          (rs, w2) = delete_all cl as w1
      in ((a, case r of Inl e \<Rightarrow> Some e | Inr _ \<Rightarrow> None) # rs, w2))"

definition rollback :: "'w client \<Rightarrow> artifact list \<Rightarrow> log_entry list \<Rightarrow> 'w \<Rightarrow> log_entry list \<times> 'w" where
  "rollback cl artifacts log w =
     (if artifacts = [] then (log, w)
      else let (rs, w') = delete_all cl (teardownOrder artifacts) w
           in (log @ [\<lparr>le_stepKey = [], le_action = ''(rollback)'', le_status = ''rolled_back'', le_error = [],
                 le_calls = [], le_artifacts = [],
                 le_reverted = map (\<lambda>(a, e). (describeArtifact a, map_option th_message e)) rs\<rparr>], w'))"

text \<open>The error a failed run throws, with the run attached\<close>

record run_error =
  re_error :: thrown
  re_log :: "log_entry list"

definition wrapped :: "thrown \<Rightarrow> thrown" where
  "wrapped e =
     (let e' = plain_error (th_message e)
      in if isPortalAuthoredError (Thrown e) then tagStatus e' (coalesce (th_statusCode e) (th_status e)) else e')"

definition succeeded :: "wf_step \<Rightarrow> step_result \<Rightarrow> run_state \<Rightarrow> run_state" where
  "succeeded s r st =
     \<lparr>ru_log = ru_log st @ [(entry s (if sr_skipped r then ''skipped'' else ''ok'') [])
         \<lparr>le_calls := sr_calls r, le_artifacts := map describeArtifact (sr_artifacts r)\<rparr>],
      ru_artifacts = ru_artifacts st @ sr_artifacts r,
      ru_outputs = set_field (stepKey s) (or_else (sr_output r) (JObj [])) (ru_outputs st)\<rparr>"

fun run_steps ::
  "'w client \<Rightarrow> json \<Rightarrow> wf_step list \<Rightarrow> run_state \<Rightarrow> 'w \<Rightarrow> (run_error + run_state) \<times> 'w" where
  "run_steps cl context [] st w = (Inr st, w)"
| "run_steps cl context (s # steps) st w =
     (case map_of (ACTIONS cl) (st_action s) of
        None \<Rightarrow>
          let msg = ''Unknown action \"'' @ st_action s @ ''\"'';
              (log, w') = rollback cl (ru_artifacts st) (ru_log st @ [entry s ''error'' msg]) w
          in (Inl \<lparr>re_error = plain_error msg, re_log = log\<rparr>, w')
      | Some execute \<Rightarrow>
          let ctx = runContext context (ru_outputs st) in
          if \<not> evaluateCondition (st_condition s) ctx
          then run_steps cl context steps (st\<lparr>ru_log := ru_log st @ [entry s ''condition_skipped'' []]\<rparr>) w
          else (case execute (renderParams (or_else (st_params s) (JObj [])) ctx) ctx w of
                  (Inr r, w1) \<Rightarrow> run_steps cl context steps (succeeded s r st) w1
                | (Inl e, w1) \<Rightarrow>
                    if st_continue s
                    then run_steps cl context steps
                           (st\<lparr>ru_log := ru_log st @ [entry s ''error_ignored'' (th_message e)]\<rparr>) w1
                    else let (log, w2) = rollback cl (ru_artifacts st) (ru_log st @ [entry s ''error'' (th_message e)]) w1
                         in (Inl \<lparr>re_error = wrapped e, re_log = log\<rparr>, w2)))"

definition runWorkflow :: "'w client \<Rightarrow> wf_step list \<Rightarrow> json \<Rightarrow> 'w \<Rightarrow> (run_error + run_state) \<times> 'w" where
  "runWorkflow cl steps context w =
     run_steps cl context (filter st_enabled (sort_key st_position steps))
       \<lparr>ru_log = [], ru_artifacts = [], ru_outputs = []\<rparr> w"

section \<open>Teardown of a recorded run\<close>

definition isArtifactGone :: "thrown \<Rightarrow> bool" where
  "isArtifactGone e =
     (th_statusCode e = JNum 404
      \<or> (let m = js_lower (th_message e)
         in list_ex (\<lambda>p. sublist p m) [''not found'', ''does not exist'', ''no such'', ''404'']))"

definition teardown_status :: "artifact \<Rightarrow> thrown option \<Rightarrow> string" where
  "teardown_status a e =
     (case e of
        None \<Rightarrow> ''ok''
      | Some err \<Rightarrow> if isArtifactGone err then ''already_gone''
                    else if is_switch_vlan a then ''warning'' else ''error'')"

definition teardownArtifacts ::
  "'w client \<Rightarrow> artifact list \<Rightarrow> 'w \<Rightarrow> ((artifact \<times> string) list \<times> string list) \<times> 'w" where
  "teardownArtifacts cl artifacts w =
     (let (rs, w') = delete_all cl (teardownOrder artifacts) w
      in ((map (\<lambda>(a, e). (a, teardown_status a e)) rs,
           concat (map (\<lambda>(a, e). if teardown_status a e = ''error''
                      then [describeArtifact a @ '': '' @ (case e of Some err \<Rightarrow> th_message err | None \<Rightarrow> [])] else []) rs)), w'))"

section \<open>Dry run\<close>

definition predictOutput :: "string \<Rightarrow> json \<Rightarrow> json" where
  "predictOutput action p =
     (if action = ''create_vlan_interface''
      then JObj [(''interfaceName'', JStr (str p ''name'')), (''vlanId'', to_num (js_get p ''vlanId'')),
                 (''ip'', JStr (str p ''ip'')), (''netmask'', JStr (str p ''netmask''))]
      else if action \<in> {''create_address_object'', ''create_service_object'', ''create_vip''}
      then JObj [(''name'', js_get p ''name'')]
      else if action = ''create_policy'' then JObj [(''policyId'', JStr ''(runtime id)'')]
      else if action = ''create_static_route'' then JObj [(''routeId'', JStr ''(runtime id)'')]
      else if action = ''create_dhcp_server'' then JObj [(''dhcpServerId'', JStr ''(runtime id)'')]
      else JObj [])"

record preview_item =
  pv_stepKey :: string
  pv_enabled :: bool
  pv_note :: string
  pv_params :: json
  pv_calls :: "api_call list"

fun preview_steps :: "'w client \<Rightarrow> json \<Rightarrow> wf_step list \<Rightarrow> (string \<times> json) list \<Rightarrow> preview_item list" where
  "preview_steps cl context [] outputs = []"
| "preview_steps cl context (s # steps) outputs =
     (let item = \<lparr>pv_stepKey = stepKey s, pv_enabled = st_enabled s, pv_note = [], pv_params = JUndef, pv_calls = []\<rparr>;
          ctx = runContext context outputs
      in if map_of (ACTIONS cl) (st_action s) = None
         then item\<lparr>pv_note := ''Unknown action \"'' @ st_action s @ ''\"''\<rparr> # preview_steps cl context steps outputs
         else if \<not> st_enabled s
         then item\<lparr>pv_note := ''disabled''\<rparr> # preview_steps cl context steps outputs
         else if \<not> evaluateCondition (st_condition s) ctx
         then item\<lparr>pv_note := ''condition not met ('' @ to_str (st_condition s) @ '')''\<rparr> # preview_steps cl context steps outputs
         else let rendered = renderParams (or_else (st_params s) (JObj [])) ctx
              in item\<lparr>pv_params := rendered, pv_calls := plan_action cl (st_action s) rendered ctx\<rparr>
                 # preview_steps cl context steps (set_field (stepKey s) (predictOutput (st_action s) rendered) outputs))"

definition previewWorkflow :: "'w client \<Rightarrow> wf_step list \<Rightarrow> json \<Rightarrow> preview_item list" where
  "previewWorkflow cl steps context = preview_steps cl context (sort_key st_position steps) []"

section \<open>What a firewall promises\<close>

text \<open>
  The objects a firewall holds, newest first and each identified by its URL. A read or an update
  leaves them alone; a refused creation too; an accepted one adds the object and answers with its
  key; and the newest object can be deleted, since nothing created earlier refers to it. These are
  hypotheses about FortiOS, not about the portal.
\<close>

definition numbered :: "string list" where
  "numbered = [''cmdb/firewall/policy'', ''cmdb/router/static'', ''cmdb/system.dhcp/server'']"

definition named :: "string list" where
  "named = [''cmdb/system/interface'', ''cmdb/firewall/address'', ''cmdb/firewall.service/custom'', ''cmdb/firewall/vip'']"

definition object_key :: "string \<Rightarrow> json \<Rightarrow> json \<Rightarrow> string" where
  "object_key coll body reply =
     (if coll \<in> set numbered then to_str (js_get reply ''mkey'') else encodeURIComponent (to_str (js_get body ''name'')))"

definition reads_keep :: "'w client \<Rightarrow> ('w \<Rightarrow> string list) \<Rightarrow> bool" where
  "reads_keep cl objs \<longleftrightarrow>
     (\<forall>meth path body vdom w. meth = ''GET'' \<or> meth = ''PUT'' \<longrightarrow> objs (snd (request cl meth path body vdom w)) = objs w)"

definition posts_add :: "'w client \<Rightarrow> ('w \<Rightarrow> string list) \<Rightarrow> bool" where
  "posts_add cl objs \<longleftrightarrow>
     (\<forall>coll body vdom w. coll \<in> set (numbered @ named) \<longrightarrow>
        (case request cl ''POST'' coll body vdom w of
           (Inl _, w') \<Rightarrow> objs w' = objs w
         | (Inr reply, w') \<Rightarrow> \<not> nullish (js_get reply ''mkey'')
             \<and> objs w' = request_url cl (coll @ ''/'' @ object_key coll body reply) vdom # objs w))"

definition deletes_newest :: "'w client \<Rightarrow> ('w \<Rightarrow> string list) \<Rightarrow> bool" where
  "deletes_newest cl objs \<longleftrightarrow>
     (\<forall>path vdom w rest. objs w = request_url cl path vdom # rest \<longrightarrow>
        (\<exists>reply w'. request cl ''DELETE'' path JNull vdom w = (Inr reply, w') \<and> objs w' = rest))"

definition fortigate_laws :: "'w client \<Rightarrow> ('w \<Rightarrow> string list) \<Rightarrow> bool" where
  "fortigate_laws cl objs \<longleftrightarrow> reads_keep cl objs \<and> posts_add cl objs \<and> deletes_newest cl objs"

definition object_url :: "'w client \<Rightarrow> artifact \<Rightarrow> string" where
  "object_url cl a =
     (case a of
        Interface name \<Rightarrow> request_url cl (''cmdb/system/interface/'' @ encodeURIComponent name) ''global''
      | Address name vdom \<Rightarrow> request_url cl (''cmdb/firewall/address/'' @ encodeURIComponent name) vdom
      | Service name vdom \<Rightarrow> request_url cl (''cmdb/firewall.service/custom/'' @ encodeURIComponent name) vdom
      | Policy i vdom \<Rightarrow> request_url cl (''cmdb/firewall/policy/'' @ to_str i) vdom
      | Static_route i vdom \<Rightarrow> request_url cl (''cmdb/router/static/'' @ to_str i) vdom
      | Dhcp_server i \<Rightarrow> request_url cl (''cmdb/system.dhcp/server/'' @ to_str i) []
      | Vip name vdom \<Rightarrow> request_url cl (''cmdb/firewall/vip/'' @ encodeURIComponent name) vdom
      | _ \<Rightarrow> [])"

definition is_object :: "artifact \<Rightarrow> bool" where
  "is_object a = (case a of Switch_port_vlan _ _ _ _ \<Rightarrow> False | Switch_controller_vlan _ _ \<Rightarrow> False
                  | Other_artifact _ \<Rightarrow> False | _ \<Rightarrow> True)"

definition creates_objects :: "wf_step \<Rightarrow> bool" where
  \<comment> \<open>the step names none of the actions that reconfigure switches, call the API freely or tear down\<close>
  "creates_objects s =
     (st_action s \<notin> {''assign_switch_port'', ''register_switch_controller_vlan'', ''custom_api_call'',
                      ''teardown_recorded_artifacts''})"

section \<open>Calls that change no object\<close>

definition keeps :: "('w \<Rightarrow> string list) \<Rightarrow> ('w \<Rightarrow> 'a \<times> 'w) \<Rightarrow> bool" where
  "keeps objs m = (\<forall>w. objs (snd (m w)) = objs w)"

named_theorems call_keeps

lemma keeps_return [call_keeps]: "keeps objs (return_call x)"
  by (simp add: keeps_def return_call_def)

lemma keeps_throw [call_keeps]: "keeps objs (throw_call e)"
  by (simp add: keeps_def throw_call_def)

lemma bind_call_eq:
  "bind_call m f w = (case fst (m w) of Inl e \<Rightarrow> (Inl e, snd (m w)) | Inr x \<Rightarrow> f x (snd (m w)))"
  by (simp add: bind_call_def split_beta split: sum.split)

lemma catch_call_eq:
  "catch_call m h w = (case fst (m w) of Inl e \<Rightarrow> h e (snd (m w)) | Inr x \<Rightarrow> (Inr x, snd (m w)))"
  by (simp add: catch_call_def split_beta split: sum.split)

lemma keeps_bind [call_keeps]: "keeps objs m \<Longrightarrow> (\<And>x. keeps objs (f x)) \<Longrightarrow> keeps objs (bind_call m f)"
  by (simp add: keeps_def bind_call_eq split: sum.split)

lemma keeps_catch [call_keeps]: "keeps objs m \<Longrightarrow> (\<And>x. keeps objs (h x)) \<Longrightarrow> keeps objs (catch_call m h)"
  by (simp add: keeps_def catch_call_eq split: sum.split)

lemma keeps_if [call_keeps]: "keeps objs m \<Longrightarrow> keeps objs n \<Longrightarrow> keeps objs (if b then m else n)"
  by simp

lemma keeps_list_results [call_keeps]: "keeps objs (list_results r)"
  by (simp add: keeps_def list_results_def)

lemma keeps_request:
  "fortigate_laws cl objs \<Longrightarrow> meth \<in> {''GET'', ''PUT''} \<Longrightarrow> keeps objs (request cl meth path body vdom)"
  unfolding fortigate_laws_def reads_keep_def keeps_def by (simp only: insert_iff empty_iff simp_thms)

lemma keeps_get_list: "fortigate_laws cl objs \<Longrightarrow> keeps objs (get_list cl path vdom)"
  unfolding get_list_def by (intro call_keeps keeps_request) simp_all

lemma keeps_get_or_null: "fortigate_laws cl objs \<Longrightarrow> keeps objs (get_or_null cl path vdom)"
  unfolding get_or_null_def by (intro call_keeps keeps_request) simp_all

lemma laws_post:
  "fortigate_laws cl objs \<Longrightarrow> coll \<in> set (numbered @ named) \<Longrightarrow>
     (case request cl ''POST'' coll body vdom w of
        (Inl _, w') \<Rightarrow> objs w' = objs w
      | (Inr reply, w') \<Rightarrow> \<not> nullish (js_get reply ''mkey'')
          \<and> objs w' = request_url cl (coll @ ''/'' @ object_key coll body reply) vdom # objs w)"
  by (simp only: fortigate_laws_def posts_add_def)

lemma laws_delete:
  "fortigate_laws cl objs \<Longrightarrow> objs w = request_url cl path vdom # rest \<Longrightarrow>
     \<exists>reply w'. request cl ''DELETE'' path JNull vdom w = (Inr reply, w') \<and> objs w' = rest"
  by (simp add: fortigate_laws_def deletes_newest_def)

lemma keeps_move:
  assumes "fortigate_laws cl objs"
  shows "objs (snd (move_after_sibling cl p body i w)) = objs w"
proof -
  have g: "objs (snd (getPolicies cl v w)) = objs w" for v w
    using keeps_get_list [OF assms] by (simp add: keeps_def getPolicies_def)
  have m: "objs (snd (movePolicy cl a b c d w)) = objs w" for a b c d w
    using keeps_request [OF assms, of "''PUT''"] by (simp add: keeps_def movePolicy_def)
  obtain r w1 where gp: "getPolicies cl (vdom_of p) w = (r, w1)" by fastforce
  with g [of "vdom_of p" w] have w1: "objs w1 = objs w" by simp
  have m1: "movePolicy cl i ''after'' x v w1 = (q, w2) \<Longrightarrow> objs w2 = objs w1" for x v q w2
    using m [of i "''after''" x v w1] by simp
  show ?thesis
    unfolding move_after_sibling_def Let_def gp
    by (auto simp: w1 split: sum.split option.split prod.split dest: m1)
qed

section \<open>Actions that create their artifacts\<close>

definition creates :: "'w client \<Rightarrow> ('w \<Rightarrow> string list) \<Rightarrow> ('w \<Rightarrow> (thrown + step_result) \<times> 'w) \<Rightarrow> bool" where
  "creates cl objs m =
     (\<forall>w. case fst (m w) of
        Inl _ \<Rightarrow> objs (snd (m w)) = objs w
      | Inr r \<Rightarrow> list_all is_object (sr_artifacts r)
          \<and> objs (snd (m w)) = map (object_url cl) (rev (sr_artifacts r)) @ objs w)"

named_theorems call_creates

lemma creates_skipped [call_creates]: "creates cl objs (skipped_with out [] calls)"
  by (simp add: creates_def skipped_with_def return_call_def)

lemma creates_found [call_creates]: "creates cl objs (return_call (skipped_named a b c d))"
  by (simp add: creates_def skipped_named_def return_call_def)

lemma creates_throw [call_creates]: "creates cl objs (throw_call e)"
  by (simp add: creates_def throw_call_def)

lemma creates_look:
  assumes "keeps objs m" "\<And>x. creates cl objs (f x)"
  shows "creates cl objs (bind_call m f)"
  unfolding creates_def
proof
  fix w
  show "case fst (bind_call m f w) of Inl _ \<Rightarrow> objs (snd (bind_call m f w)) = objs w
    | Inr r \<Rightarrow> list_all is_object (sr_artifacts r)
          \<and> objs (snd (bind_call m f w)) = map (object_url cl) (rev (sr_artifacts r)) @ objs w"
  proof (cases "fst (m w)")
    case (Inl e)
    with assms(1) show ?thesis by (simp add: bind_call_eq keeps_def)
  next
    case (Inr x)
    then have "bind_call m f w = f x (snd (m w))" by (simp add: bind_call_eq)
    moreover from assms(1) have "objs (snd (m w)) = objs w" by (simp add: keeps_def)
    ultimately show ?thesis
      using assms(2) [of x, unfolded creates_def, THEN spec, of "snd (m w)"] by (simp split: sum.splits)
  qed
qed

lemma creates_post:
  assumes laws: "fortigate_laws cl objs" and coll: "coll \<in> set (numbered @ named)"
    and f: "\<And>reply w. \<not> nullish (js_get reply ''mkey'') \<Longrightarrow>
      \<exists>r w'. f reply w = (Inr r, w') \<and> sr_artifacts r = [a reply] \<and> objs w' = objs w"
    and url: "\<And>reply. \<not> nullish (js_get reply ''mkey'') \<Longrightarrow>
      is_object (a reply) \<and> object_url cl (a reply) = request_url cl (coll @ ''/'' @ object_key coll body reply) vdom"
  shows "creates cl objs (bind_call (request cl ''POST'' coll body vdom) f)"
  unfolding creates_def
proof
  fix w
  obtain res w1 where q: "request cl ''POST'' coll body vdom w = (res, w1)" by fastforce
  note law = laws_post [OF laws coll, where body = body and vdom = vdom and w = w]
  let ?m = "bind_call (request cl ''POST'' coll body vdom) f"
  show "case fst (?m w) of Inl _ \<Rightarrow> objs (snd (?m w)) = objs w
    | Inr r \<Rightarrow> list_all is_object (sr_artifacts r) \<and> objs (snd (?m w)) = map (object_url cl) (rev (sr_artifacts r)) @ objs w"
  proof (cases res)
    case (Inl e)
    with law q show ?thesis by (simp add: bind_call_def)
  next
    case (Inr reply)
    with law q have k: "\<not> nullish (js_get reply ''mkey'')"
      and o: "objs w1 = request_url cl (coll @ ''/'' @ object_key coll body reply) vdom # objs w" by simp_all
    obtain r w2 where "f reply w1 = (Inr r, w2)" "sr_artifacts r = [a reply]" "objs w2 = objs w1"
      using f [OF k] by blast
    with Inr q o url [OF k] show ?thesis by (simp add: bind_call_def)
  qed
qed

lemma request_url_eff:
  "cl_vdom cl \<noteq> ''global'' \<Longrightarrow> request_url cl path (effVdom cl p) = request_url cl path (vdom_of p)"
  by (simp add: request_url_def scopeParam_def effVdom_def)

lemma mkey_of_reply: "\<not> nullish (js_get reply ''mkey'') \<Longrightarrow> mkey_of reply = js_get reply ''mkey''"
  by (simp add: mkey_of_def coalesce_def)

lemmas collections = numbered_def named_def object_key_def

lemma interface_creates: "fortigate_laws cl objs \<Longrightarrow> creates cl objs (create_interface cl p)"
  unfolding create_interface_def
  by (rule creates_post [where a = "\<lambda>_. Interface (str p ''name'')"])
    (simp_all add: collections done_with_def return_call_def object_url_def is_object_def interface_body_def)

lemma adopt_creates: "creates cl objs (adopt_interface cl p existing)"
  unfolding adopt_interface_def Let_def by (simp add: call_creates)

lemma create_vlan_interface_creates:
  "fortigate_laws cl objs \<Longrightarrow> creates cl objs (create_vlan_interface cl p)"
  unfolding create_vlan_interface_def getInterface_def
  by (auto intro!: creates_look keeps_get_or_null adopt_creates interface_creates)

lemma skip_or_creates:
  assumes "fortigate_laws cl objs" "keeps objs look" "creates cl objs m"
  shows "creates cl objs (skip_or check look (skipped_named a b c) m)"
  unfolding skip_or_def using assms by (auto intro!: creates_look creates_found)

lemma address_creates:
  assumes laws: "fortigate_laws cl objs" and vdom: "cl_vdom cl \<noteq> ''global''"
  shows "creates cl objs (create_address_object cl p)"
proof -
  have post: "creates cl objs (bind_call (request cl ''POST'' ''cmdb/firewall/address'' body (vdom_of p))
      (\<lambda>_. done_with out [Address (str p ''name'') (effVdom cl p)] calls))"
    if "to_str (js_get body ''name'') = str p ''name''" for body out calls
    by (rule creates_post [OF laws, where a = "\<lambda>_. Address (str p ''name'') (effVdom cl p)"])
      (simp_all add: collections done_with_def return_call_def object_url_def is_object_def request_url_eff [OF vdom] that)
  show ?thesis
    unfolding create_address_object_def Let_def createAddressObject_def
    by (intro skip_or_creates laws)
      (auto simp: getAddressObject_def address_body_def intro!: keeps_get_or_null laws post split: if_splits)
qed

lemma service_creates:
  assumes laws: "fortigate_laws cl objs" and vdom: "cl_vdom cl \<noteq> ''global''"
  shows "creates cl objs (create_service_object cl p)"
  unfolding create_service_object_def Let_def getServiceObject_def createServiceObject_def
  by (intro skip_or_creates laws keeps_get_or_null
      creates_post [OF laws, where a = "\<lambda>_. Service (str p ''name'') (effVdom cl p)"])
    (simp_all add: collections done_with_def return_call_def object_url_def is_object_def request_url_eff [OF vdom]
      service_body_def)

lemma vip_creates:
  assumes laws: "fortigate_laws cl objs" and vdom: "cl_vdom cl \<noteq> ''global''"
  shows "creates cl objs (create_vip cl p)"
  unfolding create_vip_def createVip_def
  by (rule creates_post [OF laws, where a = "\<lambda>_. Vip (str p ''name'') (effVdom cl p)"])
    (simp_all add: collections done_with_def return_call_def object_url_def is_object_def request_url_eff [OF vdom]
      vip_body_def)

lemma policy_creates:
  assumes laws: "fortigate_laws cl objs" and vdom: "cl_vdom cl \<noteq> ''global''"
  shows "creates cl objs (create_policy cl p)"
proof -
  have new: "creates cl objs (create_new_policy cl p)"
    unfolding create_new_policy_def createPolicy_def Let_def
    by (rule creates_post [OF laws, where a = "\<lambda>r. Policy (mkey_of r) (effVdom cl p)"])
      (auto simp: collections done_with_def return_call_def object_url_def is_object_def request_url_eff [OF vdom]
        mkey_of_reply keeps_move [OF laws] split_beta)
  show ?thesis
    unfolding create_policy_def getPolicies_def
    by (auto intro!: creates_look keeps_get_list laws new call_creates split: option.splits)
qed

lemma route_creates:
  assumes laws: "fortigate_laws cl objs" and vdom: "cl_vdom cl \<noteq> ''global''"
  shows "creates cl objs (create_static_route cl p)"
proof -
  have new: "creates cl objs (create_new_route cl p)"
    unfolding create_new_route_def createStaticRoute_def Let_def
    by (rule creates_post [OF laws, where a = "\<lambda>r. Static_route (mkey_of r) (effVdom cl p)"])
      (auto simp: collections done_with_def return_call_def object_url_def is_object_def request_url_eff [OF vdom]
        mkey_of_reply)
  show ?thesis
    unfolding create_static_route_def getStaticRoutes_def
    by (auto intro!: creates_look keeps_get_list laws new call_creates split: option.splits)
qed

lemma dhcp_creates:
  assumes laws: "fortigate_laws cl objs" and vdom: "cl_vdom cl \<noteq> ''global''"
  shows "creates cl objs (create_dhcp_server cl p)"
proof -
  have new: "creates cl objs (create_new_dhcp cl p)"
    unfolding create_new_dhcp_def createDhcpServer_def Let_def
    by (rule creates_post [OF laws, where a = "\<lambda>r. Dhcp_server (mkey_of r)"])
      (auto simp: collections done_with_def return_call_def object_url_def is_object_def mkey_of_reply)
  show ?thesis
    unfolding create_dhcp_server_def getDhcpServers_def
    by (auto intro!: creates_look keeps_get_list laws new call_creates split: option.splits)
qed

lemma action_creates:
  assumes "fortigate_laws cl objs" "cl_vdom cl \<noteq> ''global''" "creates_objects s"
    "map_of (ACTIONS cl) (st_action s) = Some execute"
  shows "creates cl objs (execute p ctx)"
  using assms(3,4)
  by (auto simp: ACTIONS_def creates_objects_def create_vlan_interface_creates assms address_creates service_creates
      policy_creates route_creates dhcp_creates vip_creates split: if_splits)

section \<open>Undoing a run\<close>

lemma delete_newest:
  assumes laws: "fortigate_laws cl objs" and w: "objs w = object_url cl a # rest" and a: "is_object a"
  obtains r w' where "deleteArtifact cl a w = (Inr r, w')" "objs w' = rest"
proof -
  have "\<exists>r w'. deleteArtifact cl a w = (Inr r, w') \<and> objs w' = rest"
    using w a laws_delete [OF laws, where w = w and rest = rest]
    by (cases a) (simp_all add: object_url_def is_object_def deleteArtifact_def deleteInterface_def deleteAddressObject_def
        deleteServiceObject_def deletePolicy_def deleteStaticRoute_def deleteDhcpServer_def deleteVip_def)
  with that show thesis by blast
qed

lemma delete_all_newest:
  assumes laws: "fortigate_laws cl objs"
  shows "list_all is_object as \<Longrightarrow> objs w = map (object_url cl) as @ rest
    \<Longrightarrow> fst (delete_all cl as w) = map (\<lambda>a. (a, None)) as \<and> objs (snd (delete_all cl as w)) = rest"
proof (induction as arbitrary: w)
  case Nil
  then show ?case by simp
next
  case (Cons a as)
  then obtain r w1 where "deleteArtifact cl a w = (Inr r, w1)" and "objs w1 = map (object_url cl) as @ rest"
    by (auto elim: delete_newest [OF laws])
  with Cons.prems Cons.IH [of w1] show ?case by (simp add: split_beta)
qed

lemma is_object_not_switch: "is_object a \<Longrightarrow> \<not> is_switch_vlan a"
  by (cases a) (simp_all add: is_object_def is_switch_vlan_def)

lemma teardownOrder_objects: "list_all is_object as \<Longrightarrow> teardownOrder as = rev as"
proof -
  assume "list_all is_object as"
  then have "\<not> is_switch_vlan a" if "a \<in> set (rev as)" for a
    using that by (simp add: list_all_iff is_object_not_switch)
  then have "filter (\<lambda>a. \<not> is_switch_vlan a) (rev as) = rev as" "filter is_switch_vlan (rev as) = []"
    by (blast intro: filter_True filter_False)+
  then show ?thesis by (simp only: teardownOrder_def Let_def append_Nil2)
qed

lemma rollback_restores:
  assumes "fortigate_laws cl objs" "list_all is_object arts" "objs w = map (object_url cl) (rev arts) @ objs0"
  shows "objs (snd (rollback cl arts log w)) = objs0"
  using assms delete_all_newest [OF assms(1), of "rev arts" w objs0]
  by (simp add: rollback_def teardownOrder_objects split_beta)

definition run_owns :: "'w client \<Rightarrow> ('w \<Rightarrow> string list) \<Rightarrow> string list \<Rightarrow> run_state \<Rightarrow> 'w \<Rightarrow> bool" where
  "run_owns cl objs objs0 st w \<longleftrightarrow>
     list_all is_object (ru_artifacts st) \<and> objs w = map (object_url cl) (rev (ru_artifacts st)) @ objs0"

lemma rollback_owned:
  "fortigate_laws cl objs \<Longrightarrow> run_owns cl objs objs0 st w \<Longrightarrow> objs (snd (rollback cl (ru_artifacts st) log w)) = objs0"
  by (simp add: run_owns_def rollback_restores)

lemma run_owns_log [simp]: "run_owns cl objs objs0 (st\<lparr>ru_log := l\<rparr>) w = run_owns cl objs objs0 st w"
  by (simp add: run_owns_def)

lemma run_owns_kept: "run_owns cl objs objs0 st w \<Longrightarrow> objs w1 = objs w \<Longrightarrow> run_owns cl objs objs0 st w1"
  by (simp add: run_owns_def)

lemma run_owns_succeeded:
  "run_owns cl objs objs0 st w \<Longrightarrow> list_all is_object (sr_artifacts r)
    \<Longrightarrow> objs w1 = map (object_url cl) (rev (sr_artifacts r)) @ objs w
    \<Longrightarrow> run_owns cl objs objs0 (succeeded s r st) w1"
  by (simp add: run_owns_def succeeded_def)

lemma run_steps_owns:
  assumes laws: "fortigate_laws cl objs" and vdom: "cl_vdom cl \<noteq> ''global''"
  shows "list_all creates_objects steps \<Longrightarrow> run_owns cl objs objs0 st w \<Longrightarrow>
    (case run_steps cl context steps st w of
       (Inl _, w') \<Rightarrow> objs w' = objs0
     | (Inr st', w') \<Rightarrow> run_owns cl objs objs0 st' w')"
proof (induction steps arbitrary: st w)
  case Nil
  then show ?case by simp
next
  case (Cons s steps)
  show ?case
  proof (cases "map_of (ACTIONS cl) (st_action s)")
    case None
    with Cons.prems show ?thesis by (simp add: Let_def split_beta rollback_owned [OF laws])
  next
    case (Some execute)
    define ctx where "ctx = runContext context (ru_outputs st)"
    define p where "p = renderParams (or_else (st_params s) (JObj [])) ctx"
    obtain res w1 where ex: "execute p ctx w = (res, w1)" by fastforce
    have "creates cl objs (execute p ctx)"
      using Cons.prems Some by (intro action_creates [OF laws vdom, where s = s]) simp_all
    then have cr: "case fst (execute p ctx w) of Inl _ \<Rightarrow> objs (snd (execute p ctx w)) = objs w
        | Inr r \<Rightarrow> list_all is_object (sr_artifacts r)
          \<and> objs (snd (execute p ctx w)) = map (object_url cl) (rev (sr_artifacts r)) @ objs w"
      by (simp add: creates_def)
    show ?thesis
    proof (cases "evaluateCondition (st_condition s) ctx")
      case False
      with Some Cons show ?thesis by (simp add: Let_def ctx_def)
    next
      case True
      show ?thesis
      proof (cases res)
        case (Inl e)
        with cr ex have "run_owns cl objs objs0 st w1" using Cons.prems by (simp add: run_owns_kept)
        with Cons True Some Inl ex show ?thesis
          by (simp add: Let_def split_beta rollback_owned [OF laws] flip: ctx_def p_def)
      next
        case (Inr r)
        with cr ex have "run_owns cl objs objs0 (succeeded s r st) w1"
          using Cons.prems by (simp add: run_owns_succeeded)
        with Cons True Some Inr ex show ?thesis by (simp add: Let_def flip: ctx_def p_def)
      qed
    qed
  qed
qed

section \<open>A firewall that keeps the promises\<close>

text \<open>
  A firewall for the examples: the list of its objects' URLs, newest first. It refuses the
  collection it is given, numbers what it creates and deletes its newest object only.
\<close>

definition sim_send :: "string \<Rightarrow> string \<Rightarrow> string \<Rightarrow> json \<Rightarrow> string list \<Rightarrow> (thrown + json) \<times> string list" where
  "sim_send refused meth url body w =
     (let coll = drop 8 (takeWhile (\<lambda>c. c \<noteq> CHR ''?'') url);
          reply = JObj [(''mkey'', JNum (int (length w))), (''results'', JArr [])];
          path = coll @ ''/'' @ object_key coll body reply
      in if meth = ''POST'' then
           (if coll = refused then (Inl (http_thrown 500 ''refused''), w)
            else (Inr reply, (''/api/v2/'' @ path @ (if CHR ''?'' \<in> set path then ''&'' else ''?'')
                              @ drop (length coll + 9) url) # w))
         else if meth = ''DELETE'' then
           (if w \<noteq> [] \<and> hd w = url then (Inr reply, tl w) else (Inl (http_thrown 404 ''not found''), w))
         else (Inr reply, w))"

definition sim_client :: "string \<Rightarrow> string list client" where
  "sim_client refused =
     \<lparr>cl_vdom = ''root'', cl_verifyTls = True, cl_allowInsecure = False, cl_parse = (\<lambda>_. None), cl_send = sim_send refused\<rparr>"

lemma sim_request:
  "request (sim_client r) meth path data vdom w =
     sim_send r meth (request_url (sim_client r) path vdom) (if jtruthy data then data else JUndef) w"
  by (simp add: request_def sim_client_def)

lemma sim_name: "js_get (if jtruthy body then body else JUndef) ''name'' = js_get body ''name''"
  by (cases body) (auto simp: js_get_def jtruthy_def split: option.split)

lemma sim_reads: "reads_keep (sim_client r) id"
  by (auto simp: reads_keep_def sim_request sim_send_def Let_def)

lemma sim_deletes: "deletes_newest (sim_client r) id"
  by (auto simp: deletes_newest_def sim_request sim_send_def Let_def)

lemma sim_url:
  assumes "CHR ''?'' \<notin> set coll"
  shows "drop 8 (takeWhile (\<lambda>c. c \<noteq> CHR ''?'') (request_url cl coll vdom)) = coll"
    and "drop (length coll + 9) (request_url cl coll vdom) = scopeParam cl vdom"
proof -
  have url: "request_url cl coll vdom = (''/api/v2/'' @ coll @ ''?'') @ scopeParam cl vdom"
    using assms by (simp add: request_url_def)
  show "drop 8 (takeWhile (\<lambda>c. c \<noteq> CHR ''?'') (request_url cl coll vdom)) = coll"
    using assms unfolding url by (simp add: takeWhile_append takeWhile_eq_all_conv)
  show "drop (length coll + 9) (request_url cl coll vdom) = scopeParam cl vdom"
    unfolding url by (subst drop_append) simp
qed

lemma collections_plain: "coll \<in> set (numbered @ named) \<Longrightarrow> CHR ''?'' \<notin> set coll"
  by (auto simp: numbered_def named_def)

lemma sim_key: "object_key coll (if jtruthy body then body else JUndef) reply = object_key coll body reply"
  by (simp only: object_key_def sim_name)

lemma sim_posts: "posts_add (sim_client r) id"
  unfolding posts_add_def
proof (intro allI impI)
  fix coll body vdom w
  assume coll: "coll \<in> set (numbered @ named)"
  show "case request (sim_client r) ''POST'' coll body vdom w of
           (Inl _, w') \<Rightarrow> id w' = id w
         | (Inr reply, w') \<Rightarrow> \<not> nullish (js_get reply ''mkey'')
             \<and> id w' = request_url (sim_client r) (coll @ ''/'' @ object_key coll body reply) vdom # id w"
    using sim_url [OF collections_plain [OF coll], where cl = "sim_client r" and vdom = vdom]
    by (simp add: sim_request sim_send_def Let_def sim_key) (auto simp: request_url_def nullish_def)
qed

lemma sim_laws: "fortigate_laws (sim_client r) id"
  by (simp only: fortigate_laws_def sim_reads sim_deletes sim_posts simp_thms)

definition example_steps :: "wf_step list" where
  "example_steps =
    [\<lparr>st_position = 2, st_action = ''create_vip'', st_key = [],
      st_params = JObj [(''name'', JStr ''web''), (''extip'', JStr ''203.0.113.9''), (''mappedip'', JStr ''10.1.2.9''),
                        (''extport'', JStr ''443''), (''mappedport'', JStr ''443'')],
      st_condition = JNull, st_enabled = True, st_continue = False\<rparr>,
     \<lparr>st_position = 1, st_action = ''create_address_object'', st_key = ''addr'',
      st_params = JObj [(''name'', JStr ''lan''), (''subnet'', JStr ''10.1.2.0/24'')],
      st_condition = JNull, st_enabled = True, st_continue = False\<rparr>]"

section \<open>Properties\<close>

lemma enabled_steps_create:
  "list_all creates_objects steps \<Longrightarrow> list_all creates_objects (filter st_enabled (sort_key st_position steps))"
  by (simp add: list_all_iff)

lemma runWorkflow_owns:
  assumes "fortigate_laws cl objs" "cl_vdom cl \<noteq> ''global''" "list_all creates_objects steps"
  shows "case runWorkflow cl steps ctx w of
      (Inl _, w') \<Rightarrow> objs w' = objs w | (Inr st, w') \<Rightarrow> run_owns cl objs (objs w) st w'"
  unfolding runWorkflow_def
  by (rule run_steps_owns [OF assms(1,2) enabled_steps_create [OF assms(3)]]) (simp add: run_owns_def)





section \<open>The dry run\<close>

definition text_vdom :: "json \<Rightarrow> bool" where
  "text_vdom p = (case js_get p ''vdom'' of JStr _ \<Rightarrow> True | JUndef \<Rightarrow> True | JNull \<Rightarrow> True | _ \<Rightarrow> False)"

definition creating_action :: "string \<Rightarrow> bool" where
  "creating_action a = (a \<in> {''create_vlan_interface'', ''create_address_object'', ''create_service_object'',
     ''create_policy'', ''create_static_route'', ''create_dhcp_server'', ''create_vip''})"

lemma scopeOf_eff: "text_vdom p \<Longrightarrow> scopeOf cl (js_get p ''vdom'') = effVdom cl p"
  by (auto simp: text_vdom_def scopeOf_def effVdom_def vdom_of_def nullish_def split: json.splits)

definition announces :: "api_call list \<Rightarrow> (thrown + step_result) \<times> 'w \<Rightarrow> bool" where
  "announces calls res = (case fst res of Inl _ \<Rightarrow> True
     | Inr r \<Rightarrow> sr_skipped r \<or> take (length calls) (sr_calls r) = calls)"

lemma announces_bind:
  "(\<And>x w. announces calls (f x w)) \<Longrightarrow> announces calls (bind_call m f w)"
  by (fastforce simp: announces_def bind_call_eq split: sum.splits)

lemma announces_done [simp]: "announces calls (done_with out arts calls' w) \<longleftrightarrow> take (length calls) calls' = calls"
  by (simp add: announces_def done_with_def return_call_def)

lemma announces_skipped [simp]: "announces calls (skipped_with out arts calls' w)"
  by (simp add: announces_def skipped_with_def return_call_def)

lemma announces_return_skipped [simp]: "sr_skipped r \<Longrightarrow> announces calls (return_call r w)"
  by (simp add: announces_def return_call_def)

lemma announces_throw [simp]: "announces calls (throw_call e w)"
  by (simp add: announces_def throw_call_def)

lemma announces_skip_or:
  "(\<And>w. announces calls (m w)) \<Longrightarrow> announces calls (skip_or c look (skipped_named a b d) m w)"
  by (auto simp: skip_or_def skipped_named_def intro!: announces_bind)


lemma announces_policy: "text_vdom p \<Longrightarrow> announces (plan_action cl ''create_policy'' p ctx) (create_policy cl p w)"
proof -
  assume p: "text_vdom p"
  have new: "announces [api ''POST'' ''cmdb/firewall/policy'' (effVdom cl p) (buildPolicyBody p)] (create_new_policy cl p w)" for w
    unfolding create_new_policy_def Let_def
    by (rule announces_bind) (simp add: split_beta)
  with p show ?thesis
    by (auto simp: plan_action_def scopeOf_eff create_policy_def intro!: announces_bind split: option.split)
qed

lemma announces_route: "text_vdom p \<Longrightarrow> announces (plan_action cl ''create_static_route'' p ctx) (create_static_route cl p w)"
  by (auto simp: plan_action_def scopeOf_eff create_static_route_def create_new_route_def Let_def
      intro!: announces_bind split: option.split)

lemma announces_dhcp: "announces (plan_action cl ''create_dhcp_server'' p ctx) (create_dhcp_server cl p w)"
  by (auto simp: plan_action_def create_dhcp_server_def create_new_dhcp_def Let_def
      intro!: announces_bind split: option.split)

lemma announces_interface: "announces (plan_action cl ''create_vlan_interface'' p ctx) (create_vlan_interface cl p w)"
  by (auto simp: plan_action_def create_vlan_interface_def create_interface_def adopt_interface_def Let_def
      intro!: announces_bind)

lemma announces_named:
  assumes "text_vdom p"
  shows "announces (plan_action cl ''create_address_object'' p ctx) (create_address_object cl p w)"
    and "announces (plan_action cl ''create_service_object'' p ctx) (create_service_object cl p w)"
    and "announces (plan_action cl ''create_vip'' p ctx) (create_vip cl p w)"
  using assms
  by (auto simp: plan_action_def scopeOf_eff create_address_object_def create_service_object_def create_vip_def Let_def
      intro!: announces_skip_or announces_bind)



section \<open>Switch ports\<close>

text \<open>A switch with one port whose allowed VLANs are the state; every creation is refused.\<close>

definition switch_send :: "string \<Rightarrow> string \<Rightarrow> json \<Rightarrow> json list \<Rightarrow> (thrown + json) \<times> json list" where
  "switch_send meth url body w =
     (if meth = ''GET'' then
        (Inr (JObj [(''results'', JArr [JObj [(''ports'', JArr [JObj [(''port-name'', JStr ''port1''),
            (''allowed-vlans'', vlan_entries w)]])]])]), w)
      else if meth = ''PUT'' then (Inr (JObj []), allowed_vlans (hd (elements (js_get body ''ports''))))
      else (Inl (http_thrown 500 ''refused''), w))"

definition switch_client :: "json list client" where
  "switch_client =
     \<lparr>cl_vdom = ''root'', cl_verifyTls = True, cl_allowInsecure = False, cl_parse = (\<lambda>_. None), cl_send = switch_send\<rparr>"

definition assign_port :: "wf_step" where
  "assign_port =
     \<lparr>st_position = 0, st_action = ''assign_switch_port'', st_key = [],
      st_params = JObj [(''serial'', JStr ''S1''), (''port'', JStr ''port1''), (''vlanName'', JStr ''v10'')],
      st_condition = JNull, st_enabled = True, st_continue = False\<rparr>"

text \<open>Assigning a switch port records the VLAN as an artifact of the run also when the port
  carried it before, so the rollback of a later failure takes away a membership the run did not
  create: the port loses VLAN v10, which it had when the run began.\<close>

theorem rollback_drops_existing_vlan:
  "snd (runWorkflow switch_client (assign_port # example_steps) (JObj []) [JStr ''v10'', JStr ''v20'']) = [JStr ''v20'']"
  by code_simp

end
