(* ===== verification/Workflow_Runner.thy ===== *)
theory Workflow_Runner
  imports Workflow_Engine
begin

text \<open>
  \<open>workflows/runner.ts\<close>: running a stored workflow against a firewall and recording the run. Saving
  the record is the parameter \<open>save\<close>: it may refuse, with the PostgreSQL code the error or its
  cause carries (\<open>db/errors.ts\<close>). The client's state \<open>'w\<close> holds the firewall and the database.
\<close>

record db_error =
  de_error :: thrown
  de_cause_code :: json

definition pgCode :: "db_error \<Rightarrow> json" where
  "pgCode e = coalesce (de_cause_code e) (th_code (de_error e))"

definition isUniqueViolation :: "db_error \<Rightarrow> bool" where
  "isUniqueViolation e = (pgCode e = JStr ''23505'')"

definition isForeignKeyViolation :: "db_error \<Rightarrow> bool" where
  "isForeignKeyViolation e = (pgCode e = JStr ''23503'')"

record workflow_row =
  wf_id :: int
  wf_firewall_id :: int
  wf_trigger :: string
  wf_name :: string
  wf_enabled :: bool
  wf_is_default :: bool
  wf_settings :: json

record run_record =
  rr_workflowId :: int
  rr_firewallId :: int
  rr_trigger :: string
  rr_subjectType :: string
  rr_subjectId :: json
  rr_subjectLabel :: string
  rr_status :: string
  rr_log :: "log_entry list"
  rr_artifacts :: "artifact list"
  rr_requestId :: string

record subject =
  su_type :: string
  su_id :: json
  su_label :: string
  su_requestId :: string

datatype bundle_error =
    Disabled string
  | Target_gone string
  | Run_failed run_error
  | Save_failed db_error
  | Bad_run_id

definition assertWorkflowEnabled :: "workflow_row \<Rightarrow> string option" where
  "assertWorkflowEnabled wfl =
     (if wf_enabled wfl then None
      else Some (''Workflow \"'' @ (if wf_name wfl \<noteq> [] then wf_name wfl else wf_trigger wfl) @ ''\" is disabled for this firewall''))"

definition teardownForGoneTarget :: "'w client \<Rightarrow> artifact list \<Rightarrow> 'w \<Rightarrow> string \<times> 'w" where
  "teardownForGoneTarget cl artifacts w =
     (let ((log, errors), w') = teardownArtifacts cl artifacts w
      in (if errors \<noteq> []
          then ''The firewall or VLAN was deleted during provisioning; removing the created objects failed: '' @ join_with ''; '' errors
          else ''The firewall or VLAN was deleted during provisioning; the created objects were removed'', w'))"

definition field_or :: "json \<Rightarrow> string \<Rightarrow> string \<Rightarrow> json" where
  "field_or fw k d = or_else (js_get fw k) (JStr d)"

definition buildFirewallContext :: "json \<Rightarrow> json" where
  "buildFirewallContext fw =
     JObj [(''id'', js_get fw ''id''), (''name'', js_get fw ''name''), (''host'', js_get fw ''host''), (''port'', js_get fw ''port''),
           (''vdom'', js_get fw ''vdom''), (''parent_interface'', js_get fw ''parent_interface''),
           (''wan_interface'', js_get fw ''wan_interface''), (''lab_vdom_link'', js_get fw ''lab_vdom_link''),
           (''root_vdom'', field_or fw ''root_vdom'' ''root''), (''root_vdom_link'', js_get fw ''root_vdom_link''),
           (''route_gateway'', js_get fw ''route_gateway''),
           (''trunk_switch_serial'', field_or fw ''trunk_switch_serial'' []),
           (''trunk_switch_port'', field_or fw ''trunk_switch_port'' []),
           (''external_ip'', field_or fw ''external_ip'' []), (''root_wan_zone'', field_or fw ''root_wan_zone'' ''underlay'')]"

definition run_row_of :: "workflow_row \<Rightarrow> int \<Rightarrow> subject \<Rightarrow> string \<Rightarrow> log_entry list \<Rightarrow> artifact list \<Rightarrow> run_record" where
  "run_row_of wfl firewallId su status log artifacts =
     \<lparr>rr_workflowId = wf_id wfl, rr_firewallId = firewallId, rr_trigger = wf_trigger wfl, rr_subjectType = su_type su,
      rr_subjectId = su_id su, rr_subjectLabel = su_label su, rr_status = status, rr_log = log,
      rr_artifacts = artifacts, rr_requestId = su_requestId su\<rparr>"

definition bare_entry :: "string \<Rightarrow> log_entry" where
  \<comment> \<open>\<open>{ status: 'error', error }\<close>\<close>
  "bare_entry msg = \<lparr>le_stepKey = [], le_action = [], le_status = ''error'', le_error = msg,
                     le_calls = [], le_artifacts = [], le_reverted = []\<rparr>"

definition failed_log :: "bundle_error \<Rightarrow> log_entry list" where
  "failed_log e =
     (case e of
        Run_failed re \<Rightarrow> re_log re
      | Save_failed de \<Rightarrow> [bare_entry (th_message (de_error de))]
      | Bad_run_id \<Rightarrow> [bare_entry ''Workflow run recording did not return a numeric ID'']
      | Disabled m \<Rightarrow> [bare_entry m]
      | Target_gone m \<Rightarrow> [bare_entry m])"

text \<open>The body of the \<open>try\<close>: the run, its record, and the teardown when the record has lost its target\<close>

definition run_and_save ::
  "'w client \<Rightarrow> (run_record \<Rightarrow> 'w \<Rightarrow> (db_error + json) \<times> 'w) \<Rightarrow> workflow_row \<Rightarrow> wf_step list \<Rightarrow> json \<Rightarrow> int \<Rightarrow> subject
    \<Rightarrow> 'w \<Rightarrow> (bundle_error + json \<times> run_state) \<times> 'w" where
  "run_and_save cl save wfl steps ctx firewallId su w =
     (case runWorkflow cl steps ctx w of
        (Inl re, w1) \<Rightarrow> (Inl (Run_failed re), w1)
      | (Inr st, w1) \<Rightarrow>
          (case save (run_row_of wfl firewallId su ''success'' (ru_log st) (ru_artifacts st)) w1 of
             (Inl de, w2) \<Rightarrow>
               if isForeignKeyViolation de
               then let (msg, w3) = teardownForGoneTarget cl (ru_artifacts st) w2 in (Inl (Target_gone msg), w3)
               else (Inl (Save_failed de), w2)
           | (Inr runId, w2) \<Rightarrow>
               (case runId of JNum _ \<Rightarrow> (Inr (runId, st), w2) | _ \<Rightarrow> (Inl Bad_run_id, w2))))"

definition runBundle ::
  "'w client \<Rightarrow> (run_record \<Rightarrow> 'w \<Rightarrow> (db_error + json) \<times> 'w) \<Rightarrow> workflow_row \<Rightarrow> wf_step list \<Rightarrow> json \<Rightarrow> int \<Rightarrow> subject
    \<Rightarrow> 'w \<Rightarrow> (bundle_error + json \<times> run_state) \<times> 'w" where
  "runBundle cl save wfl steps ctx firewallId su w =
     (case assertWorkflowEnabled wfl of
        Some msg \<Rightarrow> (Inl (Disabled msg), w)
      | None \<Rightarrow>
          (case run_and_save cl save wfl steps ctx firewallId su w of
             (Inr res, w') \<Rightarrow> (Inr res, w')
           | (Inl (Target_gone msg), w') \<Rightarrow> (Inl (Target_gone msg), w')
           | (Inl e, w') \<Rightarrow>
               (Inl e, snd (save (run_row_of wfl firewallId su ''failed'' (failed_log e) []) w'))))"

definition previewBundle :: "'w client \<Rightarrow> wf_step list \<Rightarrow> json \<Rightarrow> preview_item list" where
  "previewBundle cl steps ctx = previewWorkflow cl steps ctx"

section \<open>All or nothing\<close>

lemma teardown_owned:
  assumes "fortigate_laws cl objs" "run_owns cl objs objs0 st w"
  shows "objs (snd (teardownArtifacts cl (ru_artifacts st) w)) = objs0
    \<and> snd (fst (teardownArtifacts cl (ru_artifacts st) w)) = []"
proof -
  have own: "list_all is_object (ru_artifacts st)" "objs w = map (object_url cl) (rev (ru_artifacts st)) @ objs0"
    using assms(2) by (simp_all add: run_owns_def)
  then show ?thesis
    using delete_all_newest [OF assms(1) _ own(2)]
    by (simp add: teardownArtifacts_def teardownOrder_objects split_beta teardown_status_def)
qed


section \<open>Examples\<close>

definition example_workflow :: workflow_row where
  "example_workflow = \<lparr>wf_id = 1, wf_firewall_id = 1, wf_trigger = ''port_forward_create'', wf_name = [], wf_enabled = True,
     wf_is_default = False, wf_settings = JObj []\<rparr>"

definition example_subject :: subject where
  "example_subject = \<lparr>su_type = ''port_forward'', su_id = JNum 4, su_label = ''web'', su_requestId = []\<rparr>"

definition refusing_save :: "string \<Rightarrow> run_record \<Rightarrow> 'w \<Rightarrow> (db_error + json) \<times> 'w" where
  \<comment> \<open>refuses the record of a successful run with the given PostgreSQL code\<close>
  "refusing_save code row w =
     (if rr_status row = ''success''
      then (Inl \<lparr>de_error = plain_error ''insert failed'', de_cause_code = JStr code\<rparr>, w) else (Inr (JNum 2), w))"

abbreviation example_run :: "string \<Rightarrow> (bundle_error + json \<times> run_state) \<times> string list" where
  "example_run code \<equiv> runBundle (sim_client []) (refusing_save code) example_workflow example_steps (JObj []) 1 example_subject [''old'']"


text \<open>When the record of a successful run cannot be saved for any reason other than a missing target, the
  objects stay on the firewall: the run is reported as failed and recorded without artifacts, although
  nothing was rolled back, so no record names what was left behind.\<close>

theorem unsaved_run_leaves_objects:
  "snd (example_run ''57P01'') =
     [''/api/v2/cmdb/firewall/vip/web?vdom=root'', ''/api/v2/cmdb/firewall/address/lan?vdom=root'', ''old'']
   \<and> (case fst (example_run ''57P01'') of Inl (Save_failed _) \<Rightarrow> True | _ \<Rightarrow> False)"
  by code_simp

end
