(* ===== verification/Vlan_Teardown.thy ===== *)
theory Vlan_Teardown
  imports Workflow_Engine
begin

text \<open>
  \<open>workflows/subnet.ts\<close>, the addressing of a VLAN, and \<open>deprovisionVlan\<close> of \<open>fortigate.ts\<close>, the
  teardown of a VLAN that asks the firewall for everything that refers to its interface. The
  teardown never throws: every refusal becomes a line of the error list it returns.
\<close>

section \<open>Subnets\<close>

definition deriveSubnet :: "json \<Rightarrow> json \<Rightarrow> subnet option" where
  "deriveSubnet tag settings =
     (case to_num (js_get (js_get settings ''subnet'') ''firstOctet'') of
        JNum n \<Rightarrow> if n < 0 \<or> n > 255 \<or> n = 10 then vlanTagToSubnet tag else tag_subnet (show_int n) tag
      | _ \<Rightarrow> vlanTagToSubnet tag)"

definition short_digits :: "string \<Rightarrow> bool" where
  "short_digits s = (all_digits s \<and> length s \<le> 3)"

definition recorded_base :: "string \<Rightarrow> string option" where
  \<comment> \<open>the match of \<open>^(\d{1,3}\.\d{1,3}\.\d{1,3})\.0\/24$\<close>\<close>
  "recorded_base s =
     (case split_on (CHR ''.'') s of
        [a, b, c, d] \<Rightarrow> if list_all short_digits [a, b, c] \<and> d = ''0/24'' then Some (join_with ''.'' [a, b, c]) else None
      | _ \<Rightarrow> None)"

definition interface_base :: "string \<Rightarrow> string option" where
  "interface_base s =
     (case split_on (CHR ''.'') s of
        [a, b, c, d] \<Rightarrow> if list_all short_digits [a, b, c, d] then Some (join_with ''.'' [a, b, c]) else None
      | _ \<Rightarrow> None)"

record synced_subnet =
  ss_subnet :: subnet
  ss_ip :: "string option"

definition syncedSubnet :: "json \<Rightarrow> json \<Rightarrow> string \<Rightarrow> synced_subnet option" where
  \<comment> \<open>no interface IP is the empty string; \<open>ip\<close> and \<open>gateway\<close> of the result are \<open>ss_ip\<close>\<close>
  "syncedSubnet tag syncedCidr interfaceIp =
     (let m = recorded_base (js_trim (to_str (or_else syncedCidr (JStr []))))
      in case (case m of Some base \<Rightarrow> Some (subnetFromBase base) | None \<Rightarrow> deriveSubnet tag (JObj [])) of
           None \<Rightarrow> None
         | Some sn \<Rightarrow> Some \<lparr>ss_subnet = sn,
             ss_ip = if m \<noteq> None \<and> interfaceIp \<noteq> [] \<and> ipv4InCidr interfaceIp (sn_network sn) then Some interfaceIp else None\<rparr>)"

definition interfaceCidr :: "json \<Rightarrow> json \<Rightarrow> string option" where
  "interfaceCidr iface tag =
     (if \<not> jtruthy iface \<or> \<not> same_number (js_get iface ''vlanId'') tag \<or> js_get iface ''netmask'' \<noteq> JStr ''255.255.255.0''
      then None
      else map_option (\<lambda>base. base @ ''.0/24'') (interface_base (to_str (coalesce (js_get iface ''ip'') (JStr [])))))"

section \<open>Teardown of a VLAN\<close>

definition attempt_delete :: "string \<Rightarrow> ('w \<Rightarrow> (thrown + json) \<times> 'w) \<Rightarrow> string list \<times> 'w \<Rightarrow> string list \<times> 'w" where
  "attempt_delete label m =
     (\<lambda>(errors, w). case m w of (Inl e, w') \<Rightarrow> (errors @ [label @ '': '' @ th_message e], w') | (Inr _, w') \<Rightarrow> (errors, w'))"

definition names_of :: "json \<Rightarrow> string \<Rightarrow> json list" where
  "names_of pol k = map (\<lambda>i. js_get i ''name'') (elements (or_else (js_get pol k) (JArr [])))"

definition refers_to :: "string \<Rightarrow> json \<Rightarrow> bool" where
  "refers_to iface pol = (JStr iface \<in> set (names_of pol ''srcintf'') \<or> JStr iface \<in> set (names_of pol ''dstintf''))"

fun distinct_first :: "string list \<Rightarrow> string list" where
  \<comment> \<open>\<open>new Set([...])\<close>: insertion order, the first of equal elements\<close>
  "distinct_first [] = []"
| "distinct_first (x # xs) = x # filter (\<lambda>y. y \<noteq> x) (distinct_first xs)"

definition delete_each :: "string \<Rightarrow> (string \<Rightarrow> 'w \<Rightarrow> (thrown + json) \<times> 'w) \<Rightarrow> string list \<Rightarrow> string list \<times> 'w \<Rightarrow> string list \<times> 'w" where
  "delete_each label del ids = fold (\<lambda>i. attempt_delete (label @ '' '' @ i) (del i)) ids"

definition drop_policies :: "'w client \<Rightarrow> string \<Rightarrow> json list \<Rightarrow> string list \<times> 'w \<Rightarrow> string list \<times> 'w" where
  "drop_policies cl iface policyIds =
     (\<lambda>(errors, w). case getPolicies cl [] w of
        (Inl e, w') \<Rightarrow> (errors @ [''policy lookup: '' @ th_message e], w')
      | (Inr allp, w') \<Rightarrow>
          let ids = distinct_first (map (\<lambda>p. str p ''policyid'') (filter (refers_to iface) (elements allp)) @ map to_str policyIds)
          in delete_each ''policy'' (\<lambda>i. deletePolicy cl (JStr i) []) ids (errors, w'))"

definition address_name :: "subnet \<Rightarrow> string" where
  "address_name s = ''NET-'' @ sn_networkIp s @ ''_24''"

definition drop_address :: "'w client \<Rightarrow> subnet option \<Rightarrow> string list \<times> 'w \<Rightarrow> string list \<times> 'w" where
  "drop_address cl sn =
     (\<lambda>(errors, w). case sn of
        None \<Rightarrow> (errors, w)
      | Some s \<Rightarrow>
          let name = address_name s in
          (case getAddressObject cl name [] w of
             (Inl e, w') \<Rightarrow> (errors, w')
           | (Inr existing, w') \<Rightarrow>
               if jtruthy existing
               then attempt_delete (''address object '' @ name) (deleteAddressObject cl name []) (errors, w')
               else (errors, w')))"

definition drop_dhcp :: "'w client \<Rightarrow> string \<Rightarrow> json \<Rightarrow> string list \<times> 'w \<Rightarrow> string list \<times> 'w" where
  "drop_dhcp cl iface dhcpServerId =
     (\<lambda>(errors, w). case getDhcpServers cl w of
        (Inl e, w') \<Rightarrow> (errors @ [''dhcp lookup: '' @ th_message e], w')
      | (Inr alld, w') \<Rightarrow>
          let ids = distinct_first
                      (map (\<lambda>d. str d ''id'') (filter (\<lambda>d. js_get d ''interface'' = JStr iface) (elements alld))
                       @ (if jtruthy dhcpServerId then [to_str dhcpServerId] else []))
          in delete_each ''dhcp'' (\<lambda>i. deleteDhcpServer cl (JStr i)) ids (errors, w'))"

definition drop_route :: "'w client \<Rightarrow> string \<Rightarrow> subnet option \<Rightarrow> string list \<times> 'w \<Rightarrow> string list \<times> 'w" where
  "drop_route cl rootVdom sn =
     (case sn of
        None \<Rightarrow> id
      | Some s \<Rightarrow>
          attempt_delete (''static route in '' @ rootVdom)
            (bind_call (getStaticRoutes cl rootVdom) (\<lambda>routes.
               case find (\<lambda>r. js_get r ''dst'' = JStr (sn_networkIp s @ '' '' @ sn_netmask s)) (elements routes) of
                 None \<Rightarrow> return_call JUndef
               | Some r \<Rightarrow> deleteStaticRoute cl (or_else (js_get r ''seq-num'') (js_get r ''seq_num'')) rootVdom)))"

record teardown_opts =
  to_rootVdom :: string
  to_trunkSwitchSerial :: string
  to_trunkSwitchPort :: string

fun remove_first :: "string \<Rightarrow> string \<Rightarrow> string" where
  \<comment> \<open>\<open>s.replace(pat, '')\<close> with a non-empty text pattern: its first occurrence\<close>
  "remove_first pat [] = []"
| "remove_first pat (c # s) = (if starts_with pat (c # s) then drop (length pat) (c # s) else c # remove_first pat s)"

definition interface_subnet :: "string \<Rightarrow> subnet option" where
  "interface_subnet iface =
     vlanTagToSubnet (case parse_int (remove_first ''vlan'' iface) of Some n \<Rightarrow> JNum n | None \<Rightarrow> JNaN)"

definition deprovisionVlan ::
  "'w client \<Rightarrow> string \<Rightarrow> json list \<Rightarrow> json \<Rightarrow> teardown_opts \<Rightarrow> 'w \<Rightarrow> string list \<times> 'w" where
  "deprovisionVlan cl iface policyIds dhcpServerId opts w =
     (let rootVdom = (if to_rootVdom opts \<noteq> [] then to_rootVdom opts else ''root'');
          sn = interface_subnet iface;
          st1 = drop_policies cl iface policyIds ([], w);
          st2 = drop_address cl sn st1;
          st3 = drop_dhcp cl iface dhcpServerId st2;
          st4 = drop_route cl rootVdom sn st3;
          st5 = (if to_trunkSwitchSerial opts \<noteq> [] \<and> to_trunkSwitchPort opts \<noteq> []
                 then attempt_delete ''switch port vlan remove''
                        (removeManagedSwitchPortVlan cl (to_trunkSwitchSerial opts) (to_trunkSwitchPort opts) iface rootVdom) st4
                 else st4);
          (errors, w6) = attempt_delete (''interface '' @ iface) (deleteInterface cl iface) st5
      in (errors, snd (deleteSwitchControllerVlan cl iface rootVdom w6)))"

section \<open>The addresses of a tag\<close>

lemma padded_tag:
  assumes "t \<le> 9999"
  shows "\<exists>s. pad_start 4 (CHR ''0'') (show_nat t) = s \<and> length s = 4 \<and> list_all is_digit s \<and> nat_of_digits s = t"
  using length_show_nat_le [of t 4] assms
  by (simp add: all_digits_pad_start show_nat_list_all max_def)

lemma tag_subnet_formula:
  assumes "t \<le> 9999"
  shows "tag_subnet first (JNum (int t)) =
    Some (subnetFromBase (first @ ''.'' @ show_nat (t div 100) @ ''.'' @ show_nat (t mod 100)))"
proof -
  define s where "s = pad_start 4 (CHR ''0'') (show_nat t)"
  have s: "length s = 4" "list_all is_digit s" "nat_of_digits s = t"
    using padded_tag [OF assms] by (simp_all add: s_def)
  have d: "list_all is_digit (take 2 s)" "list_all is_digit (drop 2 s)"
    using s(2) by (auto simp: list_all_iff dest: in_set_takeD in_set_dropD)
  have "t = nat_of_digits (take 2 s) * 100 + nat_of_digits (drop 2 s)"
    using nat_of_digits_append [of "take 2 s" "drop 2 s"] s by simp
  moreover have "nat_of_digits (drop 2 s) < 100"
    using nat_of_digits_less [OF d(2)] s(1) by simp
  ultimately have v: "nat_of_digits (take 2 s) = t div 100" "nat_of_digits (drop 2 s) = t mod 100"
    by auto
  have "t div 100 \<le> 99" using assms by simp
  moreover have "t mod 100 < 100" by simp
  moreover have "parse_int (take 2 s) = Some (int (t div 100))" "parse_int (drop 2 s) = Some (int (t mod 100))"
    using d s(1) by (simp_all add: parse_int_digits all_digits_def v flip: length_greater_0_conv)
  ultimately show ?thesis
    using s(1) by (simp add: tag_subnet_def Let_def octet_text_def show_int_def flip: s_def)
qed

lemma show_consts: "show_nat 0 = ''0''" "show_nat 1 = ''1''" "show_nat (Suc 0) = ''1''" "show_nat 10 = ''10''" "show_nat 24 = ''24''"
  by code_simp+

lemma dotted_base: "dotted [a, b, c, d] = show_nat a @ ''.'' @ show_nat b @ ''.'' @ show_nat c @ ''.'' @ show_nat d"
  by (simp add: dotted_def)

lemma deriveSubnet_formula:
  assumes "t \<le> 9999"
  obtains a where "a \<le> 255" "\<And>t. t \<le> 9999 \<Longrightarrow> deriveSubnet (JNum (int t)) settings =
      Some (subnetFromBase (show_nat a @ ''.'' @ show_nat (t div 100) @ ''.'' @ show_nat (t mod 100)))"
proof (cases "to_num (js_get (js_get settings ''subnet'') ''firstOctet'')")
  case (JNum n)
  show thesis
  proof (cases "n < 0 \<or> n > 255 \<or> n = 10")
    case True
    show thesis
      by (rule that [of 10]) (use JNum True in \<open>auto simp: deriveSubnet_def vlanTagToSubnet_def tag_subnet_formula show_consts\<close>)
  next
    case False
    show thesis
      by (rule that [of "nat n"]) (use JNum False in \<open>auto simp: deriveSubnet_def tag_subnet_formula show_int_def\<close>)
  qed
qed (rule that [of 10], simp, simp add: deriveSubnet_def vlanTagToSubnet_def tag_subnet_formula show_consts)+

lemma subnet_network: "sn_network (subnetFromBase (show_nat a @ ''.'' @ show_nat b @ ''.'' @ show_nat c)) = dotted [a, b, c, 0] @ ''/24''"
  and subnet_ip: "sn_ip (subnetFromBase (show_nat a @ ''.'' @ show_nat b @ ''.'' @ show_nat c)) = dotted [a, b, c, 1]"
  by (simp_all add: subnetFromBase_def dotted_base show_consts)

lemma quad3: "a \<le> 255 \<Longrightarrow> t \<le> 9999 \<Longrightarrow> d \<le> 255 \<Longrightarrow> quad [a, t div 100, t mod 100, d]"
  using less_imp_le_nat [of "t mod 100" 100] by (simp add: quad_def) linarith

lemma in_slash24:
  assumes "quad [a, b, c, 0]" "quad ns"
  shows "ipv4InCidr (dotted ns) (dotted [a, b, c, 0] @ ''/24'') \<longleftrightarrow> quad_value ns div 256 = (a * 256 + b) * 256 + c"
proof -
  have "quad_value [a, b, c, 0] div 256 = (a * 256 + b) * 256 + c" by (simp add: quad_value_def)
  with ipv4InCidr_dotted [OF assms(2,1), of 24] show ?thesis by (simp add: show_consts)
qed

lemma base_256:
  fixes a x y x' y' :: nat
  assumes "(a * 256 + x) * 256 + y = (a * 256 + x') * 256 + y'" "y < 256" "y' < 256"
  shows "x = x' \<and> y = y'"
proof -
  have "((a * 256 + x) * 256 + y) div 256 = a * 256 + x" "((a * 256 + x') * 256 + y') div 256 = a * 256 + x'"
    using assms(2,3) by simp_all
  with assms(1) have "a * 256 + x = a * 256 + x'" by metis
  then have "x = x'" by simp
  with assms(1) show ?thesis by simp
qed

lemma ipv4InCidr_quad: "ipv4InCidr ip c \<Longrightarrow> \<exists>ns. quad ns \<and> ip = dotted ns"
  by (auto simp: ipv4InCidr_def ipv4Number_def Let_def dest: octets_Some split: option.splits)

text \<open>Distinct VLAN tags get disjoint subnets: under any first-octet setting every tag from 0 to 9999
  has a subnet, and no address lies in the subnets of two tags.\<close>

theorem tag_subnets_disjoint:
  assumes "t \<le> 9999" "u \<le> 9999" "t \<noteq> u"
  shows "\<exists>s r. deriveSubnet (JNum (int t)) settings = Some s \<and> deriveSubnet (JNum (int u)) settings = Some r
    \<and> \<not> (ipv4InCidr ip (sn_network s) \<and> ipv4InCidr ip (sn_network r))"
proof -
  obtain a where a: "a \<le> 255" "\<And>t. t \<le> 9999 \<Longrightarrow> deriveSubnet (JNum (int t)) settings =
      Some (subnetFromBase (show_nat a @ ''.'' @ show_nat (t div 100) @ ''.'' @ show_nat (t mod 100)))"
    using deriveSubnet_formula [OF assms(1)] by blast
  have "\<not> (ipv4InCidr ip (dotted [a, t div 100, t mod 100, 0] @ ''/24'') \<and> ipv4InCidr ip (dotted [a, u div 100, u mod 100, 0] @ ''/24''))"
  proof
    assume both: "ipv4InCidr ip (dotted [a, t div 100, t mod 100, 0] @ ''/24'') \<and> ipv4InCidr ip (dotted [a, u div 100, u mod 100, 0] @ ''/24'')"
    then obtain ns where "quad ns" "ip = dotted ns" using ipv4InCidr_quad by blast
    with both in_slash24 [of a "t div 100" "t mod 100" ns] in_slash24 [of a "u div 100" "u mod 100" ns]
      quad3 [OF a(1) assms(1), of 0] quad3 [OF a(1) assms(2), of 0]
    have "(a * 256 + t div 100) * 256 + t mod 100 = (a * 256 + u div 100) * 256 + u mod 100" by simp
    moreover have "t mod 100 < 256" "u mod 100 < 256" by (simp_all add: less_trans [OF mod_less_divisor])
    ultimately have "t div 100 = u div 100 \<and> t mod 100 = u mod 100" by (rule base_256)
    with assms(3) show False using div_mult_mod_eq [of t 100] div_mult_mod_eq [of u 100] by simp
  qed
  with a(2) [OF assms(1)] a(2) [OF assms(2)] show ?thesis by (simp add: subnet_network [simplified])
qed


lemma dotted_trim_network: "js_trim (dotted ns @ ''/24'') = dotted ns @ ''/24''"
  by (rule js_trim_id) (auto simp: list_all_iff is_ws_def is_digit_def dest!: dotted_chars)

lemma short_digits_show: "n \<le> 255 \<Longrightarrow> short_digits (show_nat n)"
  using canonical_octet by (simp add: short_digits_def)

lemma split_network: "split_on (CHR ''.'') (dotted [a, b, c, d] @ s) = [show_nat a, show_nat b, show_nat c] @ split_on (CHR ''.'') (show_nat d @ s)"
proof -
  have n: "CHR ''.'' \<notin> set (show_nat n)" for n by (auto simp: is_digit_def dest!: show_nat_chars)
  show ?thesis using split_on_append [OF n] by (simp add: dotted_base)
qed

lemma recorded_base_network:
  assumes "quad [a, b, c, 0]"
  shows "recorded_base (dotted [a, b, c, 0] @ ''/24'') = Some (show_nat a @ ''.'' @ show_nat b @ ''.'' @ show_nat c)"
  using assms by (simp add: recorded_base_def split_network show_consts short_digits_show quad_def)

lemma interface_base_ip:
  assumes "quad [a, b, c, d]"
  shows "interface_base (dotted [a, b, c, d]) = Some (show_nat a @ ''.'' @ show_nat b @ ''.'' @ show_nat c)"
  using assms split_dotted [of "[a, b, c, d]"] by (simp add: interface_base_def short_digits_show quad_def)

text \<open>What a sync records, a later reader gets back: the /24 taken from the interface step of a tag
  (\<open>interfaceCidr\<close>) is the network of the tag's subnet, and \<open>syncedSubnet\<close> rebuilds from that record
  the same subnet with the interface's address as gateway, whatever the tag of the VLAN has become.\<close>

theorem recorded_subnet_roundtrip:
  assumes "t \<le> 9999" "deriveSubnet (JNum (int t)) settings = Some sn"
  shows "interfaceCidr (JObj [(''vlanId'', JNum (int t)), (''ip'', JStr (sn_ip sn)), (''netmask'', JStr (sn_netmask sn))]) (JNum (int t))
           = Some (sn_network sn)
    \<and> syncedSubnet later (JStr (sn_network sn)) (sn_ip sn) = Some \<lparr>ss_subnet = sn, ss_ip = Some (sn_ip sn)\<rparr>"
proof -
  obtain a where a: "a \<le> 255" "\<And>t. t \<le> 9999 \<Longrightarrow> deriveSubnet (JNum (int t)) settings =
      Some (subnetFromBase (show_nat a @ ''.'' @ show_nat (t div 100) @ ''.'' @ show_nat (t mod 100)))"
    using deriveSubnet_formula [OF assms(1)] by blast
  define base where "base = show_nat a @ ''.'' @ show_nat (t div 100) @ ''.'' @ show_nat (t mod 100)"
  have sn: "sn = subnetFromBase base" using a(2) [OF assms(1)] assms(2) by (simp add: base_def)
  have q0: "quad [a, t div 100, t mod 100, 0]" and q1: "quad [a, t div 100, t mod 100, 1]"
    using quad3 [OF a(1) assms(1)] by simp_all
  have net: "sn_network sn = dotted [a, t div 100, t mod 100, 0] @ ''/24''" and ip: "sn_ip sn = dotted [a, t div 100, t mod 100, 1]"
    by (simp_all only: sn base_def subnet_network subnet_ip)
  have mask: "sn_netmask sn = ''255.255.255.0''" and netb: "sn_network sn = base @ ''.0/24''"
    by (simp_all add: sn subnetFromBase_def)
  have rb: "recorded_base (sn_network sn) = Some base" and ib: "interface_base (sn_ip sn) = Some base"
    by (simp_all only: net ip recorded_base_network [OF q0] interface_base_ip [OF q1] base_def)
  have t: "js_trim (sn_network sn) = sn_network sn" and ne: "sn_ip sn \<noteq> []" "sn_network sn \<noteq> []"
    by (simp_all add: net ip dotted_trim_network dotted_not_Nil)
  have inc: "ipv4InCidr (sn_ip sn) (sn_network sn)"
    unfolding net ip by (simp add: in_slash24 [OF q0 q1] quad_value_def del: One_nat_def)
  have "interfaceCidr (JObj [(''vlanId'', JNum (int t)), (''ip'', JStr (sn_ip sn)), (''netmask'', JStr (sn_netmask sn))]) (JNum (int t))
      = Some (sn_network sn)"
    by (simp add: interfaceCidr_def same_number_def to_num_def coalesce_def nullish_def mask ib netb)
  moreover have "syncedSubnet later (JStr (sn_network sn)) (sn_ip sn) = Some \<lparr>ss_subnet = sn, ss_ip = Some (sn_ip sn)\<rparr>"
    using inc by (simp add: syncedSubnet_def or_else_def ne t rb flip: sn)
  ultimately show ?thesis by blast
qed


section \<open>The order of a teardown\<close>

text \<open>A client whose state keeps the requests it sent, in order\<close>

definition logs :: "'w client \<Rightarrow> ('w \<Rightarrow> (string \<times> string) list) \<Rightarrow> bool" where
  "logs cl log \<longleftrightarrow> (cl_verifyTls cl \<or> cl_allowInsecure cl)
     \<and> (\<forall>meth url body w. log (snd (cl_send cl meth url body w)) = log w @ [(meth, url)])"

definition appends :: "('w \<Rightarrow> 'c list) \<Rightarrow> ('w \<Rightarrow> 'a \<times> 'w) \<Rightarrow> bool" where
  "appends log m = (\<forall>w. \<exists>cs. log (snd (m w)) = log w @ cs)"

definition grows :: "('w \<Rightarrow> 'c list) \<Rightarrow> (string list \<times> 'w \<Rightarrow> string list \<times> 'w) \<Rightarrow> bool" where
  "grows log f = (\<forall>st. \<exists>cs. log (snd (f st)) = log (snd st) @ cs)"

lemma log_request:
  "logs cl log \<Longrightarrow> log (snd (request cl meth path data vdom w)) = log w @ [(meth, request_url cl path vdom)]"
  by (auto simp: logs_def request_def)

named_theorems call_appends

lemma appends_request [call_appends]: "logs cl log \<Longrightarrow> appends log (request cl meth path data vdom)"
  by (simp add: appends_def log_request)

lemma appends_trans: "\<exists>cs. log w1 = log w @ cs \<Longrightarrow> \<exists>cs. log w2 = log w1 @ cs \<Longrightarrow> \<exists>cs. log w2 = log w @ cs"
  for log :: "'w \<Rightarrow> 'c list"
  by auto

lemma appends_bind [call_appends]:
  assumes "appends log m" "\<And>x. appends log (f x)"
  shows "appends log (bind_call m f)"
  unfolding appends_def
proof
  fix w
  from assms(1) have 1: "\<exists>cs. log (snd (m w)) = log w @ cs" by (simp add: appends_def)
  show "\<exists>cs. log (snd (bind_call m f w)) = log w @ cs"
  proof (cases "fst (m w)")
    case (Inl e)
    with 1 show ?thesis by (simp add: bind_call_eq)
  next
    case (Inr x)
    have "\<exists>cs. log (snd (f x (snd (m w)))) = log (snd (m w)) @ cs" using assms(2) by (simp add: appends_def)
    with 1 Inr show ?thesis by (auto simp: bind_call_eq)
  qed
qed

lemma appends_catch [call_appends]:
  assumes "appends log m" "\<And>x. appends log (h x)"
  shows "appends log (catch_call m h)"
  unfolding appends_def
proof
  fix w
  from assms(1) have 1: "\<exists>cs. log (snd (m w)) = log w @ cs" by (simp add: appends_def)
  show "\<exists>cs. log (snd (catch_call m h w)) = log w @ cs"
  proof (cases "fst (m w)")
    case (Inl e)
    have "\<exists>cs. log (snd (h e (snd (m w)))) = log (snd (m w)) @ cs" using assms(2) by (simp add: appends_def)
    with 1 Inl show ?thesis by (auto simp: catch_call_eq)
  next
    case (Inr x)
    with 1 show ?thesis by (simp add: catch_call_eq)
  qed
qed

lemma appends_pure [call_appends]:
  "appends log (return_call x)" "appends log (throw_call e)" "appends log (list_results r)"
  by (simp_all add: appends_def return_call_def throw_call_def list_results_def)

lemma appends_get [call_appends]:
  "logs cl log \<Longrightarrow> appends log (get_list cl path vdom)"
  "logs cl log \<Longrightarrow> appends log (get_or_null cl path vdom)"
  unfolding get_list_def get_or_null_def by (auto intro!: call_appends)

lemma appends_switch_port [call_appends]: "logs cl log \<Longrightarrow> appends log (switch_port cl serial port vdom)"
  unfolding switch_port_def getManagedSwitch_def by (auto intro!: call_appends split: option.split)

lemma appends_remove_vlan [call_appends]:
  "logs cl log \<Longrightarrow> appends log (removeManagedSwitchPortVlan cl serial port vlan vdom)"
  unfolding removeManagedSwitchPortVlan_def put_port_def Let_def by (auto intro!: call_appends)

lemma snd_attempt [simp]: "snd (attempt_delete label m st) = snd (m (snd st))"
  by (simp add: attempt_delete_def split_beta split: sum.split)

lemma grows_attempt: "appends log m \<Longrightarrow> grows log (attempt_delete label m)"
  by (simp add: grows_def appends_def)

lemma grows_comp: "grows log f \<Longrightarrow> grows log g \<Longrightarrow> grows log (\<lambda>st. g (f st))"
proof -
  assume f: "grows log f" and g: "grows log g"
  have "\<exists>cs. log (snd (g (f st))) = log (snd st) @ cs" for st
  proof -
    obtain cs where "log (snd (f st)) = log (snd st) @ cs" using f unfolding grows_def by blast
    moreover obtain ds where "log (snd (g (f st))) = log (snd (f st)) @ ds" using g unfolding grows_def by blast
    ultimately show ?thesis by simp
  qed
  then show ?thesis by (simp add: grows_def)
qed

lemma grows_delete_each: "(\<And>i. appends log (del i)) \<Longrightarrow> grows log (delete_each label del ids)"
  unfolding delete_each_def
proof (induction ids)
  case Nil
  then show ?case by (simp add: grows_def)
next
  case (Cons i ids)
  then show ?case using grows_comp [OF grows_attempt [OF Cons.prems]] by (simp add: comp_def)
qed

lemma appends_pair: "appends log m \<Longrightarrow> m w = (r, w') \<Longrightarrow> \<exists>cs. log w' = log w @ cs"
  by (metis appends_def snd_conv)

lemma growsD: "grows log f \<Longrightarrow> \<exists>cs. log (snd (f (errors, w))) = log w @ cs"
  by (simp add: grows_def)

lemma growsI: "(\<And>errors w. \<exists>cs. log (snd (f (errors, w))) = log w @ cs) \<Longrightarrow> grows log f"
  by (simp add: grows_def)

lemma grows_id: "grows log id" "grows log (\<lambda>st. st)"
  by (simp_all add: grows_def)

lemma appends_methods [call_appends]:
  assumes "logs cl log"
  shows "appends log (getAddressObject cl name v)" "appends log (deleteAddressObject cl name v)"
    "appends log (getDhcpServers cl)" "appends log (deleteDhcpServer cl i)"
    "appends log (getStaticRoutes cl v)" "appends log (deleteStaticRoute cl i v)"
    "appends log (getPolicies cl v)" "appends log (deletePolicy cl i v)"
  by (simp_all add: getAddressObject_def deleteAddressObject_def getDhcpServers_def deleteDhcpServer_def
      getStaticRoutes_def deleteStaticRoute_def getPolicies_def deletePolicy_def call_appends assms)

lemma grows_address:
  assumes laws: "logs cl log"
  shows "grows log (drop_address cl sn)"
proof (cases sn)
  case None
  then show ?thesis by (simp add: drop_address_def grows_def)
next
  case (Some s)
  let ?name = "address_name s"
  show ?thesis
  proof (rule growsI)
    fix errors w
    obtain r w' where m: "getAddressObject cl ?name [] w = (r, w')" by fastforce
    have 1: "\<exists>cs. log w' = log w @ cs" by (rule appends_pair [where m = "getAddressObject cl ?name []", OF _ m]) (simp add: call_appends laws)
    have 2: "\<exists>cs. log (snd (deleteAddressObject cl ?name [] w')) = log w' @ cs"
      using appends_methods(2) [OF laws] by (simp add: appends_def)
    have "snd (drop_address cl sn (errors, w)) = w' \<or> snd (drop_address cl sn (errors, w)) = snd (deleteAddressObject cl ?name [] w')"
      by (cases r) (simp_all add: drop_address_def Some Let_def m)
    with 1 2 show "\<exists>cs. log (snd (drop_address cl sn (errors, w))) = log w @ cs" by auto
  qed
qed

lemma grows_dhcp:
  assumes laws: "logs cl log"
  shows "grows log (drop_dhcp cl iface d)"
proof (rule growsI)
  fix errors w
  obtain r w' where m: "getDhcpServers cl w = (r, w')" by fastforce
  have 1: "\<exists>cs. log w' = log w @ cs" by (rule appends_pair [where m = "getDhcpServers cl", OF _ m]) (simp add: call_appends laws)
  have 2: "\<exists>cs. log (snd (delete_each ''dhcp'' (\<lambda>i. deleteDhcpServer cl (JStr i)) ids (errors, w'))) = log w' @ cs" for ids
    by (rule growsD) (simp add: grows_delete_each call_appends laws)
  show "\<exists>cs. log (snd (drop_dhcp cl iface d (errors, w))) = log w @ cs"
  proof (cases r)
    case (Inl e)
    with 1 show ?thesis by (simp add: drop_dhcp_def m)
  next
    case (Inr alld)
    obtain ids where "drop_dhcp cl iface d (errors, w) = delete_each ''dhcp'' (\<lambda>i. deleteDhcpServer cl (JStr i)) ids (errors, w')"
      by (simp add: drop_dhcp_def m Inr Let_def)
    with 1 2 [of ids] show ?thesis by auto
  qed
qed

lemma grows_route:
  assumes laws: "logs cl log"
  shows "grows log (drop_route cl v sn)"
proof (cases sn)
  case None
  then show ?thesis by (simp add: drop_route_def grows_id)
next
  case (Some s)
  then show ?thesis unfolding drop_route_def
    by (auto intro!: grows_attempt call_appends laws split: option.split)
qed

text \<open>Every id in the list is asked for, in the list's order.\<close>

lemma log_delete_policies:
  assumes laws: "logs cl log"
  shows "log (snd (delete_each label (\<lambda>i. deletePolicy cl (JStr i) []) ids st))
    = log (snd st) @ map (\<lambda>i. (''DELETE'', request_url cl (''cmdb/firewall/policy/'' @ i) [])) ids"
  unfolding delete_each_def
  by (induction ids arbitrary: st) (simp_all add: deletePolicy_def log_request [OF laws])

lemma set_distinct_first [simp]: "set (distinct_first xs) = set xs"
  by (induction xs) auto

lemma distinct_distinct_first: "distinct (distinct_first xs)"
  by (induction xs) auto

lemma log_drop_policies:
  assumes laws: "logs cl log" and look: "getPolicies cl [] w = (Inr allp, w0)"
  shows "log (snd (drop_policies cl iface ids (errors, w))) = log w @ (''GET'', request_url cl ''cmdb/firewall/policy'' [])
    # map (\<lambda>i. (''DELETE'', request_url cl (''cmdb/firewall/policy/'' @ i) []))
        (distinct_first (map (\<lambda>p. str p ''policyid'') (filter (refers_to iface) (elements allp)) @ map to_str ids))"
proof -
  have "snd (getPolicies cl [] w) = snd (request cl ''GET'' ''cmdb/firewall/policy'' JNull [] w)"
    by (simp add: getPolicies_def get_list_def bind_call_eq list_results_def split: sum.split)
  with look have "log w0 = log w @ [(''GET'', request_url cl ''cmdb/firewall/policy'' [])]"
    by (simp add: log_request [OF laws])
  then show ?thesis
    by (simp add: drop_policies_def look Let_def log_delete_policies [OF laws])
qed


text \<open>A firewall that answers every read with the same policy and keeps the requests\<close>

definition log_client :: "(string \<times> string) list client" where
  "log_client =
     \<lparr>cl_vdom = ''lab'', cl_verifyTls = True, cl_allowInsecure = False, cl_parse = (\<lambda>_. None),
      cl_send = (\<lambda>meth url body w.
        (Inr (JObj [(''results'', JArr [JObj [(''policyid'', JNum 7),
            (''srcintf'', JArr [JObj [(''name'', JStr ''vlan1126'')]])]])]), w @ [(meth, url)]))\<rparr>"


end
