(* ===== verification/Payment_Money.thy ===== *)
theory Payment_Money
  imports Json
begin

text \<open>
  \<open>services/paypalMoney.ts\<close>: amounts of money. The portal counts in oere (integers); a member types
  a decimal amount, PayPal reports decimal strings with a currency. The normalisers turn a
  provider's resource into the receipt or refund the ledger posts, or refuse it. Reading a date
  (\<open>new Date(x).getTime()\<close>) is the parameter \<open>date_of\<close>, with \<open>None\<close> for an invalid date.
\<close>

datatype pp_error = PayPalError string int

type_synonym date_reader = "json \<Rightarrow> int option"

definition MAX_SAFE :: int where
  "MAX_SAFE = 9007199254740991"

section \<open>Decimal text\<close>

definition digits_between :: "nat \<Rightarrow> nat \<Rightarrow> string \<Rightarrow> bool" where
  "digits_between lo hi s = (list_all is_digit s \<and> lo \<le> length s \<and> length s \<le> hi)"

definition decimal_text :: "(string \<Rightarrow> bool) \<Rightarrow> nat \<Rightarrow> string \<Rightarrow> bool" where
  \<comment> \<open>\<open>^whole(?:\.\d{1,n})?$\<close>\<close>
  "decimal_text whole n s =
     (case split_on (CHR ''.'') s of
        [w] \<Rightarrow> whole w
      | [w, f] \<Rightarrow> whole w \<and> digits_between 1 n f
      | _ \<Rightarrow> False)"

definition ore_of_text :: "string \<Rightarrow> int" where
  \<comment> \<open>\<open>Number(whole) * 100 + Number(fraction.padEnd(2, '0'))\<close>\<close>
  "ore_of_text s =
     (case split_on (CHR ''.'') s of
        w # f # _ \<Rightarrow> int (nat_of_digits w) * 100 + int (nat_of_digits (pad_end 2 (CHR ''0'') f))
      | [w] \<Rightarrow> int (nat_of_digits w) * 100
      | [] \<Rightarrow> 0)"

definition member_whole :: "string \<Rightarrow> bool" where
  "member_whole w = (w = ''0'' \<or> digits_between 1 6 w \<and> hd w \<noteq> CHR ''0'')"

definition parseDkkOre :: "json \<Rightarrow> pp_error + int" where
  "parseDkkOre value =
     (case value of
        JStr s \<Rightarrow>
          if \<not> decimal_text member_whole 2 s then Inl (PayPalError ''INVALID_AMOUNT'' 400)
          else let ore = ore_of_text s in
               if ore < 500 \<or> ore > 100000 then Inl (PayPalError ''AMOUNT_OUT_OF_RANGE'' 400) else Inr ore
      | _ \<Rightarrow> Inl (PayPalError ''INVALID_AMOUNT'' 400))"

definition oreToDkk :: "int \<Rightarrow> string" where
  "oreToDkk ore = show_int (ore div 100) @ ''.'' @ pad_start 2 (CHR ''0'') (show_int (js_rem ore 100))"

definition provider_whole :: "string \<Rightarrow> bool" where
  "provider_whole w = (list_all is_digit w \<and> w \<noteq> [])"

definition safe_ore :: "int \<Rightarrow> int option" where
  "safe_ore ore = (if \<bar>ore\<bar> \<le> MAX_SAFE then Some ore else None)"

definition providerOre :: "json \<Rightarrow> int option" where
  "providerOre amount =
     (if \<not> jtruthy amount \<or> js_get amount ''currency_code'' \<noteq> JStr ''DKK'' then None
      else case js_get amount ''value'' of
             JStr s \<Rightarrow> if decimal_text provider_whole 2 s then safe_ore (ore_of_text s) else None
           | _ \<Rightarrow> None)"

definition unsigned_text :: "string \<Rightarrow> string" where
  "unsigned_text s = (if starts_with ''-'' s then tl s else s)"

definition providerSignedOre :: "json \<Rightarrow> int option" where
  "providerSignedOre amount =
     (if \<not> jtruthy amount \<or> js_get amount ''currency_code'' \<noteq> JStr ''DKK'' then None
      else case js_get amount ''value'' of
             JStr s \<Rightarrow>
               if decimal_text provider_whole 2 (unsigned_text s)
               then safe_ore ((if starts_with ''-'' s then -1 else 1) * ore_of_text (unsigned_text s)) else None
           | _ \<Rightarrow> None)"

section \<open>Foreign currency\<close>

definition is_upper :: "char \<Rightarrow> bool" where
  "is_upper c = (65 \<le> (of_char c :: nat) \<and> (of_char c :: nat) \<le> 90)"

definition iso_code :: "string \<Rightarrow> bool" where
  "iso_code s = (length s = 3 \<and> list_all is_upper s)"

definition foreign_field :: "json \<Rightarrow> string \<Rightarrow> (string \<times> string \<times> string) list" where
  "foreign_field source field =
     (let amount = js_get source field in
      case (js_get amount ''currency_code'', js_get amount ''value'') of
        (JStr c, JStr v) \<Rightarrow>
          if iso_code c \<and> c \<noteq> ''DKK'' \<and> decimal_text (digits_between 1 15) 8 (unsigned_text v) then [(field, c, v)] else []
      | _ \<Rightarrow> [])"

definition foreign_rate :: "json \<Rightarrow> (string \<times> string \<times> string) list" where
  "foreign_rate source =
     (let rate = js_get source ''exchange_rate'';
          from_c = to_str (or_else (js_get rate ''source_currency'') (JStr []));
          to_c = to_str (or_else (js_get rate ''target_currency'') (JStr []))
      in case js_get rate ''value'' of
           JStr v \<Rightarrow> if decimal_text (digits_between 1 10) 12 v \<and> iso_code from_c \<and> iso_code to_c
                     then [(''exchange_rate'', from_c @ ''/'' @ to_c, v)] else []
         | _ \<Rightarrow> [])"

definition foreignAmounts :: "json \<Rightarrow> string list \<Rightarrow> (string \<times> string \<times> string) list" where
  \<comment> \<open>the empty list is the code's \<open>null\<close>\<close>
  "foreignAmounts source fields = concat (map (foreign_field source) fields) @ foreign_rate source"

section \<open>Receipts and refunds\<close>

record receipt =
  rc_transactionId :: string
  rc_grossOre :: "int option"
  rc_feeOre :: "int option"
  rc_netOre :: "int option"
  rc_effectiveAt :: int
  rc_foreign :: "(string \<times> string \<times> string) list"
  rc_status :: string

record refund =
  rf_transactionId :: string
  rf_originalId :: string
  rf_grossOre :: int
  rf_feeCreditOre :: "int option"
  rf_netDebitOre :: "int option"
  rf_effectiveAt :: int

definition unbalanced :: "int option \<Rightarrow> int option \<Rightarrow> int option \<Rightarrow> bool" where
  "unbalanced gross fee net = (case (gross, fee, net) of (Some g, Some f, Some n) \<Rightarrow> g - f \<noteq> n | _ \<Rightarrow> False)"

definition date_field :: "date_reader \<Rightarrow> json \<Rightarrow> string \<Rightarrow> string \<Rightarrow> int option" where
  "date_field date_of v a b = date_of (or_else (js_get v a) (js_get v b))"

record expected_capture =
  ex_orderId :: string
  ex_merchantId :: string
  ex_amountOre :: int

definition capture_matches :: "json \<Rightarrow> expected_capture \<Rightarrow> bool" where
  "capture_matches capture ex =
     (js_get capture ''status'' \<in> JStr ` {''COMPLETED'', ''PARTIALLY_REFUNDED'', ''REFUNDED'', ''REVERSED''}
      \<and> (case js_get capture ''id'' of JStr _ \<Rightarrow> True | _ \<Rightarrow> False)
      \<and> js_get (js_get capture ''payee'') ''merchant_id'' = JStr (ex_merchantId ex)
      \<and> js_get (js_get (js_get capture ''supplementary_data'') ''related_ids'') ''order_id'' = JStr (ex_orderId ex)
      \<and> providerOre (js_get capture ''amount'') = Some (ex_amountOre ex))"

definition normalizeCompletedCapture :: "date_reader \<Rightarrow> json \<Rightarrow> expected_capture \<Rightarrow> pp_error + receipt" where
  "normalizeCompletedCapture date_of capture ex =
     (if \<not> capture_matches capture ex then Inl (PayPalError ''CAPTURE_MISMATCH'' 409)
      else
        let breakdown = js_get capture ''seller_receivable_breakdown'';
            gross = providerOre (js_get breakdown ''gross_amount'');
            fee = providerOre (js_get breakdown ''paypal_fee'');
            net = providerOre (js_get breakdown ''net_amount'');
            foreign = foreignAmounts breakdown [''gross_amount'', ''paypal_fee'', ''net_amount'', ''receivable_amount'']
        in if gross \<noteq> None \<and> gross \<noteq> Some (ex_amountOre ex) then Inl (PayPalError ''CAPTURE_MISMATCH'' 409)
           else if unbalanced gross fee net then Inl (PayPalError ''BREAKDOWN_MISMATCH'' 409)
           else (case date_field date_of capture ''create_time'' ''update_time'' of
                   None \<Rightarrow> Inl (PayPalError ''MALFORMED'' 502)
                 | Some t \<Rightarrow>
                     Inr \<lparr>rc_transactionId = to_str (js_get capture ''id''), rc_grossOre = Some (ex_amountOre ex),
                          rc_feeOre = (if foreign = [] then fee else None), rc_netOre = (if foreign = [] then net else None),
                          rc_effectiveAt = t, rc_foreign = foreign, rc_status = to_str (js_get capture ''status'')\<rparr>))"

definition normalizeSubscriptionTransaction :: "date_reader \<Rightarrow> json \<Rightarrow> int \<Rightarrow> pp_error + receipt option" where
  "normalizeSubscriptionTransaction date_of sale amountOre =
     (case js_get sale ''id'' of
        JStr i \<Rightarrow>
          if js_get sale ''status'' \<notin> JStr ` {''COMPLETED'', ''PARTIALLY_REFUNDED'', ''REFUNDED''} then Inr None
          else
            let breakdown = js_get sale ''amount_with_breakdown'';
                gross = providerOre (js_get breakdown ''gross_amount'');
                fee = providerOre (js_get breakdown ''fee_amount'');
                net = providerOre (js_get breakdown ''net_amount'');
                foreign = foreignAmounts breakdown [''gross_amount'', ''fee_amount'', ''net_amount''];
                at = date_of (js_get sale ''time'');
                status = to_str (js_get sale ''status'')
            in if foreign \<noteq> [] \<and> gross \<noteq> None \<and> gross \<noteq> Some amountOre then Inl (PayPalError ''SALE_AMOUNT_MISMATCH'' 409)
               else (case (foreign, at) of
                       (_ # _, Some t) \<Rightarrow>
                         Inr (Some \<lparr>rc_transactionId = i, rc_grossOre = gross, rc_feeOre = None, rc_netOre = None,
                                    rc_effectiveAt = t, rc_foreign = foreign, rc_status = status\<rparr>)
                     | _ \<Rightarrow>
                         if gross \<noteq> Some amountOre then Inl (PayPalError ''SALE_AMOUNT_MISMATCH'' 409)
                         else if unbalanced gross fee net then Inl (PayPalError ''BREAKDOWN_MISMATCH'' 409)
                         else (case at of
                                 None \<Rightarrow> Inl (PayPalError ''MALFORMED'' 502)
                               | Some t \<Rightarrow>
                                   Inr (Some \<lparr>rc_transactionId = i, rc_grossOre = gross, rc_feeOre = fee, rc_netOre = net,
                                              rc_effectiveAt = t, rc_foreign = [], rc_status = status\<rparr>)))
      | _ \<Rightarrow> Inr None)"

definition normalizeCaptureRefund :: "date_reader \<Rightarrow> json \<Rightarrow> pp_error + refund option" where
  "normalizeCaptureRefund date_of refund =
     (case js_get refund ''id'' of
        JStr i \<Rightarrow>
          if js_get refund ''status'' \<noteq> JStr ''COMPLETED'' then Inr None
          else
            let payable = js_get refund ''seller_payable_breakdown'';
                fee = providerOre (js_get payable ''paypal_fee'');
                net = providerOre (js_get payable ''net_amount'')
            in (case providerOre (js_get refund ''amount'') of
                  None \<Rightarrow> Inl (PayPalError ''REFUND_AMOUNT_MISMATCH'' 409)
                | Some gross \<Rightarrow>
                    if gross \<le> 0 \<or> providerOre (js_get payable ''gross_amount'') \<noteq> Some gross
                    then Inl (PayPalError ''REFUND_AMOUNT_MISMATCH'' 409)
                    else if unbalanced (Some gross) fee net then Inl (PayPalError ''BREAKDOWN_MISMATCH'' 409)
                    else (case date_field date_of refund ''create_time'' ''update_time'' of
                            None \<Rightarrow> Inl (PayPalError ''MALFORMED'' 502)
                          | Some t \<Rightarrow>
                              Inr (Some \<lparr>rf_transactionId = i, rf_originalId = [], rf_grossOre = gross,
                                         rf_feeCreditOre = fee, rf_netDebitOre = net, rf_effectiveAt = t\<rparr>)))
      | _ \<Rightarrow> Inr None)"

datatype adjustment_kind = Refund | Reversal

definition adjustment_codes :: "adjustment_kind \<Rightarrow> string list" where
  "adjustment_codes k = (case k of Refund \<Rightarrow> [''T1107''] | Reversal \<Rightarrow> [''T1100'', ''T1118''])"

definition normalizeReportedAdjustment ::
  "date_reader \<Rightarrow> json \<Rightarrow> string \<Rightarrow> adjustment_kind \<Rightarrow> pp_error + refund" where
  "normalizeReportedAdjustment date_of detail expectedId kind =
     (let info = js_get detail ''transaction_info'' in
      case js_get info ''paypal_reference_id'' of
        JStr original \<Rightarrow>
          if js_get info ''transaction_id'' \<noteq> JStr expectedId \<or> js_get info ''paypal_reference_id_type'' \<noteq> JStr ''TXN''
             \<or> js_get info ''transaction_event_code'' \<notin> JStr ` set (adjustment_codes kind)
          then Inl (PayPalError ''ADJUSTMENT_MISMATCH'' 409)
          else if js_get info ''transaction_status'' = JStr ''P'' then Inl (PayPalError ''ADJUSTMENT_NOT_READY'' 409)
          else if js_get info ''transaction_status'' \<noteq> JStr ''S'' then Inl (PayPalError ''ADJUSTMENT_MISMATCH'' 409)
          else
            let feeCredit = providerSignedOre (js_get info ''fee_amount'') in
            (case providerSignedOre (js_get info ''transaction_amount'') of
               None \<Rightarrow> Inl (PayPalError ''ADJUSTMENT_AMOUNT_UNKNOWN'' 409)
             | Some signedGross \<Rightarrow>
                 if signedGross \<ge> 0 \<or> (case feeCredit of Some f \<Rightarrow> f < 0 | None \<Rightarrow> False)
                 then Inl (PayPalError ''ADJUSTMENT_AMOUNT_UNKNOWN'' 409)
                 else (case date_field date_of info ''transaction_initiation_date'' ''transaction_updated_date'' of
                         None \<Rightarrow> Inl (PayPalError ''MALFORMED'' 409)
                       | Some t \<Rightarrow>
                           Inr \<lparr>rf_transactionId = expectedId, rf_originalId = original, rf_grossOre = - signedGross,
                                rf_feeCreditOre = feeCredit, rf_netDebitOre = map_option (\<lambda>f. - signedGross - f) feeCredit,
                                rf_effectiveAt = t\<rparr>))
      | _ \<Rightarrow> Inl (PayPalError ''ADJUSTMENT_MISMATCH'' 409))"

section \<open>Printing and reading an amount\<close>

lemma money_pieces:
  assumes "w \<noteq> []" "list_all is_digit w" "list_all is_digit f"
  shows "split_on (CHR ''.'') (w @ ''.'' @ f) = [w, f]"
proof -
  have "CHR ''.'' \<notin> set w" "CHR ''.'' \<notin> set f"
    using assms(2,3) by (auto simp: list_all_iff is_digit_def)
  then show ?thesis using split_on_append [of "CHR ''.''" w f] by (simp add: split_on_no_sep)
qed

lemma oreToDkk_text:
  fixes n :: nat
  obtains w f where "oreToDkk (int n) = w @ ''.'' @ f" "w = show_nat (n div 100)" "length f = 2" "list_all is_digit f"
    "nat_of_digits f = n mod 100"
proof
  let ?f = "pad_start 2 (CHR ''0'') (show_nat (n mod 100))"
  have "js_rem (int n) 100 = int (n mod 100)" by (simp add: js_rem_nonneg zmod_int)
  moreover have "int n div 100 = int (n div 100)" by (simp add: zdiv_int)
  ultimately show "oreToDkk (int n) = show_nat (n div 100) @ ''.'' @ ?f"
    by (simp add: oreToDkk_def show_int_def)
  have "length (show_nat (n mod 100)) \<le> 2" by (rule length_show_nat_le) simp_all
  then show "length ?f = 2" by simp
  show "list_all is_digit ?f" by (intro all_digits_pad_start show_nat_list_all)
  show "nat_of_digits ?f = n mod 100" by simp
qed simp

lemma ore_of_oreToDkk: "ore_of_text (oreToDkk (int n)) = int n"
  and decimal_oreToDkk: "decimal_text whole 2 (oreToDkk (int n)) \<longleftrightarrow> whole (show_nat (n div 100))"
proof -
  obtain w f where t: "oreToDkk (int n) = w @ ''.'' @ f" "w = show_nat (n div 100)" "length f = 2" "list_all is_digit f"
    "nat_of_digits f = n mod 100" by (rule oreToDkk_text)
  have p: "split_on (CHR ''.'') (w @ ''.'' @ f) = [w, f]"
    using t show_nat_list_all [of "n div 100"] by (intro money_pieces) auto
  have "int (n div 100) * 100 + int (n mod 100) = int n" by (metis mult.commute of_nat_add of_nat_mult of_nat_numeral mult_div_mod_eq)
  with t p show "ore_of_text (oreToDkk (int n)) = int n" by (simp add: ore_of_text_def pad_end_def)
  show "decimal_text whole 2 (oreToDkk (int n)) \<longleftrightarrow> whole (show_nat (n div 100))"
    using t p by (simp add: decimal_text_def digits_between_def)
qed

lemma member_whole_show: "n < 1000000 \<Longrightarrow> member_whole (show_nat n)"
  using length_show_nat_le [of n 6] show_nat_list_all [of n] show_nat_hd_zero [of n] show_nat_digits [of n]
  by (cases "n = 0") (auto simp: member_whole_def digits_between_def all_digits_def Suc_le_eq show_nat.simps)

lemma member_is_provider: "decimal_text member_whole 2 s \<Longrightarrow> decimal_text provider_whole 2 s"
  by (auto simp: decimal_text_def member_whole_def provider_whole_def digits_between_def is_digit_def split: list.splits)

text \<open>Amounts survive the trip through text: an amount a member may pay, printed and typed again, is the
  same amount; and every text the portal accepts from a member is between 5 and 1000 kroner and is
  read as the same number of oere when PayPal reports it back.\<close>

theorem dkk_roundtrip:
  "(500 \<le> n \<and> n \<le> 100000 \<longrightarrow> parseDkkOre (JStr (oreToDkk n)) = Inr n)
   \<and> (parseDkkOre (JStr s) = Inr m \<longrightarrow> 500 \<le> m \<and> m \<le> 100000
        \<and> providerOre (JObj [(''currency_code'', JStr ''DKK''), (''value'', JStr s)]) = Some m)"
proof (intro conjI impI)
  assume n: "500 \<le> n \<and> n \<le> 100000"
  then obtain k where k: "n = int k" by (metis nonneg_int_cases order_trans zero_le_numeral)
  with n have "k \<le> 100000" by simp
  then have "k div 100 < 1000000" using div_le_dividend [of k 100] by linarith
  with n k show "parseDkkOre (JStr (oreToDkk n)) = Inr n"
    by (simp add: parseDkkOre_def decimal_oreToDkk member_whole_show ore_of_oreToDkk)
next
  assume p: "parseDkkOre (JStr s) = Inr m"
  then show "500 \<le> m" and "m \<le> 100000" by (auto simp: parseDkkOre_def Let_def split: if_splits)
  with p show "providerOre (JObj [(''currency_code'', JStr ''DKK''), (''value'', JStr s)]) = Some m"
    by (auto simp: parseDkkOre_def providerOre_def Let_def safe_ore_def MAX_SAFE_def dest: member_is_provider split: if_splits)
qed


section \<open>What a normalised resource satisfies\<close>

text \<open>A capture that is accepted has exactly the expected amount; when PayPal states its gross amount, a
  known fee and net add up to it; and a capture settled in a foreign currency has no DKK fee or net.\<close>

theorem accepted_capture_balances:
  assumes "normalizeCompletedCapture date_of capture ex = Inr r"
  shows "rc_grossOre r = Some (ex_amountOre ex)
    \<and> (rc_foreign r \<noteq> [] \<longrightarrow> rc_feeOre r = None \<and> rc_netOre r = None)
    \<and> (providerOre (js_get (js_get capture ''seller_receivable_breakdown'') ''gross_amount'') \<noteq> None
        \<longrightarrow> (\<forall>f n. rc_feeOre r = Some f \<and> rc_netOre r = Some n \<longrightarrow> n = ex_amountOre ex - f))"
  using assms
  by (auto simp: normalizeCompletedCapture_def Let_def unbalanced_def split: if_splits option.splits)

definition example_capture :: "(string \<times> json) list \<Rightarrow> json" where
  "example_capture breakdown =
     (let dkk = (\<lambda>v. JObj [(''currency_code'', JStr ''DKK''), (''value'', JStr v)]) in
      JObj [(''id'', JStr ''C1''), (''status'', JStr ''COMPLETED''), (''payee'', JObj [(''merchant_id'', JStr ''M'')]),
            (''supplementary_data'', JObj [(''related_ids'', JObj [(''order_id'', JStr ''O'')])]),
            (''amount'', dkk ''100.00''), (''create_time'', JStr ''t''),
            (''seller_receivable_breakdown'',
               JObj (breakdown @ [(''paypal_fee'', dkk ''5.00''), (''net_amount'', dkk ''95.00'')]))])"

definition example_expected :: expected_capture where
  "example_expected = \<lparr>ex_orderId = ''O'', ex_merchantId = ''M'', ex_amountOre = 10000\<rparr>"


end
