(* ===== verification/Payment_Ledger.thy ===== *)
theory Payment_Ledger
  imports Payment_Money
begin

text \<open>
  \<open>services/paypalLedger.ts\<close>: the ledger of received money. A provider transaction is a row whose
  status says whether its economic postings exist; postings are append-only. Every operation is one
  database transaction that locks the rows it decides on, so the model runs it as one step: either
  the new tables, or an error and the old ones. The unique indexes (one transaction per provider id,
  one posting per transaction and kind) are the conditions of \<open>onConflictDoNothing\<close>.
\<close>

type_synonym scope_key = "string \<times> string"

record scope =
  sc_environment :: string
  sc_merchantId :: string
  sc_intentId :: string
  sc_userId :: "int option"

datatype provider_kind = Capture | Sale | Adjustment adjustment_kind | Placeholder string

datatype tx_status = Net_unresolved | Posted | Currency_unconfirmed | Resolved

record tx_row =
  t_env :: string
  t_merchant :: string
  t_id :: string
  t_kind :: provider_kind
  t_original :: "string option"
  t_intent :: string
  t_user :: "int option"
  t_status :: tx_status
  t_currency :: string
  t_gross :: "int option"
  t_fee :: "int option"
  t_net :: "int option"
  t_effective :: "int option"
  t_observed :: int
  t_provider_status :: "string option"
  t_foreign :: "(string \<times> string \<times> string) list"

datatype posting_kind = Gross | Fee | Fee_credit | Adjusted adjustment_kind

record posting =
  g_env :: string
  g_merchant :: string
  g_tx :: string
  g_kind :: posting_kind
  g_original :: "string option"
  g_intent :: string
  g_user :: "int option"
  g_amount :: int
  g_effective :: int
  g_verification :: string

record ledger =
  l_txs :: "tx_row list"
  l_postings :: "posting list"

section \<open>Queries and statements\<close>

definition tx_key :: "tx_row \<Rightarrow> string \<times> string \<times> string" where
  "tx_key t = (t_env t, t_merchant t, t_id t)"

definition posting_key :: "posting \<Rightarrow> string \<times> string \<times> string \<times> posting_kind" where
  "posting_key g = (g_env g, g_merchant g, g_tx g, g_kind g)"

definition scope_id :: "scope \<Rightarrow> string \<Rightarrow> string \<times> string \<times> string" where
  "scope_id sc i = (sc_environment sc, sc_merchantId sc, i)"

definition find_tx :: "string \<times> string \<times> string \<Rightarrow> ledger \<Rightarrow> tx_row option" where
  "find_tx k l = find (\<lambda>t. tx_key t = k) (l_txs l)"

definition insert_tx :: "tx_row \<Rightarrow> ledger \<Rightarrow> ledger" where
  \<comment> \<open>\<open>insert ... onConflictDoNothing\<close>\<close>
  "insert_tx t l = (if find_tx (tx_key t) l = None then l\<lparr>l_txs := l_txs l @ [t]\<rparr> else l)"

definition update_tx :: "string \<times> string \<times> string \<Rightarrow> (tx_row \<Rightarrow> tx_row) \<Rightarrow> ledger \<Rightarrow> ledger" where
  "update_tx k f l = l\<lparr>l_txs := map (\<lambda>t. if tx_key t = k then f t else t) (l_txs l)\<rparr>"

definition insert_posting :: "posting \<Rightarrow> ledger \<Rightarrow> ledger" where
  "insert_posting g l =
     (if \<exists>h \<in> set (l_postings l). posting_key h = posting_key g then l else l\<lparr>l_postings := l_postings l @ [g]\<rparr>)"

section \<open>Receipts\<close>

definition receipt_row :: "scope \<Rightarrow> provider_kind \<Rightarrow> receipt \<Rightarrow> int \<Rightarrow> tx_row" where
  "receipt_row sc kind r now =
     \<lparr>t_env = sc_environment sc, t_merchant = sc_merchantId sc, t_id = rc_transactionId r, t_kind = kind, t_original = None,
      t_intent = sc_intentId sc, t_user = sc_userId sc, t_status = Net_unresolved, t_currency = ''DKK'',
      t_gross = rc_grossOre r, t_fee = rc_feeOre r, t_net = rc_netOre r, t_effective = Some (rc_effectiveAt r),
      t_observed = now, t_provider_status = None, t_foreign = rc_foreign r\<rparr>"

definition receipt_posting :: "scope \<Rightarrow> receipt \<Rightarrow> posting_kind \<Rightarrow> int \<Rightarrow> string \<Rightarrow> posting" where
  "receipt_posting sc r kind amount verification =
     \<lparr>g_env = sc_environment sc, g_merchant = sc_merchantId sc, g_tx = rc_transactionId r, g_kind = kind,
      g_original = None, g_intent = sc_intentId sc, g_user = sc_userId sc, g_amount = amount,
      g_effective = rc_effectiveAt r, g_verification = verification\<rparr>"

definition postReceipt ::
  "scope \<Rightarrow> provider_kind \<Rightarrow> receipt \<Rightarrow> string \<Rightarrow> int \<Rightarrow> ledger \<Rightarrow> (pp_error + tx_status) \<times> ledger" where
  "postReceipt sc kind r verification now l =
     (case rc_grossOre r of
        None \<Rightarrow> (Inl (PayPalError ''INVALID_RECEIPT'' 502), l)
      | Some gross \<Rightarrow>
          if gross \<le> 0 \<or> gross > MAX_SAFE then (Inl (PayPalError ''INVALID_RECEIPT'' 502), l)
          else
            let key = scope_id sc (rc_transactionId r);
                l1 = insert_tx (receipt_row sc kind r now) l
            in (case find_tx key l1 of
                  None \<Rightarrow> (Inl (PayPalError ''TRANSACTION_CONFLICT'' 409), l)
                | Some prior \<Rightarrow>
                    if t_kind prior \<noteq> kind \<or> t_intent prior \<noteq> sc_intentId sc \<or> t_gross prior \<noteq> Some gross
                    then (Inl (PayPalError ''TRANSACTION_CONFLICT'' 409), l)
                    else (case (rc_feeOre r, rc_netOre r) of
                            (Some fee, Some net) \<Rightarrow>
                              if t_status prior = Posted
                              then (if t_fee prior \<noteq> Some fee \<or> t_net prior \<noteq> Some net
                                    then (Inl (PayPalError ''POSTED_AMOUNT_CHANGED'' 409), l) else (Inr Posted, l1))
                              else
                                (Inr Posted,
                                 insert_posting (receipt_posting sc r Fee (- fee) verification)
                                  (insert_posting (receipt_posting sc r Gross gross verification)
                                    (update_tx key (\<lambda>t. t\<lparr>t_status := Posted, t_fee := Some fee, t_net := Some net, t_observed := now\<rparr>) l1)))
                          | _ \<Rightarrow>
                              if t_status prior = Posted then (Inr Posted, l1)
                              else (Inr Net_unresolved,
                                    if rc_foreign r \<noteq> [] then update_tx key (\<lambda>t. t\<lparr>t_foreign := rc_foreign r\<rparr>) l1 else l1))))"

section \<open>Refunds and reversals\<close>

definition adjustment_row :: "scope \<Rightarrow> string \<Rightarrow> adjustment_kind \<Rightarrow> refund \<Rightarrow> int \<Rightarrow> tx_row" where
  "adjustment_row sc originalId k a now =
     \<lparr>t_env = sc_environment sc, t_merchant = sc_merchantId sc, t_id = rf_transactionId a, t_kind = Adjustment k,
      t_original = Some originalId, t_intent = sc_intentId sc, t_user = sc_userId sc, t_status = Net_unresolved,
      t_currency = ''DKK'', t_gross = Some (rf_grossOre a), t_fee = rf_feeCreditOre a, t_net = rf_netDebitOre a,
      t_effective = Some (rf_effectiveAt a), t_observed = now, t_provider_status = None, t_foreign = []\<rparr>"

definition adjustment_posting :: "scope \<Rightarrow> string \<Rightarrow> refund \<Rightarrow> posting_kind \<Rightarrow> int \<Rightarrow> string \<Rightarrow> posting" where
  "adjustment_posting sc originalId a kind amount verification =
     \<lparr>g_env = sc_environment sc, g_merchant = sc_merchantId sc, g_tx = rf_transactionId a, g_kind = kind,
      g_original = Some originalId, g_intent = sc_intentId sc, g_user = sc_userId sc, g_amount = amount,
      g_effective = rf_effectiveAt a, g_verification = verification\<rparr>"

definition refunded_of :: "string \<times> string \<times> string \<Rightarrow> ledger \<Rightarrow> int" where
  "refunded_of k l =
     sum_list (map (\<lambda>g. - g_amount g)
       (filter (\<lambda>g. (g_env g, g_merchant g, g_original g) = (fst k, fst (snd k), Some (snd (snd k)))
                    \<and> (g_kind g = Adjusted Refund \<or> g_kind g = Adjusted Reversal)) (l_postings l)))"

definition invalid_adjustment :: "refund \<Rightarrow> bool" where
  "invalid_adjustment a =
     (rf_grossOre a > MAX_SAFE \<or> rf_grossOre a \<le> 0
      \<or> (case rf_feeCreditOre a of Some f \<Rightarrow> f < 0 \<or> f > rf_grossOre a | None \<Rightarrow> False))"

definition complete_adjustment :: "refund \<Rightarrow> bool" where
  "complete_adjustment a =
     (case (rf_feeCreditOre a, rf_netDebitOre a) of (Some f, Some n) \<Rightarrow> rf_grossOre a - f = n | _ \<Rightarrow> False)"

definition postProviderAdjustment ::
  "scope \<Rightarrow> string \<Rightarrow> provider_kind \<Rightarrow> adjustment_kind \<Rightarrow> refund \<Rightarrow> string \<Rightarrow> int \<Rightarrow> ledger \<Rightarrow> (pp_error + tx_status) \<times> ledger" where
  "postProviderAdjustment sc originalId originalKind k a verification now l =
     (let okey = scope_id sc originalId; key = scope_id sc (rf_transactionId a) in
      case find_tx okey l of
        None \<Rightarrow> (Inl (PayPalError ''ORIGINAL_RECEIPT_MISSING'' 409), l)
      | Some original \<Rightarrow>
          if t_kind original \<noteq> originalKind \<or> t_intent original \<noteq> sc_intentId sc
          then (Inl (PayPalError ''ORIGINAL_RECEIPT_MISSING'' 409), l)
          else if invalid_adjustment a then (Inl (PayPalError ''INVALID_ADJUSTMENT'' 409), l)
          else
            let l1 = insert_tx (adjustment_row sc originalId k a now) l in
            (case find_tx key l1 of
               None \<Rightarrow> (Inl (PayPalError ''TRANSACTION_CONFLICT'' 409), l)
             | Some prior \<Rightarrow>
                 if t_kind prior \<noteq> Adjustment k \<or> t_original prior \<noteq> Some originalId \<or> t_gross prior \<noteq> Some (rf_grossOre a)
                 then (Inl (PayPalError ''TRANSACTION_CONFLICT'' 409), l)
                 else if t_status prior = Posted
                 then (if complete_adjustment a \<and> (t_fee prior \<noteq> rf_feeCreditOre a \<or> t_net prior \<noteq> rf_netDebitOre a)
                       then (Inl (PayPalError ''POSTED_AMOUNT_CHANGED'' 409), l) else (Inr Posted, l1))
                 else if refunded_of okey l1 + rf_grossOre a > (case t_gross original of Some g \<Rightarrow> g | None \<Rightarrow> 0)
                 then (Inl (PayPalError ''REFUND_EXCEEDS_RECEIPT'' 409), l)
                 else if \<not> complete_adjustment a then (Inr Net_unresolved, l1)
                 else
                   (Inr Posted,
                    insert_posting (adjustment_posting sc originalId a Fee_credit (the (rf_feeCreditOre a)) verification)
                      (insert_posting (adjustment_posting sc originalId a (Adjusted k) (- rf_grossOre a) verification)
                        (update_tx key (\<lambda>t. t\<lparr>t_status := Posted, t_fee := rf_feeCreditOre a, t_net := rf_netDebitOre a,
                                             t_observed := now\<rparr>) l1)))))"

definition postCaptureRefund where
  "postCaptureRefund sc originalCaptureId a verification now l =
     postProviderAdjustment sc originalCaptureId Capture Refund a verification now l"

definition recordForeignReceipt ::
  "scope \<Rightarrow> provider_kind \<Rightarrow> string \<Rightarrow> (string \<times> string \<times> string) list \<Rightarrow> int \<Rightarrow> int \<Rightarrow> ledger \<Rightarrow> tx_status \<times> ledger" where
  "recordForeignReceipt sc kind transactionId foreign effectiveAt now l =
     (let currency = (case map_of foreign ''gross_amount'' of
                        Some (c, _) \<Rightarrow> c
                      | None \<Rightarrow> (case foreign of (_, c, _) # _ \<Rightarrow> c | [] \<Rightarrow> ''XXX''))
      in (Currency_unconfirmed,
          insert_tx \<lparr>t_env = sc_environment sc, t_merchant = sc_merchantId sc, t_id = transactionId, t_kind = kind,
            t_original = None, t_intent = sc_intentId sc, t_user = sc_userId sc, t_status = Currency_unconfirmed,
            t_currency = take 7 currency, t_gross = None, t_fee = None, t_net = None, t_effective = Some effectiveAt,
            t_observed = now, t_provider_status = None, t_foreign = foreign\<rparr> l))"

section \<open>The invariant of the tables\<close>

definition entry_key :: "posting \<Rightarrow> string \<times> string \<times> string" where
  "entry_key g = (g_env g, g_merchant g, g_tx g)"

definition original_key :: "posting \<Rightarrow> (string \<times> string \<times> string) option" where
  "original_key g = map_option (\<lambda>i. (g_env g, g_merchant g, i)) (g_original g)"

definition entries :: "string \<times> string \<times> string \<Rightarrow> ledger \<Rightarrow> posting list" where
  "entries k l = filter (\<lambda>g. entry_key g = k) (l_postings l)"

definition gross_of :: "tx_row \<Rightarrow> int" where
  "gross_of t = (case t_gross t of Some g \<Rightarrow> g | None \<Rightarrow> 0)"

definition expected_entries :: "tx_row \<Rightarrow> (posting_kind \<times> int) list" where
  \<comment> \<open>the postings a transaction has: none until it is posted\<close>
  "expected_entries t =
     (if t_status t \<noteq> Posted then []
      else let fee = (case t_fee t of Some f \<Rightarrow> f | None \<Rightarrow> 0) in
           case t_kind t of
             Adjustment k \<Rightarrow> [(Adjusted k, - gross_of t), (Fee_credit, fee)]
           | _ \<Rightarrow> [(Gross, gross_of t), (Fee, - fee)])"

definition tx_ok :: "ledger \<Rightarrow> tx_row \<Rightarrow> bool" where
  "tx_ok l t \<longleftrightarrow>
     map (\<lambda>g. (g_kind g, g_amount g)) (entries (tx_key t) l) = expected_entries t
     \<and> refunded_of (tx_key t) l \<le> gross_of t"

definition ledger_ok :: "ledger \<Rightarrow> bool" where
  "ledger_ok l \<longleftrightarrow>
     distinct (map tx_key (l_txs l)) \<and> list_all (tx_ok l) (l_txs l)
     \<and> (\<forall>g \<in> set (l_postings l). entry_key g \<in> tx_key ` set (l_txs l)
          \<and> (\<forall>k. original_key g = Some k \<longrightarrow> k \<in> tx_key ` set (l_txs l)))"

lemma refunded_of_eq:
  "refunded_of k l = sum_list (map (\<lambda>g. - g_amount g)
     (filter (\<lambda>g. original_key g = Some k \<and> (g_kind g = Adjusted Refund \<or> g_kind g = Adjusted Reversal)) (l_postings l)))"
proof -
  have "(g_env g, g_merchant g, g_original g) = (fst k, fst (snd k), Some (snd (snd k))) \<longleftrightarrow> original_key g = Some k" for g
    by (cases k) (auto simp: original_key_def)
  then show ?thesis unfolding refunded_of_def by simp
qed

lemma find_tx_Some: "find_tx k l = Some t \<Longrightarrow> t \<in> set (l_txs l) \<and> tx_key t = k"
  by (auto simp: find_tx_def find_Some_iff)

lemma find_tx_None: "find_tx k l = None \<longleftrightarrow> k \<notin> tx_key ` set (l_txs l)"
  by (auto simp: find_tx_def find_None_iff)

lemma find_by_key: "distinct (map f xs) \<Longrightarrow> x \<in> set xs \<Longrightarrow> find (\<lambda>y. f y = f x) xs = Some x"
  by (induction xs) (auto simp: image_iff)

lemma find_tx_distinct:
  "distinct (map tx_key (l_txs l)) \<Longrightarrow> t \<in> set (l_txs l) \<Longrightarrow> find_tx (tx_key t) l = Some t"
  unfolding find_tx_def by (rule find_by_key)

lemma insert_tx_postings [simp]: "l_postings (insert_tx t l) = l_postings l"
  by (simp add: insert_tx_def)

lemma entries_cong: "l_postings l' = l_postings l \<Longrightarrow> entries k l' = entries k l"
  by (simp add: entries_def)

lemma refunded_cong: "l_postings l' = l_postings l \<Longrightarrow> refunded_of k l' = refunded_of k l"
  by (simp add: refunded_of_def)

lemma tx_ok_cong: "l_postings l' = l_postings l \<Longrightarrow> tx_ok l' t = tx_ok l t"
  using entries_cong [of l' l "tx_key t"] refunded_cong [of l' l "tx_key t"] by (simp add: tx_ok_def)

lemma no_entries: "ledger_ok l \<Longrightarrow> k \<notin> tx_key ` set (l_txs l) \<Longrightarrow> entries k l = [] \<and> refunded_of k l = 0"
proof -
  assume ok: "ledger_ok l" and k: "k \<notin> tx_key ` set (l_txs l)"
  have "entries k l = []" using ok k by (auto simp: entries_def ledger_ok_def filter_empty_conv)
  moreover have "filter (\<lambda>g. original_key g = Some k \<and> (g_kind g = Adjusted Refund \<or> g_kind g = Adjusted Reversal)) (l_postings l) = []"
    using ok k unfolding ledger_ok_def filter_empty_conv by blast
  ultimately show ?thesis by (simp only: refunded_of_eq list.map sum_list.Nil)
qed

lemma insert_tx_ok:
  assumes "ledger_ok l" "t_status t \<noteq> Posted" "0 \<le> gross_of t"
  shows "ledger_ok (insert_tx t l)"
proof (cases "find_tx (tx_key t) l")
  case None
  then have new: "tx_key t \<notin> tx_key ` set (l_txs l)" by (simp add: find_tx_None)
  let ?l = "l\<lparr>l_txs := l_txs l @ [t]\<rparr>"
  have "tx_ok ?l t"
    using no_entries [OF assms(1) new] assms(2,3) tx_ok_cong [of ?l l t]
    unfolding tx_ok_def expected_entries_def by simp
  then have "ledger_ok ?l"
    using assms(1) new unfolding ledger_ok_def using tx_ok_cong [of ?l l] by (auto simp: list_all_iff)
  with None show ?thesis by (simp add: insert_tx_def)
next
  case (Some u)
  with assms(1) show ?thesis by (simp add: insert_tx_def)
qed

lemma update_tx_keys: "(\<And>t. tx_key (f t) = tx_key t) \<Longrightarrow> map tx_key (l_txs (update_tx k f l)) = map tx_key (l_txs l)"
  by (simp add: update_tx_def)

lemma set_map_keys: "map tx_key xs = map tx_key ys \<Longrightarrow> tx_key ` set xs = tx_key ` set ys"
  by (metis list.set_map)

text \<open>A transaction that has no postings yet gets its two\<close>

lemma post_pair:
  assumes ok: "ledger_ok l" and prior: "find_tx k l = Some prior" "t_status prior \<noteq> Posted"
    and f: "\<And>t. tx_key (f t) = tx_key t" "t_status (f prior) = Posted" "gross_of (f prior) = gross_of prior"
    and g: "entry_key g = k" "entry_key h = k" "g_kind g \<noteq> g_kind h"
    and exp: "expected_entries (f prior) = [(g_kind g, g_amount g), (g_kind h, g_amount h)]"
    and orig: "\<And>o'. original_key g = Some o' \<Longrightarrow> o' \<in> tx_key ` set (l_txs l)" "\<And>o'. original_key h = Some o' \<Longrightarrow> o' \<in> tx_key ` set (l_txs l)"
    and bound: "\<And>t. t \<in> set (l_txs l) \<Longrightarrow> refunded_of (tx_key t) (l\<lparr>l_postings := l_postings l @ [g, h]\<rparr>) \<le> gross_of t"
  shows "ledger_ok (insert_posting h (insert_posting g (update_tx k f l)))
    \<and> insert_posting h (insert_posting g (update_tx k f l)) = (update_tx k f l)\<lparr>l_postings := l_postings l @ [g, h]\<rparr>"
proof -
  let ?l = "(update_tx k f l)\<lparr>l_postings := l_postings l @ [g, h]\<rparr>"
  have upd: "l_postings (update_tx k f l) = l_postings l" by (simp add: update_tx_def)
  have in1: "prior \<in> set (l_txs l)" and k: "tx_key prior = k" using find_tx_Some [OF prior(1)] by auto
  have "map (\<lambda>g. (g_kind g, g_amount g)) (entries k l) = []"
    using ok in1 k prior(2) by (auto simp: ledger_ok_def list_all_iff tx_ok_def expected_entries_def)
  then have none: "entries k l = []" by simp
  have fresh: "\<not> (\<exists>x \<in> set (l_postings l). posting_key x = posting_key y)" if "entry_key y = k" for y
    using none that by (auto simp: entries_def filter_empty_conv posting_key_def entry_key_def)
  have eq: "insert_posting h (insert_posting g (update_tx k f l)) = ?l"
    using fresh [OF g(1)] fresh [OF g(2)] g(3)
    by (auto simp: insert_posting_def upd posting_key_def) 
  have keys: "map tx_key (l_txs ?l) = map tx_key (l_txs l)" using update_tx_keys [of f k l] f(1) by simp
  have entk: "entries k ?l = [g, h]" using none g by (simp add: entries_def)
  have ento: "entries k' ?l = entries k' l" if "k' \<noteq> k" for k' using that g by (auto simp: entries_def)
  have ref: "refunded_of k' ?l = refunded_of k' (l\<lparr>l_postings := l_postings l @ [g, h]\<rparr>)" for k'
    by (simp add: refunded_of_def)
  have "tx_ok ?l u" if "u \<in> set (l_txs ?l)" for u
  proof -
    from that obtain t where t: "t \<in> set (l_txs l)" "u = (if tx_key t = k then f t else t)" by (auto simp: update_tx_def)
    show ?thesis
    proof (cases "tx_key t = k")
      case True
      then have "t = prior" using find_tx_distinct [of l t] t(1) prior(1) ok by (simp add: ledger_ok_def)
      with True t exp entk bound [OF t(1)] f k show ?thesis by (simp add: tx_ok_def ref)
    next
      case False
      with t ento bound [OF t(1)] ok show ?thesis by (auto simp: tx_ok_def ref ledger_ok_def list_all_iff)
    qed
  qed
  moreover have "tx_key ` set (l_txs ?l) = tx_key ` set (l_txs l)" by (rule set_map_keys [OF keys])
  moreover have "distinct (map tx_key (l_txs ?l))" using ok unfolding keys ledger_ok_def by simp
  moreover have "k \<in> tx_key ` set (l_txs l)" using in1 k by blast
  ultimately have "ledger_ok ?l"
    using ok g orig unfolding ledger_ok_def list_all_iff by auto
  with eq show ?thesis by simp
qed

lemma refunded_append:
  "refunded_of k (l\<lparr>l_postings := l_postings l @ gs\<rparr>) = refunded_of k l + refunded_of k (l\<lparr>l_postings := gs\<rparr>)"
  by (simp add: refunded_of_def)

lemma find_append: "find P (xs @ ys) = (case find P xs of None \<Rightarrow> find P ys | Some x \<Rightarrow> Some x)"
  by (induction xs) auto

lemma find_tx_insert:
  "find_tx k (insert_tx t l) = (case find_tx k l of Some u \<Rightarrow> Some u | None \<Rightarrow> if tx_key t = k then Some t else None)"
  by (auto simp: insert_tx_def find_tx_def find_append split: option.splits)

lemma find_tx_update:
  "(\<And>t. tx_key (f t) = tx_key t) \<Longrightarrow> find_tx k (update_tx k' f l) = map_option (\<lambda>t. if k = k' then f t else t) (find_tx k l)"
proof -
  assume f: "\<And>t. tx_key (f t) = tx_key t"
  have "find (\<lambda>t. tx_key t = k) (map (\<lambda>t. if tx_key t = k' then f t else t) ts)
    = map_option (\<lambda>t. if k = k' then f t else t) (find (\<lambda>t. tx_key t = k) ts)" for ts
    by (induction ts) (use f in auto)
  then show ?thesis by (simp add: find_tx_def update_tx_def)
qed

lemma ledger_ok_tx: "ledger_ok l \<Longrightarrow> find_tx k l = Some t \<Longrightarrow> tx_ok l t \<and> tx_key t = k"
  using find_tx_Some [of k l t] by (auto simp: ledger_ok_def list_all_iff)

text \<open>A change of a row's other columns keeps the invariant\<close>

lemma touch_ok:
  assumes ok: "ledger_ok l" and f: "\<And>t. tx_key (f t) = tx_key t" "\<And>t. expected_entries (f t) = expected_entries t"
    "\<And>t. gross_of (f t) = gross_of t"
  shows "ledger_ok (update_tx k f l)"
proof -
  let ?l = "update_tx k f l"
  have ps: "l_postings ?l = l_postings l" by (simp add: update_tx_def)
  have keys: "map tx_key (l_txs ?l) = map tx_key (l_txs l)" using update_tx_keys [of f k l] f(1) by simp
  have "tx_ok ?l (f t) = tx_ok l t" for t using tx_ok_cong [OF ps] f by (simp add: tx_ok_def)
  then have "list_all (tx_ok ?l) (l_txs ?l)"
    using ok tx_ok_cong [OF ps] by (auto simp: ledger_ok_def list_all_iff update_tx_def)
  with ok keys set_map_keys [OF keys] show ?thesis by (simp add: ledger_ok_def ps)
qed

section \<open>The accounts the tables stand for\<close>

definition accounts :: "ledger \<Rightarrow> (string \<times> string \<times> string) \<Rightarrow> int option" where
  "accounts l k = (case find_tx k l of
     Some t \<Rightarrow> if t_status t = Posted then Some (sum_list (map g_amount (entries k l))) else None
   | None \<Rightarrow> None)"

definition settle :: "'k \<Rightarrow> int \<Rightarrow> ('k \<Rightarrow> int option) \<Rightarrow> 'k \<Rightarrow> int option" where
  \<comment> \<open>the contract: the first settlement of a transaction counts, a later one changes nothing\<close>
  "settle k amount m = (case m k of None \<Rightarrow> m(k \<mapsto> amount) | Some _ \<Rightarrow> m)"

lemma accounts_insert_tx: "t_status t \<noteq> Posted \<Longrightarrow> accounts (insert_tx t l) = accounts l"
  by (rule ext) (simp add: accounts_def find_tx_insert entries_cong [of "insert_tx t l" l] split: option.split)

lemma accounts_touch:
  "(\<And>t. tx_key (f t) = tx_key t) \<Longrightarrow> (\<And>t. t_status (f t) = t_status t) \<Longrightarrow> accounts (update_tx k f l) = accounts l"
proof (rule ext)
  fix k'
  assume f: "\<And>t. tx_key (f t) = tx_key t" "\<And>t. t_status (f t) = t_status t"
  have "l_postings (update_tx k f l) = l_postings l" by (simp add: update_tx_def)
  then show "accounts (update_tx k f l) k' = accounts l k'"
    using entries_cong [of "update_tx k f l" l k'] f by (simp add: accounts_def find_tx_update split: option.split)
qed

lemma accounts_post:
  assumes ok: "ledger_ok l" and prior: "find_tx k l = Some prior" "t_status prior \<noteq> Posted"
    and f: "\<And>t. tx_key (f t) = tx_key t" "\<And>t. t_status (f t) = Posted"
    and g: "entry_key g = k" "entry_key h = k"
  shows "accounts ((update_tx k f l)\<lparr>l_postings := l_postings l @ [g, h]\<rparr>) = settle k (g_amount g + g_amount h) (accounts l)"
proof -
  let ?l = "(update_tx k f l)\<lparr>l_postings := l_postings l @ [g, h]\<rparr>"
  have "map (\<lambda>g. (g_kind g, g_amount g)) (entries k l) = []"
    using ledger_ok_tx [OF ok prior(1)] prior(2) by (auto simp: tx_ok_def expected_entries_def)
  then have entk: "entries k ?l = [g, h]" using g by (simp add: entries_def)
  have ento: "entries k' ?l = entries k' l" if "k' \<noteq> k" for k' using that g by (auto simp: entries_def)
  have find: "find_tx k' ?l = map_option (\<lambda>t. if k' = k then f t else t) (find_tx k' l)" for k'
    using find_tx_update [of f k' k l] f(1) by (simp add: find_tx_def)
  show ?thesis
    by (rule ext) (simp add: accounts_def settle_def find ento entk prior f split: option.split)
qed

lemma settle_posted: "find_tx k l = Some t \<Longrightarrow> t_status t = Posted \<Longrightarrow> settle k x (accounts l) = accounts l"
  by (simp add: settle_def accounts_def)

section \<open>Every operation keeps the tables and settles at most once\<close>

lemma post_receipt_entries:
  assumes ok: "ledger_ok l1" and prior: "find_tx key l1 = Some prior" "t_status prior \<noteq> Posted" "t_gross prior = Some gross"
    and kind: "t_kind prior = Capture \<or> t_kind prior = Sale" and key: "key = scope_id sc (rc_transactionId r)"
    and l2: "l2 = insert_posting (receipt_posting sc r Fee (- fee) v) (insert_posting (receipt_posting sc r Gross gross v)
          (update_tx key (\<lambda>t. t\<lparr>t_status := Posted, t_fee := Some fee, t_net := Some net, t_observed := now\<rparr>) l1))"
  shows "ledger_ok l2 \<and> accounts l2 = settle key (gross - fee) (accounts l1)"
proof -
  let ?f = "\<lambda>t. t\<lparr>t_status := Posted, t_fee := Some fee, t_net := Some net, t_observed := now\<rparr>"
  let ?g = "receipt_posting sc r Gross gross v" and ?h = "receipt_posting sc r Fee (- fee) v"
  have keys: "entry_key ?g = key" "entry_key ?h = key" "original_key ?g = None" "original_key ?h = None"
    by (simp_all add: entry_key_def original_key_def receipt_posting_def key scope_id_def)
  have amounts: "g_amount ?g = gross" "g_amount ?h = - fee" "g_kind ?g = Gross" "g_kind ?h = Fee"
    by (simp_all add: receipt_posting_def)
  have fk: "tx_key (?f t) = tx_key t" for t by (simp add: tx_key_def)
  have "refunded_of k (l1\<lparr>l_postings := [?g, ?h]\<rparr>) = 0" for k
    using keys by (simp add: refunded_of_eq)
  then have bound: "refunded_of (tx_key t) (l1\<lparr>l_postings := l_postings l1 @ [?g, ?h]\<rparr>) \<le> gross_of t" if "t \<in> set (l_txs l1)" for t
    using that ok by (simp add: refunded_append ledger_ok_def list_all_iff tx_ok_def)
  have exp: "expected_entries (?f prior) = [(g_kind ?g, g_amount ?g), (g_kind ?h, g_amount ?h)]"
    using kind prior by (auto simp: expected_entries_def amounts gross_of_def)
  have both: "ledger_ok (insert_posting ?h (insert_posting ?g (update_tx key ?f l1)))
    \<and> insert_posting ?h (insert_posting ?g (update_tx key ?f l1)) = (update_tx key ?f l1)\<lparr>l_postings := l_postings l1 @ [?g, ?h]\<rparr>"
    by (rule post_pair [OF ok prior(1,2) fk _ _ keys(1,2) _ exp _ _ bound]) (simp_all add: gross_of_def amounts keys)
  have "accounts ((update_tx key ?f l1)\<lparr>l_postings := l_postings l1 @ [?g, ?h]\<rparr>)
    = settle key (g_amount ?g + g_amount ?h) (accounts l1)"
    by (rule accounts_post [OF ok prior(1,2) fk _ keys(1,2)]) simp
  then have "accounts (insert_posting ?h (insert_posting ?g (update_tx key ?f l1))) = settle key (gross - fee) (accounts l1)"
    unfolding both [THEN conjunct2] amounts by (simp only: diff_conv_add_uminus)
  with both [THEN conjunct1] show ?thesis unfolding l2 by blast
qed

lemma post_adjustment_entries:
  assumes ok: "ledger_ok l1" and prior: "find_tx key l1 = Some prior" "t_status prior \<noteq> Posted"
    and kind: "t_kind prior = Adjustment k" "t_gross prior = Some (rf_grossOre a)" and key: "key = scope_id sc (rf_transactionId a)"
    and orig: "find_tx (scope_id sc i) l1 = Some original" "refunded_of (scope_id sc i) l1 + rf_grossOre a \<le> gross_of original"
    and pos: "0 \<le> rf_grossOre a"
    and a: "rf_feeCreditOre a = Some fee" "rf_netDebitOre a = Some net"
    and l2: "l2 = insert_posting (adjustment_posting sc i a Fee_credit fee v)
        (insert_posting (adjustment_posting sc i a (Adjusted k) (- rf_grossOre a) v)
          (update_tx key (\<lambda>t. t\<lparr>t_status := Posted, t_fee := Some fee, t_net := Some net, t_observed := now\<rparr>) l1))"
  shows "ledger_ok l2 \<and> accounts l2 = settle key (fee - rf_grossOre a) (accounts l1)"
proof -
  let ?f = "\<lambda>t. t\<lparr>t_status := Posted, t_fee := Some fee, t_net := Some net, t_observed := now\<rparr>"
  let ?g = "adjustment_posting sc i a (Adjusted k) (- rf_grossOre a) v" and ?h = "adjustment_posting sc i a Fee_credit fee v"
  let ?o = "scope_id sc i"
  have keys: "entry_key ?g = key" "entry_key ?h = key" "original_key ?g = Some ?o" "original_key ?h = Some ?o"
    by (simp_all add: entry_key_def original_key_def adjustment_posting_def key scope_id_def)
  have amounts: "g_amount ?g = - rf_grossOre a" "g_amount ?h = fee" "g_kind ?g = Adjusted k" "g_kind ?h = Fee_credit"
    by (simp_all add: adjustment_posting_def)
  have fk: "tx_key (?f t) = tx_key t" for t by (simp add: tx_key_def)
  have o: "original \<in> set (l_txs l1)" "tx_key original = ?o" using find_tx_Some [OF orig(1)] by auto
  have new: "refunded_of k' (l1\<lparr>l_postings := [?g, ?h]\<rparr>) = (if k' = ?o then rf_grossOre a else 0)" for k'
    using keys amounts by (cases k) (auto simp: refunded_of_eq)
  have bound: "refunded_of (tx_key t) (l1\<lparr>l_postings := l_postings l1 @ [?g, ?h]\<rparr>) \<le> gross_of t" if "t \<in> set (l_txs l1)" for t
  proof (cases "tx_key t = ?o")
    case True
    then have "t = original" using find_tx_distinct [of l1 t] that orig(1) ok by (simp add: ledger_ok_def)
    with True orig(2) show ?thesis by (simp add: refunded_append new)
  next
    case False
    with that ok show ?thesis by (simp add: refunded_append new ledger_ok_def list_all_iff tx_ok_def)
  qed
  have exp: "expected_entries (?f prior) = [(g_kind ?g, g_amount ?g), (g_kind ?h, g_amount ?h)]"
    using kind by (simp add: expected_entries_def amounts gross_of_def)
  have "?o \<in> tx_key ` set (l_txs l1)" using o by (metis imageI)
  then have both: "ledger_ok (insert_posting ?h (insert_posting ?g (update_tx key ?f l1)))
    \<and> insert_posting ?h (insert_posting ?g (update_tx key ?f l1)) = (update_tx key ?f l1)\<lparr>l_postings := l_postings l1 @ [?g, ?h]\<rparr>"
    by (intro post_pair [OF ok prior(1,2) fk _ _ keys(1,2) _ exp _ _ bound]) (simp_all add: gross_of_def amounts keys)
  have "accounts ((update_tx key ?f l1)\<lparr>l_postings := l_postings l1 @ [?g, ?h]\<rparr>)
    = settle key (g_amount ?g + g_amount ?h) (accounts l1)"
    by (rule accounts_post [OF ok prior(1,2) fk _ keys(1,2)]) simp
  then have "accounts (insert_posting ?h (insert_posting ?g (update_tx key ?f l1))) = settle key (fee - rf_grossOre a) (accounts l1)"
    unfolding both [THEN conjunct2] amounts by (simp only: diff_conv_add_uminus add.commute)
  with both [THEN conjunct1] show ?thesis unfolding l2 by blast
qed

lemma postReceipt_step:
  assumes ok: "ledger_ok l" and kind: "kind = Capture \<or> kind = Sale"
    and res: "postReceipt sc kind r v now l = (out, l')"
  shows "ledger_ok l' \<and> accounts l' =
    (if out = Inr Posted then settle (scope_id sc (rc_transactionId r)) (the (rc_grossOre r) - the (rc_feeOre r)) (accounts l)
     else accounts l)"
proof (cases "case rc_grossOre r of Some g \<Rightarrow> 0 < g \<and> g \<le> MAX_SAFE | None \<Rightarrow> False")
  case False
  with res ok show ?thesis by (auto simp: postReceipt_def split: option.splits if_splits)
next
  case True
  then obtain gross where gross: "rc_grossOre r = Some gross" "0 < gross" "gross \<le> MAX_SAFE" by (auto split: option.splits)
  define l1 where "l1 = insert_tx (receipt_row sc kind r now) l"
  define key where "key = scope_id sc (rc_transactionId r)"
  have ok1: "ledger_ok l1" unfolding l1_def
    by (rule insert_tx_ok [OF ok]) (use gross in \<open>simp_all add: receipt_row_def gross_of_def\<close>)
  have acc1: "accounts l1 = accounts l" unfolding l1_def by (rule accounts_insert_tx) (simp add: receipt_row_def)
  have gr: "gross_of (t\<lparr>t_foreign := x\<rparr>) = gross_of t" for t x by (simp add: gross_of_def)
  have tx_ok_foreign: "ledger_ok (update_tx key (\<lambda>t. t\<lparr>t_foreign := x\<rparr>) l1)" for x
    by (rule touch_ok [OF ok1]) (simp_all add: tx_key_def expected_entries_def gr Let_def split: provider_kind.split)
  have acc_foreign: "accounts (update_tx key (\<lambda>t. t\<lparr>t_foreign := x\<rparr>) l1) = accounts l1" for x
    by (rule accounts_touch) (simp_all add: tx_key_def)
  have known: "settle key x (accounts l1) = accounts l1" if "find_tx key l1 = Some t" "t_status t = Posted" for x t
    using settle_posted [OF that] .
  show ?thesis
    using res [unfolded postReceipt_def gross(1) option.case Let_def, folded l1_def key_def]
      gross ok ok1 acc1 kind tx_ok_foreign acc_foreign known
      post_receipt_entries [OF ok1 _ _ _ _ key_def refl]
    by (auto simp: gross(1) key_def [symmetric] split: option.splits if_splits)
qed

lemma postProviderAdjustment_step:
  assumes ok: "ledger_ok l"
    and res: "postProviderAdjustment sc i okind k a v now l = (out, l')"
  shows "ledger_ok l' \<and> accounts l' =
    (if out = Inr Posted then settle (scope_id sc (rf_transactionId a)) (the (rf_feeCreditOre a) - rf_grossOre a) (accounts l)
     else accounts l)"
proof (cases "invalid_adjustment a \<or> find_tx (scope_id sc i) l = None")
  case True
  with res ok show ?thesis by (auto simp: postProviderAdjustment_def Let_def split: option.splits if_splits)
next
  case False
  then obtain original where o: "find_tx (scope_id sc i) l = Some original" and valid: "\<not> invalid_adjustment a" by blast
  have pos: "0 \<le> rf_grossOre a" using valid by (auto simp: invalid_adjustment_def)
  define l1 where "l1 = insert_tx (adjustment_row sc i k a now) l"
  define key where "key = scope_id sc (rf_transactionId a)"
  have ok1: "ledger_ok l1" unfolding l1_def
    by (rule insert_tx_ok [OF ok]) (use pos in \<open>simp_all add: adjustment_row_def gross_of_def\<close>)
  have acc1: "accounts l1 = accounts l" unfolding l1_def by (rule accounts_insert_tx) (simp add: adjustment_row_def)
  have o1: "find_tx (scope_id sc i) l1 = Some original" unfolding l1_def find_tx_insert o by simp
  have known: "settle key x (accounts l1) = accounts l1" if "find_tx key l1 = Some t" "t_status t = Posted" for x t
    using settle_posted [OF that] .
  have compl: "\<exists>fee net. rf_feeCreditOre a = Some fee \<and> rf_netDebitOre a = Some net" if "complete_adjustment a"
    using that by (auto simp: complete_adjustment_def split: option.splits)
  have settled: "ledger_ok l2 \<and> accounts l2 = settle key (the (rf_feeCreditOre a) - rf_grossOre a) (accounts l1)"
    if "find_tx key l1 = Some prior" "t_status prior \<noteq> Posted" "t_kind prior = Adjustment k"
      "t_gross prior = Some (rf_grossOre a)" "refunded_of (scope_id sc i) l1 + rf_grossOre a \<le> gross_of original"
      "complete_adjustment a"
      "l2 = insert_posting (adjustment_posting sc i a Fee_credit (the (rf_feeCreditOre a)) v)
        (insert_posting (adjustment_posting sc i a (Adjusted k) (- rf_grossOre a) v)
          (update_tx key (\<lambda>t. t\<lparr>t_status := Posted, t_fee := rf_feeCreditOre a, t_net := rf_netDebitOre a, t_observed := now\<rparr>) l1))"
    for prior l2
  proof -
    have "\<exists>fee net. rf_feeCreditOre a = Some fee \<and> rf_netDebitOre a = Some net" by (rule compl [OF that(6)])
    then obtain fee net where fn: "rf_feeCreditOre a = Some fee" "rf_netDebitOre a = Some net" by blast
    show ?thesis
      using post_adjustment_entries [OF ok1 that(1-4) key_def o1 that(5) pos fn that(7) [unfolded fn option.sel]]
      by (simp only: fn option.sel)
  qed
  show ?thesis
    using res [unfolded postProviderAdjustment_def Let_def, folded l1_def key_def] valid o ok ok1 acc1 known settled
    by (auto simp: key_def [symmetric] gross_of_def not_less split: option.splits if_splits)
qed

lemma recordForeignReceipt_step:
  assumes "ledger_ok l" "recordForeignReceipt sc kind i foreign at now l = (out, l')"
  shows "ledger_ok l' \<and> accounts l' = accounts l"
proof -
  obtain t where "t_status t = Currency_unconfirmed" "gross_of t = 0" "l' = insert_tx t l"
    using assms(2) unfolding recordForeignReceipt_def Let_def prod.inject
    by (auto intro!: that simp: gross_of_def)
  then show ?thesis using insert_tx_ok [OF assms(1)] accounts_insert_tx by fastforce
qed

section \<open>The operations together\<close>

datatype ledger_call =
    Receipt_call scope bool receipt string int
  | Adjustment_call scope string bool adjustment_kind refund string int
  | Foreign_call scope bool string "(string \<times> string \<times> string) list" int int

definition receipt_kind :: "bool \<Rightarrow> provider_kind" where
  \<comment> \<open>the signatures' \<open>'capture' | 'sale'\<close>\<close>
  "receipt_kind capture = (if capture then Capture else Sale)"

fun call_ledger :: "ledger_call \<Rightarrow> ledger \<Rightarrow> (pp_error + tx_status) \<times> ledger" where
  "call_ledger (Receipt_call sc c r v now) l = postReceipt sc (receipt_kind c) r v now l"
| "call_ledger (Adjustment_call sc i c k a v now) l = postProviderAdjustment sc i (receipt_kind c) k a v now l"
| "call_ledger (Foreign_call sc c i foreign at now) l =
     map_prod Inr id (recordForeignReceipt sc (receipt_kind c) i foreign at now l)"

fun call_settles :: "ledger_call \<Rightarrow> (string \<times> string \<times> string) \<times> int" where
  \<comment> \<open>the transaction a call is about and what it is worth: received less the fee, or refunded less the fee credit\<close>
  "call_settles (Receipt_call sc c r v now) = (scope_id sc (rc_transactionId r), the (rc_grossOre r) - the (rc_feeOre r))"
| "call_settles (Adjustment_call sc i c k a v now) =
     (scope_id sc (rf_transactionId a), the (rf_feeCreditOre a) - rf_grossOre a)"
| "call_settles (Foreign_call sc c i foreign at now) = (scope_id sc i, 0)"

fun run_calls :: "ledger_call list \<Rightarrow> ledger \<Rightarrow> ledger" where
  "run_calls [] l = l"
| "run_calls (c # cs) l = run_calls cs (snd (call_ledger c l))"

lemma call_ledger_step:
  assumes "ledger_ok l" "call_ledger c l = (out, l')"
  shows "ledger_ok l' \<and> accounts l' =
    (if out = Inr Posted then settle (fst (call_settles c)) (snd (call_settles c)) (accounts l) else accounts l)"
proof (cases c)
  case (Receipt_call sc b r v now)
  have "receipt_kind b = Capture \<or> receipt_kind b = Sale" by (simp add: receipt_kind_def)
  with Receipt_call assms postReceipt_step [of l "receipt_kind b" sc r v now out l'] show ?thesis by simp
next
  case (Adjustment_call sc i b k a v now)
  with assms postProviderAdjustment_step [of l sc i "receipt_kind b" k a v now out l'] show ?thesis by simp
next
  case (Foreign_call sc b i foreign at now)
  obtain st l2 where r: "recordForeignReceipt sc (receipt_kind b) i foreign at now l = (st, l2)" by fastforce
  then have "st = Currency_unconfirmed" by (simp add: recordForeignReceipt_def)
  with Foreign_call assms r recordForeignReceipt_step [OF assms(1) r] show ?thesis by auto
qed

lemma run_calls_ok: "ledger_ok l \<Longrightarrow> ledger_ok (run_calls cs l)"
proof (induction cs arbitrary: l)
  case (Cons c cs)
  obtain out l' where "call_ledger c l = (out, l')" by fastforce
  with Cons call_ledger_step [of l c out l'] show ?case by simp
qed simp

fun redelivered :: "string \<Rightarrow> int \<Rightarrow> ledger_call \<Rightarrow> ledger_call" where
  \<comment> \<open>the same provider event read again: at another time, from another source\<close>
  "redelivered v' now' (Receipt_call sc c r v now) = Receipt_call sc c r v' now'"
| "redelivered v' now' (Adjustment_call sc i c k a v now) = Adjustment_call sc i c k a v' now'"
| "redelivered v' now' (Foreign_call sc c i foreign at now) = Foreign_call sc c i foreign at now'"

lemma find_tx_posting: "find_tx k (insert_posting g l) = find_tx k l"
  by (simp add: insert_posting_def find_tx_def)

lemma insert_tx_known: "find_tx (tx_key t) l \<noteq> None \<Longrightarrow> insert_tx t l = l"
  by (simp add: insert_tx_def)

lemma tx_key_rows:
  "tx_key (receipt_row sc kind r now) = scope_id sc (rc_transactionId r)"
  "tx_key (adjustment_row sc i k a now) = scope_id sc (rf_transactionId a)"
  by (simp_all add: tx_key_def receipt_row_def adjustment_row_def scope_id_def)

lemma receipt_redelivered:
  assumes "postReceipt sc kind r v now l = (Inr Posted, l')"
  shows "postReceipt sc kind r v' now' l' = (Inr Posted, l')"
proof -
  let ?key = "scope_id sc (rc_transactionId r)"
  obtain gross where g: "rc_grossOre r = Some gross" "\<not> (gross \<le> 0 \<or> gross > MAX_SAFE)"
    using assms by (auto simp: postReceipt_def split: option.splits if_splits)
  obtain prior where p: "find_tx ?key l' = Some prior" "t_kind prior = kind" "t_intent prior = sc_intentId sc"
    "t_gross prior = Some gross" "t_status prior = Posted"
    "case (rc_feeOre r, rc_netOre r) of (Some fee, Some net) \<Rightarrow> t_fee prior = Some fee \<and> t_net prior = Some net | _ \<Rightarrow> True"
    using assms g unfolding postReceipt_def
    by (auto simp: Let_def find_tx_posting find_tx_update tx_key_def split: option.splits if_splits)
  have "insert_tx (receipt_row sc kind r now') l' = l'" by (rule insert_tx_known) (simp add: tx_key_rows p)
  with g p show ?thesis unfolding postReceipt_def by (simp add: Let_def split: option.splits)
qed

lemma adjustment_redelivered:
  assumes "postProviderAdjustment sc i (receipt_kind c) k a v now l = (Inr Posted, l')"
  shows "postProviderAdjustment sc i (receipt_kind c) k a v' now' l' = (Inr Posted, l')"
proof -
  let ?key = "scope_id sc (rf_transactionId a)"
  let ?okey = "scope_id sc i"
  have valid: "\<not> invalid_adjustment a" using assms by (auto simp: postProviderAdjustment_def Let_def split: option.splits if_splits)
  obtain original where o: "find_tx ?okey l = Some original" "t_kind original = receipt_kind c" "t_intent original = sc_intentId sc"
    using assms by (auto simp: postProviderAdjustment_def Let_def split: option.splits if_splits)
  have o1: "find_tx ?okey (insert_tx (adjustment_row sc i k a now) l) = Some original" by (simp add: find_tx_insert o)
  have p: "find_tx ?okey l' = Some original \<and> (\<exists>prior. find_tx ?key l' = Some prior \<and> t_kind prior = Adjustment k
    \<and> t_original prior = Some i \<and> t_gross prior = Some (rf_grossOre a) \<and> t_status prior = Posted
    \<and> (complete_adjustment a \<longrightarrow> t_fee prior = rf_feeCreditOre a \<and> t_net prior = rf_netDebitOre a))"
    using assms o1 o valid unfolding postProviderAdjustment_def
    by (auto simp: Let_def find_tx_posting find_tx_update tx_key_def receipt_kind_def split: option.splits if_splits)
  then have "insert_tx (adjustment_row sc i k a now') l' = l'"
    using insert_tx_known [of "adjustment_row sc i k a now'" l'] by (auto simp: tx_key_rows)
  with p o valid show ?thesis unfolding postProviderAdjustment_def by (auto simp: Let_def)
qed

section \<open>Properties\<close>

text \<open>C6: The ledger refines a set of accounts that are settled once: from tables that keep the
  invariant, a call that answers \<open>posted\<close> credits its transaction with the received amount less the
  fee (a refund debits the gross less the returned fee) if the transaction was not settled before and
  changes no account otherwise; a call that fails or stays unresolved changes no account.\<close>

theorem ledger_settles_once:
  assumes "ledger_ok l" "call_ledger c l = (out, l')"
  shows "accounts l' = (if out = Inr Posted then settle (fst (call_settles c)) (snd (call_settles c)) (accounts l) else accounts l)"
  using call_ledger_step [OF assms] by blast

definition sample_scope :: scope where
  "sample_scope = \<lparr>sc_environment = ''live'', sc_merchantId = ''M'', sc_intentId = ''I'', sc_userId = Some 7\<rparr>"

definition sample_receipt :: receipt where
  "sample_receipt = \<lparr>rc_transactionId = ''T1'', rc_grossOre = Some 10000, rc_feeOre = Some 350, rc_netOre = Some 9650,
     rc_effectiveAt = 1, rc_foreign = [], rc_status = ''COMPLETED''\<rparr>"

definition sample_refund :: refund where
  "sample_refund = \<lparr>rf_transactionId = ''R1'', rf_originalId = ''T1'', rf_grossOre = 4000, rf_feeCreditOre = Some 100, rf_netDebitOre = Some 3900,
     rf_effectiveAt = 2\<rparr>"

definition no_ledger :: ledger where
  "no_ledger = \<lparr>l_txs = [], l_postings = []\<rparr>"

lemma no_ledger_ok: "ledger_ok no_ledger" by (simp add: no_ledger_def ledger_ok_def)

theorem ledger_settles_once_witness:
  "\<exists>l'. call_ledger (Adjustment_call sample_scope ''T1'' True Refund sample_refund ''v'' 6)
      (run_calls [Receipt_call sample_scope True sample_receipt ''v'' 5] no_ledger) = (Inr Posted, l')
    \<and> accounts l' = settle (''live'', ''M'', ''R1'') (- 3900)
        (accounts (run_calls [Receipt_call sample_scope True sample_receipt ''v'' 5] no_ledger))"
proof -
  let ?c = "Adjustment_call sample_scope ''T1'' True Refund sample_refund ''v'' 6"
  let ?l = "run_calls [Receipt_call sample_scope True sample_receipt ''v'' 5] no_ledger"
  obtain out l' where r: "call_ledger ?c ?l = (out, l')" by fastforce
  have o: "fst (call_ledger ?c ?l) = Inr Posted" by code_simp
  have s: "call_settles ?c = ((''live'', ''M'', ''R1''), - 3900)" by code_simp
  have "accounts l' = (if out = Inr Posted then settle (fst (call_settles ?c)) (snd (call_settles ?c)) (accounts ?l) else accounts ?l)"
    by (rule ledger_settles_once [OF run_calls_ok [OF no_ledger_ok] r])
  with o r s show ?thesis by (simp only: fst_conv snd_conv simp_thms if_True) blast
qed

text \<open>C29: Whatever calls were made, in any order, the tables stay consistent: every transaction has
  exactly the postings of its status (none unless posted; gross and fee, or the refunded amount and
  the fee credit), and the refunds and reversals of a receipt never exceed what was received.\<close>

theorem ledger_stays_consistent:
  "list_all (\<lambda>t. map (\<lambda>g. (g_kind g, g_amount g)) (entries (tx_key t) (run_calls cs no_ledger)) = expected_entries t
      \<and> refunded_of (tx_key t) (run_calls cs no_ledger) \<le> gross_of t)
     (l_txs (run_calls cs no_ledger))"
  using run_calls_ok [OF no_ledger_ok, of cs] by (simp add: ledger_ok_def tx_ok_def list_all_iff)

text \<open>A receipt or a refund that was posted and is read again, at another time and from another
  source, answers \<open>posted\<close> again and leaves the tables as they are.\<close>

theorem redelivery_changes_nothing:
  assumes "call_ledger c l = (Inr Posted, l')"
  shows "call_ledger (redelivered v' now' c) l' = (Inr Posted, l')"
proof (cases c)
  case (Receipt_call sc b r v now)
  with assms receipt_redelivered show ?thesis by simp
next
  case (Adjustment_call sc i b k a v now)
  with assms adjustment_redelivered show ?thesis by simp
next
  case (Foreign_call sc b i foreign at now)
  with assms show ?thesis by (simp add: recordForeignReceipt_def)
qed


end
