(* ===== verification/Payment_Capture.thy ===== *)
theory Payment_Capture
  imports Payment_Money "HOL-Library.Multiset"
begin

text \<open>
  The capture of a one-off payment, \<open>captureOneOff\<close> and \<open>reconcileUncertainCapture\<close> of
  \<open>services/paypal.ts\<close>. Several processes (member requests, reconciliation passes, webhooks) work on
  the row of an intent; each reads a snapshot, asks PayPal for the order, and writes back with
  conditional updates. A process is the point it has reached, a step is one database statement or
  one exchange with PayPal, whose answers are arbitrary.
\<close>

datatype intent_kind = One_off | Monthly

datatype intent_status =
  Created | Approval_pending | Capturing | Capture_unknown | Capture_failed | Expired | Verified | Net_unresolved_intent

record intent =
  it_id :: string
  it_environment :: string
  it_merchant :: string
  it_kind :: intent_kind
  it_amountOre :: int
  it_status :: intent_status
  it_provider :: "string option"
  it_requestId :: "string option"
  it_attempts :: nat
  it_configVersion :: int
  it_updatedAt :: int

section \<open>What a process decides\<close>

definition single_unit :: "json \<Rightarrow> json" where
  "single_unit order = (case js_get order ''purchase_units'' of JArr [u] \<Rightarrow> u | _ \<Rightarrow> JNull)"

definition order_of_intent :: "intent \<Rightarrow> json \<Rightarrow> bool" where
  "order_of_intent i order =
     (let u = single_unit order; amount = js_get u ''amount'' in
      (case it_provider i of Some p \<Rightarrow> js_get order ''id'' = JStr p | None \<Rightarrow> False)
      \<and> js_get u ''custom_id'' = JStr (it_id i) \<and> js_get (js_get u ''payee'') ''merchant_id'' = JStr (it_merchant i)
      \<and> js_get amount ''currency_code'' = JStr ''DKK'' \<and> js_get amount ''value'' = JStr (oreToDkk (it_amountOre i)))"

definition completed_capture :: "json \<Rightarrow> string option" where
  \<comment> \<open>the id of a capture whose money was received\<close>
  "completed_capture c =
     (case (js_get c ''id'', js_get c ''status'') of
        (JStr i, JStr st) \<Rightarrow> if st \<in> {''COMPLETED'', ''PARTIALLY_REFUNDED'', ''REFUNDED'', ''REVERSED''} then Some i else None
      | _ \<Rightarrow> None)"

definition order_captures :: "json \<Rightarrow> json list" where
  "order_captures order = elements (js_get (js_get (single_unit order) ''payments'') ''captures'')"

datatype capture_decision =
    Refuse pp_error
  | Answer string
  | Ingest string
  | Claim
  | Touch intent_status string

definition capture_entry :: "string \<Rightarrow> int \<Rightarrow> intent \<Rightarrow> capture_decision option" where
  \<comment> \<open>\<open>captureOneOff\<close> before it asks PayPal, with the merchant and version of the configuration\<close>
  "capture_entry merchant version i =
     (if it_kind i \<noteq> One_off \<or> it_provider i = None then Some (Refuse (PayPalError ''INTENT_NOT_FOUND'' 404))
      else if it_status i = Verified then Some (Answer ''verified'')
      else if it_status i = Capture_failed \<or> it_status i = Expired then Some (Answer ''failed'')
      else if merchant \<noteq> it_merchant i \<or> version \<noteq> it_configVersion i then Some (Refuse (PayPalError ''CONFIG_CHANGED'' 409))
      else None)"

definition member_decide :: "intent \<Rightarrow> json \<Rightarrow> capture_decision" where
  \<comment> \<open>\<open>captureOneOff\<close> on the order PayPal returned\<close>
  "member_decide i order =
     (let status = js_get order ''status''; mismatch = Refuse (PayPalError ''ORDER_MISMATCH'' 409) in
      if \<not> order_of_intent i order \<or> status \<noteq> JStr ''APPROVED'' \<and> status \<noteq> JStr ''COMPLETED'' then mismatch
      else if it_status i \<noteq> Approval_pending \<or> status = JStr ''COMPLETED''
      then (case map completed_capture (order_captures order) of
              [Some c] \<Rightarrow> Ingest c
            | _ \<Rightarrow> if it_status i = Approval_pending then mismatch else Answer ''pending_verification'')
      else Claim)"

definition CAPTURE_RETRY_LIMIT :: nat where
  "CAPTURE_RETRY_LIMIT = 5"

definition reconcile_decide :: "intent \<Rightarrow> json \<Rightarrow> capture_decision" where
  \<comment> \<open>\<open>reconcileUncertainCapture\<close> on the order PayPal returned\<close>
  "reconcile_decide i order =
     (if \<not> order_of_intent i order then Refuse (PayPalError ''ORDER_MISMATCH'' 409)
      else
        let captures = take 5 (order_captures order) in
        case List.map_filter completed_capture captures of
          c # _ \<Rightarrow> Ingest c
        | [] \<Rightarrow>
            if \<exists>c \<in> set captures. js_get c ''status'' = JStr ''DECLINED'' \<or> js_get c ''status'' = JStr ''FAILED''
            then Touch Capture_failed ''capture_failed''
            else if captures \<noteq> [] then Touch Capture_unknown ''pending_verification''
            else if js_get order ''status'' = JStr ''VOIDED'' then Touch Expired ''expired''
            else if js_get order ''status'' \<noteq> JStr ''APPROVED'' \<or> it_requestId i = None \<or> it_attempts i \<ge> CAPTURE_RETRY_LIMIT
            then Touch Capture_unknown ''pending_verification''
            else Claim)"

definition STALE_CAPTURING_MS :: int where
  "STALE_CAPTURING_MS = 600000"

definition uncertain :: "int \<Rightarrow> intent \<Rightarrow> bool" where
  \<comment> \<open>the intents a reconciliation pass selects\<close>
  "uncertain now i =
     (it_kind i = One_off \<and> (it_status i = Capture_unknown
        \<or> it_status i = Capturing \<and> it_updatedAt i < now - STALE_CAPTURING_MS))"

section \<open>What a process writes\<close>

definition request_id :: "intent \<Rightarrow> string \<Rightarrow> string" where
  \<comment> \<open>\<open>intent.capture_request_id || randomUUID()\<close>\<close>
  "request_id snapshot uuid = (case it_requestId snapshot of Some r \<Rightarrow> if r = [] then uuid else r | None \<Rightarrow> uuid)"

definition claim_member :: "string \<Rightarrow> int \<Rightarrow> intent \<Rightarrow> intent option" where
  \<comment> \<open>the conditional update before the first capture; \<open>None\<close> when no row matched\<close>
  "claim_member rid now row =
     (if it_status row = Approval_pending
      then Some (row\<lparr>it_status := Capturing, it_requestId := Some rid, it_updatedAt := now\<rparr>) else None)"

definition touch :: "intent \<Rightarrow> intent_status \<Rightarrow> int \<Rightarrow> intent \<Rightarrow> intent" where
  "touch snapshot st now row =
     (if it_status row = it_status snapshot then row\<lparr>it_status := st, it_updatedAt := now\<rparr> else row)"

definition claim_reconcile :: "intent \<Rightarrow> int \<Rightarrow> intent \<Rightarrow> intent option" where
  "claim_reconcile snapshot now row =
     (if it_status row = it_status snapshot \<and> it_attempts row = it_attempts snapshot
      then Some (row\<lparr>it_status := Capturing, it_attempts := it_attempts snapshot + 1, it_updatedAt := now\<rparr>) else None)"

definition capture_reply :: "json \<Rightarrow> string option" where
  \<comment> \<open>the id of the completed capture of a reply\<close>
  "capture_reply result =
     (let c = js_get (js_get (js_get (js_get (js_get result ''purchase_units'') ''0'') ''payments'') ''captures'') ''0'' in
      if js_get c ''status'' = JStr ''COMPLETED'' then (case js_get c ''id'' of JStr i \<Rightarrow> Some i | _ \<Rightarrow> None) else None)"

definition ingest_status :: "bool \<Rightarrow> bool \<Rightarrow> intent_status" where
  \<comment> \<open>\<open>ingestOneOffCapture\<close>: whether the receipt was posted and an adjustment is unresolved\<close>
  "ingest_status posted adjustment_unresolved =
     (if posted \<and> \<not> adjustment_unresolved then Verified else Net_unresolved_intent)"

definition deny :: "int \<Rightarrow> intent \<Rightarrow> intent" where
  \<comment> \<open>a denied or declined capture event\<close>
  "deny now row =
     (if it_status row \<in> {Capture_unknown, Capturing, Approval_pending} then row\<lparr>it_status := Capture_failed, it_updatedAt := now\<rparr> else row)"

section \<open>Interleaved processes\<close>

datatype cap_proc =
    Member_order intent
  | Member_claim intent string
  | Recon_order intent
  | Recon_touch intent intent_status
  | Recon_claim intent
  | Posting string string
  | Awaiting
  | Ingesting

record cap_state =
  cp_row :: intent
  cp_procs :: "cap_proc multiset"
  cp_posts :: "(string \<times> string) list"

definition goes :: "cap_state \<Rightarrow> cap_proc \<Rightarrow> cap_proc multiset \<Rightarrow> intent \<Rightarrow> cap_state" where
  \<comment> \<open>a process moves on and the row becomes what it wrote\<close>
  "goes s p next row = s\<lparr>cp_row := row, cp_procs := cp_procs s - {#p#} + next\<rparr>"

inductive cap_step :: "cap_state \<Rightarrow> cap_state \<Rightarrow> bool" where
  member_starts:
    "capture_entry merchant version (cp_row s) = None
     \<Longrightarrow> cap_step s (s\<lparr>cp_procs := cp_procs s + {#Member_order (cp_row s)#}\<rparr>)"
| member_reads:
    "Member_order i \<in># cp_procs s \<Longrightarrow> member_decide i order = d \<Longrightarrow>
     next = (case d of Ingest c \<Rightarrow> {#Ingesting#} | Claim \<Rightarrow> {#Member_claim i (request_id i uuid)#} | _ \<Rightarrow> {#})
     \<Longrightarrow> cap_step s (goes s (Member_order i) next (cp_row s))"
| member_claims:
    "Member_claim i rid \<in># cp_procs s \<Longrightarrow> claim_member rid now (cp_row s) = Some row \<Longrightarrow> it_provider i = Some order
     \<Longrightarrow> cap_step s (goes s (Member_claim i rid) {#Posting order rid#} row)"
| member_late:
    "Member_claim i rid \<in># cp_procs s \<Longrightarrow> claim_member rid now (cp_row s) = None
     \<Longrightarrow> cap_step s (goes s (Member_claim i rid) {#} (cp_row s))"
| posts:
    "Posting order rid \<in># cp_procs s
     \<Longrightarrow> cap_step s ((goes s (Posting order rid) {#Awaiting#} (cp_row s))\<lparr>cp_posts := cp_posts s @ [(order, rid)]\<rparr>)"
| replies_completed:
    "Awaiting \<in># cp_procs s \<Longrightarrow> capture_reply result = Some c \<Longrightarrow> cap_step s (goes s Awaiting {#Ingesting#} (cp_row s))"
| replies_otherwise:
    "Awaiting \<in># cp_procs s
     \<Longrightarrow> cap_step s (goes s Awaiting {#} ((cp_row s)\<lparr>it_status := Capture_unknown, it_updatedAt := now\<rparr>))"
| ingests:
    "Ingesting \<in># cp_procs s
     \<Longrightarrow> cap_step s (goes s Ingesting {#} ((cp_row s)\<lparr>it_status := ingest_status posted unresolved, it_updatedAt := now\<rparr>))"
| reconcile_starts:
    "uncertain now (cp_row s) \<Longrightarrow> it_provider (cp_row s) \<noteq> None
     \<Longrightarrow> cap_step s (s\<lparr>cp_procs := cp_procs s + {#Recon_order (cp_row s)#}\<rparr>)"
| reconcile_reads:
    "Recon_order i \<in># cp_procs s \<Longrightarrow> reconcile_decide i order = d \<Longrightarrow>
     next = (case d of Ingest c \<Rightarrow> {#Ingesting#} | Claim \<Rightarrow> {#Recon_claim i#} | Touch st answer \<Rightarrow> {#Recon_touch i st#} | _ \<Rightarrow> {#})
     \<Longrightarrow> cap_step s (goes s (Recon_order i) next (cp_row s))"
| reconcile_touches:
    "Recon_touch i st \<in># cp_procs s \<Longrightarrow> cap_step s (goes s (Recon_touch i st) {#} (touch i st now (cp_row s)))"
| reconcile_claims:
    "Recon_claim i \<in># cp_procs s \<Longrightarrow> claim_reconcile i now (cp_row s) = Some row \<Longrightarrow> it_provider i = Some order
     \<Longrightarrow> it_requestId i = Some rid \<Longrightarrow> cap_step s (goes s (Recon_claim i) {#Posting order rid#} row)"
| reconcile_late:
    "Recon_claim i \<in># cp_procs s \<Longrightarrow> claim_reconcile i now (cp_row s) = None
     \<Longrightarrow> cap_step s (goes s (Recon_claim i) {#} (cp_row s))"
| webhook_ingests: "cap_step s (s\<lparr>cp_procs := cp_procs s + {#Ingesting#}\<rparr>)"
| webhook_denies: "cap_step s (s\<lparr>cp_row := deny now (cp_row s)\<rparr>)"
| backs_off: "cap_step s (s\<lparr>cp_row := (cp_row s)\<lparr>it_updatedAt := now\<rparr>\<rparr>)"
| stops: "p \<in># cp_procs s \<Longrightarrow> cap_step s (goes s p {#} (cp_row s))"

definition fresh_intent :: "intent \<Rightarrow> bool" where
  \<comment> \<open>the row after \<open>createOneOff\<close> stored the order\<close>
  "fresh_intent i = (it_kind i = One_off \<and> it_status i = Approval_pending \<and> it_provider i \<noteq> None \<and> it_requestId i = None \<and> it_attempts i = 0)"

section \<open>The invariant\<close>

fun is_post :: "cap_proc \<Rightarrow> bool" where
  "is_post (Posting order rid) = True"
| "is_post p = False"

fun proc_ok :: "intent \<Rightarrow> cap_proc \<Rightarrow> bool" where
  \<comment> \<open>what a process knows, relative to the present row\<close>
  "proc_ok row (Member_order i) = (it_provider i = it_provider row)"
| "proc_ok row (Member_claim i rid) = (it_provider i = it_provider row)"
| "proc_ok row (Recon_order i) =
     (it_provider i = it_provider row \<and> it_requestId i = it_requestId row \<and> it_status row \<noteq> Approval_pending
      \<and> it_status i \<noteq> Approval_pending)"
| "proc_ok row (Recon_touch i st) = (it_status row \<noteq> Approval_pending \<and> st \<noteq> Approval_pending)"
| "proc_ok row (Recon_claim i) =
     (it_provider i = it_provider row \<and> it_requestId i = it_requestId row \<and> it_status row \<noteq> Approval_pending
      \<and> it_requestId row \<noteq> None \<and> it_attempts i < CAPTURE_RETRY_LIMIT)"
| "proc_ok row (Posting order rid) =
     (it_provider row = Some order \<and> it_requestId row = Some rid \<and> it_status row \<noteq> Approval_pending)"
| "proc_ok row Awaiting = (it_status row \<noteq> Approval_pending)"
| "proc_ok row Ingesting = True"

definition row_ok :: "intent \<Rightarrow> (string \<times> string) list \<Rightarrow> bool" where
  "row_ok row posts \<longleftrightarrow>
     it_attempts row \<le> CAPTURE_RETRY_LIMIT
     \<and> (it_status row = Approval_pending \<longrightarrow> it_requestId row = None \<and> it_attempts row = 0 \<and> posts = [])
     \<and> list_all (\<lambda>(order, rid). it_provider row = Some order \<and> it_requestId row = Some rid) posts"

definition claims_won :: "intent \<Rightarrow> nat" where
  "claims_won row = (if it_requestId row = None then 0 else 1) + it_attempts row"

definition capture_inv :: "cap_state \<Rightarrow> bool" where
  "capture_inv s \<longleftrightarrow>
     row_ok (cp_row s) (cp_posts s) \<and> (\<forall>p \<in># cp_procs s. proc_ok (cp_row s) p)
     \<and> size (filter_mset is_post (cp_procs s)) + length (cp_posts s) \<le> claims_won (cp_row s)"

lemma goes_simps [simp]:
  "cp_row (goes s p next row) = row" "cp_procs (goes s p next row) = cp_procs s - {#p#} + next" "cp_posts (goes s p next row) = cp_posts s"
  by (simp_all add: goes_def)

definition keeps_row :: "intent \<Rightarrow> intent \<Rightarrow> bool" where
  \<comment> \<open>an update that is no claim: the order, the request id and the count of attempts stay, and the row
     does not become pending again\<close>
  "keeps_row row row' \<longleftrightarrow> it_provider row' = it_provider row \<and> it_requestId row' = it_requestId row
     \<and> it_attempts row' = it_attempts row \<and> (it_status row' = Approval_pending \<longrightarrow> it_status row = Approval_pending)"

lemma keeps_proc_ok: "keeps_row row row' \<Longrightarrow> proc_ok row p \<Longrightarrow> proc_ok row' p"
  by (cases p) (auto simp: keeps_row_def)

lemma keeps_row_ok: "keeps_row row row' \<Longrightarrow> row_ok row posts \<Longrightarrow> row_ok row' posts"
  by (auto simp: keeps_row_def row_ok_def)

lemma goes_inv:
  assumes "capture_inv s" "p \<in># cp_procs s" "keeps_row (cp_row s) row" "\<forall>q \<in># next. proc_ok row q"
    "size (filter_mset is_post next) = 0"
  shows "capture_inv (goes s p next row)"
proof -
  have "claims_won row = claims_won (cp_row s)" using assms(3) by (simp add: claims_won_def keeps_row_def)
  moreover have "size (filter_mset is_post (cp_procs s - {#p#} + next)) \<le> size (filter_mset is_post (cp_procs s))"
    using assms(5) size_mset_mono [OF multiset_filter_mono [OF diff_subset_eq_self, of is_post "cp_procs s" "{#p#}"]]
    by (simp only: filter_union_mset size_union add_0_right)
  moreover have "\<forall>q \<in># cp_procs s - {#p#} + next. proc_ok row q"
    using assms(1,4) keeps_proc_ok [OF assms(3)] by (auto simp: capture_inv_def dest: in_diffD)
  ultimately show ?thesis
    using assms(1) keeps_row_ok [OF assms(3)] unfolding capture_inv_def by simp
qed

lemma joins_inv:
  "capture_inv s \<Longrightarrow> proc_ok (cp_row s) p \<Longrightarrow> \<not> is_post p \<Longrightarrow> capture_inv (s\<lparr>cp_procs := cp_procs s + {#p#}\<rparr>)"
  by (simp add: capture_inv_def)

lemma row_inv: "capture_inv s \<Longrightarrow> keeps_row (cp_row s) row \<Longrightarrow> capture_inv (s\<lparr>cp_row := row\<rparr>)"
proof -
  assume s: "capture_inv s" and k: "keeps_row (cp_row s) row"
  then have "claims_won row = claims_won (cp_row s)" by (simp add: claims_won_def keeps_row_def)
  with s keeps_row_ok [OF k] keeps_proc_ok [OF k] show ?thesis by (auto simp: capture_inv_def)
qed

lemma keeps_row_simps [simp]:
  "keeps_row row row" "st \<noteq> Approval_pending \<Longrightarrow> keeps_row row (row\<lparr>it_status := st, it_updatedAt := now\<rparr>)"
  "keeps_row row (row\<lparr>it_updatedAt := now\<rparr>)" "keeps_row row (deny now row)" "ingest_status a b \<noteq> Approval_pending"
  by (simp_all add: keeps_row_def deny_def ingest_status_def)

lemma reconcile_decide_facts:
  "reconcile_decide i order = Claim \<Longrightarrow> it_requestId i \<noteq> None \<and> it_attempts i < CAPTURE_RETRY_LIMIT"
  "reconcile_decide i order = Touch st answer \<Longrightarrow> st \<noteq> Approval_pending"
  by (auto simp: reconcile_decide_def Let_def split: if_splits list.splits)

lemma size_post_out: "p \<in># M \<Longrightarrow> size (filter_mset is_post M) = (if is_post p then 1 else 0) + size (filter_mset is_post (M - {#p#}))"
  by (auto dest!: multi_member_split)

lemma capture_step_inv: "cap_step s s' \<Longrightarrow> capture_inv s \<Longrightarrow> capture_inv s'"
proof (induction rule: cap_step.induct)
  case (member_starts merchant version s)
  then show ?case by (intro joins_inv) simp_all
next
  case (member_reads i s order d "next" uuid)
  then have "proc_ok (cp_row s) (Member_order i)" unfolding capture_inv_def by blast
  with member_reads show ?case by (intro goes_inv) (auto split: capture_decision.splits)
next
  case (member_claims i rid s now row order)
  then have ap: "it_status (cp_row s) = Approval_pending" and row: "row = (cp_row s)\<lparr>it_status := Capturing, it_requestId := Some rid, it_updatedAt := now\<rparr>"
    by (auto simp: claim_member_def split: if_splits)
  have pr: "it_provider (cp_row s) = Some order"
    using member_claims by (auto simp: capture_inv_def)
  from ap member_claims have r: "it_requestId (cp_row s) = None" "it_attempts (cp_row s) = 0" "cp_posts s = []"
    by (auto simp: capture_inv_def row_ok_def)
  have none: "size (filter_mset is_post (cp_procs s)) = 0"
    using member_claims r by (simp add: capture_inv_def claims_won_def)
  have "proc_ok row p" if "p \<in># cp_procs s" for p
  proof -
    have "proc_ok (cp_row s) p" using that member_claims(4) unfolding capture_inv_def by blast
    moreover have "\<not> is_post p" using none that by auto
    ultimately show ?thesis using ap unfolding row by (cases p) simp_all
  qed
  moreover have "size (filter_mset is_post (cp_procs s - {#Member_claim i rid#})) = 0"
    using none by (simp add: filter_mset_eq_conv) 
  moreover have "row_ok row (cp_posts s)" "claims_won row = 1" "proc_ok row (Posting order rid)"
    using r pr unfolding row by (simp_all add: row_ok_def claims_won_def)
  ultimately show ?case using r(3) unfolding capture_inv_def goes_simps by (auto dest: in_diffD)
next
  case (member_late i rid s now)
  then show ?case by (intro goes_inv) simp_all
next
  case (posts order rid s)
  then have ok: "proc_ok (cp_row s) (Posting order rid)" unfolding capture_inv_def by blast
  have "capture_inv (goes s (Posting order rid) {#Awaiting#} (cp_row s))"
    using posts ok by (intro goes_inv) simp_all
  moreover have "size (filter_mset is_post (cp_procs s - {#Posting order rid#})) + length (cp_posts s) < claims_won (cp_row s)"
  proof -
    have "size (filter_mset is_post (cp_procs s)) + length (cp_posts s) \<le> claims_won (cp_row s)"
      using posts(2) unfolding capture_inv_def by blast
    then show ?thesis unfolding size_post_out [OF posts(1)] by (simp only: is_post.simps if_True)
  qed
  ultimately show ?case using ok by (auto simp: capture_inv_def row_ok_def)
next
  case (replies_completed s result c)
  then show ?case by (intro goes_inv) simp_all
next
  case (replies_otherwise s now)
  then show ?case by (intro goes_inv) simp_all
next
  case (ingests s posted unresolved now)
  then show ?case by (intro goes_inv) simp_all
next
  case (reconcile_starts now s)
  then show ?case by (intro joins_inv) (auto simp: uncertain_def)
next
  case (reconcile_reads i s order d "next")
  then have "proc_ok (cp_row s) (Recon_order i)" unfolding capture_inv_def by blast
  with reconcile_reads reconcile_decide_facts [of i order] show ?case
    by (intro goes_inv) (auto split: capture_decision.splits)
next
  case (reconcile_touches i st s now)
  then show ?case by (intro goes_inv) (auto simp: capture_inv_def touch_def)
next
  case (reconcile_claims i s now row order rid)
  then have ok: "proc_ok (cp_row s) (Recon_claim i)" unfolding capture_inv_def by blast
  have row: "row = (cp_row s)\<lparr>it_status := Capturing, it_attempts := it_attempts (cp_row s) + 1, it_updatedAt := now\<rparr>"
    "it_attempts i = it_attempts (cp_row s)"
    using reconcile_claims(2) by (auto simp: claim_reconcile_def split: if_splits)
  have "proc_ok row p" if "p \<in># cp_procs s" for p
  proof -
    have "proc_ok (cp_row s) p" using that reconcile_claims(5) unfolding capture_inv_def by blast
    then show ?thesis unfolding row(1) by (cases p) simp_all
  qed
  moreover have "size (filter_mset is_post (cp_procs s - {#Recon_claim i#})) + length (cp_posts s) \<le> claims_won (cp_row s)"
  proof -
    have "size (filter_mset is_post (cp_procs s)) + length (cp_posts s) \<le> claims_won (cp_row s)"
      using reconcile_claims(5) unfolding capture_inv_def by blast
    then show ?thesis unfolding size_post_out [OF reconcile_claims(1)] by (simp only: is_post.simps if_False add_0_left)
  qed
  moreover have "row_ok row (cp_posts s)"
    using reconcile_claims(5) ok row(2) unfolding row(1) capture_inv_def by (simp add: row_ok_def)
  moreover have "claims_won row = Suc (claims_won (cp_row s))" unfolding row(1) by (simp add: claims_won_def)
  moreover have "proc_ok row (Posting order rid)" using ok reconcile_claims(3,4) unfolding row(1) by simp
  ultimately show ?case unfolding capture_inv_def goes_simps by (auto dest: in_diffD)
next
  case (reconcile_late i s now)
  then show ?case by (intro goes_inv) simp_all
next
  case (webhook_ingests s)
  then show ?case by (intro joins_inv) simp_all
next
  case (webhook_denies s now)
  then show ?case by (intro row_inv) simp_all
next
  case (backs_off s now)
  then show ?case by (intro row_inv) simp_all
next
  case (stops p s)
  then show ?case by (intro goes_inv) simp_all
qed

definition fresh_state :: "intent \<Rightarrow> cap_state" where
  "fresh_state i = \<lparr>cp_row = i, cp_procs = {#}, cp_posts = []\<rparr>"

lemma fresh_inv: "fresh_intent i \<Longrightarrow> capture_inv (fresh_state i)"
  by (simp add: fresh_intent_def fresh_state_def capture_inv_def row_ok_def claims_won_def)

lemma reachable_inv: "cap_step\<^sup>*\<^sup>* s s' \<Longrightarrow> capture_inv s \<Longrightarrow> capture_inv s'"
  by (induction rule: rtranclp_induct) (auto intro: capture_step_inv)

lemma member_claims_only_approved:
  "member_decide i order = Claim \<Longrightarrow>
     order_of_intent i order \<and> js_get order ''status'' = JStr ''APPROVED'' \<and> it_status i = Approval_pending"
  by (auto simp: member_decide_def Let_def split: if_splits list.splits option.splits)

section \<open>Properties\<close>

text \<open>C7: However member requests, reconciliation passes, webhooks, lost replies and crashes interleave,
  the captures sent to PayPal for an intent are all for its one order and carry one and the same
  request id, the one stored with the intent, and there are at most six of them: the member's and
  five retries. PayPal deduplicates on that id, so the member is charged once.\<close>

theorem captures_share_one_request:
  assumes "fresh_intent i" "cap_step\<^sup>*\<^sup>* (fresh_state i) s"
  shows "length (cp_posts s) \<le> 6
    \<and> list_all (\<lambda>(order, rid). it_provider (cp_row s) = Some order \<and> it_requestId (cp_row s) = Some rid) (cp_posts s)"
proof -
  have inv: "capture_inv s" using reachable_inv [OF assms(2) fresh_inv [OF assms(1)]] .
  then have "length (cp_posts s) \<le> claims_won (cp_row s)" "row_ok (cp_row s) (cp_posts s)" by (simp_all add: capture_inv_def)
  moreover from this have "claims_won (cp_row s) \<le> 6" by (simp add: row_ok_def claims_won_def CAPTURE_RETRY_LIMIT_def)
  ultimately show ?thesis by (simp add: row_ok_def)
qed

definition sample_intent :: intent where
  "sample_intent = \<lparr>it_id = ''I1'', it_environment = ''live'', it_merchant = ''M'', it_kind = One_off, it_amountOre = 10000,
     it_status = Approval_pending, it_provider = Some ''O1'', it_requestId = None, it_attempts = 0, it_configVersion = 1, it_updatedAt = 0\<rparr>"

definition sample_order :: json where
  "sample_order = JObj [(''id'', JStr ''O1''), (''status'', JStr ''APPROVED''),
     (''purchase_units'', JArr [JObj [(''custom_id'', JStr ''I1''), (''payee'', JObj [(''merchant_id'', JStr ''M'')]),
        (''amount'', JObj [(''currency_code'', JStr ''DKK''), (''value'', JStr ''100.00'')])]])]"

lemma sample_decisions:
  "capture_entry ''M'' 1 sample_intent = None" "member_decide sample_intent sample_order = Claim" "request_id sample_intent ''U'' = ''U''"
  "claim_member ''U'' 3 sample_intent = Some (sample_intent\<lparr>it_status := Capturing, it_requestId := Some ''U'', it_updatedAt := 3\<rparr>)"
  by code_simp+

lemma sample_run_reachable:
  "cap_step\<^sup>*\<^sup>* (fresh_state sample_intent)
     \<lparr>cp_row = sample_intent\<lparr>it_status := Capturing, it_requestId := Some ''U'', it_updatedAt := 3\<rparr>, cp_procs = {#Awaiting#},
      cp_posts = [(''O1'', ''U'')]\<rparr>"
proof -
  let ?row = "sample_intent\<lparr>it_status := Capturing, it_requestId := Some ''U'', it_updatedAt := 3\<rparr>"
  let ?s = "\<lambda>row ps posts. \<lparr>cp_row = row, cp_procs = ps, cp_posts = posts\<rparr>"
  have "cap_step (fresh_state sample_intent) (?s sample_intent {#Member_order sample_intent#} [])"
    using member_starts [of "''M''" 1 "fresh_state sample_intent"] sample_decisions(1) by (simp add: fresh_state_def)
  moreover have "cap_step (?s sample_intent {#Member_order sample_intent#} []) (?s sample_intent {#Member_claim sample_intent ''U''#} [])"
    using member_reads [of sample_intent "?s sample_intent {#Member_order sample_intent#} []" sample_order Claim
        "{#Member_claim sample_intent ''U''#}" "''U''"] sample_decisions(2,3) by (simp add: goes_def)
  moreover have "cap_step (?s sample_intent {#Member_claim sample_intent ''U''#} []) (?s ?row {#Posting ''O1'' ''U''#} [])"
    using member_claims [of sample_intent "''U''" "?s sample_intent {#Member_claim sample_intent ''U''#} []" 3 ?row "''O1''"]
      sample_decisions(4) by (simp add: goes_def) (simp add: sample_intent_def)
  moreover have "cap_step (?s ?row {#Posting ''O1'' ''U''#} []) (?s ?row {#Awaiting#} [(''O1'', ''U'')])"
    using posts [of "''O1''" "''U''" "?s ?row {#Posting ''O1'' ''U''#} []"] by (simp add: goes_def)
  ultimately show ?thesis by (meson converse_rtranclp_into_rtranclp rtranclp.rtrancl_refl)
qed

theorem captures_share_one_request_witness:
  "\<exists>s. cap_step\<^sup>*\<^sup>* (fresh_state sample_intent) s \<and> cp_posts s = [(''O1'', ''U'')] \<and> it_requestId (cp_row s) = Some ''U''"
proof -
  have "fresh_intent sample_intent" by (simp add: fresh_intent_def sample_intent_def)
  from captures_share_one_request [OF this sample_run_reachable] sample_run_reachable show ?thesis by fastforce
qed

end
