(* ===== verification/Energy_Cost.thy ===== *)
theory Energy_Cost
  imports Payment_Money Power_Rate
begin

text \<open>
  \<open>services/costMath.ts\<close>: the exact cost of measured energy under interval prices. Energy is counted
  in billionths of a kWh and rates in millionths of a krone, both \<open>BigInt\<close>, so the model's \<open>int\<close>;
  instants are milliseconds since the epoch.
\<close>

definition KWH_SCALE :: int where
  "KWH_SCALE = 1000000000"

definition RATE_SCALE :: int where
  "RATE_SCALE = 1000000"

definition ORE_PER_DKK :: int where
  "ORE_PER_DKK = 100"

definition kwh_whole :: "string \<Rightarrow> bool" where
  \<comment> \<open>\<open>0|[1-9]\d*\<close>\<close>
  "kwh_whole w = (w = ''0'' \<or> all_digits w \<and> hd w \<noteq> CHR ''0'')"

definition parseKwh :: "string \<Rightarrow> int fallible" where
  "parseKwh value =
     (if \<not> decimal_text kwh_whole 9 value then Inl ''Invalid decimal kWh''
      else case split_on (CHR ''.'') value of
             w # f # _ \<Rightarrow> Inr (int (nat_of_digits w) * KWH_SCALE + int (nat_of_digits (pad_end 9 (CHR ''0'') f)))
           | [w] \<Rightarrow> Inr (int (nat_of_digits w) * KWH_SCALE)
           | [] \<Rightarrow> Inl ''Invalid decimal kWh'')"

definition formatKwh :: "int \<Rightarrow> string" where
  "formatKwh v = show_nat (nat (v div KWH_SCALE)) @ ''.'' @ pad_start 9 (CHR ''0'') (show_nat (nat (v mod KWH_SCALE)))"

definition roundNearestAwayFromZero :: "int \<Rightarrow> int \<Rightarrow> int" where
  "roundNearestAwayFromZero numerator denominator =
     (if numerator < 0 then - ((- numerator + denominator div 2) div denominator)
      else (numerator + denominator div 2) div denominator)"

record energy_interval =
  en_start :: int
  en_end :: int
  en_kwh :: string
  en_covered :: int
  en_expected :: int

datatype cost_price_status = Price_valid | Price_incomplete | Price_forecast

record price_interval =
  pr_start :: int
  pr_end :: int
  pr_rate :: string
  pr_status :: cost_price_status

record cost_result =
  co_kwhPriced :: string
  co_costOre :: int
  co_energyCoveredSeconds :: int
  co_priceCoveredMs :: int
  co_complete :: bool

record cost_state =
  cs_priced :: int
  cs_units :: int
  cs_covered :: int
  cs_priceMs :: int
  cs_complete :: bool

definition validPrices :: "price_interval list \<Rightarrow> price_interval list" where
  "validPrices prices = sort_key pr_start (filter (\<lambda>p. pr_status p = Price_valid) prices)"

fun check_prices :: "price_interval option \<Rightarrow> price_interval list \<Rightarrow> unit fallible" where
  "check_prices prev [] = Inr ()"
| "check_prices prev (p # ps) =
     (if pr_end p \<le> pr_start p then Inl ''Invalid price interval''
      else bind_err (parseDkkPerKwh (pr_rate p)) (\<lambda>_.
        if (case prev of Some q \<Rightarrow> pr_start p < pr_end q | None \<Rightarrow> False) then Inl ''Overlapping price intervals''
        else check_prices (Some p) ps))"

definition overlap_ms :: "int \<Rightarrow> int \<Rightarrow> price_interval \<Rightarrow> int" where
  "overlap_ms s e p = max 0 (min e (pr_end p) - max s (pr_start p))"

fun price_loop :: "int \<Rightarrow> int \<Rightarrow> int \<Rightarrow> price_interval list \<Rightarrow> int \<times> int \<times> int \<Rightarrow> (int \<times> int \<times> int) fallible" where
  \<comment> \<open>the accumulator: milliseconds matched, energy priced, cost in units of 10 to the -15 kroner\<close>
  "price_loop kwhNano s e [] acc = Inr acc"
| "price_loop kwhNano s e (p # ps) (matched, priced, units) =
     (let overlap = overlap_ms s e p in
      if overlap = 0 then price_loop kwhNano s e ps (matched, priced, units)
      else
        let after = matched + overlap;
            energyPart = kwhNano * after div (e - s) - kwhNano * matched div (e - s)
        in bind_err (parseDkkPerKwh (pr_rate p)) (\<lambda>rate.
             price_loop kwhNano s e ps (after, priced + energyPart, units + energyPart * rate)))"

definition interval_invalid :: "energy_interval \<Rightarrow> bool" where
  "interval_invalid i =
     (en_end i - en_start i \<le> 0 \<or> en_covered i < 0 \<or> en_expected i \<le> 0 \<or> en_covered i > en_expected i
      \<or> en_expected i * 1000 \<noteq> en_end i - en_start i)"

definition cost_interval :: "price_interval list \<Rightarrow> energy_interval \<Rightarrow> cost_state \<Rightarrow> cost_state fallible" where
  "cost_interval valid i st =
     (if interval_invalid i then Inl ''Invalid energy interval''
      else bind_err (parseKwh (en_kwh i)) (\<lambda>kwhNano.
        bind_err (price_loop kwhNano (en_start i) (en_end i) valid (0, cs_priced st, cs_units st)) (\<lambda>(matched, priced, units).
          Inr \<lparr>cs_priced = priced, cs_units = units, cs_covered = cs_covered st + en_covered i,
               cs_priceMs = cs_priceMs st + matched,
               cs_complete = (cs_complete st \<and> en_covered i = en_expected i \<and> matched = en_end i - en_start i)\<rparr>)))"

fun cost_loop :: "price_interval list \<Rightarrow> energy_interval list \<Rightarrow> cost_state \<Rightarrow> cost_state fallible" where
  "cost_loop valid [] st = Inr st"
| "cost_loop valid (i # is) st = bind_err (cost_interval valid i st) (cost_loop valid is)"

definition calculateIntervalCost :: "energy_interval list \<Rightarrow> price_interval list \<Rightarrow> cost_result fallible" where
  "calculateIntervalCost energy prices =
     (let valid = validPrices prices in
      bind_err (check_prices None valid) (\<lambda>_.
      bind_err (cost_loop valid energy \<lparr>cs_priced = 0, cs_units = 0, cs_covered = 0, cs_priceMs = 0, cs_complete = True\<rparr>) (\<lambda>st.
        Inr \<lparr>co_kwhPriced = formatKwh (cs_priced st),
             co_costOre = roundNearestAwayFromZero (cs_units st * ORE_PER_DKK) (KWH_SCALE * RATE_SCALE),
             co_energyCoveredSeconds = cs_covered st, co_priceCoveredMs = cs_priceMs st, co_complete = cs_complete st\<rparr>)))"

record funding_split =
  fs_appliedOre :: int
  fs_ownerRemainderOre :: int
  fs_creditCarriedOre :: int

definition allocateConfirmedCredit :: "int \<Rightarrow> int \<Rightarrow> funding_split fallible" where
  "allocateConfirmedCredit labCostOre availableCreditOre =
     (if labCostOre < 0 \<or> availableCreditOre < 0 then Inl ''Cost and available credit must be nonnegative''
      else let applied = (if labCostOre < availableCreditOre then labCostOre else availableCreditOre) in
        Inr \<lparr>fs_appliedOre = applied, fs_ownerRemainderOre = labCostOre - applied,
             fs_creditCarriedOre = availableCreditOre - applied\<rparr>)"

section \<open>Matching an interval against the prices\<close>

fun disjoint_from :: "int \<Rightarrow> price_interval list \<Rightarrow> bool" where
  "disjoint_from b [] = True"
| "disjoint_from b (p # ps) = (b \<le> pr_start p \<and> pr_start p < pr_end p \<and> disjoint_from (pr_end p) ps)"

lemma check_prices_disjoint:
  "check_prices prev ps = Inr u \<Longrightarrow> (\<And>q. prev = Some q \<Longrightarrow> b \<le> pr_end q) \<Longrightarrow> (prev = None \<Longrightarrow> ps \<noteq> [] \<Longrightarrow> b \<le> pr_start (hd ps))
   \<Longrightarrow> disjoint_from b ps"
proof (induction ps arbitrary: prev b)
  case (Cons p ps)
  from Cons.prems have ok: "pr_start p < pr_end p" "check_prices (Some p) ps = Inr u"
    and before: "\<And>q. prev = Some q \<Longrightarrow> pr_end q \<le> pr_start p"
    by (auto simp: bind_err_Inr_iff split: if_splits option.splits)
  have "b \<le> pr_start p" using before Cons.prems(2,3) by (cases prev) force+
  moreover have "disjoint_from (pr_end p) ps" by (rule Cons.IH [OF ok(2)]) simp_all
  ultimately show ?case using ok by simp
qed simp

lemma check_prices_rates: "check_prices prev ps = Inr u \<Longrightarrow> p \<in> set ps \<Longrightarrow> \<exists>r. parseDkkPerKwh (pr_rate p) = Inr r"
  by (induction ps arbitrary: prev) (auto simp: bind_err_Inr_iff split: if_splits)

lemma price_loop_bounds:
  assumes "price_loop k s e ps (m, x, u) = Inr (m', x', u')" "disjoint_from b ps" "s < e" "0 \<le> k"
    "0 \<le> m" "m \<le> max 0 (min e b - s)"
  shows "m \<le> m' \<and> m' \<le> e - s \<and> x' - x = k * m' div (e - s) - k * m div (e - s)"
  using assms
proof (induction ps arbitrary: m x u b)
  case Nil
  then show ?case by auto
next
  case (Cons p ps)
  let ?o = "overlap_ms s e p"
  have d: "b \<le> pr_start p" "pr_start p < pr_end p" "disjoint_from (pr_end p) ps" using Cons.prems(2) by simp_all
  have o: "0 \<le> ?o" by (simp add: overlap_ms_def)
  have m: "m + ?o \<le> max 0 (min e (pr_end p) - s)"
    using Cons.prems(6) d unfolding overlap_ms_def by (auto simp: max_def min_def split: if_splits)
  show ?case
  proof (cases "?o = 0")
    case True
    with Cons.prems(1) have "price_loop k s e ps (m, x, u) = Inr (m', x', u')" by simp
    from Cons.IH [OF this d(3) Cons.prems(3,4,5)] m True show ?thesis by simp
  next
    case False
    with Cons.prems(1) obtain r where
      "price_loop k s e ps (m + ?o, x + (k * (m + ?o) div (e - s) - k * m div (e - s)),
         u + (k * (m + ?o) div (e - s) - k * m div (e - s)) * r) = Inr (m', x', u')"
      by (auto simp: Let_def bind_err_Inr_iff)
    from Cons.IH [OF this d(3) Cons.prems(3,4) _ m] Cons.prems(5) o show ?thesis by simp
  qed
qed

definition rates_within :: "int \<Rightarrow> int \<Rightarrow> price_interval list \<Rightarrow> bool" where
  "rates_within lo hi ps = list_all (\<lambda>p. case parseDkkPerKwh (pr_rate p) of Inr r \<Rightarrow> lo \<le> r \<and> r \<le> hi | Inl _ \<Rightarrow> True) ps"

lemma price_loop_cost:
  assumes "price_loop k s e ps (m, x, u) = Inr (m', x', u')" "s < e" "0 \<le> k" "0 \<le> m"
    "rates_within lo hi ps"
  shows "lo * (x' - x) \<le> u' - u \<and> u' - u \<le> hi * (x' - x)"
  using assms
proof (induction ps arbitrary: m x u)
  case Nil
  then show ?case by auto
next
  case (Cons p ps)
  let ?o = "overlap_ms s e p"
  have o: "0 \<le> ?o" by (simp add: overlap_ms_def)
  show ?case
  proof (cases "?o = 0")
    case True
    with Cons.prems(1) have "price_loop k s e ps (m, x, u) = Inr (m', x', u')" by simp
    from Cons.IH [OF this Cons.prems(2,3,4)] Cons.prems(5) show ?thesis by (simp add: rates_within_def)
  next
    case False
    define part where "part = k * (m + ?o) div (e - s) - k * m div (e - s)"
    from False Cons.prems(1) obtain r where r: "parseDkkPerKwh (pr_rate p) = Inr r"
      and rest: "price_loop k s e ps (m + ?o, x + part, u + part * r) = Inr (m', x', u')"
      by (auto simp: Let_def bind_err_Inr_iff part_def)
    have "k * m \<le> k * (m + ?o)" using Cons.prems(3) o by (simp add: mult_left_mono)
    then have "0 \<le> part" using Cons.prems(2) by (simp add: part_def zdiv_mono1)
    moreover have "lo \<le> r" "r \<le> hi" using Cons.prems(5) r by (simp_all add: rates_within_def)
    ultimately have "lo * part \<le> part * r" "part * r \<le> hi * part"
      by (metis mult.commute mult_right_mono)+
    moreover have "lo * (x' - (x + part)) \<le> u' - (u + part * r) \<and> u' - (u + part * r) \<le> hi * (x' - (x + part))"
      by (rule Cons.IH [OF rest Cons.prems(2,3)]) (use Cons.prems(4,5) o in \<open>auto simp: rates_within_def\<close>)
    ultimately show ?thesis by (simp add: right_diff_distrib distrib_left)
  qed
qed

lemma parseKwh_nonneg: "parseKwh v = Inr k \<Longrightarrow> 0 \<le> k"
  by (auto simp: parseKwh_def KWH_SCALE_def split: list.splits if_splits)

lemma cost_interval_step:
  assumes "cost_interval valid i st = Inr st'" "disjoint_from b valid"
    "rates_within lo hi valid"
  shows "\<exists>k. parseKwh (en_kwh i) = Inr k \<and> cs_priced st \<le> cs_priced st' \<and> cs_priced st' \<le> cs_priced st + k
    \<and> (cs_complete st' \<longrightarrow> cs_complete st \<and> cs_priced st' = cs_priced st + k)
    \<and> lo * (cs_priced st' - cs_priced st) \<le> cs_units st' - cs_units st
    \<and> cs_units st' - cs_units st \<le> hi * (cs_priced st' - cs_priced st)"
proof -
  obtain k m x u where k: "parseKwh (en_kwh i) = Inr k" and ok: "\<not> interval_invalid i"
    and l: "price_loop k (en_start i) (en_end i) valid (0, cs_priced st, cs_units st) = Inr (m, x, u)"
    and st': "st' = \<lparr>cs_priced = x, cs_units = u, cs_covered = cs_covered st + en_covered i, cs_priceMs = cs_priceMs st + m,
      cs_complete = (cs_complete st \<and> en_covered i = en_expected i \<and> m = en_end i - en_start i)\<rparr>"
    using assms(1) by (auto simp: cost_interval_def bind_err_Inr_iff split: if_splits)
  have se: "en_start i < en_end i" using ok by (simp add: interval_invalid_def)
  have k0: "0 \<le> k" by (rule parseKwh_nonneg [OF k])
  let ?d = "en_end i - en_start i"
  have "0 \<le> m \<and> m \<le> ?d \<and> x - cs_priced st = k * m div ?d - k * 0 div ?d"
    by (rule price_loop_bounds [OF l assms(2) se k0]) simp_all
  then have m: "0 \<le> m" "m \<le> ?d" "x = cs_priced st + k * m div ?d" by simp_all
  have "k * m \<le> k * ?d" using m(2) k0 by (rule mult_left_mono)
  then have "k * m div ?d \<le> k * ?d div ?d" using se by (intro zdiv_mono1) simp_all
  then have le: "k * m div ?d \<le> k" using se by simp
  have ge: "0 \<le> k * m div ?d" using k0 m(1) se by (simp add: pos_imp_zdiv_nonneg_iff)
  have full: "m = ?d \<Longrightarrow> k * m div ?d = k" using se by simp
  have "lo * (x - cs_priced st) \<le> u - cs_units st \<and> u - cs_units st \<le> hi * (x - cs_priced st)"
    by (rule price_loop_cost [OF l se k0]) (use assms(3) in simp_all)
  with k m le ge full show ?thesis by (auto simp: st')
qed

lemma cost_loop_step:
  assumes "cost_loop valid is st = Inr st'" "disjoint_from b valid"
    "rates_within lo hi valid"
  shows "\<exists>ks. map_err parseKwh (map en_kwh is) = Inr ks \<and> cs_priced st \<le> cs_priced st' \<and> cs_priced st' \<le> cs_priced st + sum_list ks
    \<and> (cs_complete st' \<longrightarrow> cs_complete st \<and> cs_priced st' = cs_priced st + sum_list ks)
    \<and> lo * (cs_priced st' - cs_priced st) \<le> cs_units st' - cs_units st
    \<and> cs_units st' - cs_units st \<le> hi * (cs_priced st' - cs_priced st)"
  using assms(1)
proof (induction "is" arbitrary: st)
  case (Cons i rest)
  then obtain st1 where s1: "cost_interval valid i st = Inr st1" and s2: "cost_loop valid rest st1 = Inr st'"
    by (auto simp: bind_err_Inr_iff)
  obtain ks where ks: "map_err parseKwh (map en_kwh rest) = Inr ks" "cs_priced st1 \<le> cs_priced st'"
    "cs_priced st' \<le> cs_priced st1 + sum_list ks" "cs_complete st' \<longrightarrow> cs_complete st1 \<and> cs_priced st' = cs_priced st1 + sum_list ks"
    "lo * (cs_priced st' - cs_priced st1) \<le> cs_units st' - cs_units st1"
    "cs_units st' - cs_units st1 \<le> hi * (cs_priced st' - cs_priced st1)"
    using Cons.IH [OF s2] by blast
  obtain k where k: "parseKwh (en_kwh i) = Inr k" "cs_priced st \<le> cs_priced st1" "cs_priced st1 \<le> cs_priced st + k"
    "cs_complete st1 \<longrightarrow> cs_complete st \<and> cs_priced st1 = cs_priced st + k"
    "lo * (cs_priced st1 - cs_priced st) \<le> cs_units st1 - cs_units st"
    "cs_units st1 - cs_units st \<le> hi * (cs_priced st1 - cs_priced st)"
    using cost_interval_step [OF s1 assms(2,3)] by blast
  have "map_err parseKwh (map en_kwh (i # rest)) = Inr (k # ks)" using k ks by (simp add: bind_err_def)
  moreover have "lo * (cs_priced st' - cs_priced st) = lo * (cs_priced st' - cs_priced st1) + lo * (cs_priced st1 - cs_priced st)"
    "hi * (cs_priced st' - cs_priced st) = hi * (cs_priced st' - cs_priced st1) + hi * (cs_priced st1 - cs_priced st)"
    by (simp_all add: algebra_simps)
  ultimately show ?case using k ks by (intro exI [of _ "k # ks"]) auto
qed simp

lemma round_mono: "a \<le> b \<Longrightarrow> 0 < d \<Longrightarrow> roundNearestAwayFromZero a d \<le> roundNearestAwayFromZero b d"
proof -
  assume a: "a \<le> b" and d: "0 < d"
  consider "0 \<le> a" | "b < 0" | "a < 0" "0 \<le> b" by linarith
  then show ?thesis
  proof cases
    case 1
    with a d show ?thesis by (simp add: roundNearestAwayFromZero_def zdiv_mono1)
  next
    case 2
    have "(- b + d div 2) div d \<le> (- a + d div 2) div d" using a d by (intro zdiv_mono1) simp_all
    with 2 a show ?thesis by (simp add: roundNearestAwayFromZero_def)
  next
    case 3
    have "0 \<le> (- a + d div 2) div d" "0 \<le> (b + d div 2) div d"
      using 3 d by (simp_all add: pos_imp_zdiv_nonneg_iff)
    with 3 show ?thesis by (simp add: roundNearestAwayFromZero_def)
  qed
qed

lemma show_nat_0: "show_nat 0 = ''0''" by code_simp

lemma parse_formatKwh:
  assumes "0 \<le> n"
  shows "parseKwh (formatKwh n) = Inr n"
proof -
  let ?w = "show_nat (nat (n div KWH_SCALE))" and ?f = "pad_start 9 (CHR ''0'') (show_nat (nat (n mod KWH_SCALE)))"
  have "nat (n mod KWH_SCALE) < 10 ^ 9" by (simp add: KWH_SCALE_def nat_less_iff)
  then have "length (show_nat (nat (n mod KWH_SCALE))) \<le> 9" by (rule length_show_nat_le) simp
  then have len: "length ?f = 9" by simp
  have fd: "list_all is_digit ?f" by (intro all_digits_pad_start show_nat_list_all)
  have nodot: "CHR ''.'' \<notin> set ?w" "CHR ''.'' \<notin> set ?f"
    using digits_no_char [OF show_nat_list_all punctuation(1)] digits_no_char [OF fd punctuation(1)] by blast+
  have split: "split_on (CHR ''.'') (formatKwh n) = [?w, ?f]"
    using nodot by (simp add: formatKwh_def split_on_append split_on_no_sep)
  have "?w = ''0'' \<or> hd ?w \<noteq> CHR ''0''"
  proof (cases "nat (n div KWH_SCALE) = 0")
    case True
    then show ?thesis by (simp add: show_nat_0)
  next
    case False
    then show ?thesis by (simp add: show_nat_hd_zero)
  qed
  then have whole: "kwh_whole ?w" using show_nat_digits by (auto simp: kwh_whole_def)
  have "pad_end 9 (CHR ''0'') ?f = ?f" using len by (simp add: pad_end_def)
  moreover have "int (nat_of_digits ?f) = n mod KWH_SCALE" by (simp add: KWH_SCALE_def)
  moreover have "int (nat_of_digits ?w) = n div KWH_SCALE" using assms by (simp add: KWH_SCALE_def pos_imp_zdiv_nonneg_iff)
  ultimately show ?thesis
    using whole fd len by (simp add: parseKwh_def split decimal_text_def digits_between_def)
qed

lemma calculate_facts:
  assumes "calculateIntervalCost energy prices = Inr r"
  shows "\<exists>st b. cost_loop (validPrices prices) energy \<lparr>cs_priced = 0, cs_units = 0, cs_covered = 0, cs_priceMs = 0, cs_complete = True\<rparr> = Inr st
    \<and> disjoint_from b (validPrices prices) \<and> co_kwhPriced r = formatKwh (cs_priced st)
    \<and> co_costOre r = roundNearestAwayFromZero (cs_units st * ORE_PER_DKK) (KWH_SCALE * RATE_SCALE) \<and> co_complete r = cs_complete st"
proof -
  let ?b = "case validPrices prices of [] \<Rightarrow> 0 | p # _ \<Rightarrow> pr_start p"
  obtain u where "check_prices None (validPrices prices) = Inr u"
    using assms by (auto simp: calculateIntervalCost_def Let_def bind_err_Inr_iff)
  then have "disjoint_from ?b (validPrices prices)"
    by (rule check_prices_disjoint) (auto split: list.splits)
  with assms show ?thesis by (auto simp: calculateIntervalCost_def Let_def bind_err_Inr_iff)
qed

lemma rates_within_any: "\<exists>lo hi. rates_within lo hi ps"
proof (induction ps)
  case (Cons p ps)
  then obtain lo hi where r: "rates_within lo hi ps" by blast
  have mono: "rates_within (min lo x) (max hi x) ps" for x
    using r unfolding rates_within_def list_all_iff
    by (fastforce simp: min.coboundedI1 max.coboundedI1 split: sum.splits)
  show ?case
  proof (cases "parseDkkPerKwh (pr_rate p)")
    case (Inl e)
    with r show ?thesis by (auto simp: rates_within_def)
  next
    case (Inr x)
    with mono [of x] have "rates_within (min lo x) (max hi x) (p # ps)" by (simp add: rates_within_def)
    then show ?thesis by blast
  qed
qed (simp add: rates_within_def)

section \<open>Properties\<close>

text \<open>C28: Energy is conserved exactly: the priced amount is what its printed text parses back to, never
  more than the energy of the intervals, and equal to it, to the last billionth of a kWh, when the
  result is complete, however the prices cut the intervals.\<close>

theorem priced_energy_is_conserved:
  assumes "calculateIntervalCost energy prices = Inr r"
  shows "\<exists>priced ks. parseKwh (co_kwhPriced r) = Inr priced \<and> map_err parseKwh (map en_kwh energy) = Inr ks
    \<and> priced \<le> sum_list ks \<and> (co_complete r \<longrightarrow> priced = sum_list ks)"
proof -
  obtain st b where st: "cost_loop (validPrices prices) energy
        \<lparr>cs_priced = 0, cs_units = 0, cs_covered = 0, cs_priceMs = 0, cs_complete = True\<rparr> = Inr st"
    "disjoint_from b (validPrices prices)" "co_kwhPriced r = formatKwh (cs_priced st)" "co_complete r = cs_complete st"
    using calculate_facts [OF assms] by blast
  obtain lo hi where "rates_within lo hi (validPrices prices)" using rates_within_any by blast
  from cost_loop_step [OF st(1,2) this] st(3,4) show ?thesis by (auto simp: parse_formatKwh)
qed

definition sample_energy :: "energy_interval list" where
  "sample_energy = [\<lparr>en_start = 0, en_end = 900000, en_kwh = ''0.100000001'', en_covered = 900, en_expected = 900\<rparr>]"

definition sample_prices :: "price_interval list" where
  "sample_prices =
     [\<lparr>pr_start = 700000, pr_end = 1000000, pr_rate = ''2.5'', pr_status = Price_valid\<rparr>,
      \<lparr>pr_start = 0, pr_end = 700000, pr_rate = ''1.25'', pr_status = Price_valid\<rparr>]"

lemma sample_cost:
  "calculateIntervalCost sample_energy sample_prices =
     Inr \<lparr>co_kwhPriced = ''0.100000001'', co_costOre = 15, co_energyCoveredSeconds = 900, co_priceCoveredMs = 900000,
          co_complete = True\<rparr>"
  by code_simp

theorem priced_energy_is_conserved_witness:
  "\<exists>r ks. calculateIntervalCost sample_energy sample_prices = Inr r \<and> map_err parseKwh (map en_kwh sample_energy) = Inr ks
    \<and> parseKwh (co_kwhPriced r) = Inr (sum_list ks)"
  using priced_energy_is_conserved [OF sample_cost] sample_cost by fastforce

text \<open>A cost is bounded by the rates it was computed from: if every rate of the valid prices lies
  between two bounds, the cost lies between the priced energy at the lower bound and at the higher
  one, each rounded to whole oere; with one rate for all prices the cost is that product.\<close>

theorem cost_is_within_its_rates:
  assumes "calculateIntervalCost energy prices = Inr r" "rates_within lo hi (validPrices prices)"
  shows "\<exists>priced. parseKwh (co_kwhPriced r) = Inr priced
    \<and> roundNearestAwayFromZero (lo * priced * ORE_PER_DKK) (KWH_SCALE * RATE_SCALE) \<le> co_costOre r
    \<and> co_costOre r \<le> roundNearestAwayFromZero (hi * priced * ORE_PER_DKK) (KWH_SCALE * RATE_SCALE)"
proof -
  obtain st b where st: "cost_loop (validPrices prices) energy
        \<lparr>cs_priced = 0, cs_units = 0, cs_covered = 0, cs_priceMs = 0, cs_complete = True\<rparr> = Inr st"
    "disjoint_from b (validPrices prices)" "co_kwhPriced r = formatKwh (cs_priced st)"
    "co_costOre r = roundNearestAwayFromZero (cs_units st * ORE_PER_DKK) (KWH_SCALE * RATE_SCALE)"
    using calculate_facts [OF assms(1)] by blast
  have u: "0 \<le> cs_priced st" "lo * cs_priced st \<le> cs_units st" "cs_units st \<le> hi * cs_priced st"
    using cost_loop_step [OF st(1,2) assms(2)] by auto
  have scale: "0 < KWH_SCALE * RATE_SCALE" "0 \<le> ORE_PER_DKK" by (simp_all add: KWH_SCALE_def RATE_SCALE_def ORE_PER_DKK_def)
  show ?thesis
    using u round_mono [OF mult_right_mono [OF u(2) scale(2)] scale(1)] round_mono [OF mult_right_mono [OF u(3) scale(2)] scale(1)]
    unfolding st(3,4) by (auto simp: parse_formatKwh)
qed


text \<open>Confirmed credit is split without loss: the applied part and the owner's remainder add up to
  the cost, the applied and the carried part to the credit, and one of remainder and carry is zero.\<close>

lemma credit_split_is_exact:
  assumes "allocateConfirmedCredit cost credit = Inr s"
  shows "fs_appliedOre s + fs_ownerRemainderOre s = cost \<and> fs_appliedOre s + fs_creditCarriedOre s = credit
    \<and> 0 \<le> fs_appliedOre s \<and> 0 \<le> fs_ownerRemainderOre s \<and> 0 \<le> fs_creditCarriedOre s
    \<and> (fs_ownerRemainderOre s = 0 \<or> fs_creditCarriedOre s = 0)"
  using assms by (auto simp: allocateConfirmedCredit_def Let_def split: if_splits)

end
