(* ===== verification/Energy_Accounting.thy ===== *)
theory Energy_Accounting
  imports Energy_Cost
begin

text \<open>
  \<open>services/energyAccounting.ts\<close>: household comparison, fixed fees and the monthly forecast. A local
  calendar date is its day number (days since 1970-01-01, as \<open>Date.parse(date + 'T00:00:00Z')\<close>
  divided by a day), which orders dates as their ISO texts do; \<open>localDay\<close>, the local date of an
  instant in Europe/Copenhagen, comes from the time-zone data behind \<open>Intl\<close> and is a parameter.
\<close>

section \<open>Household comparison and fixed fees\<close>

definition bigint_div :: "int \<Rightarrow> int \<Rightarrow> int" where
  \<comment> \<open>\<open>BigInt\<close> division truncates towards zero\<close>
  "bigint_div a b = sgn a * sgn b * (\<bar>a\<bar> div \<bar>b\<bar>)"

definition round_half :: "int \<Rightarrow> int \<Rightarrow> int" where
  "round_half n d = bigint_div (n + bigint_div d 2) d"

lemma bigint_div_nonneg: "0 \<le> a \<Longrightarrow> 0 < b \<Longrightarrow> bigint_div a b = a div b"
  by (cases "a = 0") (simp_all add: bigint_div_def sgn_if)

lemma round_half_nonneg: "0 \<le> n \<Longrightarrow> 0 < d \<Longrightarrow> round_half n d = (n + d div 2) div d"
  by (simp add: round_half_def bigint_div_nonneg pos_imp_zdiv_nonneg_iff)

definition decimal_micros :: "int \<Rightarrow> string" where
  \<comment> \<open>\<open>decimal(value, 1_000_000n)\<close>\<close>
  "decimal_micros v = show_nat (nat (v div 1000000)) @ ''.'' @ pad_start 6 (CHR ''0'') (show_nat (nat (v mod 1000000)))"

datatype comparison_status = Comparable | Partial_coverage | Dedicated_meter | Scope_mismatch | Household_unavailable

datatype meter_scope = Household | Dedicated_lab

record attribution =
  at_labKwh :: string
  at_householdKwh :: "string option"
  at_labShare :: "string option"
  at_status :: comparison_status

definition compareHouseholdEnergy ::
  "string \<Rightarrow> string option \<Rightarrow> int \<Rightarrow> int \<Rightarrow> int \<Rightarrow> meter_scope \<Rightarrow> attribution fallible" where
  "compareHouseholdEnergy labKwh householdKwh labCovered householdCovered expected scope =
     bind_err (parseKwh labKwh) (\<lambda>lab.
     bind_err (case householdKwh of None \<Rightarrow> Inr None | Some h \<Rightarrow> bind_err (parseKwh h) (\<lambda>v. Inr (Some v))) (\<lambda>household.
       let answer = (\<lambda>share status. Inr \<lparr>at_labKwh = labKwh, at_householdKwh = householdKwh, at_labShare = share, at_status = status\<rparr>) in
       if expected > MAX_SAFE \<or> expected \<le> 0 \<or> labCovered < 0 \<or> householdCovered < 0
          \<or> labCovered > expected \<or> householdCovered > expected
       then Inl ''Invalid energy coverage''
       else case household of
              None \<Rightarrow> answer None Household_unavailable
            | Some h \<Rightarrow>
                if scope = Dedicated_lab then answer None Dedicated_meter
                else if labCovered \<noteq> expected \<or> householdCovered \<noteq> expected then answer None Partial_coverage
                else if h = 0 \<or> lab > h then answer None Scope_mismatch
                else answer (Some (decimal_micros (round_half (lab * 1000000) h))) Comparable))"

datatype fee_policy = Fee_none | Manual_share string | Energy_proportion

datatype fee_status = Fee_known | Fee_incomplete

definition allocateFixedFee :: "int \<Rightarrow> fee_policy \<Rightarrow> attribution \<Rightarrow> (int \<times> fee_status) fallible" where
  "allocateFixedFee fixedFeeOre policy comparison =
     (if fixedFeeOre < 0 then Inl ''Invalid fixed fee''
      else if policy = Fee_none then Inr (0, Fee_known)
      else case (case policy of Manual_share s \<Rightarrow> Some s
                   | _ \<Rightarrow> if at_status comparison = Comparable then at_labShare comparison else None) of
             None \<Rightarrow> Inr (0, Fee_incomplete)
           | Some share \<Rightarrow>
               bind_err (parseDkkPerKwh share) (\<lambda>millionths.
                 if millionths < 0 \<or> millionths > 1000000 then Inl ''Invalid fixed-fee share''
                 else Inr (round_half (fixedFeeOre * millionths) 1000000, Fee_known)))"

section \<open>Local dates\<close>

definition HOUR_MS :: int where
  "HOUR_MS = 3600000"

definition DATE_MS :: int where
  "DATE_MS = 24 * HOUR_MS"

function bisect :: "(int \<Rightarrow> int) \<Rightarrow> int \<Rightarrow> int \<Rightarrow> int \<Rightarrow> int" where
  \<comment> \<open>the loop of \<open>startOfLocalDateUtc\<close>\<close>
  "bisect localDay date low high =
     (if high - low > 1
      then let mid = (low + high) div 2 in
           if localDay mid < date then bisect localDay date mid high else bisect localDay date low mid
      else high)"
  by pat_completeness auto
termination
  by (relation "measure (\<lambda>(localDay, date, low, high). nat (high - low))") auto

declare bisect.simps [simp del]

definition startOfLocalDateUtc :: "(int \<Rightarrow> int) \<Rightarrow> int \<Rightarrow> int" where
  "startOfLocalDateUtc localDay date =
     (let guess = date * DATE_MS in bisect localDay date (guess - 36 * HOUR_MS) (guess + 36 * HOUR_MS))"

definition weekday_of :: "int \<Rightarrow> int" where
  \<comment> \<open>\<open>getUTCDay\<close> at noon of the date, 0 for Sunday: the epoch was a Thursday\<close>
  "weekday_of date = (date + 4) mod 7"

definition is_leap :: "int \<Rightarrow> bool" where
  "is_leap y = (y mod 4 = 0 \<and> (y mod 100 \<noteq> 0 \<or> y mod 400 = 0))"

definition year_start :: "int \<Rightarrow> int" where
  \<comment> \<open>the day number of the first of January\<close>
  "year_start y = 365 * (y - 1970) + (y - 1) div 4 - (y - 1) div 100 + (y - 1) div 400 - 477"

definition month_offset :: "int \<Rightarrow> nat \<Rightarrow> int" where
  \<comment> \<open>days of the year before the month, 1 to 13\<close>
  "month_offset y m = [0, 31, 59, 90, 120, 151, 181, 212, 243, 273, 304, 334, 365] ! (m - 1)
     + (if is_leap y \<and> 2 < m then 1 else 0)"

definition month_start :: "int \<Rightarrow> nat \<Rightarrow> int" where
  "month_start y m = year_start y + month_offset y m"

definition utc_year :: "int \<Rightarrow> int" where
  \<comment> \<open>\<open>Date.UTC\<close> moves the years 0 to 99 to the twentieth century\<close>
  "utc_year y = (if 0 \<le> y \<and> y \<le> 99 then 1900 + y else y)"

definition monthDates :: "int \<times> nat \<Rightarrow> int list fallible" where
  "monthDates month =
     (let (y, m) = month in
      if m < 1 \<or> 12 < m then Inl ''Invalid forecast month''
      else let count = month_start (utc_year y) (m + 1) - month_start (utc_year y) m
           in Inr [month_start y m .. month_start y m + count - 1])"

section \<open>The monthly forecast\<close>

record daily_evidence =
  de_localDate :: int
  de_kwh :: string
  de_covered :: int
  de_expected :: int

datatype forecast_status = Insufficient_data | Missing_price_scenario | Fixed_fee_incomplete | Scenario

datatype forecast_basis = Basis_scenario | Basis_published_and_scenario | Basis_published | Basis_unknown

record forecast_input =
  fi_now :: int
  fi_month :: "int \<times> nat"
  fi_actualCostOre :: int
  fi_daily :: "daily_evidence list"
  fi_scenario :: "string option"
  fi_published :: "price_interval list"

record forecast =
  fc_status :: forecast_status
  fc_actualCostOre :: int
  fc_totalOre :: "int option"
  fc_futureOre :: "int option"
  fc_baselineDays :: nat
  fc_basis :: forecast_basis
  fc_knownPriceMs :: int

definition includeMonthlyFixedFee :: "forecast \<Rightarrow> int \<Rightarrow> fee_status \<Rightarrow> forecast fallible" where
  "includeMonthlyFixedFee f allocatedOre feeStatus =
     (if allocatedOre < 0 then Inl ''Invalid fixed fee''
      else if feeStatus = Fee_incomplete \<and> fc_totalOre f \<noteq> None
      then Inr (f\<lparr>fc_status := Fixed_fee_incomplete, fc_totalOre := None\<rparr>)
      else Inr (f\<lparr>fc_totalOre := map_option (\<lambda>t. t + allocatedOre) (fc_totalOre f)\<rparr>))"

definition is_weekend :: "int \<Rightarrow> bool" where
  "is_weekend date = (weekday_of date = 0 \<or> weekday_of date = 6)"

definition recent_days :: "(int \<Rightarrow> int) \<Rightarrow> int \<Rightarrow> daily_evidence list \<Rightarrow> daily_evidence list" where
  \<comment> \<open>the last four weeks' days with at least four fifths of their seconds covered\<close>
  "recent_days localDay now days =
     filter (\<lambda>d. de_localDate d < localDay now \<and> localDay (now - 28 * DATE_MS) \<le> de_localDate d
                 \<and> 0 < de_expected d \<and> 4 * de_expected d \<le> 5 * de_covered d) days"

definition day_energy :: "daily_evidence \<Rightarrow> int fallible" where
  "day_energy d = bind_err (parseKwh (de_kwh d)) (\<lambda>k. Inr (bigint_div (k * de_expected d) (de_covered d)))"

definition mean_energy :: "daily_evidence list \<Rightarrow> int fallible" where
  "mean_energy days = bind_err (map_err day_energy days) (\<lambda>ks. Inr (round_half (sum_list ks) (int (length ks))))"

fun check_published :: "price_interval option \<Rightarrow> price_interval list \<Rightarrow> unit fallible" where
  "check_published prev [] = Inr ()"
| "check_published prev (p # ps) =
     (if pr_status p \<noteq> Price_valid \<or> pr_end p \<le> pr_start p
         \<or> (case prev of Some q \<Rightarrow> pr_start p < pr_end q | None \<Rightarrow> False)
      then Inl ''Invalid known future price intervals''
      else bind_err (parseDkkPerKwh (pr_rate p)) (\<lambda>_. check_published (Some p) ps))"

record future =
  fu_kwh :: int
  fu_known :: int
  fu_units :: int
  fu_knownMs :: int

fun published_part :: "int \<Rightarrow> int \<Rightarrow> int \<Rightarrow> int \<Rightarrow> price_interval list \<Rightarrow> future \<Rightarrow> future fallible" where
  "published_part baseline dayLength s e [] u = Inr u"
| "published_part baseline dayLength s e (p # ps) u =
     (let overlap = overlap_ms s e p in
      if overlap = 0 then published_part baseline dayLength s e ps u
      else let part = bigint_div (baseline * overlap) dayLength in
           bind_err (parseDkkPerKwh (pr_rate p)) (\<lambda>rate.
             published_part baseline dayLength s e ps
               (u\<lparr>fu_known := fu_known u + part, fu_units := fu_units u + part * rate, fu_knownMs := fu_knownMs u + overlap\<rparr>)))"

definition future_day ::
  "(int \<Rightarrow> int) \<Rightarrow> int \<Rightarrow> int \<Rightarrow> int \<Rightarrow> price_interval list \<Rightarrow> int \<Rightarrow> future \<Rightarrow> future fallible" where
  "future_day localDay now weekdayKwh weekendKwh published date u =
     (let dayStart = startOfLocalDateUtc localDay date;
          nextStart = startOfLocalDateUtc localDay (date + 1);
          s = max dayStart now
      in if nextStart \<le> s then Inr u
         else let baseline = (if is_weekend date then weekendKwh else weekdayKwh) in
              published_part baseline (nextStart - dayStart) s nextStart published
                (u\<lparr>fu_kwh := fu_kwh u + bigint_div (baseline * (nextStart - s)) (nextStart - dayStart)\<rparr>))"

fun future_days ::
  "(int \<Rightarrow> int) \<Rightarrow> int \<Rightarrow> int \<Rightarrow> int \<Rightarrow> price_interval list \<Rightarrow> int list \<Rightarrow> future \<Rightarrow> future fallible" where
  "future_days localDay now wd we published [] u = Inr u"
| "future_days localDay now wd we published (d # ds) u =
     bind_err (future_day localDay now wd we published d u) (future_days localDay now wd we published ds)"

definition price_future :: "forecast_input \<Rightarrow> nat \<Rightarrow> future \<Rightarrow> forecast fallible" where
  "price_future i baselineDays u =
     (let remaining = fu_kwh u - fu_known u;
          result = \<lparr>fc_status = Scenario, fc_actualCostOre = fi_actualCostOre i, fc_totalOre = None, fc_futureOre = None,
             fc_baselineDays = baselineDays, fc_basis = Basis_unknown, fc_knownPriceMs = fu_knownMs u\<rparr>
      in if remaining > 0 \<and> fi_scenario i = None then Inr (result\<lparr>fc_status := Missing_price_scenario\<rparr>)
         else bind_err (case fi_scenario i of None \<Rightarrow> Inr 0 | Some s \<Rightarrow> parseDkkPerKwh s) (\<lambda>scenario.
           let futureOre = round_half ((fu_units u + remaining * scenario) * 100) (KWH_SCALE * 1000000) in
           Inr (result\<lparr>fc_totalOre := Some (fi_actualCostOre i + futureOre), fc_futureOre := Some futureOre,
                fc_basis := (if fu_knownMs u \<noteq> 0 then if remaining > 0 then Basis_published_and_scenario else Basis_published
                             else Basis_scenario)\<rparr>)))"

definition forecastMonthlyCost :: "(int \<Rightarrow> int) \<Rightarrow> forecast_input \<Rightarrow> forecast fallible" where
  "forecastMonthlyCost localDay i =
     (if fi_actualCostOre i < 0 then Inl ''Invalid forecast input''
      else bind_err (monthDates (fi_month i)) (\<lambda>dates.
        let today = localDay (fi_now i);
            recent = recent_days localDay (fi_now i) (fi_daily i);
            weekdays = filter (\<lambda>d. \<not> is_weekend (de_localDate d)) recent;
            weekends = filter (\<lambda>d. is_weekend (de_localDate d)) recent
        in if length recent < 14 \<or> length weekdays < 8 \<or> length weekends < 4
           then Inr \<lparr>fc_status = Insufficient_data, fc_actualCostOre = fi_actualCostOre i, fc_totalOre = None, fc_futureOre = None,
             fc_baselineDays = length recent, fc_basis = Basis_unknown, fc_knownPriceMs = 0\<rparr>
           else bind_err (mean_energy weekdays) (\<lambda>weekdayKwh.
             bind_err (mean_energy weekends) (\<lambda>weekendKwh.
             let published = sort_key pr_start (fi_published i) in
             bind_err (check_published None published) (\<lambda>_.
             bind_err (future_days localDay (fi_now i) weekdayKwh weekendKwh published (filter (\<lambda>d. today \<le> d) dates)
                 \<lparr>fu_kwh = 0, fu_known = 0, fu_units = 0, fu_knownMs = 0\<rparr>)
               (price_future i (length recent)))))))"

section \<open>The local start of a date\<close>

text \<open>The search finds the first instant of the date.\<close>

lemma bisect_finds:
  "mono localDay \<Longrightarrow> localDay low < date \<Longrightarrow> date \<le> localDay high
   \<Longrightarrow> date \<le> localDay (bisect localDay date low high) \<and> (\<forall>t < bisect localDay date low high. localDay t < date)"
proof (induction localDay date low high rule: bisect.induct)
  case (1 localDay date low high)
  let ?mid = "(low + high) div 2"
  show ?case
  proof (cases "high - low > 1")
    case True
    have eq: "bisect localDay date low high =
        (if localDay ?mid < date then bisect localDay date ?mid high else bisect localDay date low ?mid)"
      by (subst bisect.simps) (simp only: True if_True Let_def)
    show ?thesis
    proof (cases "localDay ?mid < date")
      case below: True
      show ?thesis unfolding eq if_P [OF below] by (rule 1(1) [OF True refl below 1(3) below 1(5)])
    next
      case above: False
      then have "date \<le> localDay ?mid" by simp
      from 1(2) [OF True refl above 1(3,4) this] show ?thesis unfolding eq if_not_P [OF above] .
    qed
  next
    case False
    have "low < high"
    proof (rule ccontr)
      assume "\<not> low < high"
      then have "localDay high \<le> localDay low" using 1(3) by (simp add: monoD)
      with 1(4,5) show False by simp
    qed
    with False have h: "high = low + 1" by simp
    have eq: "bisect localDay date low high = high" by (subst bisect.simps) (simp only: False if_False)
    have "localDay t < date" if "t < high" for t
    proof -
      from that h have "t \<le> low" by simp
      then have "localDay t \<le> localDay low" using 1(3) by (simp add: monoD)
      with 1(4) show ?thesis by simp
    qed
    with 1(5) show ?thesis unfolding eq by simp
  qed
qed

fun bisect_fuel :: "nat \<Rightarrow> (int \<Rightarrow> int) \<Rightarrow> int \<Rightarrow> int \<Rightarrow> int \<Rightarrow> int option" where
  \<comment> \<open>the loop with a bound on its rounds\<close>
  "bisect_fuel 0 localDay date low high = (if high - low > 1 then None else Some high)"
| "bisect_fuel (Suc n) localDay date low high =
     (if high - low > 1
      then let mid = (low + high) div 2 in
           if localDay mid < date then bisect_fuel n localDay date mid high else bisect_fuel n localDay date low mid
      else Some high)"

lemma bisect_fuel_enough:
  "high - low \<le> 2 ^ n \<Longrightarrow> bisect_fuel n localDay date low high = Some (bisect localDay date low high)"
proof (induction n arbitrary: low high)
  case 0
  then show ?case by (subst bisect.simps) simp
next
  case (Suc n)
  have "high - (low + high) div 2 \<le> 2 ^ n" "(low + high) div 2 - low \<le> 2 ^ n" using Suc.prems by auto
  with Suc.IH show ?case by (subst bisect.simps) (simp add: Let_def)
qed

section \<open>What the forecast prices\<close>

definition projected :: "(int \<Rightarrow> int) \<Rightarrow> int \<Rightarrow> int \<Rightarrow> int \<Rightarrow> int \<Rightarrow> int" where
  \<comment> \<open>the energy expected of what is left of a date: its share of the baseline of such days\<close>
  "projected localDay now wd we date =
     (let a = startOfLocalDateUtc localDay date; b = startOfLocalDateUtc localDay (date + 1) in
      if b \<le> max a now then 0 else (if is_weekend date then we else wd) * (b - max a now) div (b - a))"

lemma parseKwh_day: "day_energy d = Inr k \<Longrightarrow> 0 \<le> de_expected d \<Longrightarrow> 0 \<le> de_covered d \<Longrightarrow> 0 \<le> k"
proof -
  assume d: "day_energy d = Inr k" "0 \<le> de_expected d" "0 \<le> de_covered d"
  then obtain x where x: "0 \<le> x" "k = bigint_div (x * de_expected d) (de_covered d)"
    by (auto simp: day_energy_def bind_err_Inr_iff dest: parseKwh_nonneg)
  show ?thesis
  proof (cases "de_covered d = 0")
    case True
    with x show ?thesis by (simp add: bigint_div_def)
  next
    case False
    then have c: "0 < de_covered d" using d by simp
    have "0 \<le> x * de_expected d" using x d by simp
    with c show ?thesis unfolding x(2) by (simp add: bigint_div_nonneg pos_imp_zdiv_nonneg_iff)
  qed
qed

lemma published_part_facts:
  assumes "published_part k L s e ps u = Inr u'" "disjoint_from b ps" "0 \<le> k" "0 < L" "rates_within lo hi ps"
  shows "fu_kwh u' = fu_kwh u \<and> fu_known u \<le> fu_known u'
    \<and> L * (fu_known u' - fu_known u) \<le> k * max 0 (e - max s b)
    \<and> lo * (fu_known u' - fu_known u) \<le> fu_units u' - fu_units u
    \<and> fu_units u' - fu_units u \<le> hi * (fu_known u' - fu_known u)"
  using assms
proof (induction ps arbitrary: u b)
  case Nil
  then show ?case by auto
next
  case (Cons p ps)
  let ?o = "overlap_ms s e p"
  have d: "b \<le> pr_start p" "pr_start p < pr_end p" "disjoint_from (pr_end p) ps" using Cons.prems(2) by simp_all
  have o: "0 \<le> ?o" by (simp add: overlap_ms_def)
  have room: "?o + max 0 (e - max s (pr_end p)) \<le> max 0 (e - max s b)"
    using d unfolding overlap_ms_def by linarith
  have rest: "rates_within lo hi ps" using Cons.prems(5) by (simp add: rates_within_def)
  have "k * ?o + k * max 0 (e - max s (pr_end p)) \<le> k * max 0 (e - max s b)"
    using mult_left_mono [OF room Cons.prems(3)] by (simp only: distrib_left)
  note room' = this
  have ko: "0 \<le> k * ?o" using o Cons.prems(3) by simp
  show ?case
  proof (cases "?o = 0")
    case True
    with Cons.prems(1) have "published_part k L s e ps u = Inr u'" by simp
    from Cons.IH [OF this d(3) Cons.prems(3,4) rest] room' ko show ?thesis by linarith
  next
    case False
    define part where "part = k * ?o div L"
    have bd: "bigint_div (k * ?o) L = part" using ko Cons.prems(4) by (simp add: bigint_div_nonneg part_def)
    let ?u = "\<lambda>r. u\<lparr>fu_known := fu_known u + part, fu_units := fu_units u + part * r, fu_knownMs := fu_knownMs u + ?o\<rparr>"
    from False Cons.prems(1) obtain r where r: "parseDkkPerKwh (pr_rate p) = Inr r"
      and go: "published_part k L s e ps (?u r) = Inr u'"
      by (auto simp: Let_def bind_err_Inr_iff bd)
    have part: "0 \<le> part" "L * part \<le> k * ?o"
    proof -
      show "0 \<le> part" using ko Cons.prems(4) by (simp add: part_def pos_imp_zdiv_nonneg_iff)
      have "0 \<le> k * ?o mod L" using Cons.prems(4) by simp
      then show "L * part \<le> k * ?o" using mult_div_mod_eq [of L "k * ?o"] unfolding part_def by linarith
    qed
    have "lo \<le> r" "r \<le> hi" using Cons.prems(5) r by (simp_all add: rates_within_def)
    then have cost: "lo * part \<le> part * r" "part * r \<le> hi * part"
      using part(1) by (metis mult.commute mult_right_mono)+
    have IH: "fu_kwh u' = fu_kwh u \<and> fu_known u + part \<le> fu_known u'
      \<and> L * (fu_known u' - (fu_known u + part)) \<le> k * max 0 (e - max s (pr_end p))
      \<and> lo * (fu_known u' - (fu_known u + part)) \<le> fu_units u' - (fu_units u + part * r)
      \<and> fu_units u' - (fu_units u + part * r) \<le> hi * (fu_known u' - (fu_known u + part))"
      using Cons.IH [OF go d(3) Cons.prems(3,4) rest] by simp
    have "L * (fu_known u' - fu_known u) = L * (fu_known u' - (fu_known u + part)) + L * part"
      "lo * (fu_known u' - fu_known u) = lo * (fu_known u' - (fu_known u + part)) + lo * part"
      "hi * (fu_known u' - fu_known u) = hi * (fu_known u' - (fu_known u + part)) + hi * part"
      by (simp_all add: algebra_simps)
    with IH part cost room' show ?thesis by linarith
  qed
qed

lemma future_day_facts:
  assumes "future_day localDay now wd we ps date u = Inr u'" "disjoint_from b ps" "0 \<le> wd" "0 \<le> we" "rates_within lo hi ps"
  shows "fu_kwh u' = fu_kwh u + projected localDay now wd we date \<and> fu_known u \<le> fu_known u'
    \<and> fu_known u' - fu_known u \<le> projected localDay now wd we date
    \<and> lo * (fu_known u' - fu_known u) \<le> fu_units u' - fu_units u
    \<and> fu_units u' - fu_units u \<le> hi * (fu_known u' - fu_known u)"
proof -
  define a where "a = startOfLocalDateUtc localDay date"
  define e where "e = startOfLocalDateUtc localDay (date + 1)"
  define k where "k = (if is_weekend date then we else wd)"
  define s where "s = max a now"
  have k0: "0 \<le> k" using assms(3,4) by (simp add: k_def)
  show ?thesis
  proof (cases "e \<le> s")
    case True
    then have "u' = u" using assms(1) by (simp add: future_day_def Let_def a_def e_def s_def)
    with True show ?thesis by (simp add: projected_def Let_def a_def e_def s_def)
  next
    case False
    have "a \<le> s" by (simp add: s_def)
    with False have L: "0 < e - a" by linarith
    have proj: "projected localDay now wd we date = k * (e - s) div (e - a)"
      using False by (simp add: projected_def Let_def a_def [symmetric] e_def [symmetric] s_def [symmetric] k_def)
    have "0 \<le> k * (e - s)" using False k0 by simp
    then have "bigint_div (k * (e - s)) (e - a) = projected localDay now wd we date"
      using L by (simp add: bigint_div_nonneg proj)
    then have go: "published_part k (e - a) s e ps (u\<lparr>fu_kwh := fu_kwh u + projected localDay now wd we date\<rparr>) = Inr u'"
      using assms(1) False
      by (simp add: future_day_def Let_def a_def [symmetric] e_def [symmetric] s_def [symmetric] k_def [symmetric])
    from published_part_facts [OF go assms(2) k0 L assms(5)]
    have f: "fu_kwh u' = fu_kwh u + projected localDay now wd we date" "fu_known u \<le> fu_known u'"
      "(e - a) * (fu_known u' - fu_known u) \<le> k * max 0 (e - max s b)"
      "lo * (fu_known u' - fu_known u) \<le> fu_units u' - fu_units u"
      "fu_units u' - fu_units u \<le> hi * (fu_known u' - fu_known u)" by simp_all
    have "max 0 (e - max s b) \<le> e - s" using False by simp
    then have "(e - a) * (fu_known u' - fu_known u) \<le> k * (e - s)" using f(3) k0 by (meson mult_left_mono order_trans)
    then have "(e - a) * (fu_known u' - fu_known u) div (e - a) \<le> k * (e - s) div (e - a)" using L by (rule zdiv_mono1)
    then have "fu_known u' - fu_known u \<le> projected localDay now wd we date" using L by (simp add: proj)
    with f show ?thesis by simp
  qed
qed

lemma future_days_facts:
  assumes "future_days localDay now wd we ps ds u = Inr u'" "disjoint_from b ps" "0 \<le> wd" "0 \<le> we" "rates_within lo hi ps"
  shows "fu_kwh u' = fu_kwh u + sum_list (map (projected localDay now wd we) ds) \<and> fu_known u \<le> fu_known u'
    \<and> fu_known u' - fu_known u \<le> sum_list (map (projected localDay now wd we) ds)
    \<and> lo * (fu_known u' - fu_known u) \<le> fu_units u' - fu_units u
    \<and> fu_units u' - fu_units u \<le> hi * (fu_known u' - fu_known u)"
  using assms(1)
proof (induction ds arbitrary: u)
  case (Cons d ds)
  then obtain v where v: "future_day localDay now wd we ps d u = Inr v" and rest: "future_days localDay now wd we ps ds v = Inr u'"
    by (auto simp: bind_err_Inr_iff)
  have "lo * (fu_known u' - fu_known u) = lo * (fu_known u' - fu_known v) + lo * (fu_known v - fu_known u)"
    "hi * (fu_known u' - fu_known u) = hi * (fu_known u' - fu_known v) + hi * (fu_known v - fu_known u)"
    by (simp_all add: algebra_simps)
  with Cons.IH [OF rest] future_day_facts [OF v assms(2-5)] show ?case by auto
qed simp

lemma check_published_disjoint:
  "check_published prev ps = Inr u \<Longrightarrow> (\<And>q. prev = Some q \<Longrightarrow> b \<le> pr_end q) \<Longrightarrow> (prev = None \<Longrightarrow> ps \<noteq> [] \<Longrightarrow> b \<le> pr_start (hd ps))
   \<Longrightarrow> disjoint_from b ps"
proof (induction ps arbitrary: prev b)
  case (Cons p ps)
  from Cons.prems have ok: "pr_start p < pr_end p" "check_published (Some p) ps = Inr u"
    and before: "\<And>q. prev = Some q \<Longrightarrow> pr_end q \<le> pr_start p"
    by (auto simp: bind_err_Inr_iff split: if_splits option.splits)
  have "b \<le> pr_start p" using before Cons.prems(2,3) by (cases prev) force+
  moreover have "disjoint_from (pr_end p) ps" by (rule Cons.IH [OF ok(2)]) simp_all
  ultimately show ?case using ok by simp
qed simp

lemma bigint_div_mono: "a \<le> b \<Longrightarrow> 0 < d \<Longrightarrow> bigint_div a d \<le> bigint_div b d"
proof -
  assume a: "a \<le> b" and d: "0 < d"
  have neg: "bigint_div x d = - ((- x) div d)" if "x < 0" for x using that d by (simp add: bigint_div_def sgn_if)
  consider "0 \<le> a" | "b < 0" | "a < 0" "0 \<le> b" by linarith
  then show ?thesis
  proof cases
    case 1
    with a d show ?thesis by (simp add: bigint_div_nonneg zdiv_mono1)
  next
    case 2
    have "(- b) div d \<le> (- a) div d" using a d by (intro zdiv_mono1) simp_all
    with 2 a show ?thesis by (simp add: neg)
  next
    case 3
    have "0 \<le> (- a) div d" "0 \<le> b div d" using 3 d by (simp_all add: pos_imp_zdiv_nonneg_iff)
    with 3 d show ?thesis by (simp add: neg bigint_div_nonneg)
  qed
qed

lemma round_half_mono: "a \<le> b \<Longrightarrow> 0 < d \<Longrightarrow> round_half a d \<le> round_half b d"
  unfolding round_half_def by (rule bigint_div_mono) simp_all

text \<open>
  A negative total is not rounded to the nearest oere here, unlike in \<open>costMath.ts\<close>: the half is
  added before a division that truncates upwards.
\<close>

lemma negative_total_is_rounded_up: "round_half (- 7) 10 = 0 \<and> roundNearestAwayFromZero (- 7) 10 = - 1"
  by (simp add: round_half_def bigint_div_def roundNearestAwayFromZero_def)

lemma mean_energy_nonneg:
  assumes "mean_energy ds = Inr k" "\<And>d. d \<in> set ds \<Longrightarrow> 0 \<le> de_expected d \<and> 0 \<le> de_covered d"
  shows "0 \<le> k"
proof -
  obtain ks where ks: "map_err day_energy ds = Inr ks" "k = round_half (sum_list ks) (int (length ks))"
    using assms(1) by (auto simp: mean_energy_def bind_err_Inr_iff)
  have "\<forall>x \<in> set ks. 0 \<le> x"
  proof
    fix x assume "x \<in> set ks"
    then obtain j where "j < length ks" "x = ks ! j" by (auto simp: in_set_conv_nth)
    then have "ds ! j \<in> set ds" "day_energy (ds ! j) = Inr x"
      using ks(1) by (auto simp: map_err_Inr_iff list_all2_conv_all_nth)
    with assms(2) parseKwh_day show "0 \<le> x" by blast
  qed
  then have "0 \<le> sum_list ks" by (simp add: sum_list_nonneg)
  then show ?thesis
    unfolding ks(2) by (cases "ks = []") (simp_all add: round_half_nonneg pos_imp_zdiv_nonneg_iff, simp add: round_half_def bigint_div_def)
qed

lemma rates_within_set: "set ps = set qs \<Longrightarrow> rates_within lo hi ps = rates_within lo hi qs"
  by (simp add: rates_within_def list_all_iff)

lemma price_future_facts:
  assumes "price_future i n u = Inr f" "fc_futureOre f = Some x" "0 \<le> fu_known u" "fu_known u \<le> fu_kwh u"
    "lo * fu_known u \<le> fu_units u" "fu_units u \<le> hi * fu_known u"
    "\<And>s r. fi_scenario i = Some s \<Longrightarrow> parseDkkPerKwh s = Inr r \<Longrightarrow> lo \<le> r \<and> r \<le> hi"
  shows "round_half (lo * fu_kwh u * 100) (KWH_SCALE * 1000000) \<le> x \<and> x \<le> round_half (hi * fu_kwh u * 100) (KWH_SCALE * 1000000)
    \<and> fc_totalOre f = Some (fi_actualCostOre i + x)"
proof -
  let ?rem = "fu_kwh u - fu_known u"
  obtain sc where sc: "x = round_half ((fu_units u + ?rem * sc) * 100) (KWH_SCALE * 1000000)"
    "fc_totalOre f = Some (fi_actualCostOre i + x)"
    "?rem = 0 \<or> (\<exists>s. fi_scenario i = Some s \<and> parseDkkPerKwh s = Inr sc)"
    using assms(1,2,4) by (auto simp: price_future_def Let_def bind_err_Inr_iff split: if_splits option.splits)
  have "lo * ?rem \<le> ?rem * sc \<and> ?rem * sc \<le> hi * ?rem"
  proof (cases "?rem = 0")
    case False
    with sc(3) assms(7) have "lo \<le> sc" "sc \<le> hi" by auto
    then show ?thesis using assms(4) by (metis diff_ge_0_iff_ge mult.commute mult_right_mono)
  qed simp
  then have "lo * fu_kwh u \<le> fu_units u + ?rem * sc" "fu_units u + ?rem * sc \<le> hi * fu_kwh u"
    using assms(5,6) by (simp_all add: algebra_simps)
  then have "lo * fu_kwh u * 100 \<le> (fu_units u + ?rem * sc) * 100" "(fu_units u + ?rem * sc) * 100 \<le> hi * fu_kwh u * 100"
    by (intro mult_right_mono; simp)+
  moreover have "0 < KWH_SCALE * 1000000" by (simp add: KWH_SCALE_def)
  ultimately show ?thesis unfolding sc(2) by (simp add: sc(1) round_half_mono)
qed

lemma decimal_micros_signed:
  assumes "0 \<le> v"
  shows "parseDkkPerKwh ((if neg then ''-'' else []) @ decimal_micros v) = Inr (if neg then - v else v)"
proof -
  let ?w = "show_nat (nat (v div 1000000))" and ?f = "pad_start 6 (CHR ''0'') (show_nat (nat (v mod 1000000)))"
  have "nat (v mod 1000000) < 10 ^ 6" by (simp add: nat_less_iff)
  then have "length (show_nat (nat (v mod 1000000))) \<le> 6" by (rule length_show_nat_le) simp
  then have len: "length ?f = 6" by simp
  have fd: "list_all is_digit ?f" by (intro all_digits_pad_start show_nat_list_all)
  have w: "?w = ''0'' \<or> hd ?w \<noteq> CHR ''0''"
    by (cases "nat (v div 1000000) = 0") (simp_all add: show_nat_0 show_nat_hd_zero)
  have "pad_end 6 (CHR ''0'') ?f = ?f" using len by (simp add: pad_end_def)
  then have val: "int (nat_of_digits ?w) * 1000000 + int (nat_of_digits (pad_end 6 (CHR ''0'') ?f)) = v"
    using assms by (simp add: pos_imp_zdiv_nonneg_iff)
  have "?f \<noteq> []" using len by (metis list.size(3) zero_neq_numeral)
  then have shape: "decimal_micros v = rate_text ?w ?f" by (simp add: decimal_micros_def rate_text_def)
  have l: "length ?f \<le> 6" using len by simp
  show ?thesis unfolding shape parse_rate_text [OF show_nat_digits w fd l, of neg] val ..
qed

lemma decimal_micros_parse: "0 \<le> v \<Longrightarrow> parseDkkPerKwh (decimal_micros v) = Inr v"
  using decimal_micros_signed [of v False] by simp

section \<open>Properties\<close>

text \<open>C30: The search for the start of a local date ends: 28 halvings are enough for its 72 hours, whatever
  the calendar answers.\<close>

theorem date_search_ends:
  "bisect_fuel 28 localDay date (date * DATE_MS - 36 * HOUR_MS) (date * DATE_MS + 36 * HOUR_MS)
     = Some (startOfLocalDateUtc localDay date)"
proof -
  have "date * DATE_MS + 36 * HOUR_MS - (date * DATE_MS - 36 * HOUR_MS) \<le> 2 ^ 28" by (simp add: HOUR_MS_def)
  then show ?thesis unfolding startOfLocalDateUtc_def Let_def by (rule bisect_fuel_enough)
qed

text \<open>With a calendar that never goes back and is at most a date off UTC, \<open>startOfLocalDateUtc\<close> is
  the first instant of the date: no earlier instant has reached it, also on days of 23 or 25 hours.\<close>

theorem start_of_date_is_first:
  assumes "mono localDay" "\<forall>t. t div DATE_MS - 1 \<le> localDay t \<and> localDay t \<le> t div DATE_MS + 1"
  shows "date \<le> localDay (startOfLocalDateUtc localDay date) \<and> (\<forall>t < startOfLocalDateUtc localDay date. localDay t < date)"
proof -
  have "(date * DATE_MS - 36 * HOUR_MS) div DATE_MS = date - 2" "(date * DATE_MS + 36 * HOUR_MS) div DATE_MS = date + 1"
    by (simp_all add: DATE_MS_def HOUR_MS_def)
  then have "localDay (date * DATE_MS - 36 * HOUR_MS) < date" "date \<le> localDay (date * DATE_MS + 36 * HOUR_MS)"
    using assms(2) [rule_format, of "date * DATE_MS - 36 * HOUR_MS"] assms(2) [rule_format, of "date * DATE_MS + 36 * HOUR_MS"]
    by simp_all
  then show ?thesis unfolding startOfLocalDateUtc_def Let_def by (rule bisect_finds [OF assms(1)])
qed

definition utc_calendar :: "int \<Rightarrow> int" where
  "utc_calendar t = t div DATE_MS"

definition winter_calendar :: "int \<Rightarrow> int" where
  \<comment> \<open>a calendar one hour ahead of UTC\<close>
  "winter_calendar t = (t + HOUR_MS) div DATE_MS"


text \<open>C31: The forecast prices the energy left in the month once: with rates between two bounds, the
  future cost lies between the projected energy of the remaining dates at the lower and at the higher
  bound (both rounded as the code rounds), and the total is the actual cost plus it.\<close>

theorem forecast_is_within_its_rates:
  assumes "forecastMonthlyCost localDay i = Inr f" "fc_futureOre f = Some x"
    and "rates_within lo hi (fi_published i)"
    and "\<forall>s r. fi_scenario i = Some s \<longrightarrow> parseDkkPerKwh s = Inr r \<longrightarrow> lo \<le> r \<and> r \<le> hi"
  shows "\<exists>wd we dates. monthDates (fi_month i) = Inr dates
    \<and> mean_energy (filter (\<lambda>d. \<not> is_weekend (de_localDate d)) (recent_days localDay (fi_now i) (fi_daily i))) = Inr wd
    \<and> mean_energy (filter (\<lambda>d. is_weekend (de_localDate d)) (recent_days localDay (fi_now i) (fi_daily i))) = Inr we
    \<and> (let energy = sum_list (map (projected localDay (fi_now i) wd we) (filter (\<lambda>d. localDay (fi_now i) \<le> d) dates)) in
         round_half (lo * energy * 100) (KWH_SCALE * 1000000) \<le> x
         \<and> x \<le> round_half (hi * energy * 100) (KWH_SCALE * 1000000))
    \<and> fc_totalOre f = Some (fi_actualCostOre i + x)"
proof -
  let ?recent = "recent_days localDay (fi_now i) (fi_daily i)"
  let ?ps = "sort_key pr_start (fi_published i)"
  obtain dates wd we v u where facts: "monthDates (fi_month i) = Inr dates"
    "mean_energy (filter (\<lambda>d. \<not> is_weekend (de_localDate d)) ?recent) = Inr wd"
    "mean_energy (filter (\<lambda>d. is_weekend (de_localDate d)) ?recent) = Inr we" "check_published None ?ps = Inr v"
    "future_days localDay (fi_now i) wd we ?ps (filter (\<lambda>d. localDay (fi_now i) \<le> d) dates)
       \<lparr>fu_kwh = 0, fu_known = 0, fu_units = 0, fu_knownMs = 0\<rparr> = Inr u"
    "price_future i (length ?recent) u = Inr f"
    using assms(1,2) by (auto simp: forecastMonthlyCost_def Let_def bind_err_Inr_iff split: if_splits)
  have days: "0 \<le> de_expected d \<and> 0 \<le> de_covered d" if "d \<in> set ?recent" for d
    using that by (auto simp: recent_days_def)
  have base: "0 \<le> wd" "0 \<le> we" by (rule mean_energy_nonneg [OF facts(2)], use days in auto)
      (rule mean_energy_nonneg [OF facts(3)], use days in auto)
  let ?b = "case ?ps of [] \<Rightarrow> 0 | p # _ \<Rightarrow> pr_start p"
  have dis: "disjoint_from ?b ?ps" by (rule check_published_disjoint [OF facts(4)]) (auto split: list.splits)
  have within: "rates_within lo hi ?ps" using assms(3) rates_within_set [of ?ps "fi_published i"] by simp
  note fut = future_days_facts [OF facts(5) dis base within, simplified]
  have "round_half (lo * fu_kwh u * 100) (KWH_SCALE * 1000000) \<le> x \<and> x \<le> round_half (hi * fu_kwh u * 100) (KWH_SCALE * 1000000)
    \<and> fc_totalOre f = Some (fi_actualCostOre i + x)"
    by (rule price_future_facts [OF facts(6) assms(2)]) (use fut assms(4) in auto)
  with facts(1-3) fut show ?thesis by (auto simp: Let_def)
qed

definition sample_forecast :: forecast_input where
  "sample_forecast =
     \<lparr>fi_now = 58 * DATE_MS + 12 * HOUR_MS, fi_month = (1970, 2), fi_actualCostOre = 1000,
      fi_daily = map (\<lambda>d. \<lparr>de_localDate = d, de_kwh = ''2'', de_covered = 86400, de_expected = 86400\<rparr>) [44..57],
      fi_scenario = Some ''2.5'',
      fi_published = [\<lparr>pr_start = 58 * DATE_MS + 12 * HOUR_MS, pr_end = 58 * DATE_MS + 18 * HOUR_MS, pr_rate = ''1'',
        pr_status = Price_valid\<rparr>]\<rparr>"

lemma sample_forecast_value:
  "forecastMonthlyCost utc_calendar sample_forecast =
     Inr \<lparr>fc_status = Scenario, fc_actualCostOre = 1000, fc_totalOre = Some 1175, fc_futureOre = Some 175, fc_baselineDays = 14,
       fc_basis = Basis_published_and_scenario, fc_knownPriceMs = 21600000\<rparr>"
  by code_simp

theorem forecast_is_within_its_rates_witness:
  "\<exists>energy. round_half (1000000 * energy * 100) (KWH_SCALE * 1000000) \<le> 175
    \<and> 175 \<le> round_half (2500000 * energy * 100) (KWH_SCALE * 1000000)"
proof -
  have p: "rates_within 1000000 2500000 (fi_published sample_forecast)" by code_simp
  have "fi_scenario sample_forecast = Some ''2.5''" "parseDkkPerKwh ''2.5'' = Inr 2500000" by code_simp+
  then have s: "\<forall>s r. fi_scenario sample_forecast = Some s \<longrightarrow> parseDkkPerKwh s = Inr r \<longrightarrow> 1000000 \<le> r \<and> r \<le> 2500000"
    by simp
  from forecast_is_within_its_rates [OF sample_forecast_value _ p s, of 175] show ?thesis by (auto simp: Let_def)
qed

text \<open>A fee that follows the energy is never misallocated: on any comparison the portal makes, the
  proportional share is read back without error and the lab gets between nothing and the whole fee;
  the answer is \<open>incomplete\<close> exactly when the comparison is not comparable.\<close>

theorem proportional_fee_is_bounded:
  assumes "compareHouseholdEnergy lab household labCovered householdCovered expected scope = Inr c" "0 \<le> fee"
  shows "\<exists>ore st. allocateFixedFee fee Energy_proportion c = Inr (ore, st) \<and> 0 \<le> ore \<and> ore \<le> fee
    \<and> (st = Fee_known \<longleftrightarrow> at_status c = Comparable)"
proof (cases "at_status c = Comparable")
  case False
  with assms show ?thesis by (auto simp: allocateFixedFee_def)
next
  case True
  then obtain l h where lh: "0 \<le> l" "l \<le> h" "h \<noteq> 0" "at_labShare c = Some (decimal_micros (round_half (l * 1000000) h))"
    using assms(1) parseKwh_nonneg [of lab]
    by (auto simp: compareHouseholdEnergy_def Let_def bind_err_Inr_iff not_less split: option.splits if_splits)
  let ?s = "round_half (l * 1000000) h"
  have h: "0 < h" using lh by simp
  have s0: "0 \<le> ?s" using lh h by (simp add: round_half_nonneg pos_imp_zdiv_nonneg_iff)
  have "?s \<le> round_half (h * 1000000) h" using lh h by (intro round_half_mono) simp_all
  also have "\<dots> = 1000000"
  proof -
    have "round_half (h * 1000000) h = (h div 2 + 1000000 * h) div h" using h by (simp add: round_half_nonneg algebra_simps)
    also have "\<dots> = 1000000 + h div 2 div h" using h by (subst div_mult_self1) simp_all
    also have "h div 2 div h = 0" using h by (simp add: div_eq_0_iff)
    finally show ?thesis by simp
  qed
  finally have s1: "?s \<le> 1000000" .
  have "fee * ?s \<le> fee * 1000000" using s1 assms(2) by (rule mult_left_mono)
  then have "round_half (fee * ?s) 1000000 \<le> round_half (fee * 1000000) 1000000" by (intro round_half_mono) simp_all
  moreover have "round_half (fee * 1000000) 1000000 = fee" using assms(2) by (simp add: round_half_nonneg)
  moreover have "0 \<le> round_half (fee * ?s) 1000000"
    using assms(2) s0 by (simp add: round_half_nonneg pos_imp_zdiv_nonneg_iff)
  ultimately show ?thesis
    using True assms(2) s0 s1 by (auto simp: allocateFixedFee_def lh(4) decimal_micros_parse bind_err_def)
qed


end
