(* ===== verification/Payment_Allocation.thy ===== *)
theory Payment_Allocation
  imports Energy_Accounting
begin

text \<open>
  \<open>services/paypalAllocation.ts\<close>: the months of electricity cost against the money received. Every
  recalculation walks the months in order; a month whose sources changed since its latest row gets a
  new row with the next revision, rows are never changed. Parameters are the time-zone data (the
  local date and the local month of an instant) and \<open>fp\<close>, the SHA-256 fingerprint of a month's
  sources. A month is its year and number, ordered as the texts \<open>YYYY-MM\<close> are.
\<close>

type_synonym month = "int \<times> nat"

definition month_less :: "month \<Rightarrow> month \<Rightarrow> bool" where
  "month_less a b = (fst a < fst b \<or> fst a = fst b \<and> snd a < snd b)"

definition month_le :: "month \<Rightarrow> month \<Rightarrow> bool" where
  "month_le a b = (month_less a b \<or> a = b)"

record zone =
  zn_day :: "int \<Rightarrow> int"
  zn_month :: "int \<Rightarrow> month"

definition nextMonth :: "month \<Rightarrow> month" where
  "nextMonth m = (if snd m = 12 then (utc_year (fst m) + 1, 1) else (utc_year (fst m), snd m + 1))"

definition safe_amount :: "int \<Rightarrow> int fallible" where
  "safe_amount v = (if \<bar>v\<bar> \<le> MAX_SAFE then Inr v else Inl ''Unsafe allocation amount'')"

definition safeOre :: "string \<Rightarrow> int fallible" where
  \<comment> \<open>\<open>^-?\d+$\<close>; any other text is not an integer\<close>
  "safeOre s =
     (let neg = starts_with ''-'' s; digits = (if neg then tl s else s) in
      if all_digits digits then safe_amount (if neg then - int (nat_of_digits digits) else int (nat_of_digits digits))
      else Inl ''Unsafe allocation amount'')"

datatype alloc_status = Known | Cost_unknown | Unresolved

record alloc_result =
  ar_status :: alloc_status
  ar_applied :: "int option"
  ar_remainder :: "int option"
  ar_adjustment :: "int option"
  ar_closing :: "int option"

definition no_amounts :: "alloc_status \<Rightarrow> alloc_result" where
  "no_amounts st = \<lparr>ar_status = st, ar_applied = None, ar_remainder = None, ar_adjustment = None, ar_closing = None\<rparr>"

definition known_result :: "int \<Rightarrow> int \<Rightarrow> int \<Rightarrow> alloc_result" where
  "known_result cost applied closing =
     \<lparr>ar_status = Known, ar_applied = Some applied, ar_remainder = Some (cost - applied),
      ar_adjustment = Some (max 0 (- closing)), ar_closing = Some closing\<rparr>"

definition allocateMonth :: "int option \<Rightarrow> int \<Rightarrow> int option \<Rightarrow> nat \<Rightarrow> alloc_result fallible" where
  "allocateMonth opening received cost unresolvedCount =
     (case opening of
        None \<Rightarrow> Inr (no_amounts Unresolved)
      | Some b \<Rightarrow>
          if unresolvedCount > 0 then Inr (no_amounts Unresolved)
          else bind_err (safe_amount (max 0 b + received)) (\<lambda>available.
            case cost of
              None \<Rightarrow> Inr (no_amounts Cost_unknown)
            | Some c \<Rightarrow>
                if c < 0 then Inr (no_amounts Cost_unknown)
                else let applied = min c (max 0 available) in
                  bind_err (safe_amount (available - applied)) (\<lambda>closing.
                    Inr (known_result c applied closing))))"

section \<open>Sources\<close>

record posting_source =
  po_id :: int
  po_environment :: string
  po_currency :: string
  po_effective :: int
  po_amount :: int

record statement =
  sm_id :: int
  sm_contract :: int
  sm_finalized :: bool
  sm_start :: int
  sm_end :: int
  sm_revision :: int
  sm_labCostOre :: "string option"
  sm_variableComplete :: bool
  sm_feeKnown :: bool

record open_item =
  oi_id :: string
  oi_environment :: string
  oi_blocking :: bool
  oi_at :: "int option"
  oi_seen :: int

record sources =
  so_postings :: "posting_source list"
  so_statements :: "statement list"
  so_transactions :: "open_item list"
  so_events :: "open_item list"

definition live_postings :: "int \<Rightarrow> sources \<Rightarrow> posting_source list" where
  "live_postings end_at s =
     sort_key po_effective (sort_key po_id
       (filter (\<lambda>p. po_environment p = ''live'' \<and> po_currency p = ''DKK'' \<and> po_effective p < end_at) (so_postings s)))"

definition final_statements :: "int \<Rightarrow> sources \<Rightarrow> statement list" where
  "final_statements end_at s =
     sort_key sm_start (sort_key (\<lambda>x. - sm_revision x) (filter (\<lambda>x. sm_finalized x \<and> sm_end x \<le> end_at) (so_statements s)))"

definition open_live :: "open_item list \<Rightarrow> open_item list" where
  "open_live items = filter (\<lambda>i. oi_environment i = ''live'' \<and> oi_blocking i) items"

fun first_per_contract :: "int list \<Rightarrow> statement list \<Rightarrow> statement list" where
  "first_per_contract seen [] = []"
| "first_per_contract seen (x # xs) =
     (if sm_contract x \<in> set seen then first_per_contract seen xs
      else x # first_per_contract (sm_contract x # seen) xs)"

definition month_statements :: "zone \<Rightarrow> statement list \<Rightarrow> month \<Rightarrow> statement list" where
  "month_statements z statements m = first_per_contract [] (filter (\<lambda>x. zn_month z (sm_start x) = m) statements)"

definition statement_cost :: "statement \<Rightarrow> int option fallible" where
  "statement_cost x =
     (case sm_labCostOre x of
        Some v \<Rightarrow> if sm_variableComplete x \<and> sm_feeKnown x then bind_err (safeOre v) (\<lambda>c. Inr (Some c)) else Inr None
      | None \<Rightarrow> Inr None)"

definition blockers_until :: "zone \<Rightarrow> month \<Rightarrow> char \<Rightarrow> open_item list \<Rightarrow> string list" where
  "blockers_until z m tag items =
     map (\<lambda>i. tag # CHR '':'' # oi_id i)
       (filter (\<lambda>i. month_le (zn_month z (case oi_at i of Some t \<Rightarrow> t | None \<Rightarrow> oi_seen i)) m) items)"

section \<open>The table and one month\<close>

record 'h alloc_row =
  al_id :: int
  al_month :: month
  al_revision :: int
  al_previous :: "int option"
  al_fingerprint :: 'h
  al_cost_statement :: "int option"
  al_ledger_revision :: int
  al_status :: alloc_status
  al_cost :: "int option"
  al_received :: int
  al_opening :: "int option"
  al_applied :: "int option"
  al_remainder :: "int option"
  al_adjustment :: "int option"
  al_closing :: "int option"
  al_unresolved :: nat

record 'h alloc_table =
  tb_rows :: "'h alloc_row list"
  tb_next :: int

definition latest :: "month \<Rightarrow> 'h alloc_table \<Rightarrow> 'h alloc_row option" where
  \<comment> \<open>\<open>order by revision desc limit 1\<close>\<close>
  "latest m t =
     (case sort_key (\<lambda>r. - al_revision r) (filter (\<lambda>r. al_month r = m) (tb_rows t)) of [] \<Rightarrow> None | r # _ \<Rightarrow> Some r)"

record alloc_source =
  as_month :: month
  as_opening :: "int option"
  as_received :: int
  as_statementId :: "int option"
  as_statementIds :: "int list"
  as_statementRevision :: "int option"
  as_cost :: "int option"
  as_postings :: "(int \<times> int) list"
  as_blockers :: "string list"
  as_prior :: "int option"

record 'h alloc_state =
  lo_table :: "'h alloc_table"
  lo_opening :: "int option"
  lo_ledger :: int
  lo_prior :: "int option"
  lo_created :: "(month \<times> int \<times> alloc_status) list"

record loaded =
  ld_postings :: "posting_source list"
  ld_statements :: "statement list"
  ld_transactions :: "open_item list"
  ld_events :: "open_item list"

definition month_source :: "zone \<Rightarrow> loaded \<Rightarrow> month \<Rightarrow> int option \<Rightarrow> int option \<Rightarrow> alloc_source fallible" where
  \<comment> \<open>what a month's row depends on, read from the loaded sources\<close>
  "month_source z ld m opening prior =
     (let postings = filter (\<lambda>p. zn_month z (po_effective p) = m) (ld_postings ld);
          statements = month_statements z (ld_statements ld) m;
          single = (case statements of [x] \<Rightarrow> Some x | _ \<Rightarrow> None)
      in bind_err (safe_amount (sum_list (map po_amount postings))) (\<lambda>received.
         bind_err (case single of Some x \<Rightarrow> statement_cost x | None \<Rightarrow> Inr None) (\<lambda>cost.
           Inr \<lparr>as_month = m, as_opening = opening, as_received = received, as_statementId = map_option sm_id single,
                as_statementIds = sort (map sm_id statements), as_statementRevision = map_option sm_revision single,
                as_cost = cost, as_postings = map (\<lambda>p. (po_id p, po_amount p)) postings,
                as_blockers = blockers_until z m (CHR ''t'') (ld_transactions ld) @ blockers_until z m (CHR ''e'') (ld_events ld),
                as_prior = prior\<rparr>)))"

definition source_result :: "alloc_source \<Rightarrow> alloc_result fallible" where
  "source_result s = allocateMonth (as_opening s) (as_received s) (as_cost s) (length (as_blockers s))"

definition next_opening :: "alloc_result \<Rightarrow> int option" where
  "next_opening r = map_option (\<lambda>c. max 0 c) (ar_closing r)"

definition alloc_step ::
  "zone \<Rightarrow> (alloc_source \<Rightarrow> 'h) \<Rightarrow> loaded \<Rightarrow> month \<Rightarrow> 'h alloc_state \<Rightarrow> 'h alloc_state fallible" where
  "alloc_step z fp ld m lo =
     bind_err (month_source z ld m (lo_opening lo) (lo_prior lo)) (\<lambda>src.
     bind_err (source_result src) (\<lambda>calculated.
       let ledger = Max (insert (lo_ledger lo) (set (map fst (as_postings src))));
           prior = latest m (lo_table lo)
       in if (case prior of Some r \<Rightarrow> al_fingerprint r = fp src | None \<Rightarrow> False)
          then Inr (lo\<lparr>lo_ledger := ledger, lo_prior := map_option al_id prior, lo_opening := next_opening calculated\<rparr>)
          else
            let revision = (case prior of Some r \<Rightarrow> al_revision r | None \<Rightarrow> 0) + 1;
                t = lo_table lo;
                row = \<lparr>al_id = tb_next t, al_month = m, al_revision = revision, al_previous = map_option al_id prior,
                  al_fingerprint = fp src, al_cost_statement = as_statementId src, al_ledger_revision = ledger,
                  al_status = ar_status calculated, al_cost = as_cost src, al_received = as_received src,
                  al_opening = as_opening src, al_applied = ar_applied calculated, al_remainder = ar_remainder calculated,
                  al_adjustment = ar_adjustment calculated, al_closing = ar_closing calculated,
                  al_unresolved = length (as_blockers src)\<rparr>
            in Inr (lo\<lparr>lo_table := \<lparr>tb_rows = tb_rows t @ [row], tb_next = tb_next t + 1\<rparr>, lo_ledger := ledger,
                     lo_prior := Some (tb_next t), lo_opening := next_opening calculated,
                     lo_created := lo_created lo @ [(m, revision, ar_status calculated)]\<rparr>)))"

fun alloc_loop ::
  "nat \<Rightarrow> zone \<Rightarrow> (alloc_source \<Rightarrow> 'h) \<Rightarrow> loaded \<Rightarrow> month \<Rightarrow> month \<Rightarrow> 'h alloc_state \<Rightarrow> (month \<times> 'h alloc_state) fallible" where
  "alloc_loop 0 z fp ld through cursor lo = Inr (cursor, lo)"
| "alloc_loop (Suc n) z fp ld through cursor lo =
     (if month_le cursor through
      then bind_err (alloc_step z fp ld cursor lo) (alloc_loop n z fp ld through (nextMonth cursor))
      else Inr (cursor, lo))"

section \<open>A recalculation\<close>

definition first_month :: "month \<Rightarrow> month list \<Rightarrow> month" where
  "first_month through months = foldl (\<lambda>a b. if month_less b a then b else a) through (filter (\<lambda>m. month_le m through) months)"

definition load_sources :: "zone \<Rightarrow> sources \<Rightarrow> month \<Rightarrow> loaded fallible" where
  "load_sources z s through =
     (let end_at = startOfLocalDateUtc (zn_day z) (month_start (fst (nextMonth through)) (snd (nextMonth through)));
          ld = \<lparr>ld_postings = live_postings end_at s, ld_statements = final_statements end_at s,
                ld_transactions = open_live (so_transactions s), ld_events = open_live (so_events s)\<rparr>
      in if length (ld_postings ld) > 100000 \<or> length (ld_statements ld) > 1000 \<or> length (ld_transactions ld) > 1000
            \<or> length (ld_events ld) > 1000
         then Inl ''Allocation source limit exceeded'' else Inr ld)"

definition start_month :: "zone \<Rightarrow> loaded \<Rightarrow> month \<Rightarrow> month" where
  "start_month z ld through =
     first_month through (map (\<lambda>p. zn_month z (po_effective p)) (ld_postings ld)
       @ map (\<lambda>x. zn_month z (sm_start x)) (ld_statements ld))"

definition start_state :: "'h alloc_table \<Rightarrow> 'h alloc_state" where
  "start_state t = \<lparr>lo_table = t, lo_opening = Some 0, lo_ledger = 0, lo_prior = None, lo_created = []\<rparr>"

definition recalculate ::
  "zone \<Rightarrow> (alloc_source \<Rightarrow> 'h) \<Rightarrow> sources \<Rightarrow> month \<Rightarrow> 'h alloc_table \<Rightarrow> 'h alloc_state fallible" where
  "recalculate z fp s through t =
     bind_err (load_sources z s through) (\<lambda>ld.
     bind_err (alloc_loop 120 z fp ld through (start_month z ld through) (start_state t)) (\<lambda>(cursor, lo).
       if month_le cursor through then Inl ''Allocation range exceeds 120 months'' else Inr lo))"

definition recalculatePaypalAllocations ::
  "zone \<Rightarrow> (alloc_source \<Rightarrow> 'h) \<Rightarrow> int \<Rightarrow> sources \<Rightarrow> month \<Rightarrow> 'h alloc_table
   \<Rightarrow> (string + (month \<times> int \<times> alloc_status) list \<times> int option) \<times> 'h alloc_table" where
  \<comment> \<open>a transaction: an error leaves the table as it was\<close>
  "recalculatePaypalAllocations z fp now s through t =
     (if \<not> (0 \<le> fst through \<and> fst through \<le> 9999 \<and> 1 \<le> snd through \<and> snd through \<le> 12)
      then (Inl ''Invalid allocation month'', t)
      else if month_less (zn_month z now) through then (Inl ''Future allocation month'', t)
      else case recalculate z fp s through t of
             Inl e \<Rightarrow> (Inl e, t)
           | Inr lo \<Rightarrow> (Inr (lo_created lo, lo_opening lo), lo_table lo))"

definition latestPaypalAllocation :: "month \<Rightarrow> 'h alloc_table \<Rightarrow> 'h alloc_row option fallible" where
  "latestPaypalAllocation m t =
     (if \<not> (0 \<le> fst m \<and> fst m \<le> 9999 \<and> 1 \<le> snd m \<and> snd m \<le> 12) then Inl ''Invalid allocation month'' else Inr (latest m t))"

section \<open>Months in order\<close>

lemma month_order:
  "month_less a b \<Longrightarrow> \<not> month_less b a" "month_less a b \<Longrightarrow> month_less b c \<Longrightarrow> month_less a c"
  "month_less a b \<Longrightarrow> a \<noteq> b" "\<not> month_less a b \<longleftrightarrow> month_le b a"
  by (auto simp: month_less_def month_le_def prod_eq_iff)

lemma month_le_trans: "month_le a b \<Longrightarrow> month_le b c \<Longrightarrow> month_le a c"
  by (auto simp: month_le_def intro: month_order(2))

lemma nextMonth_later: "month_less m (nextMonth m)"
  by (auto simp: month_less_def nextMonth_def utc_year_def)

section \<open>The latest row of a month\<close>

lemma latest_in: "latest m t = Some r \<Longrightarrow> r \<in> set (tb_rows t) \<and> al_month r = m"
proof -
  assume "latest m t = Some r"
  then have "r \<in> set (sort_key (\<lambda>r. - al_revision r) (filter (\<lambda>r. al_month r = m) (tb_rows t)))"
    by (auto simp only: latest_def split: list.splits) simp
  then show ?thesis by simp
qed

lemma latest_max: "latest m t = Some r \<Longrightarrow> x \<in> set (tb_rows t) \<Longrightarrow> al_month x = m \<Longrightarrow> al_revision x \<le> al_revision r"
proof -
  assume l: "latest m t = Some r" and x: "x \<in> set (tb_rows t)" "al_month x = m"
  let ?s = "sort_key (\<lambda>r. - al_revision r) (filter (\<lambda>r. al_month r = m) (tb_rows t))"
  obtain rs where s: "?s = r # rs" using l by (auto simp only: latest_def split: list.splits)
  have "x \<in> set ?s" using x by simp
  then have "x \<in> set (r # rs)" unfolding s .
  moreover have "sorted (map (\<lambda>r. - al_revision r) (r # rs))" using sorted_sort_key [of "\<lambda>r. - al_revision r"] s by metis
  ultimately show ?thesis by auto
qed

lemma latest_None: "latest m t = None \<longleftrightarrow> (\<forall>x \<in> set (tb_rows t). al_month x \<noteq> m)"
proof -
  let ?f = "filter (\<lambda>r. al_month r = m) (tb_rows t)"
  have "latest m t = None \<longleftrightarrow> set (sort_key (\<lambda>r. - al_revision r) ?f) = {}"
    unfolding set_empty by (auto simp only: latest_def option.distinct split: list.splits)
  also have "\<dots> \<longleftrightarrow> (\<forall>x \<in> set (tb_rows t). al_month x \<noteq> m)" by auto
  finally show ?thesis .
qed

lemma latest_append_other:
  "al_month row \<noteq> m \<Longrightarrow> latest m \<lparr>tb_rows = tb_rows t @ [row], tb_next = n\<rparr> = latest m t"
  by (simp add: latest_def)

lemma latest_append_new:
  assumes "al_month row = m" "\<And>x. x \<in> set (tb_rows t) \<Longrightarrow> al_month x = m \<Longrightarrow> al_revision x < al_revision row"
  shows "latest m \<lparr>tb_rows = tb_rows t @ [row], tb_next = n\<rparr> = Some row"
proof -
  let ?t = "\<lparr>tb_rows = tb_rows t @ [row], tb_next = n\<rparr>"
  have "latest m ?t \<noteq> None" using assms(1) latest_None [of m ?t] by auto
  then obtain r where r: "latest m ?t = Some r" by blast
  have "al_revision row \<le> al_revision r" by (rule latest_max [OF r]) (use assms(1) in simp_all)
  moreover have "r \<in> set (tb_rows t) \<union> {row}" "al_month r = m" using latest_in [OF r] by auto
  ultimately have "r = row" using assms(2) [of r] by force
  with r show ?thesis by simp
qed

text \<open>One month: its latest row carries the sources' fingerprint, other months are untouched.\<close>

lemma alloc_step_facts:
  assumes "alloc_step z fp ld m lo = Inr lo1"
  shows "\<exists>src calculated r. month_source z ld m (lo_opening lo) (lo_prior lo) = Inr src \<and> source_result src = Inr calculated
    \<and> latest m (lo_table lo1) = Some r \<and> al_fingerprint r = fp src \<and> lo_prior lo1 = Some (al_id r)
    \<and> lo_opening lo1 = next_opening calculated
    \<and> lo_ledger lo1 = Max (insert (lo_ledger lo) (set (map fst (as_postings src))))
    \<and> (\<forall>m'. m' \<noteq> m \<longrightarrow> latest m' (lo_table lo1) = latest m' (lo_table lo))"
proof -
  obtain src calculated where sc: "month_source z ld m (lo_opening lo) (lo_prior lo) = Inr src" "source_result src = Inr calculated"
    using assms by (auto simp: alloc_step_def bind_err_Inr_iff)
  let ?t = "lo_table lo"
  let ?rev = "(case latest m ?t of Some r \<Rightarrow> al_revision r | None \<Rightarrow> 0) + 1"
  have fresh: "al_revision x < ?rev" if "x \<in> set (tb_rows ?t)" "al_month x = m" for x
    using latest_max [OF _ that] latest_None [of m ?t] that by (fastforce split: option.split)
  show ?thesis
  proof (cases "case latest m ?t of Some r \<Rightarrow> al_fingerprint r = fp src | None \<Rightarrow> False")
    case True
    then obtain r where r: "latest m ?t = Some r" "al_fingerprint r = fp src" by (auto split: option.splits)
    with assms sc show ?thesis by (auto simp: alloc_step_def bind_err_def Let_def)
  next
    case False
    define row where "row = \<lparr>al_id = tb_next ?t, al_month = m, al_revision = ?rev, al_previous = map_option al_id (latest m ?t),
                  al_fingerprint = fp src, al_cost_statement = as_statementId src,
                  al_ledger_revision = Max (insert (lo_ledger lo) (set (map fst (as_postings src)))),
                  al_status = ar_status calculated, al_cost = as_cost src, al_received = as_received src,
                  al_opening = as_opening src, al_applied = ar_applied calculated, al_remainder = ar_remainder calculated,
                  al_adjustment = ar_adjustment calculated, al_closing = ar_closing calculated,
                  al_unresolved = length (as_blockers src)\<rparr>"
    have lo1: "lo1 = lo\<lparr>lo_table := \<lparr>tb_rows = tb_rows ?t @ [row], tb_next = tb_next ?t + 1\<rparr>,
        lo_ledger := Max (insert (lo_ledger lo) (set (map fst (as_postings src)))),
        lo_prior := Some (tb_next ?t), lo_opening := next_opening calculated,
        lo_created := lo_created lo @ [(m, ?rev, ar_status calculated)]\<rparr>"
      using assms sc False by (simp add: alloc_step_def bind_err_def Let_def row_def del: set_map)
    have "latest m (lo_table lo1) = Some row"
      using latest_append_new [of row m ?t "tb_next ?t + 1"] fresh by (simp add: lo1 row_def)
    moreover have "latest m' (lo_table lo1) = latest m' ?t" if "m' \<noteq> m" for m'
      using latest_append_other [of row m' ?t "tb_next ?t + 1"] that by (simp add: lo1 row_def)
    ultimately show ?thesis
      by (intro exI [of _ src] exI [of _ calculated] exI [of _ row]) (simp add: sc lo1 row_def)
  qed
qed

section \<open>A second run\<close>

lemma alloc_step_again:
  assumes step: "alloc_step z fp ld m lo = Inr lo1" and t: "latest m t = latest m (lo_table lo1)"
    and lo': "lo_opening lo' = lo_opening lo" "lo_prior lo' = lo_prior lo" "lo_ledger lo' = lo_ledger lo"
    "lo_table lo' = t" "lo_created lo' = cs"
  shows "alloc_step z fp ld m lo' = Inr (lo1\<lparr>lo_table := t, lo_created := cs\<rparr>)"
proof -
  obtain src calculated r where f: "month_source z ld m (lo_opening lo) (lo_prior lo) = Inr src" "source_result src = Inr calculated"
    "latest m (lo_table lo1) = Some r" "al_fingerprint r = fp src" "lo_prior lo1 = Some (al_id r)"
    "lo_opening lo1 = next_opening calculated"
    "lo_ledger lo1 = Max (insert (lo_ledger lo) (set (map fst (as_postings src))))"
    using alloc_step_facts [OF step] by blast
  have "alloc_step z fp ld m lo' = Inr (lo'\<lparr>lo_ledger := lo_ledger lo1, lo_prior := lo_prior lo1, lo_opening := lo_opening lo1\<rparr>)"
    using f t lo' by (simp add: alloc_step_def bind_err_def Let_def del: set_map)
  also have "lo'\<lparr>lo_ledger := lo_ledger lo1, lo_prior := lo_prior lo1, lo_opening := lo_opening lo1\<rparr> = lo1\<lparr>lo_table := t, lo_created := cs\<rparr>"
    using lo' by (intro alloc_state.equality) simp_all
  finally show ?thesis .
qed

lemma alloc_loop_earlier:
  "alloc_loop n z fp ld through cursor lo = Inr (c, lo1) \<Longrightarrow> month_less m cursor \<Longrightarrow> latest m (lo_table lo1) = latest m (lo_table lo)"
proof (induction n arbitrary: cursor lo)
  case (Suc n)
  show ?case
  proof (cases "month_le cursor through")
    case True
    with Suc.prems obtain loA where a: "alloc_step z fp ld cursor lo = Inr loA"
      "alloc_loop n z fp ld through (nextMonth cursor) loA = Inr (c, lo1)" by (auto simp: bind_err_Inr_iff)
    have "month_less m (nextMonth cursor)" using month_order(2) Suc.prems(2) nextMonth_later by blast
    with Suc.IH [OF a(2)] alloc_step_facts [OF a(1)] month_order(3) [OF Suc.prems(2)] show ?thesis by metis
  next
    case False
    with Suc.prems show ?thesis by simp
  qed
qed simp

lemma alloc_loop_again:
  assumes "alloc_loop n z fp ld through cursor lo = Inr (c, lo1)" "\<And>m. month_le cursor m \<Longrightarrow> latest m t = latest m (lo_table lo1)"
    "lo_opening lo' = lo_opening lo" "lo_prior lo' = lo_prior lo" "lo_ledger lo' = lo_ledger lo" "lo_table lo' = t" "lo_created lo' = cs"
  shows "alloc_loop n z fp ld through cursor lo' = Inr (c, lo1\<lparr>lo_table := t, lo_created := cs\<rparr>)"
  using assms
proof (induction n arbitrary: cursor lo lo')
  case 0
  then show ?case by (auto intro!: alloc_state.equality)
next
  case (Suc n)
  show ?case
  proof (cases "month_le cursor through")
    case True
    with Suc.prems(1) obtain loA where a: "alloc_step z fp ld cursor lo = Inr loA"
      "alloc_loop n z fp ld through (nextMonth cursor) loA = Inr (c, lo1)" by (auto simp: bind_err_Inr_iff)
    have "latest cursor t = latest cursor (lo_table loA)"
      using Suc.prems(2) [of cursor] alloc_loop_earlier [OF a(2) nextMonth_later] by (simp add: month_le_def)
    from alloc_step_again [OF a(1) this Suc.prems(3-7)]
    have again: "alloc_step z fp ld cursor lo' = Inr (loA\<lparr>lo_table := t, lo_created := cs\<rparr>)" .
    have "alloc_loop n z fp ld through (nextMonth cursor) (loA\<lparr>lo_table := t, lo_created := cs\<rparr>)
        = Inr (c, lo1\<lparr>lo_table := t, lo_created := cs\<rparr>)"
    proof (rule Suc.IH [OF a(2)])
      fix m assume "month_le (nextMonth cursor) m"
      then have "month_le cursor m" using month_le_trans nextMonth_later by (metis month_le_def)
      then show "latest m t = latest m (lo_table lo1)" by (rule Suc.prems(2))
    qed simp_all
    with True again show ?thesis by (simp add: bind_err_def)
  next
    case False
    with Suc.prems show ?thesis by (auto intro!: alloc_state.equality)
  qed
qed

lemma recalculate_loop:
  assumes "recalculate z fp s through t = Inr lo"
  shows "\<exists>ld c. load_sources z s through = Inr ld \<and> \<not> month_le c through
    \<and> alloc_loop 120 z fp ld through (start_month z ld through) (start_state t) = Inr (c, lo)"
  using assms by (auto simp: recalculate_def bind_err_Inr_iff split: if_splits)

lemma recalculate_again:
  assumes "recalculate z fp s through t = Inr lo"
  shows "recalculate z fp s through (lo_table lo) = Inr (lo\<lparr>lo_created := []\<rparr>)"
proof -
  obtain ld c where l: "load_sources z s through = Inr ld" "\<not> month_le c through"
    "alloc_loop 120 z fp ld through (start_month z ld through) (start_state t) = Inr (c, lo)"
    using recalculate_loop [OF assms] by blast
  have "alloc_loop 120 z fp ld through (start_month z ld through) (start_state (lo_table lo)) = Inr (c, lo\<lparr>lo_table := lo_table lo, lo_created := []\<rparr>)"
    by (rule alloc_loop_again [OF l(3)]) (simp_all add: start_state_def)
  with l(1,2) show ?thesis by (simp add: recalculate_def bind_err_def)
qed

section \<open>Where the money goes\<close>

definition row_values :: "(alloc_source \<Rightarrow> 'h) \<Rightarrow> 'h alloc_row \<Rightarrow> bool" where
  \<comment> \<open>a row is what its sources give\<close>
  "row_values fp r \<longleftrightarrow>
     (\<exists>src calculated. al_fingerprint r = fp src \<and> source_result src = Inr calculated
       \<and> al_month r = as_month src \<and> al_opening r = as_opening src \<and> al_received r = as_received src \<and> al_cost r = as_cost src
       \<and> al_status r = ar_status calculated \<and> al_applied r = ar_applied calculated \<and> al_remainder r = ar_remainder calculated
       \<and> al_adjustment r = ar_adjustment calculated \<and> al_closing r = ar_closing calculated)"

definition table_sound :: "(alloc_source \<Rightarrow> 'h) \<Rightarrow> 'h alloc_table \<Rightarrow> bool" where
  "table_sound fp t \<longleftrightarrow> list_all (row_values fp) (tb_rows t)"

lemma alloc_step_sound:
  assumes "alloc_step z fp ld m lo = Inr lo1" "table_sound fp (lo_table lo)"
  shows "table_sound fp (lo_table lo1)"
proof -
  obtain src calculated where sc: "month_source z ld m (lo_opening lo) (lo_prior lo) = Inr src" "source_result src = Inr calculated"
    using assms by (auto simp: alloc_step_def bind_err_Inr_iff)
  have month: "as_month src = m" using sc(1) by (auto simp: month_source_def Let_def bind_err_Inr_iff)
  show ?thesis
    using assms sc month
    by (auto simp: alloc_step_def bind_err_def Let_def table_sound_def row_values_def split: if_splits option.splits
        intro!: exI [of _ src] exI [of _ calculated])
qed

lemma month_source_fields:
  "month_source z ld m opening prior = Inr src \<Longrightarrow> as_opening src = opening \<and> as_month src = m"
  by (auto simp: month_source_def Let_def bind_err_Inr_iff)

definition received_in :: "zone \<Rightarrow> loaded \<Rightarrow> month \<Rightarrow> int" where
  "received_in z ld m = sum_list (map po_amount (filter (\<lambda>p. zn_month z (po_effective p) = m) (ld_postings ld)))"

lemma month_source_received: "month_source z ld m opening prior = Inr src \<Longrightarrow> as_received src = received_in z ld m"
  by (auto simp: month_source_def Let_def bind_err_Inr_iff safe_amount_def received_in_def split: if_splits)

lemma alloc_step_row:
  assumes "alloc_step z fp ld m lo = Inr lo1" "table_sound fp (lo_table lo)" "inj fp"
  shows "\<exists>r. latest m (lo_table lo1) = Some r \<and> al_opening r = lo_opening lo \<and> row_values fp r \<and> al_received r = received_in z ld m
    \<and> lo_opening lo1 = map_option (\<lambda>c. max 0 c) (al_closing r)"
proof -
  obtain src calculated r where f: "month_source z ld m (lo_opening lo) (lo_prior lo) = Inr src" "source_result src = Inr calculated"
    "latest m (lo_table lo1) = Some r" "al_fingerprint r = fp src" "lo_opening lo1 = next_opening calculated"
    using alloc_step_facts [OF assms(1)] by blast
  have v: "row_values fp r"
    using alloc_step_sound [OF assms(1,2)] latest_in [OF f(3)] by (simp add: table_sound_def list_all_iff)
  have "al_opening r = as_opening src" "al_received r = as_received src" "al_closing r = ar_closing calculated"
    using v f(2,4) injD [OF assms(3)] by (force simp: row_values_def)+
  with v f month_source_fields [OF f(1)] month_source_received [OF f(1)] show ?thesis by (auto simp: next_opening_def)
qed

lemma safe_amount_Inr: "safe_amount v = Inr w \<longleftrightarrow> w = v \<and> \<bar>v\<bar> \<le> MAX_SAFE"
  by (auto simp: safe_amount_def)

lemma allocateMonth_known:
  assumes "allocateMonth opening received cost n = Inr c" "ar_status c = Known"
  shows "\<exists>b k applied closing. opening = Some b \<and> cost = Some k \<and> 0 \<le> k \<and> c = known_result k applied closing
    \<and> applied = min k (max 0 (max 0 b + received)) \<and> closing = max 0 b + received - applied"
proof -
  obtain b where b: "opening = Some b" "n = 0"
    using assms by (cases "opening") (auto simp: allocateMonth_def no_amounts_def split: if_splits)
  then obtain available where av: "safe_amount (max 0 b + received) = Inr available"
    using assms(1) by (auto simp: allocateMonth_def bind_err_Inr_iff)
  then have avail: "available = max 0 b + received" by (simp only: safe_amount_Inr)
  obtain k where k: "cost = Some k" "\<not> k < 0"
    using assms b av by (cases cost) (auto simp: allocateMonth_def no_amounts_def bind_err_def split: if_splits)
  then have "bind_err (safe_amount (available - min k (max 0 available))) (\<lambda>closing.
      Inr (known_result k (min k (max 0 available)) closing)) = Inr c"
    using assms(1) b av unfolding allocateMonth_def by (simp only: option.case bind_err_def sum.case less_irrefl if_False Let_def)
  then have "c = known_result k (min k (max 0 available)) (available - min k (max 0 available))"
    by (auto simp only: bind_err_Inr_iff safe_amount_Inr)
  with b k avail show ?thesis by auto
qed

lemma row_balance:
  assumes "row_values fp r" "al_status r = Known"
  shows "\<exists>b a c adj. al_opening r = Some b \<and> al_applied r = Some a \<and> al_closing r = Some c \<and> al_adjustment r = Some adj
    \<and> max 0 b + al_received r = a + c \<and> max 0 c = c + adj"
proof -
  obtain src calculated where v: "source_result src = Inr calculated" "al_opening r = as_opening src" "al_received r = as_received src"
    "al_status r = ar_status calculated" "al_applied r = ar_applied calculated"
    "al_adjustment r = ar_adjustment calculated" "al_closing r = ar_closing calculated"
    using assms(1) unfolding row_values_def by blast
  from v(1) have "allocateMonth (as_opening src) (as_received src) (as_cost src) (length (as_blockers src)) = Inr calculated"
    by (simp add: source_result_def)
  from allocateMonth_known [OF this] v(4) assms(2) obtain b k applied closing where k: "as_opening src = Some b"
    "calculated = known_result k applied closing" "closing = max 0 b + as_received src - applied" by auto
  have "max 0 closing = closing + max 0 (- closing)" by linarith
  moreover have "max 0 b + as_received src = applied + closing" using k(3) by linarith
  ultimately show ?thesis
    using v(2,3,5-7) k(1) unfolding k(2) known_result_def by (intro exI conjI; simp only: alloc_result.simps) 
qed

fun months_through :: "nat \<Rightarrow> month \<Rightarrow> month \<Rightarrow> month list" where
  "months_through 0 cursor through = []"
| "months_through (Suc n) cursor through =
     (if month_le cursor through then cursor # months_through n (nextMonth cursor) through else [])"

fun chained :: "int option \<Rightarrow> 'h alloc_row list \<Rightarrow> bool" where
  "chained opening [] = True"
| "chained opening (r # rs) = (al_opening r = opening \<and> chained (map_option (\<lambda>c. max 0 c) (al_closing r)) rs)"

fun final_opening :: "int option \<Rightarrow> 'h alloc_row list \<Rightarrow> int option" where
  "final_opening opening [] = opening"
| "final_opening opening (r # rs) = final_opening (map_option (\<lambda>c. max 0 c) (al_closing r)) rs"

lemma alloc_loop_rows:
  assumes "alloc_loop n z fp ld through cursor lo = Inr (c, lo1)" "table_sound fp (lo_table lo)" "inj fp"
  shows "\<exists>rows. map (\<lambda>m. latest m (lo_table lo1)) (months_through n cursor through) = map Some rows
    \<and> map al_received rows = map (received_in z ld) (months_through n cursor through)
    \<and> list_all (row_values fp) rows \<and> chained (lo_opening lo) rows \<and> lo_opening lo1 = final_opening (lo_opening lo) rows"
  using assms(1,2)
proof (induction n arbitrary: cursor lo)
  case 0
  then show ?case by simp
next
  case (Suc n)
  show ?case
  proof (cases "month_le cursor through")
    case True
    with Suc.prems obtain loA where a: "alloc_step z fp ld cursor lo = Inr loA"
      "alloc_loop n z fp ld through (nextMonth cursor) loA = Inr (c, lo1)" by (auto simp: bind_err_Inr_iff)
    obtain r where r: "latest cursor (lo_table loA) = Some r" "al_opening r = lo_opening lo" "row_values fp r"
      "al_received r = received_in z ld cursor" "lo_opening loA = map_option (\<lambda>c. max 0 c) (al_closing r)"
      using alloc_step_row [OF a(1) Suc.prems(2) assms(3)] by blast
    have "latest cursor (lo_table lo1) = Some r" using alloc_loop_earlier [OF a(2) nextMonth_later] r(1) by simp
    moreover obtain rows where "map (\<lambda>m. latest m (lo_table lo1)) (months_through n (nextMonth cursor) through) = map Some rows"
      "map al_received rows = map (received_in z ld) (months_through n (nextMonth cursor) through)"
      "list_all (row_values fp) rows" "chained (lo_opening loA) rows" "lo_opening lo1 = final_opening (lo_opening loA) rows"
      using Suc.IH [OF a(2) alloc_step_sound [OF a(1) Suc.prems(2)]] by blast
    ultimately show ?thesis using True r by (intro exI [of _ "r # rows"]) simp
  next
    case False
    with Suc.prems show ?thesis by simp
  qed
qed

lemma chained_balance:
  assumes "chained (Some b) rows" "list_all (row_values fp) rows" "list_all (\<lambda>r. al_status r = Known) rows" "0 \<le> b"
  shows "\<exists>c. final_opening (Some b) rows = Some c \<and> 0 \<le> c
    \<and> b + sum_list (map al_received rows) + sum_list (map (\<lambda>r. the (al_adjustment r)) rows)
      = sum_list (map (\<lambda>r. the (al_applied r)) rows) + c"
  using assms
proof (induction rows arbitrary: b)
  case (Cons r rows)
  then obtain a c adj where r: "al_opening r = Some b" "al_applied r = Some a" "al_closing r = Some c" "al_adjustment r = Some adj"
    "max 0 b + al_received r = a + c" "max 0 c = c + adj"
    using row_balance [of fp r] by auto
  have "\<exists>f. final_opening (Some (max 0 c)) rows = Some f \<and> 0 \<le> f
    \<and> max 0 c + sum_list (map al_received rows) + sum_list (map (\<lambda>r. the (al_adjustment r)) rows)
      = sum_list (map (\<lambda>r. the (al_applied r)) rows) + f"
    by (rule Cons.IH) (use Cons.prems r in simp_all)
  with r Cons.prems(4) show ?case by auto
qed simp

section \<open>Every month once\<close>

definition month_ok :: "month \<Rightarrow> bool" where
  "month_ok m = (100 \<le> fst m \<and> 1 \<le> snd m \<and> snd m \<le> 12)"

lemma nextMonth_least:
  assumes "month_ok a" "month_ok m" "month_less a m"
  shows "month_le (nextMonth a) m" "month_ok (nextMonth a)"
  using assms by (auto simp: month_ok_def month_less_def month_le_def nextMonth_def utc_year_def prod_eq_iff)

lemma nextMonth_ok: "month_ok a \<Longrightarrow> month_ok (nextMonth a)"
  by (auto simp: month_ok_def nextMonth_def utc_year_def)

lemma months_from: "m \<in> set (months_through n cursor through) \<Longrightarrow> month_le cursor m \<and> month_le m through"
proof (induction n arbitrary: cursor)
  case (Suc n)
  have le: "month_le cursor through" using Suc.prems by (simp split: if_splits)
  show ?case
  proof (cases "m = cursor")
    case True
    with le show ?thesis by (simp add: month_le_def)
  next
    case False
    with Suc.prems le have "m \<in> set (months_through n (nextMonth cursor) through)" by simp
    from Suc.IH [OF this] show ?thesis using month_le_trans [of cursor "nextMonth cursor" m] nextMonth_later [of cursor]
      by (simp add: month_le_def)
  qed
qed simp

lemma months_distinct: "distinct (months_through n cursor through)"
proof (induction n arbitrary: cursor)
  case (Suc n)
  have "cursor \<notin> set (months_through n (nextMonth cursor) through)"
    using months_from [of cursor n "nextMonth cursor" through] nextMonth_later [of cursor] month_order(4) by blast
  with Suc show ?case by simp
qed simp

lemma months_complete:
  assumes "alloc_loop n z fp ld through cursor lo = Inr (c, lo1)" "\<not> month_le c through"
    "month_ok cursor" "month_ok m" "month_le cursor m" "month_le m through"
  shows "m \<in> set (months_through n cursor through)"
  using assms(1,3,5)
proof (induction n arbitrary: cursor lo)
  case 0
  with assms(2,6) month_le_trans show ?case by auto
next
  case (Suc n)
  have le: "month_le cursor through" using Suc.prems(3) assms(6) month_le_trans by blast
  with Suc.prems(1) obtain loA where a: "alloc_loop n z fp ld through (nextMonth cursor) loA = Inr (c, lo1)"
    by (auto simp: bind_err_Inr_iff)
  show ?case
  proof (cases "m = cursor")
    case True
    with le show ?thesis by simp
  next
    case False
    then have "month_less cursor m" using Suc.prems(3) by (auto simp: month_le_def)
    from Suc.IH [OF a nextMonth_ok [OF Suc.prems(2)] nextMonth_least(1) [OF Suc.prems(2) assms(4) this]] le
    show ?thesis by simp
  qed
qed

lemma first_month_facts:
  "month_le (first_month through ms) through \<and> (first_month through ms = through \<or> first_month through ms \<in> set ms)
   \<and> (\<forall>m \<in> set ms. month_le m through \<longrightarrow> month_le (first_month through ms) m)"
proof -
  let ?f = "\<lambda>a b. if month_less b a then b else a"
  have "month_le (foldl ?f a xs) a \<and> (foldl ?f a xs = a \<or> foldl ?f a xs \<in> set xs) \<and> (\<forall>m \<in> set xs. month_le (foldl ?f a xs) m)" for a xs
  proof (induction xs arbitrary: a)
    case Nil
    then show ?case by (simp add: month_le_def)
  next
    case (Cons x xs)
    show ?case
    proof (cases "month_less x a")
      case True
      with Cons [of x] show ?thesis using month_le_trans [of "foldl ?f x xs" x a] by (auto simp: month_le_def)
    next
      case False
      then have "month_le a x" using month_order(4) by blast
      with False Cons [of a] show ?thesis using month_le_trans [of "foldl ?f a xs" a x] by auto
    qed
  qed
  from this [of through "filter (\<lambda>m. month_le m through) ms"] show ?thesis unfolding first_month_def by auto
qed

lemma sum_by_month:
  "distinct ms \<Longrightarrow> sum_list (map (\<lambda>m. sum_list (map g (filter (\<lambda>p. f p = m) ps))) ms)
    = (sum_list (map g (filter (\<lambda>p. f p \<in> set ms) ps)) :: int)"
proof (induction ms)
  case (Cons m ms)
  have "sum_list (map g (filter (\<lambda>p. f p \<in> set (m # ms)) ps)) = sum_list (map g (filter (\<lambda>p. f p = m) ps))
      + sum_list (map g (filter (\<lambda>p. f p \<in> set ms) ps))"
    using Cons.prems by (induction ps) auto
  with Cons show ?case by simp
qed simp

lemma alloc_loop_appends:
  "alloc_loop n z fp ld through cursor lo = Inr (c, lo1) \<Longrightarrow> \<exists>new. tb_rows (lo_table lo1) = tb_rows (lo_table lo) @ new"
proof (induction n arbitrary: cursor lo)
  case (Suc n)
  show ?case
  proof (cases "month_le cursor through")
    case True
    with Suc.prems obtain loA where a: "alloc_step z fp ld cursor lo = Inr loA"
      "alloc_loop n z fp ld through (nextMonth cursor) loA = Inr (c, lo1)" by (auto simp: bind_err_Inr_iff)
    have "\<exists>new. tb_rows (lo_table loA) = tb_rows (lo_table lo) @ new"
      using a(1) by (auto simp: alloc_step_def bind_err_Inr_iff Let_def split: if_splits)
    with Suc.IH [OF a(2)] show ?thesis by auto
  next
    case False
    with Suc.prems show ?thesis by simp
  qed
qed simp

section \<open>Properties\<close>

text \<open>A recalculation only appends rows, and repeating it on unchanged sources, at any later time,
  appends nothing and answers the same balance: the revisions and the row ids that enter the
  fingerprints of the following months settle after one run.\<close>

theorem recalculation_is_idempotent:
  assumes "recalculatePaypalAllocations z fp now s through t = (Inr (created, closing), t')" "month_le through (zn_month z now')"
  shows "(\<exists>new. tb_rows t' = tb_rows t @ new) \<and> recalculatePaypalAllocations z fp now' s through t' = (Inr ([], closing), t')"
proof -
  obtain lo where r: "recalculate z fp s through t = Inr lo" and lo: "created = lo_created lo" "closing = lo_opening lo" "t' = lo_table lo"
    and valid: "0 \<le> fst through \<and> fst through \<le> 9999 \<and> 1 \<le> snd through \<and> snd through \<le> 12"
    using assms(1) by (auto simp: recalculatePaypalAllocations_def split: if_splits sum.splits)
  have "\<exists>new. tb_rows t' = tb_rows t @ new"
    using recalculate_loop [OF r] alloc_loop_appends lo by (fastforce simp: start_state_def)
  moreover have "\<not> month_less (zn_month z now') through" using assms(2) month_order(4) by blast
  ultimately show ?thesis using valid recalculate_again [OF r] lo by (simp add: recalculatePaypalAllocations_def)
qed

text \<open>C11: Money is conserved across months: the latest rows of the walked months count every posting up
  to the end of the last month in exactly one of them, and when all of them are known, what was
  received and what the owner absorbed is what was applied to costs and what is carried forward
  (with a fingerprint free of collisions and a table of rows that earlier runs wrote).\<close>

theorem allocation_conserves_money:
  assumes "recalculatePaypalAllocations z fp now s through t = (Inr (created, closing), t')" "table_sound fp t" "inj fp"
    "\<forall>i. month_ok (zn_month z i)" "100 \<le> fst through"
  shows "\<exists>ld first rows. load_sources z s through = Inr ld
    \<and> map (\<lambda>m. latest m t') (months_through 120 first through) = map Some rows
    \<and> sum_list (map al_received rows)
        = sum_list (map po_amount (filter (\<lambda>p. month_le (zn_month z (po_effective p)) through) (ld_postings ld)))
    \<and> (list_all (\<lambda>r. al_status r = Known) rows \<longrightarrow>
        (\<exists>c. closing = Some c \<and> 0 \<le> c
          \<and> sum_list (map al_received rows) + sum_list (map (\<lambda>r. the (al_adjustment r)) rows)
            = sum_list (map (\<lambda>r. the (al_applied r)) rows) + c))"
proof -
  obtain lo where r: "recalculate z fp s through t = Inr lo" and lo: "closing = lo_opening lo" "t' = lo_table lo"
    and valid: "month_ok through"
    using assms(1,5) by (auto simp: recalculatePaypalAllocations_def month_ok_def split: if_splits sum.splits)
  obtain ld c where l: "load_sources z s through = Inr ld" "\<not> month_le c through"
    "alloc_loop 120 z fp ld through (start_month z ld through) (start_state t) = Inr (c, lo)"
    using recalculate_loop [OF r] by blast
  let ?first = "start_month z ld through"
  let ?ms = "months_through 120 ?first through"
  have first: "month_le ?first through" "month_ok ?first"
    "p \<in> set (ld_postings ld) \<Longrightarrow> month_le (zn_month z (po_effective p)) through \<Longrightarrow> month_le ?first (zn_month z (po_effective p))" for p
    using first_month_facts [of through "map (\<lambda>p. zn_month z (po_effective p)) (ld_postings ld) @ map (\<lambda>x. zn_month z (sm_start x)) (ld_statements ld)"]
      assms(4) valid by (auto simp: start_month_def)
  have "table_sound fp (lo_table (start_state t))" using assms(2) by (simp add: start_state_def)
  from alloc_loop_rows [OF l(3) this assms(3)] obtain rows where rows: "map (\<lambda>m. latest m t') ?ms = map Some rows"
    "map al_received rows = map (received_in z ld) ?ms" "list_all (row_values fp) rows" "chained (Some 0) rows"
    "closing = final_opening (Some 0) rows"
    using lo by (auto simp: start_state_def)
  have "zn_month z (po_effective p) \<in> set ?ms \<longleftrightarrow> month_le (zn_month z (po_effective p)) through" if "p \<in> set (ld_postings ld)" for p
    using months_from [of _ 120 ?first through] months_complete [OF l(3,2) first(2)] assms(4) first(3) [OF that] by blast
  then have posts: "filter (\<lambda>p. zn_month z (po_effective p) \<in> set ?ms) (ld_postings ld)
      = filter (\<lambda>p. month_le (zn_month z (po_effective p)) through) (ld_postings ld)"
    by (intro filter_cong) simp_all
  have "sum_list (map al_received rows)
      = sum_list (map (\<lambda>m. sum_list (map po_amount (filter (\<lambda>p. zn_month z (po_effective p) = m) (ld_postings ld)))) ?ms)"
    by (simp only: rows(2) received_in_def cong: map_cong)
  also have "\<dots> = sum_list (map po_amount (filter (\<lambda>p. month_le (zn_month z (po_effective p)) through) (ld_postings ld)))"
    unfolding sum_by_month [OF months_distinct] posts ..
  finally show ?thesis
    using l(1) rows chained_balance [OF rows(4,3)] by (intro exI [of _ ld] exI [of _ ?first] exI [of _ rows]) auto
qed

definition sample_zone :: zone where
  "sample_zone = \<lparr>zn_day = utc_calendar, zn_month = (\<lambda>t. if t < month_start 2026 2 * DATE_MS then (2026, 1) else (2026, 2))\<rparr>"

definition sample_sources :: sources where
  "sample_sources =
     \<lparr>so_postings =
        [\<lparr>po_id = 1, po_environment = ''live'', po_currency = ''DKK'', po_effective = month_start 2026 1 * DATE_MS + 5, po_amount = 9650\<rparr>,
         \<lparr>po_id = 2, po_environment = ''live'', po_currency = ''DKK'', po_effective = month_start 2026 2 * DATE_MS + 5, po_amount = - 2000\<rparr>],
      so_statements =
        [\<lparr>sm_id = 7, sm_contract = 1, sm_finalized = True, sm_start = month_start 2026 1 * DATE_MS, sm_end = month_start 2026 2 * DATE_MS,
          sm_revision = 1, sm_labCostOre = Some ''9000'', sm_variableComplete = True, sm_feeKnown = True\<rparr>,
         \<lparr>sm_id = 8, sm_contract = 1, sm_finalized = True, sm_start = month_start 2026 2 * DATE_MS, sm_end = month_start 2026 3 * DATE_MS,
          sm_revision = 1, sm_labCostOre = Some ''8000'', sm_variableComplete = True, sm_feeKnown = True\<rparr>],
      so_transactions = [], so_events = []\<rparr>"

definition no_rows :: "alloc_source alloc_table" where
  "no_rows = \<lparr>tb_rows = [], tb_next = 1\<rparr>"

definition sample_run where
  "sample_run = recalculatePaypalAllocations sample_zone id (month_start 2026 2 * DATE_MS + 9) sample_sources (2026, 2) no_rows"

lemma sample_run_value: "fst sample_run = Inr ([((2026, 1), 1, Known), ((2026, 2), 1, Known)], Some 0)"
  by code_simp

lemma sample_run_result:
  "recalculatePaypalAllocations sample_zone id (month_start 2026 2 * DATE_MS + 9) sample_sources (2026, 2) no_rows
     = (Inr ([((2026, 1), 1, Known), ((2026, 2), 1, Known)], Some 0), snd sample_run)"
  using sample_run_value unfolding sample_run_def by (simp add: prod_eq_iff)


theorem allocation_conserves_money_witness:
  "\<exists>ld first rows. load_sources sample_zone sample_sources (2026, 2) = Inr ld
    \<and> map (\<lambda>m. latest m (snd sample_run)) (months_through 120 first (2026, 2)) = map Some rows"
proof -
  have "table_sound id no_rows" by (simp add: table_sound_def no_rows_def)
  moreover have "\<forall>i. month_ok (zn_month sample_zone i)" by (simp add: sample_zone_def month_ok_def)
  ultimately show ?thesis
    using allocation_conserves_money [OF sample_run_result] by fastforce
qed

end
