(* ===== verification/Energy_Price.thy ===== *)
theory Energy_Price
  imports Energy_Accounting
begin

text \<open>
  \<open>services/electricityPriceMath.ts\<close>: the price that applies at an instant under a contract, with the
  interval on which it holds. Instants are milliseconds since the epoch where the code prints ISO
  texts; a date is always valid in the model, so the two checks for invalid dates have no branch.
  An \<open>incomplete\<close> price is a value, an unreadable rate an error.
\<close>

datatype contract_kind = Spot | Fixed_all_in | Fixed_plus_tariffs | Other_kind string

datatype price_basis = Variable_retail_including_vat | Spot_only_excluding_retail_additions | Other_basis string

record contract_price =
  ct_ref :: string
  ct_kind :: contract_kind
  ct_area :: string
  ct_validFrom :: int
  ct_validTo :: "int option"
  ct_fixedRate :: "string option"
  ct_marginRate :: "string option"
  ct_vatRate :: "string option"
  ct_required :: "string list option"
  ct_revision :: int

record tariff_price =
  tf_component :: string
  tf_validFrom :: int
  tf_validTo :: int
  tf_rate :: string
  tf_vatIncluded :: bool
  tf_provenance :: string
  tf_revision :: int

record spot_price =
  sp_area :: string
  sp_start :: int
  sp_end :: int
  sp_rate :: string
  sp_revision :: string
  sp_fetchedAt :: int

record price_part =
  pp_component :: string
  pp_rate :: string
  pp_provenance :: string
  pp_vatIncluded :: bool

record resolved_price =
  ap_reason :: "string option"
  ap_rate :: "string option"
  ap_start :: "int option"
  ap_end :: "int option"
  ap_area :: string
  ap_contract :: string
  ap_basis :: price_basis
  ap_parts :: "price_part list"
  ap_contractRevision :: string
  ap_sourceRevision :: string
  ap_fetchedAt :: "int option"
  ap_horizon :: "int option"

definition ap_valid :: "resolved_price \<Rightarrow> bool" where
  \<comment> \<open>\<open>status === 'valid'\<close>, which is when there is no reason against it\<close>
  "ap_valid a = (ap_reason a = None)"

definition format_rate :: "int \<Rightarrow> string" where
  "format_rate micros = (if micros < 0 then ''-'' else []) @ decimal_micros \<bar>micros\<bar>"

definition incomplete_price :: "contract_price \<Rightarrow> price_basis \<Rightarrow> string \<Rightarrow> resolved_price" where
  "incomplete_price c basis reason =
     \<lparr>ap_reason = Some reason, ap_rate = None, ap_start = None, ap_end = None, ap_area = ct_area c, ap_contract = ct_ref c,
      ap_basis = basis, ap_parts = [], ap_contractRevision = show_int (ct_revision c), ap_sourceRevision = [],
      ap_fetchedAt = None, ap_horizon = None\<rparr>"

definition vatMicros :: "int \<Rightarrow> string \<Rightarrow> int fallible" where
  "vatMicros v vatRate =
     bind_err (parseDkkPerKwh vatRate) (\<lambda>rate.
       if rate < 0 \<or> rate > 1000000 then Inl ''Invalid VAT fraction''
       else let amount = v * (1000000 + rate) in
            Inr (if amount < 0 then - ((- amount + 500000) div 1000000) else (amount + 500000) div 1000000))"

record price_state =
  ps_taxable :: int
  ps_vatIncluded :: int
  ps_parts :: "price_part list"
  ps_begin :: int
  ps_end :: int

definition known_component :: "string \<Rightarrow> bool" where
  "known_component c = (c \<in> {''network'', ''system'', ''tax'', ''retailer''})"

definition upper_component :: "string \<Rightarrow> string" where
  \<comment> \<open>\<open>toUpperCase\<close> of a component that was found known\<close>
  "upper_component c =
     (if c = ''network'' then ''NETWORK'' else if c = ''system'' then ''SYSTEM'' else if c = ''tax'' then ''TAX'' else ''RETAILER'')"

definition tariff_applies :: "int \<Rightarrow> tariff_price \<Rightarrow> bool" where
  "tariff_applies at t = (tf_validFrom t \<le> at \<and> at < tf_validTo t)"

definition applicable_tariffs :: "int \<Rightarrow> string \<Rightarrow> tariff_price list \<Rightarrow> tariff_price list" where
  "applicable_tariffs at c tariffs = filter (\<lambda>t. tf_component t = c \<and> tariff_applies at t) tariffs"

fun tariff_loop ::
  "int \<Rightarrow> tariff_price list \<Rightarrow> string list \<Rightarrow> string list \<Rightarrow> price_state \<Rightarrow> (string + price_state) fallible" where
  \<comment> \<open>inside: the reason of an incomplete price, or the sums after all components\<close>
  "tariff_loop at tariffs [] selected st = Inr (Inr st)"
| "tariff_loop at tariffs (c # cs) selected st =
     (if \<not> known_component c \<or> c \<in> set selected then Inr (Inl ''TARIFF_COMPONENTS_INVALID'')
      else case applicable_tariffs at c tariffs of
             [t] \<Rightarrow>
               bind_err (parseDkkPerKwh (tf_rate t)) (\<lambda>micros.
                 tariff_loop at tariffs cs (c # selected)
                   \<lparr>ps_taxable = ps_taxable st + (if tf_vatIncluded t then 0 else micros),
                    ps_vatIncluded = ps_vatIncluded st + (if tf_vatIncluded t then micros else 0),
                    ps_parts = ps_parts st @ [\<lparr>pp_component = c, pp_rate = format_rate micros, pp_provenance = tf_provenance t,
                                               pp_vatIncluded = tf_vatIncluded t\<rparr>],
                    ps_begin = (if tf_validFrom t > ps_begin st then tf_validFrom t else ps_begin st),
                    ps_end = min (ps_end st) (tf_validTo t)\<rparr>)
           | applicable \<Rightarrow>
               Inr (Inl (''TARIFF_'' @ upper_component c @ ''_'' @ (if applicable = [] then ''MISSING'' else ''OVERLAP''))))"

definition tariff_revisions :: "int \<Rightarrow> string list \<Rightarrow> tariff_price list \<Rightarrow> string" where
  "tariff_revisions at selected tariffs =
     join_with ''.'' (map (\<lambda>t. show_int (tf_revision t))
       (filter (\<lambda>t. tf_component t \<in> set selected \<and> tariff_applies at t) tariffs))"

definition priced ::
  "contract_price \<Rightarrow> price_basis \<Rightarrow> int \<Rightarrow> int \<Rightarrow> int \<Rightarrow> price_part list \<Rightarrow> string \<Rightarrow> int option \<Rightarrow> int \<Rightarrow> resolved_price" where
  "priced c basis micros start_at end_at parts source fetched horizon =
     \<lparr>ap_reason = None, ap_rate = Some (format_rate micros), ap_start = Some start_at, ap_end = Some end_at,
      ap_area = ct_area c, ap_contract = ct_ref c, ap_basis = basis, ap_parts = parts,
      ap_contractRevision = show_int (ct_revision c), ap_sourceRevision = source, ap_fetchedAt = fetched,
      ap_horizon = Some horizon\<rparr>"

definition add_margin :: "contract_price \<Rightarrow> price_state \<Rightarrow> price_state fallible" where
  "add_margin c st =
     (case ct_marginRate c of
        None \<Rightarrow> Inr st
      | Some m \<Rightarrow> bind_err (parseDkkPerKwh m) (\<lambda>margin.
          Inr (st\<lparr>ps_taxable := ps_taxable st + margin,
                  ps_parts := ps_parts st @ [\<lparr>pp_component = ''retailer_margin'', pp_rate = format_rate margin,
                    pp_provenance = ''contract'', pp_vatIncluded = False\<rparr>]\<rparr>)))"

definition retail_price ::
  "int \<Rightarrow> contract_price \<Rightarrow> tariff_price list \<Rightarrow> price_basis \<Rightarrow> price_state \<Rightarrow> (string \<Rightarrow> string) \<Rightarrow> int option
   \<Rightarrow> (int \<Rightarrow> int) \<Rightarrow> resolved_price fallible" where
  \<comment> \<open>the second half: margin, tariffs and VAT on the base in the state\<close>
  "retail_price at c tariffs basis st source fetched horizon =
     (case (ct_vatRate c, ct_required c) of
        (Some vat, Some required) \<Rightarrow>
          bind_err (add_margin c st)
            (\<lambda>st. bind_err (tariff_loop at tariffs required [] st) (\<lambda>r.
              case r of
                Inl reason \<Rightarrow> Inr (incomplete_price c basis reason)
              | Inr st' \<Rightarrow>
                  bind_err (vatMicros (ps_taxable st') vat) (\<lambda>withVat.
                    let total = withVat + ps_vatIncluded st';
                        parts = ps_parts st' @ [\<lparr>pp_component = ''vat'', pp_rate = format_rate (withVat - ps_taxable st'),
                          pp_provenance = ''contract VAT fraction '' @ vat, pp_vatIncluded = True\<rparr>]
                    in Inr (priced c basis total (ps_begin st') (ps_end st') parts
                              (source (tariff_revisions at required tariffs)) fetched (horizon (ps_end st'))))))
      | _ \<Rightarrow> Inr (incomplete_price c basis ''RETAIL_TERMS_INCOMPLETE''))"

definition nextUtcDay :: "int \<Rightarrow> int" where
  "nextUtcDay at = (at div DATE_MS + 1) * DATE_MS"

definition or_instant :: "int option \<Rightarrow> int \<Rightarrow> int" where
  "or_instant v d = (case v of Some x \<Rightarrow> x | None \<Rightarrow> d)"

definition spot_covers :: "int \<Rightarrow> contract_price \<Rightarrow> spot_price \<Rightarrow> bool" where
  "spot_covers at c s = (sp_area s = ct_area c \<and> sp_start s \<le> at \<and> at < sp_end s)"

definition contract_terms ::
  "int \<Rightarrow> contract_price \<Rightarrow> tariff_price list \<Rightarrow> spot_price option \<Rightarrow> price_basis \<Rightarrow> resolved_price fallible" where
  "contract_terms at c tariffs spot basis =
     (case ct_kind c of
        Fixed_all_in \<Rightarrow>
          if basis = Spot_only_excluding_retail_additions then Inr (incomplete_price c basis ''SPOT_BASIS_NOT_APPLICABLE'')
          else (case ct_fixedRate c of
                  None \<Rightarrow> Inr (incomplete_price c basis ''FIXED_RATE_MISSING'')
                | Some f \<Rightarrow> bind_err (parseDkkPerKwh f) (\<lambda>micros.
                    let e = or_instant (ct_validTo c) (nextUtcDay at) in
                    Inr (priced c basis micros (ct_validFrom c) e
                      [\<lparr>pp_component = ''fixed_all_in'', pp_rate = format_rate micros, pp_provenance = ''contract'', pp_vatIncluded = True\<rparr>]
                      (''fixed:'' @ show_int (ct_revision c)) None e)))
      | Fixed_plus_tariffs \<Rightarrow>
          if basis = Spot_only_excluding_retail_additions then Inr (incomplete_price c basis ''SPOT_BASIS_NOT_APPLICABLE'')
          else (case ct_fixedRate c of
                  None \<Rightarrow> Inr (incomplete_price c basis ''FIXED_RATE_MISSING'')
                | Some f \<Rightarrow> bind_err (parseDkkPerKwh f) (\<lambda>base.
                    retail_price at c tariffs basis
                      \<lparr>ps_taxable = base, ps_vatIncluded = 0,
                       ps_parts = [\<lparr>pp_component = ''fixed_energy'', pp_rate = format_rate base, pp_provenance = ''contract'', pp_vatIncluded = False\<rparr>],
                       ps_begin = ct_validFrom c, ps_end = or_instant (ct_validTo c) (nextUtcDay at)\<rparr>
                      (\<lambda>revs. ''fixed:'' @ show_int (ct_revision c) @ '':'' @ revs) None (\<lambda>e. e)))
      | Spot \<Rightarrow>
          (case spot of
             None \<Rightarrow> Inr (incomplete_price c basis ''CURRENT_SPOT_UNAVAILABLE'')
           | Some s \<Rightarrow>
               if \<not> spot_covers at c s then Inr (incomplete_price c basis ''CURRENT_SPOT_UNAVAILABLE'')
               else bind_err (parseDkkPerKwh (sp_rate s)) (\<lambda>base.
                 let parts = [\<lparr>pp_component = ''day_ahead_spot'', pp_rate = format_rate base,
                               pp_provenance = ''Energi Data Service DayAheadPrices'', pp_vatIncluded = False\<rparr>];
                     b = max (ct_validFrom c) (sp_start s);
                     e = (case ct_validTo c of Some v \<Rightarrow> min v (sp_end s) | None \<Rightarrow> sp_end s)
                 in if basis = Spot_only_excluding_retail_additions
                    then Inr (priced c basis base b e parts (sp_revision s) (Some (sp_fetchedAt s)) (sp_end s))
                    else if ct_marginRate c = None then Inr (incomplete_price c basis ''RETAIL_TERMS_INCOMPLETE'')
                    else retail_price at c tariffs basis
                           \<lparr>ps_taxable = base, ps_vatIncluded = 0, ps_parts = parts, ps_begin = b, ps_end = e\<rparr>
                           (\<lambda>revs. sp_revision s @ '':'' @ revs) (Some (sp_fetchedAt s)) (\<lambda>_. sp_end s)))
      | Other_kind k \<Rightarrow> Inr (incomplete_price c basis ''CONTRACT_KIND_UNKNOWN''))"

definition resolveApplicablePrice ::
  "int \<Rightarrow> contract_price \<Rightarrow> tariff_price list \<Rightarrow> spot_price option \<Rightarrow> price_basis \<Rightarrow> resolved_price fallible" where
  "resolveApplicablePrice at c tariffs spot basis =
     (if at < ct_validFrom c \<or> (case ct_validTo c of Some e \<Rightarrow> at \<ge> e | None \<Rightarrow> False)
      then Inr (incomplete_price c basis ''CONTRACT_OUTSIDE_VALIDITY'')
      else if basis \<noteq> Variable_retail_including_vat \<and> basis \<noteq> Spot_only_excluding_retail_additions
      then Inl ''Invalid pricing basis''
      else contract_terms at c tariffs spot basis)"

section \<open>Rates are read back\<close>

lemma parse_format_rate: "parseDkkPerKwh (format_rate m) = Inr m"
  using decimal_micros_signed [of "\<bar>m\<bar>" "m < 0"] by (simp add: format_rate_def)

definition parts_total :: "price_part list \<Rightarrow> int" where
  "parts_total parts = sum_list (map (\<lambda>p. case parseDkkPerKwh (pp_rate p) of Inr r \<Rightarrow> r | Inl _ \<Rightarrow> 0) parts)"

lemma parts_total_simps [simp]:
  "parts_total [] = 0" "parts_total (ps @ qs) = parts_total ps + parts_total qs"
  "parts_total [\<lparr>pp_component = c, pp_rate = format_rate m, pp_provenance = v, pp_vatIncluded = b\<rparr>] = m"
  by (simp_all add: parts_total_def parse_format_rate)

lemma tariff_loop_sum:
  "tariff_loop at tariffs cs sel st = Inr (Inr st') \<Longrightarrow> parts_total (ps_parts st) = ps_taxable st + ps_vatIncluded st
   \<Longrightarrow> parts_total (ps_parts st') = ps_taxable st' + ps_vatIncluded st'"
proof (induction cs arbitrary: sel st)
  case (Cons c cs)
  then show ?case by (fastforce simp: bind_err_Inr_iff split: if_splits list.splits)
qed simp

section \<open>Stability of the answer on its interval\<close>

definition no_overlap :: "tariff_price list \<Rightarrow> bool" where
  \<comment> \<open>the tariffs of a component never apply at the same instant\<close>
  "no_overlap tariffs \<longleftrightarrow> (\<forall>t c. length (applicable_tariffs t c tariffs) \<le> 1)"

lemma applicable_only:
  assumes "no_overlap tariffs" "applicable_tariffs at c tariffs = [t]" "tariff_applies at' t"
  shows "applicable_tariffs at' c tariffs = [t]"
proof -
  have "t \<in> set (applicable_tariffs at c tariffs)" using assms(2) by simp
  then have "t \<in> set (applicable_tariffs at' c tariffs)" using assms(3) by (simp add: applicable_tariffs_def)
  moreover have "length (applicable_tariffs at' c tariffs) \<le> 1" using assms(1) by (simp add: no_overlap_def)
  ultimately show ?thesis by (cases "applicable_tariffs at' c tariffs") auto
qed

lemma tariff_loop_stable:
  assumes "tariff_loop at tariffs cs sel st = Inr (Inr st')" "no_overlap tariffs"
  shows "ps_begin st \<le> ps_begin st' \<and> ps_end st' \<le> ps_end st
    \<and> (ps_begin st \<le> at \<and> at < ps_end st \<longrightarrow> ps_begin st' \<le> at \<and> at < ps_end st')
    \<and> (ps_begin st' \<le> at' \<and> at' < ps_end st' \<longrightarrow>
        (\<exists>x. tariff_loop at' tariffs cs sel (st\<lparr>ps_end := e\<rparr>) = Inr (Inr (st'\<lparr>ps_end := x\<rparr>)))
        \<and> (\<forall>c \<in> set cs. applicable_tariffs at' c tariffs = applicable_tariffs at c tariffs))"
  using assms(1)
proof (induction cs arbitrary: sel st e)
  case Nil
  then show ?case by auto
next
  case (Cons c cs)
  from Cons.prems have ok: "known_component c" "c \<notin> set sel" by (auto split: if_splits)
  with Cons.prems obtain t where t: "applicable_tariffs at c tariffs = [t]"
    by (auto split: list.splits)
  from Cons.prems ok t obtain m where m: "parseDkkPerKwh (tf_rate t) = Inr m" by (auto simp: bind_err_Inr_iff)
  define st1 where "st1 = \<lparr>ps_taxable = ps_taxable st + (if tf_vatIncluded t then 0 else m),
                    ps_vatIncluded = ps_vatIncluded st + (if tf_vatIncluded t then m else 0),
                    ps_parts = ps_parts st @ [\<lparr>pp_component = c, pp_rate = format_rate m, pp_provenance = tf_provenance t,
                                               pp_vatIncluded = tf_vatIncluded t\<rparr>],
                    ps_begin = (if tf_validFrom t > ps_begin st then tf_validFrom t else ps_begin st),
                    ps_end = min (ps_end st) (tf_validTo t)\<rparr>"
  have go: "tariff_loop at tariffs cs (c # sel) st1 = Inr (Inr st')"
    using Cons.prems ok t m by (simp add: st1_def bind_err_def)
  have app: "tariff_applies at t"
  proof -
    have "t \<in> set (applicable_tariffs at c tariffs)" using t by simp
    then show ?thesis by (simp add: applicable_tariffs_def)
  qed
  note IH = Cons.IH [OF go, of "min e (tf_validTo t)"]
  have b: "ps_begin st \<le> ps_begin st1" "tf_validFrom t \<le> ps_begin st1" "ps_end st1 \<le> ps_end st" "ps_end st1 \<le> tf_validTo t"
    by (simp_all add: st1_def)
  have "ps_begin st1 \<le> at \<and> at < ps_end st1" if "ps_begin st \<le> at \<and> at < ps_end st"
    using that app by (simp add: st1_def tariff_applies_def)
  moreover have "(\<exists>x. tariff_loop at' tariffs (c # cs) sel (st\<lparr>ps_end := e\<rparr>) = Inr (Inr (st'\<lparr>ps_end := x\<rparr>)))
        \<and> (\<forall>c' \<in> set (c # cs). applicable_tariffs at' c' tariffs = applicable_tariffs at c' tariffs)"
    if w: "ps_begin st' \<le> at' \<and> at' < ps_end st'"
  proof -
    have "tariff_applies at' t" using w IH b by (simp add: tariff_applies_def)
    then have t': "applicable_tariffs at' c tariffs = [t]" by (rule applicable_only [OF assms(2) t])
    have "tariff_loop at' tariffs (c # cs) sel (st\<lparr>ps_end := e\<rparr>)
        = tariff_loop at' tariffs cs (c # sel) (st1\<lparr>ps_end := min e (tf_validTo t)\<rparr>)"
      using ok t' m by (simp add: st1_def bind_err_def)
    with w IH t t' show ?thesis by simp
  qed
  ultimately show ?case using IH b by auto
qed

lemma add_margin_facts:
  assumes "add_margin c st = Inr st1"
  shows "ps_begin st1 = ps_begin st \<and> ps_end st1 = ps_end st \<and> add_margin c (st\<lparr>ps_end := e\<rparr>) = Inr (st1\<lparr>ps_end := e\<rparr>)
    \<and> (parts_total (ps_parts st) = ps_taxable st + ps_vatIncluded st
       \<longrightarrow> parts_total (ps_parts st1) = ps_taxable st1 + ps_vatIncluded st1)"
  using assms by (auto simp: add_margin_def bind_err_def split: option.splits sum.splits)

lemma retail_priceE:
  assumes "retail_price at c tariffs basis st source fetched horizon = Inr a" "ap_valid a"
  obtains vat required st1 st' withVat where
    "ct_vatRate c = Some vat" "ct_required c = Some required" "add_margin c st = Inr st1"
    "tariff_loop at tariffs required [] st1 = Inr (Inr st')" "vatMicros (ps_taxable st') vat = Inr withVat"
    "a = priced c basis (withVat + ps_vatIncluded st') (ps_begin st') (ps_end st')
       (ps_parts st' @ [\<lparr>pp_component = ''vat'', pp_rate = format_rate (withVat - ps_taxable st'),
          pp_provenance = ''contract VAT fraction '' @ vat, pp_vatIncluded = True\<rparr>])
       (source (tariff_revisions at required tariffs)) fetched (horizon (ps_end st'))"
proof -
  obtain vat required where vr: "ct_vatRate c = Some vat" "ct_required c = Some required"
    using assms by (cases "ct_vatRate c"; cases "ct_required c") (auto simp: retail_price_def ap_valid_def incomplete_price_def)
  obtain st1 r where r: "add_margin c st = Inr st1" "tariff_loop at tariffs required [] st1 = Inr r"
    using assms(1) by (auto simp: retail_price_def vr bind_err_Inr_iff)
  obtain st' where st': "r = Inr st'"
    using assms by (cases r) (auto simp: retail_price_def vr r bind_err_def ap_valid_def incomplete_price_def)
  obtain withVat where w: "vatMicros (ps_taxable st') vat = Inr withVat"
    using assms(1) by (auto simp: retail_price_def vr r st' bind_err_Inr_iff)
  show thesis
    by (rule that [OF vr r(1) r(2) [unfolded st'] w])
      (use assms(1) in \<open>simp only: retail_price_def vr r st' w bind_err_def sum.case option.case prod.case Let_def sum.inject\<close>)
qed

definition same_price :: "resolved_price \<Rightarrow> resolved_price \<Rightarrow> bool" where
  \<comment> \<open>the same answer, up to how far ahead it is known\<close>
  "same_price a b \<longleftrightarrow> a\<lparr>ap_end := None, ap_horizon := None\<rparr> = b\<lparr>ap_end := None, ap_horizon := None\<rparr>"

lemma retail_price_stable:
  assumes "retail_price at c tariffs basis st source fetched horizon = Inr a" "ap_valid a" "no_overlap tariffs"
    "ps_begin st \<le> at" "at < ps_end st"
  shows "\<exists>s e. ap_start a = Some s \<and> ap_end a = Some e \<and> s \<le> at \<and> at < e \<and> ps_begin st \<le> s \<and> e \<le> ps_end st
    \<and> (\<forall>at'. s \<le> at' \<and> at' < e \<longrightarrow>
        (\<exists>b. retail_price at' c tariffs basis (st\<lparr>ps_end := e'\<rparr>) source fetched horizon = Inr b \<and> same_price a b))"
proof -
  obtain vat required st1 st' withVat where f: "ct_vatRate c = Some vat" "ct_required c = Some required" "add_margin c st = Inr st1"
    "tariff_loop at tariffs required [] st1 = Inr (Inr st')" "vatMicros (ps_taxable st') vat = Inr withVat"
    and a: "a = priced c basis (withVat + ps_vatIncluded st') (ps_begin st') (ps_end st')
       (ps_parts st' @ [\<lparr>pp_component = ''vat'', pp_rate = format_rate (withVat - ps_taxable st'),
          pp_provenance = ''contract VAT fraction '' @ vat, pp_vatIncluded = True\<rparr>])
       (source (tariff_revisions at required tariffs)) fetched (horizon (ps_end st'))"
    using retail_priceE [OF assms(1,2)] by blast
  note m = add_margin_facts [OF f(3), of e']
  note stable = tariff_loop_stable [OF f(4) assms(3), of _ e']
  have "\<exists>b. retail_price at' c tariffs basis (st\<lparr>ps_end := e'\<rparr>) source fetched horizon = Inr b \<and> same_price a b"
    if w: "ps_begin st' \<le> at' \<and> at' < ps_end st'" for at'
  proof -
    obtain x where x: "tariff_loop at' tariffs required [] (st1\<lparr>ps_end := e'\<rparr>) = Inr (Inr (st'\<lparr>ps_end := x\<rparr>))"
      and same: "\<And>k. k \<in> set required \<Longrightarrow> applicable_tariffs at' k tariffs = applicable_tariffs at k tariffs"
      using stable [of at'] w by blast
    have "tf_component t \<in> set required \<and> tariff_applies at' t \<longleftrightarrow> tf_component t \<in> set required \<and> tariff_applies at t"
      if "t \<in> set tariffs" for t
    proof -
      have "t \<in> set (applicable_tariffs at' (tf_component t) tariffs) \<longleftrightarrow> t \<in> set (applicable_tariffs at (tf_component t) tariffs)"
        if "tf_component t \<in> set required" using same [OF that] by (simp only:)
      then show ?thesis using that by (auto simp: applicable_tariffs_def)
    qed
    then have "tariff_revisions at' required tariffs = tariff_revisions at required tariffs"
      unfolding tariff_revisions_def by (metis (no_types, lifting) filter_cong)
    then show ?thesis
      using f m x by (simp add: retail_price_def bind_err_def Let_def a same_price_def priced_def)
  qed
  moreover have "ps_begin st' \<le> at \<and> at < ps_end st'" "ps_begin st \<le> ps_begin st'" "ps_end st' \<le> ps_end st"
    using stable [of at] m assms(4,5) by auto
  ultimately show ?thesis by (simp add: a priced_def)
qed

lemma retail_price_sum:
  assumes "retail_price at c tariffs basis st source fetched horizon = Inr a" "ap_valid a"
    "parts_total (ps_parts st) = ps_taxable st + ps_vatIncluded st"
  shows "\<exists>m. ap_rate a = Some (format_rate m) \<and> parts_total (ap_parts a) = m"
proof -
  obtain vat required st1 st' withVat where f: "add_margin c st = Inr st1"
    "tariff_loop at tariffs required [] st1 = Inr (Inr st')"
    and a: "a = priced c basis (withVat + ps_vatIncluded st') (ps_begin st') (ps_end st')
       (ps_parts st' @ [\<lparr>pp_component = ''vat'', pp_rate = format_rate (withVat - ps_taxable st'),
          pp_provenance = ''contract VAT fraction '' @ vat, pp_vatIncluded = True\<rparr>])
       (source (tariff_revisions at required tariffs)) fetched (horizon (ps_end st'))"
    using retail_priceE [OF assms(1,2)] by metis
  have "parts_total (ps_parts st') = ps_taxable st' + ps_vatIncluded st'"
    using tariff_loop_sum [OF f(2)] add_margin_facts [OF f(1)] assms(3) by blast
  then show ?thesis
    by (intro exI [of _ "withVat + ps_vatIncluded st'"]) (simp add: a priced_def)
qed

lemma nextUtcDay_after: "at < nextUtcDay at"
proof -
  have "at mod DATE_MS < DATE_MS" by (simp add: DATE_MS_def HOUR_MS_def)
  moreover have "nextUtcDay at = at - at mod DATE_MS + DATE_MS"
    by (simp add: nextUtcDay_def distrib_right minus_mod_eq_div_mult)
  ultimately show ?thesis by linarith
qed

lemma resolve_validE:
  assumes "resolveApplicablePrice at c tariffs spot basis = Inr a" "ap_valid a"
  shows "ct_validFrom c \<le> at \<and> (\<forall>e. ct_validTo c = Some e \<longrightarrow> at < e)
    \<and> (basis = Variable_retail_including_vat \<or> basis = Spot_only_excluding_retail_additions)
    \<and> contract_terms at c tariffs spot basis = Inr a"
  using assms by (auto simp: resolveApplicablePrice_def ap_valid_def incomplete_price_def split: if_splits option.splits)

lemma resolve_in_force:
  assumes "ct_validFrom c \<le> at" "\<forall>e. ct_validTo c = Some e \<longrightarrow> at < e"
    "basis = Variable_retail_including_vat \<or> basis = Spot_only_excluding_retail_additions"
  shows "resolveApplicablePrice at c tariffs spot basis = contract_terms at c tariffs spot basis"
  using assms by (auto simp: resolveApplicablePrice_def split: option.splits)

definition terms_hold ::
  "contract_price \<Rightarrow> tariff_price list \<Rightarrow> spot_price option \<Rightarrow> price_basis \<Rightarrow> int \<Rightarrow> resolved_price \<Rightarrow> bool" where
  \<comment> \<open>an interval around the instant, inside the contract, on which the terms give the same answer\<close>
  "terms_hold c tariffs spot basis at a \<longleftrightarrow>
     (\<exists>s e. ap_start a = Some s \<and> ap_end a = Some e \<and> s \<le> at \<and> at < e
       \<and> ct_validFrom c \<le> s \<and> (\<forall>x. ct_validTo c = Some x \<longrightarrow> e \<le> x)
       \<and> (\<forall>at'. s \<le> at' \<and> at' < e \<longrightarrow> (\<exists>b. contract_terms at' c tariffs spot basis = Inr b \<and> same_price a b)))"

lemma agreed_end:
  assumes "\<forall>e. ct_validTo c = Some e \<longrightarrow> at < e"
  shows "at < or_instant (ct_validTo c) (nextUtcDay at)"
    and "e \<le> or_instant (ct_validTo c) (nextUtcDay at) \<Longrightarrow> \<forall>x. ct_validTo c = Some x \<longrightarrow> e \<le> x"
  using assms nextUtcDay_after by (auto simp: or_instant_def split: option.splits)

lemma fixed_terms_hold:
  assumes "contract_terms at c tariffs spot basis = Inr a" "ap_valid a" "ct_kind c = Fixed_all_in"
    "ct_validFrom c \<le> at" "\<forall>e. ct_validTo c = Some e \<longrightarrow> at < e"
  shows "terms_hold c tariffs spot basis at a"
proof -
  obtain f micros where f: "ct_fixedRate c = Some f" "parseDkkPerKwh f = Inr micros" "basis \<noteq> Spot_only_excluding_retail_additions"
    using assms(1-3) by (auto simp: contract_terms_def ap_valid_def incomplete_price_def bind_err_Inr_iff split: if_splits option.splits)
  let ?until = "\<lambda>at. or_instant (ct_validTo c) (nextUtcDay at)"
  have terms: "contract_terms at' c tariffs spot basis = Inr (priced c basis micros (ct_validFrom c) (?until at')
      [\<lparr>pp_component = ''fixed_all_in'', pp_rate = format_rate micros, pp_provenance = ''contract'', pp_vatIncluded = True\<rparr>]
      (''fixed:'' @ show_int (ct_revision c)) None (?until at'))" for at'
    by (simp add: contract_terms_def assms(3) f bind_err_def Let_def)
  have "same_price a b" if "contract_terms at' c tariffs spot basis = Inr b" for at' b
    using assms(1) that unfolding terms by (auto simp: same_price_def priced_def)
  then show ?thesis
    using agreed_end [OF assms(5)] assms(1,4) unfolding terms_hold_def terms by (auto simp: priced_def)
qed

lemma tariff_terms_hold:
  assumes "contract_terms at c tariffs spot basis = Inr a" "ap_valid a" "ct_kind c = Fixed_plus_tariffs"
    "ct_validFrom c \<le> at" "\<forall>e. ct_validTo c = Some e \<longrightarrow> at < e" "no_overlap tariffs"
  shows "terms_hold c tariffs spot basis at a"
proof -
  obtain f base where f: "ct_fixedRate c = Some f" "parseDkkPerKwh f = Inr base" "basis \<noteq> Spot_only_excluding_retail_additions"
    using assms(1-3) by (auto simp: contract_terms_def ap_valid_def incomplete_price_def bind_err_Inr_iff split: if_splits option.splits)
  let ?until = "\<lambda>at. or_instant (ct_validTo c) (nextUtcDay at)"
  let ?source = "\<lambda>revs. ''fixed:'' @ show_int (ct_revision c) @ '':'' @ revs"
  define st where "st = \<lparr>ps_taxable = base, ps_vatIncluded = 0,
     ps_parts = [\<lparr>pp_component = ''fixed_energy'', pp_rate = format_rate base, pp_provenance = ''contract'', pp_vatIncluded = False\<rparr>],
     ps_begin = ct_validFrom c, ps_end = ?until at\<rparr>"
  have terms: "contract_terms at' c tariffs spot basis =
      retail_price at' c tariffs basis (st\<lparr>ps_end := ?until at'\<rparr>) ?source None (\<lambda>e. e)" for at'
    by (simp add: contract_terms_def assms(3) f bind_err_def st_def)
  have st: "ps_begin st = ct_validFrom c" "ps_end st = ?until at" by (simp_all add: st_def)
  have "retail_price at c tariffs basis st ?source None (\<lambda>e. e) = Inr a"
    using assms(1) unfolding terms by (simp add: st_def)
  note stable = retail_price_stable [OF this assms(2,6), unfolded st, OF assms(4) agreed_end(1) [OF assms(5)]]
  from stable obtain s e where se: "ap_start a = Some s" "ap_end a = Some e" "s \<le> at" "at < e" "ct_validFrom c \<le> s"
    "e \<le> ?until at" by blast
  have "\<exists>b. contract_terms at' c tariffs spot basis = Inr b \<and> same_price a b" if "s \<le> at'" "at' < e" for at'
    using stable [of "?until at'"] se that unfolding terms by simp
  with se agreed_end(2) [OF assms(5) se(6)] show ?thesis unfolding terms_hold_def by blast
qed

lemma spot_terms_hold:
  assumes "contract_terms at c tariffs spot basis = Inr a" "ap_valid a" "ct_kind c = Spot"
    "ct_validFrom c \<le> at" "\<forall>e. ct_validTo c = Some e \<longrightarrow> at < e" "no_overlap tariffs"
    "basis = Variable_retail_including_vat \<or> basis = Spot_only_excluding_retail_additions"
  shows "terms_hold c tariffs spot basis at a"
proof -
  obtain s base where s: "spot = Some s" "spot_covers at c s" "parseDkkPerKwh (sp_rate s) = Inr base"
    using assms(1-3) by (auto simp: contract_terms_def ap_valid_def incomplete_price_def bind_err_Inr_iff split: if_splits option.splits)
  define parts where "parts = [\<lparr>pp_component = ''day_ahead_spot'', pp_rate = format_rate base,
     pp_provenance = ''Energi Data Service DayAheadPrices'', pp_vatIncluded = False\<rparr>]"
  define b where "b = max (ct_validFrom c) (sp_start s)"
  define e where "e = (case ct_validTo c of Some v \<Rightarrow> min v (sp_end s) | None \<Rightarrow> sp_end s)"
  define st where "st = \<lparr>ps_taxable = base, ps_vatIncluded = 0, ps_parts = parts, ps_begin = b, ps_end = e\<rparr>"
  let ?retail = "\<lambda>at'. retail_price at' c tariffs basis st (\<lambda>revs. sp_revision s @ '':'' @ revs) (Some (sp_fetchedAt s)) (\<lambda>_. sp_end s)"
  have be: "ct_validFrom c \<le> b" "\<forall>x. ct_validTo c = Some x \<longrightarrow> e \<le> x" "sp_start s \<le> b" "e \<le> sp_end s" "b \<le> at" "at < e"
    using s(2) assms(4,5) by (auto simp: b_def e_def spot_covers_def split: option.split)
  have covers: "spot_covers at' c s" if "b \<le> at'" "at' < e" for at'
    using s(2) be that by (simp add: spot_covers_def)
  show ?thesis
  proof (cases "basis = Spot_only_excluding_retail_additions")
    case True
    have terms: "contract_terms at' c tariffs spot basis =
        Inr (priced c basis base b e parts (sp_revision s) (Some (sp_fetchedAt s)) (sp_end s))"
      if "b \<le> at'" "at' < e" for at'
      using covers [OF that] True s by (simp add: contract_terms_def assms(3) bind_err_def Let_def parts_def b_def e_def)
    with terms [OF be(5,6)] be assms(1) show ?thesis by (auto simp: terms_hold_def priced_def same_price_def)
  next
    case False
    with assms(1,2) s obtain margin where margin: "ct_marginRate c = Some margin"
      by (auto simp: contract_terms_def assms(3) bind_err_def Let_def ap_valid_def incomplete_price_def split: if_splits)
    then have terms: "contract_terms at' c tariffs spot basis = ?retail at'" if "b \<le> at'" "at' < e" for at'
      using covers [OF that] False s
      by (simp add: contract_terms_def assms(3) bind_err_def Let_def parts_def b_def e_def st_def)
    have st: "ps_begin st = b" "ps_end st = e" "st\<lparr>ps_end := e\<rparr> = st" by (simp_all add: st_def)
    have "?retail at = Inr a" using assms(1) terms [OF be(5,6)] by simp
    note stable = retail_price_stable [OF this assms(2,6), of e, unfolded st, OF be(5,6)]
    then obtain s' e' where se: "ap_start a = Some s'" "ap_end a = Some e'" "s' \<le> at" "at < e'" "b \<le> s'" "e' \<le> e" by blast
    have "\<exists>b. contract_terms at' c tariffs spot basis = Inr b \<and> same_price a b" if "s' \<le> at'" "at' < e'" for at'
      using stable se that terms [of at'] by simp
    moreover have "ct_validFrom c \<le> s'" "\<forall>x. ct_validTo c = Some x \<longrightarrow> e' \<le> x" using be se by fastforce+
    ultimately show ?thesis using se unfolding terms_hold_def by blast
  qed
qed

section \<open>Properties\<close>

text \<open>C20: A price holds on the interval it names: the instant asked about lies in it, and at every other
  instant of it the answer is the same (rate, parts, sources; only how far ahead an open-ended
  agreement is known may move), provided the tariffs of a component do not overlap.\<close>

theorem price_holds_on_its_interval:
  assumes "resolveApplicablePrice at c tariffs spot basis = Inr a" "ap_valid a" "no_overlap tariffs"
  shows "\<exists>s e. ap_start a = Some s \<and> ap_end a = Some e \<and> s \<le> at \<and> at < e
    \<and> (\<forall>at'. s \<le> at' \<and> at' < e \<longrightarrow> (\<exists>b. resolveApplicablePrice at' c tariffs spot basis = Inr b \<and> same_price a b))"
proof -
  from resolve_validE [OF assms(1,2)] have v: "ct_validFrom c \<le> at" "\<forall>e. ct_validTo c = Some e \<longrightarrow> at < e"
    "basis = Variable_retail_including_vat \<or> basis = Spot_only_excluding_retail_additions"
    "contract_terms at c tariffs spot basis = Inr a" by auto
  have "terms_hold c tariffs spot basis at a"
  proof (cases "ct_kind c")
    case Spot
    show ?thesis by (rule spot_terms_hold [OF v(4) assms(2) Spot v(1,2) assms(3) v(3)])
  next
    case Fixed_all_in
    show ?thesis by (rule fixed_terms_hold [OF v(4) assms(2) Fixed_all_in v(1,2)])
  next
    case Fixed_plus_tariffs
    show ?thesis by (rule tariff_terms_hold [OF v(4) assms(2) Fixed_plus_tariffs v(1,2) assms(3)])
  next
    case (Other_kind k)
    with v(4) assms(2) show ?thesis by (auto simp: contract_terms_def ap_valid_def incomplete_price_def)
  qed
  then obtain s e where se: "ap_start a = Some s" "ap_end a = Some e" "s \<le> at" "at < e" "ct_validFrom c \<le> s"
    "\<forall>x. ct_validTo c = Some x \<longrightarrow> e \<le> x"
    and hold: "\<And>at'. s \<le> at' \<and> at' < e \<Longrightarrow> \<exists>b. contract_terms at' c tariffs spot basis = Inr b \<and> same_price a b"
    unfolding terms_hold_def by blast
  have "\<exists>b. resolveApplicablePrice at' c tariffs spot basis = Inr b \<and> same_price a b" if w: "s \<le> at' \<and> at' < e" for at'
  proof -
    have "ct_validFrom c \<le> at'" "\<forall>x. ct_validTo c = Some x \<longrightarrow> at' < x" using w se by fastforce+
    then show ?thesis using hold [OF w] resolve_in_force [OF _ _ v(3)] by simp
  qed
  with se show ?thesis by blast
qed

definition sample_contract :: contract_price where
  "sample_contract = \<lparr>ct_ref = ''c1'', ct_kind = Fixed_plus_tariffs, ct_area = ''DK1'', ct_validFrom = 0, ct_validTo = Some 100000,
     ct_fixedRate = Some ''0.8'', ct_marginRate = Some ''0.05'', ct_vatRate = Some ''0.25'', ct_required = Some [''network'', ''tax''],
     ct_revision = 3\<rparr>"

definition sample_tariffs :: "tariff_price list" where
  "sample_tariffs =
     [\<lparr>tf_component = ''network'', tf_validFrom = 0, tf_validTo = 5000, tf_rate = ''0.2'', tf_vatIncluded = False, tf_provenance = ''p'', tf_revision = 1\<rparr>,
      \<lparr>tf_component = ''network'', tf_validFrom = 5000, tf_validTo = 9000, tf_rate = ''0.4'', tf_vatIncluded = False, tf_provenance = ''p'', tf_revision = 2\<rparr>,
      \<lparr>tf_component = ''tax'', tf_validFrom = 4000, tf_validTo = 99000, tf_rate = ''0.01'', tf_vatIncluded = True, tf_provenance = ''p'', tf_revision = 3\<rparr>]"

definition sample_state :: price_state where
  "sample_state = \<lparr>ps_taxable = 850000, ps_vatIncluded = 0,
     ps_parts = [\<lparr>pp_component = ''fixed_energy'', pp_rate = format_rate 800000, pp_provenance = ''contract'', pp_vatIncluded = False\<rparr>,
       \<lparr>pp_component = ''retailer_margin'', pp_rate = format_rate 50000, pp_provenance = ''contract'', pp_vatIncluded = False\<rparr>],
     ps_begin = 0, ps_end = 100000\<rparr>"

definition sample_end :: price_state where
  "sample_end = \<lparr>ps_taxable = 1250000, ps_vatIncluded = 10000,
     ps_parts = ps_parts sample_state @
       [\<lparr>pp_component = ''network'', pp_rate = format_rate 400000, pp_provenance = ''p'', pp_vatIncluded = False\<rparr>,
        \<lparr>pp_component = ''tax'', pp_rate = format_rate 10000, pp_provenance = ''p'', pp_vatIncluded = True\<rparr>],
     ps_begin = 5000, ps_end = 9000\<rparr>"

lemma sample_steps:
  "parseDkkPerKwh ''0.8'' = Inr 800000" "parseDkkPerKwh ''0.05'' = Inr 50000" "vatMicros 1250000 ''0.25'' = Inr 1562500"
  "tariff_loop 6000 sample_tariffs [''network'', ''tax''] [] sample_state = Inr (Inr sample_end)"
  by code_simp+

definition sample_price :: resolved_price where
  "sample_price = priced sample_contract Variable_retail_including_vat 1572500 5000 9000
     (ps_parts sample_end @ [\<lparr>pp_component = ''vat'', pp_rate = format_rate 312500,
        pp_provenance = ''contract VAT fraction '' @ ''0.25'', pp_vatIncluded = True\<rparr>])
     (''fixed:3:'' @ tariff_revisions 6000 [''network'', ''tax''] sample_tariffs) None 9000"

lemma sample_price_facts:
  "resolveApplicablePrice 6000 sample_contract sample_tariffs None Variable_retail_including_vat = Inr sample_price"
  "ap_valid sample_price" "ap_start sample_price = Some 5000" "ap_end sample_price = Some 9000"
proof -
  have m: "add_margin sample_contract \<lparr>ps_taxable = 800000, ps_vatIncluded = 0,
      ps_parts = [\<lparr>pp_component = ''fixed_energy'', pp_rate = format_rate 800000, pp_provenance = ''contract'', pp_vatIncluded = False\<rparr>],
      ps_begin = 0, ps_end = 100000\<rparr> = Inr sample_state"
    by (simp add: add_margin_def sample_contract_def sample_steps bind_err_def sample_state_def)
  have "show_int 3 = ''3''" by code_simp
  then show "resolveApplicablePrice 6000 sample_contract sample_tariffs None Variable_retail_including_vat = Inr sample_price"
    using m sample_steps
    by (simp add: resolveApplicablePrice_def contract_terms_def retail_price_def sample_contract_def bind_err_def or_instant_def
        sample_price_def priced_def sample_end_def Let_def)
qed (simp_all add: sample_price_def priced_def ap_valid_def)

lemma sample_no_overlap: "no_overlap sample_tariffs"
  by (auto simp: no_overlap_def applicable_tariffs_def tariff_applies_def sample_tariffs_def)

theorem price_holds_on_its_interval_witness:
  "\<exists>b. resolveApplicablePrice 8999 sample_contract sample_tariffs None Variable_retail_including_vat = Inr b
    \<and> same_price sample_price b"
proof -
  have "(5000 :: int) \<le> 8999 \<and> (8999 :: int) < 9000" by simp
  with price_holds_on_its_interval [OF sample_price_facts(1,2) sample_no_overlap] sample_price_facts(3,4)
  show ?thesis by fastforce
qed

text \<open>The parts a valid price is itemised into add up to it exactly, in millionths of a krone, under
  every kind of contract: energy, margin, tariffs with and without VAT and the rounded VAT itself.\<close>

theorem price_parts_add_up:
  assumes "resolveApplicablePrice at c tariffs spot basis = Inr a" "ap_valid a"
  shows "\<exists>rate. ap_rate a = Some rate \<and> parseDkkPerKwh rate = Inr (parts_total (ap_parts a))"
proof -
  from resolve_validE [OF assms] have terms: "contract_terms at c tariffs spot basis = Inr a" by auto
  have single: "parts_total (ap_parts (priced c b m s e [\<lparr>pp_component = k, pp_rate = format_rate m, pp_provenance = v, pp_vatIncluded = i\<rparr>] src f h)) = m"
    for b m s e k v i src f h by (simp add: priced_def)
  have "\<exists>m. ap_rate a = Some (format_rate m) \<and> parts_total (ap_parts a) = m"
  proof (cases "ct_kind c")
    case Spot
    with terms assms(2) show ?thesis
      by (auto simp: contract_terms_def bind_err_Inr_iff Let_def ap_valid_def incomplete_price_def priced_def
          split: if_splits option.splits elim!: retail_price_sum [simplified ap_valid_def, THEN exE])
  next
    case Fixed_all_in
    with terms assms(2) show ?thesis
      by (auto simp: contract_terms_def bind_err_Inr_iff Let_def ap_valid_def incomplete_price_def priced_def
          split: if_splits option.splits)
  next
    case Fixed_plus_tariffs
    then obtain base st src e where r: "retail_price at c tariffs basis st src None e = Inr a"
      "parts_total (ps_parts st) = ps_taxable st + ps_vatIncluded st"
      using terms assms(2)
      by (auto simp: contract_terms_def bind_err_Inr_iff ap_valid_def incomplete_price_def split: if_splits option.splits)
    show ?thesis by (rule retail_price_sum [OF r(1) assms(2) r(2)])
  next
    case (Other_kind k)
    with terms assms(2) show ?thesis by (auto simp: contract_terms_def ap_valid_def incomplete_price_def)
  qed
  then show ?thesis using parse_format_rate by auto
qed


end
