(* ===== verification/Vm_Leases.thy ===== *)
theory Vm_Leases
  imports Scheduler "HOL-Library.Sublist"
begin

text \<open>
  VM leases (\<open>utils/leases.ts\<close>): a row per guest with an expiry, created at provisioning, renewed by its
  owner, adjusted by an administrator, and swept by a background loop that shuts expired machines
  down. Creation, renewal and adjustment are policy writes under the guest lock of \<open>Migration_Lock\<close>; the
  sweep of one lease runs under the same lock, and what other transactions commit while Proxmox is
  asked to shut the machine down is an arbitrary change of the database. Instants are milliseconds; the
  clocks of the process and of PostgreSQL are two parameters.
\<close>

section \<open>Rows and settings\<close>

record lease =
  ls_id :: int
  ls_node :: string
  ls_vmid :: int
  ls_days :: int
  ls_started :: int
  ls_expires :: "int option"
  ls_renewals :: int
  ls_last_renewed :: "int option"
  ls_exempt :: bool
  ls_expired :: bool
  ls_expired_at :: "int option"
  ls_auto_stopped :: bool
  ls_created_by :: string

record lease_db = policy_db +
  vm_leases :: "lease list"
  lease_next :: int
  lease_settings :: "string \<rightharpoonup> string"
  lease_hosts :: "int list"

definition LEASE_DEFAULT_DAYS_KEY :: string where
  "LEASE_DEFAULT_DAYS_KEY = ''lease_default_days''"

definition LEASE_GRACE_DAYS_KEY :: string where
  "LEASE_GRACE_DAYS_KEY = ''lease_grace_days''"

definition MS_PER_DAY :: int where
  "MS_PER_DAY = 86400000"

definition readIntSetting :: "string \<Rightarrow> int \<Rightarrow> lease_db \<Rightarrow> int" where
  "readIntSetting key fallback db =
     (case lease_settings db key of
        None \<Rightarrow> fallback
      | Some v \<Rightarrow> (case parse_int v of Some n \<Rightarrow> if 0 \<le> n then n else fallback | None \<Rightarrow> fallback))"

definition getLeaseSettings :: "lease_db \<Rightarrow> int \<times> int" where
  \<comment> \<open>the default days and the grace days\<close>
  "getLeaseSettings db = (readIntSetting LEASE_DEFAULT_DAYS_KEY 30 db, readIntSetting LEASE_GRACE_DAYS_KEY 7 db)"

definition days_of_text :: "string \<Rightarrow> int" where
  \<comment> \<open>\<open>Math.max(0, Number.parseInt(x, 10) || 0)\<close>\<close>
  "days_of_text s = (case parse_int s of Some n \<Rightarrow> max 0 n | None \<Rightarrow> 0)"

definition setLeaseSettings :: "string option \<Rightarrow> string option \<Rightarrow> lease_db \<Rightarrow> (int \<times> int) \<times> lease_db" where
  "setLeaseSettings defaultDays graceDays db =
     (let put = \<lambda>key v m. (case v of Some s \<Rightarrow> m(key \<mapsto> show_int (days_of_text s)) | None \<Rightarrow> m);
          db1 = db\<lparr>lease_settings := put LEASE_GRACE_DAYS_KEY graceDays (put LEASE_DEFAULT_DAYS_KEY defaultDays (lease_settings db))\<rparr>
      in (getLeaseSettings db1, db1))"

definition getLeaseRow :: "string \<Rightarrow> int \<Rightarrow> lease_db \<Rightarrow> lease option" where
  \<comment> \<open>the row of the guest, under its node reference before its bare name\<close>
  "getLeaseRow node vmid db =
     (case List.map_filter (\<lambda>c. find (\<lambda>r. ls_vmid r = vmid \<and> ls_node r = c) (vm_leases db)) (nodeLookupCandidates node) of
        r # _ \<Rightarrow> Some r | [] \<Rightarrow> None)"

definition update_lease :: "int \<Rightarrow> (lease \<Rightarrow> lease) \<Rightarrow> lease_db \<Rightarrow> lease_db" where
  "update_lease i f db = db\<lparr>vm_leases := snd (update_where (\<lambda>r. ls_id r = i) f (vm_leases db))\<rparr>"

record clock =
  now_js :: int
  now_db :: int

definition expires_in :: "clock \<Rightarrow> int \<Rightarrow> int option" where
  "expires_in ck days = (if days > 0 then Some (now_db ck + days * MS_PER_DAY) else None)"

section \<open>Policy writes\<close>

definition createLeaseRow :: "clock \<Rightarrow> string \<Rightarrow> int \<Rightarrow> string \<Rightarrow> string option \<Rightarrow> lease_db \<Rightarrow> lease option \<times> lease_db" where
  "createLeaseRow ck node vmid createdBy leaseDays db =
     (case getLeaseRow node vmid db of
        Some r \<Rightarrow> (Some r, db)
      | None \<Rightarrow>
          let requested = (case leaseDays of Some s \<Rightarrow> parse_int s | None \<Rightarrow> Some (fst (getLeaseSettings db)));
              days = (case requested of Some n \<Rightarrow> max 0 n | None \<Rightarrow> 0);
              row = \<lparr>ls_id = lease_next db, ls_node = node, ls_vmid = vmid, ls_days = days, ls_started = now_db ck,
                ls_expires = expires_in ck days, ls_renewals = 0, ls_last_renewed = None, ls_exempt = False,
                ls_expired = False, ls_expired_at = None, ls_auto_stopped = False, ls_created_by = createdBy\<rparr>;
              taken = (\<exists>r \<in> set (vm_leases db). ls_node r = node \<and> ls_vmid r = vmid);
              db1 = (if taken then db else db\<lparr>vm_leases := vm_leases db @ [row], lease_next := lease_next db + 1\<rparr>)
          in (getLeaseRow node vmid db1, db1))"

record policy_env =
  pe_pool_max :: nat
  pe_connected :: bool
  pe_granted :: bool
  pe_presence :: "string \<Rightarrow> int \<Rightarrow> http_error + bool"

definition lease_write ::
  "policy_env \<Rightarrow> string \<Rightarrow> string \<Rightarrow> policy_actor option \<Rightarrow> (string \<Rightarrow> int \<Rightarrow> lease_db \<Rightarrow> lease option \<times> lease_db) \<Rightarrow>
     lock_state \<times> lease_db \<Rightarrow> (http_error + lease option) \<times> lock_state \<times> lease_db" where
  \<comment> \<open>parse the id, then write under the guard\<close>
  "lease_write env node vmid actor body st =
     (case parse_int vmid of
        None \<Rightarrow> (Inr None, st)
      | Some parsed \<Rightarrow>
          if node = [] then (Inr None, st)
          else withVmPolicyWrite (pe_pool_max env) (pe_connected env) (pe_granted env) (pe_presence env) node parsed
                 (\<lambda>currentNode db. let (r, db1) = body currentNode parsed db in (Inr r, db1)) actor st)"

definition createLeaseForVm where
  "createLeaseForVm env ck node vmid createdBy leaseDays actor st =
     lease_write env node vmid actor (\<lambda>currentNode parsed. createLeaseRow ck currentNode parsed createdBy leaseDays) st"

definition renewed :: "clock \<Rightarrow> int \<Rightarrow> lease \<Rightarrow> lease" where
  "renewed ck days r =
     r\<lparr>ls_started := now_js ck, ls_expires := expires_in ck days, ls_days := days, ls_renewals := ls_renewals r + 1,
       ls_last_renewed := Some (now_js ck), ls_expired := False, ls_expired_at := None, ls_auto_stopped := False\<rparr>"

definition renew_row :: "clock \<Rightarrow> string \<Rightarrow> string \<Rightarrow> int \<Rightarrow> lease_db \<Rightarrow> lease option \<times> lease_db" where
  "renew_row ck createdBy node vmid db =
     (let (row, db1) = createLeaseRow ck node vmid createdBy None db in
      case row of
        None \<Rightarrow> (None, db1)
      | Some r \<Rightarrow>
          let defaultDays = fst (getLeaseSettings db1);
              days = (if ls_days r > 0 then ls_days r else if defaultDays > 0 then defaultDays else 0);
              db2 = update_lease (ls_id r) (renewed ck days) db1
          in (getLeaseRow node vmid db2, db2))"

definition renewLease where
  "renewLease env ck node vmid createdBy actor st = lease_write env node vmid actor (renew_row ck createdBy) st"

definition unflag :: "lease \<Rightarrow> lease" where
  "unflag r = r\<lparr>ls_expired := False, ls_expired_at := None, ls_auto_stopped := False\<rparr>"

definition with_days :: "clock \<Rightarrow> int \<Rightarrow> lease \<Rightarrow> lease" where
  "with_days ck days r =
     (if days > 0 then unflag (r\<lparr>ls_days := days, ls_started := now_js ck, ls_expires := expires_in ck days\<rparr>)
      else unflag (r\<lparr>ls_days := 0, ls_expires := None\<rparr>))"

definition extended :: "clock \<Rightarrow> int \<Rightarrow> lease \<Rightarrow> lease" where
  \<comment> \<open>\<open>GREATEST(COALESCE(expires_at, now()), now()) + days\<close>\<close>
  "extended ck days r =
     unflag (r\<lparr>ls_expires := Some (max (case ls_expires r of Some e \<Rightarrow> e | None \<Rightarrow> now_db ck) (now_db ck) + days * MS_PER_DAY)\<rparr>)"

definition update_row ::
  "clock \<Rightarrow> bool option \<Rightarrow> string option \<Rightarrow> string option \<Rightarrow> string \<Rightarrow> string \<Rightarrow> int \<Rightarrow> lease_db \<Rightarrow> lease option \<times> lease_db" where
  "update_row ck exempt leaseDays extendDays createdBy node vmid db =
     (let (row, db1) = createLeaseRow ck node vmid createdBy None db in
      case row of
        None \<Rightarrow> (None, db1)
      | Some r \<Rightarrow>
          let db2 = (case exempt of Some b \<Rightarrow> update_lease (ls_id r) (\<lambda>r. unflag (r\<lparr>ls_exempt := b\<rparr>)) db1 | None \<Rightarrow> db1);
              db3 = (case leaseDays of Some s \<Rightarrow> update_lease (ls_id r) (with_days ck (days_of_text s)) db2 | None \<Rightarrow> db2);
              days = (case extendDays of Some s \<Rightarrow> (case parse_int s of Some n \<Rightarrow> n | None \<Rightarrow> 0) | None \<Rightarrow> 0);
              db4 = (if days \<noteq> 0 then update_lease (ls_id r) (extended ck days) db3 else db3)
          in (getLeaseRow node vmid db4, db4))"

definition updateLease where
  "updateLease env ck node vmid exempt leaseDays extendDays createdBy actor st =
     lease_write env node vmid actor (update_row ck exempt leaseDays extendDays createdBy) st"

section \<open>The view\<close>

datatype lease_status = Exempt_lease | Unlimited_lease | Expired_lease | Expiring_lease | Active_lease

record lease_view =
  vw_status :: lease_status
  vw_daysRemaining :: "int option"
  vw_graceUntil :: "int option"
  vw_reclaimable :: bool

definition LEASE_EXPIRING_SOON_DAYS :: int where
  "LEASE_EXPIRING_SOON_DAYS = 3"

definition computeLeaseView :: "int \<Rightarrow> int \<Rightarrow> lease \<Rightarrow> lease_view" where
  \<comment> \<open>the derived fields; the others are copied from the row\<close>
  "computeLeaseView now graceDays r =
     (let plain = \<lambda>st. \<lparr>vw_status = st, vw_daysRemaining = None, vw_graceUntil = None, vw_reclaimable = False\<rparr> in
      if ls_exempt r then plain Exempt_lease
      else case ls_expires r of
             None \<Rightarrow> plain Unlimited_lease
           | Some e \<Rightarrow>
               let remaining = e - now; days = - ((- remaining) div MS_PER_DAY); grace = graceDays * MS_PER_DAY in
               \<lparr>vw_status = (if ls_expired r \<or> remaining \<le> 0 then Expired_lease
                             else if days \<le> LEASE_EXPIRING_SOON_DAYS then Expiring_lease else Active_lease),
                vw_daysRemaining = Some days, vw_graceUntil = Some (e + grace),
                vw_reclaimable = (ls_expired r \<and> now - e \<ge> grace)\<rparr>)"

definition summarizeLease :: "int \<Rightarrow> string \<Rightarrow> int \<Rightarrow> int option \<Rightarrow> lease_db \<Rightarrow> lease_view option" where
  "summarizeLease now node vmid graceDays db =
     map_option (computeLeaseView now (case graceDays of Some g \<Rightarrow> g | None \<Rightarrow> snd (getLeaseSettings db))) (getLeaseRow node vmid db)"

section \<open>The sweep\<close>

record guest = live_vm +
  gu_type :: string

definition lease_due :: "int \<Rightarrow> lease \<Rightarrow> bool" where
  "lease_due now r = (\<not> ls_exempt r \<and> \<not> ls_expired r \<and> (case ls_expires r of Some e \<Rightarrow> e < now | None \<Rightarrow> False))"

definition lease_guest :: "guest list \<Rightarrow> lease \<Rightarrow> guest option" where
  "lease_guest vms r =
     find (\<lambda>v. lv_vmid v = ls_vmid r \<and> (lv_nodeRef v \<in> set (nodeLookupCandidates (ls_node r))
                 \<or> hostId (decodeNodeRef (ls_node r)) = None \<and> lv_node v \<in> set (nodeLookupCandidates (ls_node r)))) vms"

datatype lease_audit = Autostop | Autostop_failed string | Marked_expired bool | Sweep_error

record sweep_env =
  sw_read :: int
  sw_marked :: int
  sw_presence :: "string \<Rightarrow> int \<Rightarrow> http_error + bool"
  sw_reply :: "string option"
  sw_others :: "lease_db \<Rightarrow> lease_db"

definition still_due :: "sweep_env \<Rightarrow> lease \<Rightarrow> lease \<Rightarrow> bool" where
  \<comment> \<open>the row as read under the lock, compared with the row of the sweep's list\<close>
  "still_due env lease current =
     (ls_node current = ls_node lease \<and> \<not> ls_exempt current \<and> \<not> ls_expired current
      \<and> (case ls_expires current of
           None \<Rightarrow> False
         | Some e \<Rightarrow> e \<le> sw_read env \<and> (case ls_expires lease of Some e' \<Rightarrow> e = e' | None \<Rightarrow> True)))"

definition mark_expired :: "sweep_env \<Rightarrow> lease \<Rightarrow> bool \<Rightarrow> lease_db \<Rightarrow> lease_db" where
  \<comment> \<open>after the shutdown: the row is read again and marked only if it is the same lease\<close>
  "mark_expired env current autoStopped db =
     (case find (\<lambda>r. ls_id r = ls_id current) (vm_leases db) of
        None \<Rightarrow> db
      | Some latest \<Rightarrow>
          if ls_node latest \<noteq> ls_node current \<or> ls_expired latest \<or> ls_exempt latest \<or> ls_expires latest = None
             \<or> ls_expires latest \<noteq> ls_expires current \<or> the (ls_expires latest) > sw_marked env then db
          else db\<lparr>vm_leases := snd (update_where
                 (\<lambda>r. ls_id r = ls_id current \<and> ls_node r = ls_node current \<and> \<not> ls_expired r \<and> \<not> ls_exempt r
                      \<and> ls_expires r = ls_expires current)
                 (\<lambda>r. r\<lparr>ls_expired := True, ls_expired_at := Some (sw_marked env), ls_auto_stopped := autoStopped\<rparr>)
                 (vm_leases db))\<rparr>)"

definition absent :: "sweep_env \<Rightarrow> lease \<Rightarrow> lease_db \<Rightarrow> http_error + bool" where
  \<comment> \<open>whether the sweep leaves a guest alone that the listing does not show\<close>
  "absent env r db =
     (case hostId (decodeNodeRef (ls_node r)) of
        Some h \<Rightarrow> if h \<in> set (lease_hosts db) then sw_presence env (ls_node r) (ls_vmid r) else Inr False
      | None \<Rightarrow> sw_presence env (ls_node r) (ls_vmid r))"

definition sweep_current ::
  "sweep_env \<Rightarrow> guest list \<Rightarrow> lease \<Rightarrow> lease_db \<Rightarrow> (http_error + lease_audit list \<times> bool) \<times> lease_db" where
  \<comment> \<open>inside: the audit entries and whether a shutdown was carried out\<close>
  "sweep_current env vms current db =
     (case lease_guest vms current of
        None \<Rightarrow>
          (case absent env current db of
             Inl e \<Rightarrow> (Inl e, db)
           | Inr gone \<Rightarrow>
               if gone then (Inr ([], False), db)
               else (Inr ([Marked_expired False], False), mark_expired env current False (sw_others env db)))
      | Some live \<Rightarrow>
          if lv_status live = ''running''
          then (case sw_reply env of
                  Some message \<Rightarrow> (Inr ([Autostop_failed message], False), sw_others env db)
                | None \<Rightarrow> (Inr ([Autostop], True), mark_expired env current True (sw_others env db)))
          else (Inr ([Marked_expired True], False), mark_expired env current False (sw_others env db)))"

definition sweepLease ::
  "sweep_env \<Rightarrow> guest list \<Rightarrow> lease \<Rightarrow> lease_db \<Rightarrow> (http_error + lease_audit list \<times> bool) \<times> lease_db" where
  "sweepLease env vms lease db =
     (if vmMigrationPending db (ls_vmid lease) then (Inr ([], False), db)
      else case find (\<lambda>r. ls_id r = ls_id lease) (vm_leases db) of
             None \<Rightarrow> (Inr ([], False), db)
           | Some current \<Rightarrow> if still_due env lease current then sweep_current env vms current db else (Inr ([], False), db))"

record sweep_result =
  sr_checked :: nat
  sr_stopped :: nat
  sr_audits :: "(lease \<times> lease_audit) list"

definition sweep_next ::
  "nat \<Rightarrow> bool \<Rightarrow> bool \<Rightarrow> (lease \<Rightarrow> sweep_env) \<Rightarrow> guest list \<Rightarrow> sweep_result \<times> lock_state \<times> lease_db \<Rightarrow> lease \<Rightarrow>
     sweep_result \<times> lock_state \<times> lease_db" where
  "sweep_next pool_max connected granted envs vms st lease =
     (case st of (res, lk, db) \<Rightarrow>
        let (r, lk1, db1) = withVmMigrationLock pool_max connected granted (ls_vmid lease)
              (transaction (sweepLease (envs lease) vms lease)) True (lk, db)
        in (case r of
              Inl e \<Rightarrow> (res\<lparr>sr_audits := sr_audits res @ [(lease, Sweep_error)]\<rparr>, lk1, db1)
            | Inr (audits, stopped) \<Rightarrow>
                (res\<lparr>sr_stopped := sr_stopped res + (if stopped then 1 else 0),
                     sr_audits := sr_audits res @ map (\<lambda>a. (lease, a)) audits\<rparr>, lk1, db1)))"

definition runLeaseSweep ::
  "nat \<Rightarrow> bool \<Rightarrow> bool \<Rightarrow> int \<Rightarrow> (lease \<Rightarrow> sweep_env) \<Rightarrow> guest list option \<Rightarrow> lock_state \<times> lease_db \<Rightarrow>
     sweep_result \<times> lock_state \<times> lease_db" where
  \<comment> \<open>\<open>None\<close>: the machines could not be listed\<close>
  "runLeaseSweep pool_max connected granted now envs listing st =
     (let due = filter (lease_due now) (vm_leases (snd st)); none = \<lparr>sr_checked = 0, sr_stopped = 0, sr_audits = []\<rparr> in
      case listing of
        None \<Rightarrow> (none, st)
      | Some vms \<Rightarrow>
          (if due = [] then (none, st)
           else foldl (sweep_next pool_max connected granted envs vms) (none\<lparr>sr_checked := length due\<rparr>, st) due))"

section \<open>Backfill\<close>

fun backfill_each ::
  "policy_env \<Rightarrow> clock \<Rightarrow> string \<Rightarrow> policy_actor option \<Rightarrow> (string \<times> int) list \<Rightarrow> nat \<Rightarrow> lock_state \<times> lease_db \<Rightarrow>
     (http_error + nat) \<times> lock_state \<times> lease_db" where
  "backfill_each env ck createdBy actor [] created st = (Inr created, st)"
| "backfill_each env ck createdBy actor ((node, vmid) # ts) created st =
     (case getLeaseRow node vmid (snd st) of
        Some r \<Rightarrow> backfill_each env ck createdBy actor ts created st
      | None \<Rightarrow>
          (case createLeaseForVm env ck node (show_int vmid) createdBy None actor st of
             (Inl e, st1) \<Rightarrow> (Inl e, st1)
           | (Inr r, st1) \<Rightarrow>
               backfill_each env ck createdBy actor ts (if r = None then created else created + 1) st1))"

definition backfillLeases where
  \<comment> \<open>over the guests of the provisioning jobs and of the assignments, each once\<close>
  "backfillLeases env ck createdBy actor provisioned assigned st =
     backfill_each env ck createdBy actor (rev (remdups (rev (provisioned @ assigned)))) 0 st"

section \<open>What a sweep may do\<close>

definition marked_by :: "sweep_env \<Rightarrow> lease \<Rightarrow> bool \<Rightarrow> lease \<Rightarrow> lease \<Rightarrow> bool" where
  \<comment> \<open>a row marked as the expired lease that was read under the lock\<close>
  "marked_by env current autoStopped r r' \<longleftrightarrow>
     ls_id r = ls_id current \<and> ls_node r = ls_node current \<and> \<not> ls_exempt r \<and> \<not> ls_expired r
     \<and> ls_expires r = ls_expires current
     \<and> (\<exists>e. ls_expires r = Some e \<and> e \<le> sw_marked env)
     \<and> r' = r\<lparr>ls_expired := True, ls_expired_at := Some (sw_marked env), ls_auto_stopped := autoStopped\<rparr>"

lemma mark_expired_rows:
  "list_all2 (\<lambda>r r'. r' = r \<or> marked_by env current b r r') (vm_leases db) (vm_leases (mark_expired env current b db))"
proof (cases "mark_expired env current b db = db")
  case True
  then show ?thesis by (simp add: list_all2_same)
next
  case False
  then obtain e where "ls_expires current = Some e" "e \<le> sw_marked env"
    by (auto simp: mark_expired_def split: option.splits if_splits)
  with False show ?thesis
    by (auto simp: mark_expired_def update_where_def marked_by_def list_all2_conv_all_nth split: option.splits if_splits)
qed

definition acts_on :: "guest list \<Rightarrow> lease \<Rightarrow> lease_audit \<Rightarrow> bool \<Rightarrow> bool" where
  "acts_on vms current audit sent \<longleftrightarrow>
     (if sent then audit = Autostop \<and> (\<exists>live. lease_guest vms current = Some live \<and> lv_status live = ''running'')
      else \<exists>b. audit = Marked_expired b)"

lemma sweep_current_cases:
  assumes "sweep_current env vms current db = (r, db')"
  shows "(r = Inr ([], False) \<or> (\<exists>e. r = Inl e)) \<and> db' = db
    \<or> (\<exists>message. r = Inr ([Autostop_failed message], False)) \<and> db' = sw_others env db
    \<or> (\<exists>audit sent. r = Inr ([audit], sent) \<and> db' = mark_expired env current sent (sw_others env db) \<and> acts_on vms current audit sent)"
  using assms by (auto simp: sweep_current_def acts_on_def split: option.splits sum.splits if_splits)

lemma sweepLease_cases:
  assumes "sweepLease env vms lease db = (r, db')"
  obtains (quiet) "r = Inr ([], False) \<or> (\<exists>e. r = Inl e)" "db' = db"
  | (failed) message where "r = Inr ([Autostop_failed message], False)" "db' = sw_others env db"
  | (acted) current audit sent where "r = Inr ([audit], sent)" "db' = mark_expired env current sent (sw_others env db)"
      "find (\<lambda>r. ls_id r = ls_id lease) (vm_leases db) = Some current" "still_due env lease current"
      "\<not> vmMigrationPending db (ls_vmid lease)" "acts_on vms current audit sent"
proof (cases "\<exists>current. find (\<lambda>r. ls_id r = ls_id lease) (vm_leases db) = Some current \<and> still_due env lease current
    \<and> \<not> vmMigrationPending db (ls_vmid lease)")
  case True
  then obtain current where c: "find (\<lambda>r. ls_id r = ls_id lease) (vm_leases db) = Some current" "still_due env lease current"
    "\<not> vmMigrationPending db (ls_vmid lease)" by blast
  with assms have "sweep_current env vms current db = (r, db')" by (simp add: sweepLease_def)
  from sweep_current_cases [OF this] quiet failed acted [OF _ _ c] show ?thesis by blast
next
  case False
  with assms quiet show ?thesis by (auto simp: sweepLease_def split: option.splits if_splits)
qed

section \<open>Reading a row back after a write\<close>

lemma find_map_same: "(\<And>x. P (f x) = P x) \<Longrightarrow> find P (map f xs) = map_option f (find P xs)"
  by (induction xs) auto

lemma getLeaseRow_update:
  assumes "\<And>r. ls_node (f r) = ls_node r" "\<And>r. ls_vmid (f r) = ls_vmid r"
  shows "getLeaseRow node vmid (update_lease i f db)
    = map_option (\<lambda>r. if ls_id r = i then f r else r) (getLeaseRow node vmid db)"
proof -
  let ?g = "\<lambda>r. if ls_id r = i then f r else r"
  have "find (\<lambda>r. ls_vmid r = vmid \<and> ls_node r = c) (map ?g (vm_leases db))
      = map_option ?g (find (\<lambda>r. ls_vmid r = vmid \<and> ls_node r = c) (vm_leases db))" for c
    by (rule find_map_same) (simp add: assms)
  then have "List.map_filter (\<lambda>c. find (\<lambda>r. ls_vmid r = vmid \<and> ls_node r = c) (map ?g (vm_leases db))) cs
      = map ?g (List.map_filter (\<lambda>c. find (\<lambda>r. ls_vmid r = vmid \<and> ls_node r = c) (vm_leases db)) cs)" for cs
    by (induction cs) (auto simp: List.map_filter_simps split: option.split)
  then show ?thesis by (simp add: getLeaseRow_def update_lease_def update_where_def split: list.split)
qed

lemma createLeaseRow_row: "createLeaseRow ck node vmid by days db = (row, db1) \<Longrightarrow> row = getLeaseRow node vmid db1"
  by (auto simp: createLeaseRow_def Let_def split: option.splits)

lemma filter_untouched:
  "(\<And>r. ls_id (f r) = ls_id r) \<Longrightarrow>
     filter (\<lambda>r. ls_id r \<noteq> i) (map (\<lambda>r. if ls_id r = i then f r else r) rows) = filter (\<lambda>r. ls_id r \<noteq> i) rows"
  by (induction rows) auto

lemma renewed_fields [simp]:
  "ls_id (renewed ck d r) = ls_id r" "ls_node (renewed ck d r) = ls_node r" "ls_vmid (renewed ck d r) = ls_vmid r"
  "ls_days (renewed ck d r) = d" "ls_expires (renewed ck d r) = expires_in ck d" "ls_expired (renewed ck d r) = False"
  "ls_auto_stopped (renewed ck d r) = False" "ls_renewals (renewed ck d r) = ls_renewals r + 1"
  by (simp_all add: renewed_def)

lemma renew_row_Some:
  assumes "renew_row ck by node vmid db = (Some row, db2)"
  obtains prior db1 where "createLeaseRow ck node vmid by None db = (Some prior, db1)"
    "row = renewed ck (if ls_days prior > 0 then ls_days prior else max 0 (fst (getLeaseSettings db1))) prior"
    "vm_leases db2 = map (\<lambda>r. if ls_id r = ls_id prior then renewed ck (ls_days row) r else r) (vm_leases db1)"
proof -
  obtain p db1 where c: "createLeaseRow ck node vmid by None db = (p, db1)" by fastforce
  with assms obtain prior where p: "p = Some prior" by (cases p) (auto simp: renew_row_def)
  let ?days = "if ls_days prior > 0 then ls_days prior else max 0 (fst (getLeaseSettings db1))"
  have days: "(if ls_days prior > 0 then ls_days prior else if fst (getLeaseSettings db1) > 0 then fst (getLeaseSettings db1) else 0) = ?days"
    by simp
  have run: "Some row = getLeaseRow node vmid (update_lease (ls_id prior) (renewed ck ?days) db1)"
      "db2 = update_lease (ls_id prior) (renewed ck ?days) db1"
    using assms by (simp_all only: renew_row_def c p Let_def prod.case option.case days prod.inject) auto
  have "getLeaseRow node vmid db1 = Some prior" using createLeaseRow_row [OF c] p by simp
  with run have row: "row = renewed ck ?days prior" by (simp add: getLeaseRow_update)
  moreover have "vm_leases db2 = map (\<lambda>r. if ls_id r = ls_id prior then renewed ck ?days r else r) (vm_leases db1)"
    unfolding run(2) by (simp add: update_lease_def update_where_def)
  ultimately show ?thesis using that c p by simp
qed

section \<open>The sweep as a whole\<close>

lemma sweep_next_audits:
  assumes "sweep_next pm con gr envs vms (res, lk, db) lease = (res', lk', db')"
  shows "\<exists>as. sr_audits res' = sr_audits res @ map (\<lambda>a. (lease, a)) as \<and> length as \<le> 1
    \<and> sr_stopped res' = sr_stopped res + count_list as Autostop \<and> sr_checked res' = sr_checked res"
proof -
  let ?tx = "transaction (sweepLease (envs lease) vms lease)"
  obtain r lk1 db1 where l: "withVmMigrationLock pm con gr (ls_vmid lease) ?tx True (lk, db) = (r, lk1, db1)" by (metis prod_cases3)
  show ?thesis
  proof (cases r)
    case (Inl e)
    with assms l show ?thesis by (auto simp: sweep_next_def intro: exI [of _ "[Sweep_error]"])
  next
    case (Inr p)
    obtain as stopped where p: "p = (as, stopped)" by (cases p)
    have "fst (?tx db) = Inr (as, stopped)" using withVmMigrationLock_Inr(1) [of pm con gr "ls_vmid lease" ?tx True lk db p] l Inr p by simp
    then have "fst (sweepLease (envs lease) vms lease db) = Inr (as, stopped)"
      by (auto simp: transaction_def Let_def split: prod.splits sum.splits)
    then obtain db2 where "sweepLease (envs lease) vms lease db = (Inr (as, stopped), db2)" by (metis prod.collapse)
    then have "length as \<le> 1 \<and> count_list as Autostop = (if stopped then 1 else 0)"
      by (rule sweepLease_cases) (auto simp: acts_on_def split: if_splits)
    with assms l Inr p show ?thesis by (auto simp: sweep_next_def intro: exI [of _ as])
  qed
qed

lemma sweep_fold_audits:
  assumes "foldl (sweep_next pm con gr envs vms) (res, lk, db) leases = (res', lk', db')"
  shows "\<exists>extra. sr_audits res' = sr_audits res @ extra \<and> subseq (map fst extra) leases
    \<and> sr_stopped res' = sr_stopped res + length (filter (\<lambda>x. snd x = Autostop) extra)"
  using assms
proof (induction leases arbitrary: res lk db)
  case Nil
  then show ?case by simp
next
  case (Cons lease leases)
  obtain res1 lk1 db1 where step: "sweep_next pm con gr envs vms (res, lk, db) lease = (res1, lk1, db1)" by (metis prod_cases3)
  from sweep_next_audits [OF step] obtain as where as: "sr_audits res1 = sr_audits res @ map (\<lambda>a. (lease, a)) as"
    "length as \<le> 1" "sr_stopped res1 = sr_stopped res + count_list as Autostop" by blast
  from Cons step obtain extra where e: "sr_audits res' = sr_audits res1 @ extra" "subseq (map fst extra) leases"
    "sr_stopped res' = sr_stopped res1 + length (filter (\<lambda>x. snd x = Autostop) extra)" by force
  show ?case
  proof (cases as)
    case Nil
    with as e show ?thesis by (intro exI [of _ extra]) auto
  next
    case (Cons a rest)
    with as(2) have "as = [a]" by simp
    with as e show ?thesis by (intro exI [of _ "(lease, a) # extra"]) auto
  qed
qed

lemma sweep_counts_its_audits:
  assumes "runLeaseSweep pm con gr now envs listing (lk, db) = (res, lk', db')"
  shows "subseq (map fst (sr_audits res)) (filter (lease_due now) (vm_leases db))
    \<and> sr_stopped res = length (filter (\<lambda>x. snd x = Autostop) (sr_audits res))"
proof (cases "listing = None \<or> filter (lease_due now) (vm_leases db) = []")
  case True
  with assms show ?thesis by (auto simp: runLeaseSweep_def Let_def split: option.splits)
next
  case False
  then obtain vms where "listing = Some vms" by auto
  with False assms sweep_fold_audits [of pm con gr envs vms _ lk db "filter (lease_due now) (vm_leases db)" res lk' db']
  show ?thesis by (fastforce simp: runLeaseSweep_def Let_def)
qed

lemma extension_ends_an_unlimited_lease:
  "ls_expires r = None \<Longrightarrow> ls_expires (extended ck days r) = Some (now_db ck + days * MS_PER_DAY)"
  by (simp add: extended_def unflag_def)

section \<open>Properties\<close>

text \<open>C12: The sweep shuts a machine down only while its lease is over: the row read under the guest lock
  has the expiry and the place the sweep listed, is past it, is neither exempt nor flagged, no
  migration of the guest is pending, and Proxmox lists the machine as running. Afterwards it marks only
  that lease: a row that a renewal, an exemption or a move changed meanwhile stays as it is.\<close>

theorem sweep_stops_only_current_leases:
  assumes "withVmMigrationLock pm con gr (ls_vmid lease) (transaction (sweepLease env vms lease)) True (lk, db)
    = (Inr (audits, stopped), lk', db')"
  shows "(stopped \<longrightarrow> (\<exists>current e live. find (\<lambda>r. ls_id r = ls_id lease) (vm_leases db) = Some current
        \<and> ls_node current = ls_node lease \<and> \<not> ls_exempt current \<and> \<not> ls_expired current
        \<and> ls_expires current = Some e \<and> e \<le> sw_read env \<and> (\<forall>x. ls_expires lease = Some x \<longrightarrow> x = e)
        \<and> \<not> vmMigrationPending db (ls_vmid lease) \<and> lease_guest vms current = Some live \<and> lv_status live = ''running''))
    \<and> (db' = db \<or> (\<exists>current. find (\<lambda>r. ls_id r = ls_id lease) (vm_leases db) = Some current
        \<and> list_all2 (\<lambda>r r'. r' = r \<or> marked_by env current stopped r r') (vm_leases (sw_others env db)) (vm_leases db'))
      \<or> db' = sw_others env db)"
proof -
  let ?tx = "transaction (sweepLease env vms lease)"
  have "fst (?tx db) = Inr (audits, stopped)" "snd (?tx db) = db'"
    using withVmMigrationLock_Inr(1,2) [of pm con gr "ls_vmid lease" ?tx True lk db] assms by simp_all
  with transaction_ok have "sweepLease env vms lease db = (Inr (audits, stopped), db')" by (metis prod.collapse)
  then show ?thesis
  proof (cases rule: sweepLease_cases)
    case (acted current audit sent)
    have "list_all2 (\<lambda>r r'. r' = r \<or> marked_by env current sent r r') (vm_leases (sw_others env db)) (vm_leases db')"
      unfolding acted(2) by (rule mark_expired_rows)
    with acted show ?thesis by (auto simp: still_due_def acts_on_def split: option.splits)
  qed auto
qed

text \<open>A renewal restarts the clock: the row it returns is the guest's lease with a new term from now,
  its own length or else the default, counted and without the flags of the expiry, so that no sweep
  takes it up before that term is over, and every other row of the table stays.\<close>

theorem renewal_restarts_the_lease:
  assumes "renewLease env ck node vmid by actor (lk, db) = (Inr (Some row), lk', db')"
  shows "\<exists>parsed currentNode prior db1. parse_int vmid = Some parsed
    \<and> policyGuard (pe_presence env) node parsed actor db = Inr currentNode
    \<and> createLeaseRow ck currentNode parsed by None db = (Some prior, db1)
    \<and> ls_days row = (if ls_days prior > 0 then ls_days prior else max 0 (fst (getLeaseSettings db1)))
    \<and> ls_renewals row = ls_renewals prior + 1 \<and> \<not> ls_expired row \<and> \<not> ls_auto_stopped row
    \<and> (\<forall>now. lease_due now row \<longrightarrow> 0 < ls_days row \<and> now_db ck + ls_days row * MS_PER_DAY < now)
    \<and> filter (\<lambda>r. ls_id r \<noteq> ls_id row) (vm_leases db') = filter (\<lambda>r. ls_id r \<noteq> ls_id row) (vm_leases db1)"
proof -
  obtain parsed where p: "parse_int vmid = Some parsed" "node \<noteq> []"
    using assms by (auto simp: renewLease_def lease_write_def split: option.splits if_splits)
  let ?renew = "\<lambda>n db. let (r, db1) = renew_row ck by n parsed db in (Inr r, db1) :: (http_error + lease option) \<times> lease_db"
  have run: "withVmPolicyWrite (pe_pool_max env) (pe_connected env) (pe_granted env) (pe_presence env) node parsed ?renew actor (lk, db)
      = (Inr (Some row), lk', db')"
    using assms p by (simp add: renewLease_def lease_write_def)
  from policy_write_Inr [of "pe_pool_max env" "pe_connected env" "pe_granted env" "pe_presence env" node parsed ?renew actor lk db "Some row"] run
  obtain n where n: "policyGuard (pe_presence env) node parsed actor db = Inr n" "fst (?renew n db) = Inr (Some row)" "db' = snd (?renew n db)"
    by auto
  then have renew: "renew_row ck by n parsed db = (Some row, db')" by (auto split: prod.splits)
  then obtain prior db1 where r: "createLeaseRow ck n parsed by None db = (Some prior, db1)"
    "row = renewed ck (if ls_days prior > 0 then ls_days prior else max 0 (fst (getLeaseSettings db1))) prior"
    "vm_leases db' = map (\<lambda>r. if ls_id r = ls_id prior then renewed ck (ls_days row) r else r) (vm_leases db1)"
    by (rule renew_row_Some)
  have "ls_id row = ls_id prior" unfolding r(2) by simp
  then have others: "filter (\<lambda>r. ls_id r \<noteq> ls_id row) (vm_leases db') = filter (\<lambda>r. ls_id r \<noteq> ls_id row) (vm_leases db1)"
    unfolding r(3) by (simp add: filter_untouched)
  have due: "lease_due now row \<longrightarrow> 0 < ls_days row \<and> now_db ck + ls_days row * MS_PER_DAY < now" for now
    unfolding r(2) by (auto simp: lease_due_def expires_in_def split: option.splits if_splits)
  have fields: "ls_days row = (if ls_days prior > 0 then ls_days prior else max 0 (fst (getLeaseSettings db1)))"
    "ls_renewals row = ls_renewals prior + 1" "\<not> ls_expired row" "\<not> ls_auto_stopped row" unfolding r(2) by simp_all
  from p(1) n(1) r(1) fields due others show ?thesis by blast
qed

definition sample_lease :: lease where
  "sample_lease = \<lparr>ls_id = 4, ls_node = ''1~pve'', ls_vmid = 100, ls_days = 30, ls_started = 0, ls_expires = Some 1000, ls_renewals = 0,
     ls_last_renewed = None, ls_exempt = False, ls_expired = False, ls_expired_at = None, ls_auto_stopped = False, ls_created_by = ''ann''\<rparr>"

definition sample_leases :: lease_db where
  "sample_leases = \<lparr>user_rows = [], role_permissions = [], vm_assignments = [], vm_migrations = [], vm_leases = [sample_lease],
     lease_next = 5, lease_settings = Map.empty, lease_hosts = [1]\<rparr>"

definition sample_guest :: guest where
  "sample_guest = \<lparr>lv_vmid = 100, lv_node = ''pve'', lv_nodeRef = ''1~pve'', lv_status = ''running'', gu_type = ''qemu''\<rparr>"

definition idle_lock :: lock_state where
  "idle_lock = \<lparr>admittedVms = Map.empty, admittedOperations = 0\<rparr>"

definition renewed_meanwhile :: sweep_env where
  \<comment> \<open>the owner renews while Proxmox shuts the machine down\<close>
  "renewed_meanwhile = \<lparr>sw_read = 2000, sw_marked = 2500, sw_presence = (\<lambda>_ _. Inr True), sw_reply = None,
     sw_others = update_lease 4 (renewed \<lparr>now_js = 2100, now_db = 2100\<rparr> 30)\<rparr>"

lemma sample_sweep:
  "withVmMigrationLock 10 True True 100 (transaction (sweepLease renewed_meanwhile [sample_guest] sample_lease)) True (idle_lock, sample_leases)
     = (Inr ([Autostop], True), idle_lock, sw_others renewed_meanwhile sample_leases)"
proof -
  let ?body = "sweepLease renewed_meanwhile [sample_guest] sample_lease"
  have d: "decodeNodeRef ''1~pve'' = \<lparr>hostId = Some 1, nodeName = ''pve'', nodeRef = ''1~pve''\<rparr>"
    "nodeLookupCandidates ''1~pve'' = [''1~pve'', ''pve'']" by code_simp+
  have s: "sweep_current renewed_meanwhile [sample_guest] sample_lease sample_leases
      = (Inr ([Autostop], True), mark_expired renewed_meanwhile sample_lease True (sw_others renewed_meanwhile sample_leases))"
    by (simp add: sweep_current_def lease_guest_def sample_guest_def sample_lease_def d renewed_meanwhile_def)
  have due: "still_due renewed_meanwhile sample_lease sample_lease"
    by (simp add: still_due_def renewed_meanwhile_def sample_lease_def)
  have pending: "\<not> vmMigrationPending sample_leases (ls_vmid sample_lease)" by (simp add: vmMigrationPending_def sample_leases_def)
  have m: "mark_expired renewed_meanwhile sample_lease True (sw_others renewed_meanwhile sample_leases) = sw_others renewed_meanwhile sample_leases"
    by (simp add: mark_expired_def renewed_meanwhile_def sample_leases_def update_lease_def update_where_def expires_in_def
        sample_lease_def MS_PER_DAY_def)
  have "?body sample_leases = (Inr ([Autostop], True), sw_others renewed_meanwhile sample_leases)"
    using s m due pending by (simp add: sweepLease_def sample_leases_def)
  moreover from this have "transaction ?body sample_leases = (Inr ([Autostop], True), sw_others renewed_meanwhile sample_leases)"
    by (simp add: transaction_def)
  ultimately show ?thesis
    by (simp add: withVmMigrationLock_def idle_lock_def admit_def leave_def Let_def)
qed

theorem sweep_stops_only_current_leases_witness:
  "vm_leases (sw_others renewed_meanwhile sample_leases) = [renewed \<lparr>now_js = 2100, now_db = 2100\<rparr> 30 sample_lease]
   \<and> (\<exists>current e. find (\<lambda>r. ls_id r = 4) (vm_leases sample_leases) = Some current \<and> ls_expires current = Some e \<and> e \<le> 2000)"
proof -
  have v: "ls_vmid sample_lease = 100" by (simp add: sample_lease_def)
  have "\<exists>current e. find (\<lambda>r. ls_id r = ls_id sample_lease) (vm_leases sample_leases) = Some current
      \<and> ls_expires current = Some e \<and> e \<le> sw_read renewed_meanwhile"
    using sweep_stops_only_current_leases [OF sample_sweep [folded v]] by blast
  then show ?thesis by (simp add: renewed_meanwhile_def update_lease_def update_where_def sample_leases_def) (simp add: sample_lease_def)
qed

definition sample_clock :: clock where
  "sample_clock = \<lparr>now_js = 2100, now_db = 2100\<rparr>"

definition sample_policy_env :: policy_env where
  "sample_policy_env = \<lparr>pe_pool_max = 10, pe_connected = True, pe_granted = True, pe_presence = (\<lambda>_ _. Inr True)\<rparr>"

lemma sample_renewal:
  "fst (renewLease sample_policy_env sample_clock ''1~pve'' ''100'' ''ann'' None (idle_lock, sample_leases))
     = Inr (Some (renewed sample_clock 30 sample_lease))"
  by code_simp


end
