(* ===== verification/Js_Map.thy ===== *)
theory Js_Map
  imports Prelude
begin

text \<open>
  JavaScript's \<open>Map\<close>: the entries in the order in which their keys were first set. The components that
  group or add up rows by a key (the disks of a storage, the memory of a node, the usage of a user) run
  the same loop, \<open>m.set(key(x), f(m.get(key(x)), x))\<close> over a list. What that loop computes is proved once,
  in the locale \<open>insertion_map\<close>, from the laws of \<open>get\<close>, \<open>set\<close> and \<open>keys\<close>; the entry lists below are
  its interpretation.
\<close>

section \<open>The interface\<close>

locale insertion_map =
  fixes lookup :: "'m \<Rightarrow> 'k \<Rightarrow> 'v option" and put :: "'k \<Rightarrow> 'v \<Rightarrow> 'm \<Rightarrow> 'm" and keys :: "'m \<Rightarrow> 'k list"
  assumes lookup_put: "lookup (put k v m) = (lookup m)(k \<mapsto> v)"
    and keys_put: "keys (put k v m) = (if k \<in> set (keys m) then keys m else keys m @ [k])"
    and lookup_keys: "lookup m k = None \<longleftrightarrow> k \<notin> set (keys m)"
begin

lemma lookup_update:
  "lookup (foldl (\<lambda>m x. put (key x) (f (lookup m (key x)) x) m) m xs) k
     = foldl (\<lambda>v x. Some (f v x)) (lookup m k) (filter (\<lambda>x. key x = k) xs)"
  by (induction xs arbitrary: m) (auto simp: lookup_put)

lemma set_keys_update:
  "set (keys (foldl (\<lambda>m x. put (key x) (f (lookup m (key x)) x) m) m xs)) = set (keys m) \<union> key ` set xs"
  by (induction xs arbitrary: m) (auto simp: keys_put)

lemma distinct_keys_update:
  "distinct (keys m) \<Longrightarrow> distinct (keys (foldl (\<lambda>m x. put (key x) (f (lookup m (key x)) x) m) m xs))"
  by (induction xs arbitrary: m) (auto simp: keys_put)

lemma put_keeps: "k \<noteq> k' \<Longrightarrow> lookup (put k v m) k' = lookup m k'"
  by (simp add: lookup_put)

end

section \<open>Entry lists\<close>

fun map_set :: "'k \<Rightarrow> 'v \<Rightarrow> ('k \<times> 'v) list \<Rightarrow> ('k \<times> 'v) list" where
  "map_set k v [] = [(k, v)]"
| "map_set k v ((a, b) # m) = (if a = k then (a, v) # m else (a, b) # map_set k v m)"

lemma map_of_map_set: "map_of (map_set k v m) = (map_of m)(k \<mapsto> v)"
  by (induction m) (auto simp: fun_upd_twist)

lemma keys_map_set: "map fst (map_set k v m) = (if k \<in> set (map fst m) then map fst m else map fst m @ [k])"
  by (induction m) (auto simp del: set_map)

interpretation entry_map: insertion_map map_of map_set "map fst"
  by unfold_locales (auto simp: map_of_map_set keys_map_set map_of_eq_None_iff)

definition map_update :: "('a \<Rightarrow> 'k) \<Rightarrow> ('v option \<Rightarrow> 'a \<Rightarrow> 'v) \<Rightarrow> ('k \<times> 'v) list \<Rightarrow> 'a list \<Rightarrow> ('k \<times> 'v) list" where
  \<comment> \<open>\<open>for (const x of xs) m.set(key(x), f(m.get(key(x)), x))\<close>\<close>
  "map_update key f m xs = foldl (\<lambda>m x. map_set (key x) (f (map_of m (key x)) x) m) m xs"

lemmas map_of_update = entry_map.lookup_update [folded map_update_def]

lemma set_keys_map_update: "fst ` set (map_update key f m xs) = fst ` set m \<union> key ` set xs"
  using entry_map.set_keys_update [of key f m xs] by (simp add: map_update_def)

lemma map_update_distinct: "distinct (map fst m) \<Longrightarrow> distinct (map fst (map_update key f m xs))"
  unfolding map_update_def by (rule entry_map.distinct_keys_update)

subsection \<open>Grouping\<close>

definition group_by :: "('a \<Rightarrow> 'k) \<Rightarrow> 'a list \<Rightarrow> ('k \<times> 'a list) list" where
  "group_by key xs = map_update key (\<lambda>g x. (case g of Some ys \<Rightarrow> ys | None \<Rightarrow> []) @ [x]) [] xs"

lemma foldl_collect:
  "foldl (\<lambda>g x. Some ((case g of Some ys \<Rightarrow> ys | None \<Rightarrow> []) @ [x])) g xs
     = (if xs = [] then g else Some ((case g of Some ys \<Rightarrow> ys | None \<Rightarrow> []) @ xs))"
  by (induction xs arbitrary: g) auto

lemma group_by_distinct: "distinct (map fst (group_by key xs))"
  by (simp add: group_by_def map_update_distinct)

lemma group_by_keys: "fst ` set (group_by key xs) = key ` set xs"
  by (simp add: group_by_def set_keys_map_update)

lemma group_by_groups: "(k, g) \<in> set (group_by key xs) \<Longrightarrow> g = filter (\<lambda>x. key x = k) xs \<and> g \<noteq> []"
proof -
  assume m: "(k, g) \<in> set (group_by key xs)"
  then have "map_of (group_by key xs) k = Some g" by (simp add: group_by_distinct)
  moreover have "map_of (group_by key xs) k
      = (if filter (\<lambda>x. key x = k) xs = [] then None else Some (filter (\<lambda>x. key x = k) xs))"
    unfolding group_by_def map_of_update foldl_collect by simp
  ultimately show ?thesis by (auto split: if_splits)
qed

subsection \<open>Adding up\<close>

definition sum_by :: "('a \<Rightarrow> 'k) \<Rightarrow> ('a \<Rightarrow> 'n::comm_monoid_add) \<Rightarrow> 'a list \<Rightarrow> ('k \<times> 'n) list" where
  "sum_by key size_of xs = map_update key (\<lambda>n x. (case n of Some s \<Rightarrow> s | None \<Rightarrow> 0) + size_of x) [] xs"

lemma foldl_add:
  "foldl (\<lambda>n x. Some ((case n of Some s \<Rightarrow> s | None \<Rightarrow> 0) + f x)) n xs
     = (if xs = [] then n else Some ((case n of Some s \<Rightarrow> s | None \<Rightarrow> 0) + sum_list (map f xs)))"
  for f :: "'a \<Rightarrow> 'n::comm_monoid_add"
  by (induction xs arbitrary: n) (auto simp: add.assoc)

lemma sum_by_distinct: "distinct (map fst (sum_by key f xs))"
  by (simp add: sum_by_def map_update_distinct)

lemma sum_by_keys: "fst ` set (sum_by key f xs) = key ` set xs"
  by (simp add: sum_by_def set_keys_map_update)

lemma sum_by_sums: "(k, s) \<in> set (sum_by key f xs) \<Longrightarrow> s = sum_list (map f (filter (\<lambda>x. key x = k) xs))"
proof -
  assume m: "(k, s) \<in> set (sum_by key f xs)"
  then have "map_of (sum_by key f xs) k = Some s" by (simp add: sum_by_distinct)
  moreover have "map_of (sum_by key f xs) k
      = (if filter (\<lambda>x. key x = k) xs = [] then None else Some (sum_list (map f (filter (\<lambda>x. key x = k) xs))))"
    unfolding sum_by_def map_of_update foldl_add by simp
  ultimately show ?thesis by (auto split: if_splits)
qed

end
