(* ===== verification/Disk_Targets.thy ===== *)
theory Disk_Targets
  imports Js_Map Json
begin

text \<open>
  The target storage of each disk of a migration (\<open>utils/diskTargets.ts\<close>): the choices of the request,
  the storage-pair list that Proxmox takes, and the disks to move afterwards because two disks of one
  storage cannot be copied to two targets. Sizes are elements of an ordered ring (exact numbers).
  \<open>landing\<close> states what Proxmox documents of its \<open>target-storage\<close> parameter; the property says that copy and
  moves together put every disk where it was sent.
\<close>

section \<open>Choices\<close>

definition ident_char :: "char \<Rightarrow> bool" where
  "ident_char c = (c \<in> set ''abcdefghijklmnopqrstuvwxyzABCDEFGHIJKLMNOPQRSTUVWXYZ0123456789._-'')"

definition storage_ident :: "string \<Rightarrow> bool" where
  \<comment> \<open>\<open>IDENT_RE\<close>\<close>
  "storage_ident s = (s \<noteq> [] \<and> list_all ident_char s)"

definition disk_key :: "string \<Rightarrow> bool" where
  \<comment> \<open>\<open>DISK_KEY_RE\<close>\<close>
  "disk_key k = (k = ''rootfs''
     \<or> (\<exists>p \<in> set [''scsi'', ''virtio'', ''sata'', ''ide'', ''efidisk'', ''tpmstate'', ''mp''].
          starts_with p k \<and> all_digits (drop (length p) k)))"

fun checked_choices :: "(string \<times> json) list \<Rightarrow> (string \<times> string) list fallible" where
  "checked_choices [] = Inr []"
| "checked_choices ((k, v) # kvs) =
     (if nullish v then checked_choices kvs
      else if \<not> disk_key k then Inl (''Invalid disk key \"'' @ k @ ''\" in diskStorages'')
      else case v of
             JStr s \<Rightarrow> if s \<noteq> [] \<and> \<not> storage_ident s then Inl (''Invalid target storage for disk '' @ k)
                       else bind_err (checked_choices kvs) (\<lambda>rest. Inr ((k, s) # rest))
           | _ \<Rightarrow> Inl (''Invalid target storage for disk '' @ k))"

definition normalizeDiskStorages :: "json \<Rightarrow> (string \<times> string) list fallible" where
  "normalizeDiskStorages raw =
     (if nullish raw then Inr []
      else case raw of
             JObj kvs \<Rightarrow> checked_choices kvs
           | _ \<Rightarrow> Inl ''diskStorages must be an object mapping disk keys to storage ids'')"

record 's plan_disk =
  pd_key :: string
  pd_storage :: "string option"
  pd_sizeGb :: "'s option"

record 's disk_target =
  dt_key :: string
  dt_source :: string
  dt_sizeGb :: 's
  dt_target :: string

definition picked :: "string \<Rightarrow> (string \<times> string) list \<Rightarrow> string \<Rightarrow> string" where
  "picked defaultStorage diskStorages key = (case map_of diskStorages key of Some s \<Rightarrow> s | None \<Rightarrow> defaultStorage)"

definition resolveDiskTargets :: "'s::linordered_idom plan_disk list \<Rightarrow> string \<Rightarrow> (string \<times> string) list \<Rightarrow> 's disk_target list" where
  "resolveDiskTargets disks defaultStorage diskStorages =
     filter (\<lambda>t. dt_target t \<noteq> [])
       (map (\<lambda>d. \<lparr>dt_key = pd_key d, dt_source = (case pd_storage d of Some s \<Rightarrow> s | None \<Rightarrow> []),
                  dt_sizeGb = (case pd_sizeGb d of Some s \<Rightarrow> s | None \<Rightarrow> 0),
                  dt_target = picked defaultStorage diskStorages (pd_key d)\<rparr>) disks)"

section \<open>The mapping\<close>

definition heaviest :: "string \<Rightarrow> (string \<times> 's::linordered_idom) list \<Rightarrow> string \<times> 's" where
  \<comment> \<open>the loop over \<open>bytesByTarget\<close>: the target with the most data, ties to the first\<close>
  "heaviest first totals = foldl (\<lambda>(primary, most) (target, size). if size > most then (target, size) else (primary, most)) (first, - 1) totals"

definition primary_target :: "'s::linordered_idom disk_target list \<Rightarrow> string" where
  "primary_target disks = fst (heaviest (dt_target (hd disks)) (sum_by dt_target dt_sizeGb disks))"

definition storage_groups :: "'s disk_target list \<Rightarrow> (string \<times> 's disk_target list) list" where
  "storage_groups targets = group_by dt_source (filter (\<lambda>t. dt_source t \<noteq> []) targets)"

fun default_pairs :: "string \<Rightarrow> string list \<Rightarrow> string list \<Rightarrow> (string \<times> string) list" where
  "default_pairs defaultStorage covered [] = []"
| "default_pairs defaultStorage covered (s # ss) =
     (if s = [] \<or> s \<in> set covered then default_pairs defaultStorage covered ss
      else (s, defaultStorage) # default_pairs defaultStorage (s # covered) ss)"

record storage_mapping =
  st_targetStorage :: string
  st_pairs :: "(string \<times> string) list"
  st_relocate :: "(string \<times> string) list"
  st_mapped :: bool

definition chosen_pairs :: "'s::linordered_idom disk_target list \<Rightarrow> (string \<times> string) list" where
  "chosen_pairs targets = map (\<lambda>(source, disks). (source, primary_target disks)) (storage_groups targets)"

definition relocations :: "'s::linordered_idom disk_target list \<Rightarrow> (string \<times> string) list" where
  "relocations targets =
     concat (map (\<lambda>(source, disks).
       map (\<lambda>d. (dt_key d, dt_target d)) (filter (\<lambda>d. dt_target d \<noteq> primary_target disks) disks)) (storage_groups targets))"

definition planStorageMapping :: "'s::linordered_idom disk_target list \<Rightarrow> string \<Rightarrow> string list \<Rightarrow> storage_mapping" where
  "planStorageMapping targets defaultStorage sourceStorages =
     (let chosen = chosen_pairs targets; relocate = relocations targets;
          pairs = chosen @ (if defaultStorage \<noteq> [] then default_pairs defaultStorage (map fst chosen) sourceStorages else []);
          uniform = (relocate = [] \<and> length (remdups (map snd pairs)) \<le> 1)
      in \<lparr>st_targetStorage =
            (if uniform then (case pairs of (s, t) # _ \<Rightarrow> if t \<noteq> [] then t else defaultStorage | [] \<Rightarrow> defaultStorage)
             else join_with '','' (map (\<lambda>(s, t). s @ '':'' @ t) pairs)),
          st_pairs = pairs, st_relocate = relocate, st_mapped = (\<not> uniform)\<rparr>)"

definition sizeByTargetStorage :: "'s::linordered_idom disk_target list \<Rightarrow> (string \<times> 's) list" where
  "sizeByTargetStorage targets = sum_by dt_target dt_sizeGb targets"

section \<open>What Proxmox does with it\<close>

definition parse_pair :: "string \<Rightarrow> string \<times> string" where
  "parse_pair s = (takeWhile (\<lambda>c. c \<noteq> CHR '':'') s, tl (dropWhile (\<lambda>c. c \<noteq> CHR '':'') s))"

definition landing :: "string \<Rightarrow> string \<Rightarrow> string option" where
  \<comment> \<open>the storage a volume of a source storage is copied to; \<open>None\<close> is the error "no storage mapped"\<close>
  "landing param source =
     (if CHR '':'' \<in> set param then map_of (map parse_pair (split_on (CHR '','') param)) source else Some param)"

definition final_place :: "storage_mapping \<Rightarrow> string \<Rightarrow> string \<Rightarrow> string option" where
  \<comment> \<open>where a disk of a source storage is after the copy and then the moves\<close>
  "final_place m key source =
     (case map_of (st_relocate m) key of Some s \<Rightarrow> Some s | None \<Rightarrow> landing (st_targetStorage m) source)"

section \<open>Reading the parameter back\<close>

lemma ident_no_separator: "storage_ident s \<Longrightarrow> CHR '':'' \<notin> set s \<and> CHR '','' \<notin> set s"
proof -
  have "\<not> ident_char CHR '':''" "\<not> ident_char CHR '',''" by (simp_all add: ident_char_def)
  then show "storage_ident s \<Longrightarrow> ?thesis" by (auto simp: storage_ident_def list_all_iff)
qed

lemma parse_written_pair: "CHR '':'' \<notin> set s \<Longrightarrow> parse_pair (s @ '':'' @ t) = (s, t)"
  by (simp add: parse_pair_def takeWhile_append dropWhile_append)

lemma set_join_colon: "p \<in> set ps \<Longrightarrow> CHR '':'' \<in> set p \<Longrightarrow> CHR '':'' \<in> set (join_with '','' ps)"
  by (induction "'',''" ps rule: join_with.induct) auto

lemma landing_pairs:
  assumes "pairs \<noteq> []" "\<forall>(s, t) \<in> set pairs. storage_ident s \<and> storage_ident t"
  shows "landing (join_with '','' (map (\<lambda>(s, t). s @ '':'' @ t) pairs)) source = map_of pairs source"
proof -
  let ?texts = "map (\<lambda>(s, t). s @ '':'' @ t) pairs"
  have "\<forall>p \<in> set ?texts. CHR '','' \<notin> set p" using assms(2) ident_no_separator by fastforce
  then have "split_on CHR '','' (join_with '','' ?texts) = ?texts" using assms(1) by (simp add: split_on_join)
  moreover have "map parse_pair ?texts = pairs"
    unfolding map_map comp_def by (rule map_idI) (use assms(2) ident_no_separator parse_written_pair in auto)
  moreover have "CHR '':'' \<in> set (join_with '','' ?texts)"
    using assms(1) by (intro set_join_colon [of "hd ?texts"]) (cases pairs; auto)+
  ultimately show ?thesis by (simp add: landing_def)
qed

section \<open>Where the disks end\<close>

definition beside :: "'s disk_target list \<Rightarrow> string \<Rightarrow> 's disk_target list" where
  \<comment> \<open>the disks of a source storage\<close>
  "beside targets source = filter (\<lambda>d. dt_source d = source) (filter (\<lambda>t. dt_source t \<noteq> []) targets)"

lemma storage_group: "(source, g) \<in> set (storage_groups targets) \<Longrightarrow> g = beside targets source \<and> g \<noteq> []"
  unfolding storage_groups_def beside_def by (rule group_by_groups)

lemma storage_group_keys: "fst ` set (storage_groups targets) = dt_source ` {t \<in> set targets. dt_source t \<noteq> []}"
  by (simp add: storage_groups_def group_by_keys)

lemma map_of_chosen:
  assumes "d \<in> set targets" "dt_source d \<noteq> []"
  shows "map_of (chosen_pairs targets) (dt_source d) = Some (primary_target (beside targets (dt_source d)))"
proof -
  obtain g where g: "(dt_source d, g) \<in> set (storage_groups targets)" using assms storage_group_keys [of targets] by force
  have "distinct (map fst (chosen_pairs targets))"
    by (simp add: chosen_pairs_def comp_def case_prod_unfold storage_groups_def group_by_distinct)
  moreover have "(dt_source d, primary_target (beside targets (dt_source d))) \<in> set (chosen_pairs targets)"
    using g storage_group [OF g] unfolding chosen_pairs_def by force
  ultimately show ?thesis by (rule map_of_is_SomeI)
qed

lemma set_storage_groups:
  "set (storage_groups targets) = (\<lambda>s. (s, beside targets s)) ` dt_source ` {t \<in> set targets. dt_source t \<noteq> []}"
proof -
  have "x = (fst x, beside targets (fst x))" if "x \<in> set (storage_groups targets)" for x
    using storage_group [of "fst x" "snd x" targets] that by (metis prod.collapse)
  then have "set (storage_groups targets) = (\<lambda>s. (s, beside targets s)) ` fst ` set (storage_groups targets)"
    by (force simp: image_image)
  then show ?thesis by (simp only: storage_group_keys)
qed

lemma relocations_iff:
  "(k, t) \<in> set (relocations targets) \<longleftrightarrow>
     (\<exists>d \<in> set targets. dt_source d \<noteq> [] \<and> k = dt_key d \<and> t = dt_target d \<and> t \<noteq> primary_target (beside targets (dt_source d)))"
  by (auto simp: relocations_def set_storage_groups) (auto simp: beside_def)

lemma map_of_relocations:
  assumes "distinct (map dt_key targets)" "d \<in> set targets" "dt_source d \<noteq> []"
  shows "map_of (relocations targets) (dt_key d)
    = (if dt_target d = primary_target (beside targets (dt_source d)) then None else Some (dt_target d))"
proof (cases "map_of (relocations targets) (dt_key d)")
  case None
  then have "(dt_key d, dt_target d) \<notin> set (relocations targets)" by (metis map_of_eq_None_iff fst_conv image_eqI)
  with None assms show ?thesis by (auto simp: relocations_iff)
next
  case (Some t)
  then obtain e where "e \<in> set targets" "dt_key d = dt_key e" "t = dt_target e" "t \<noteq> primary_target (beside targets (dt_source e))"
    using map_of_SomeD [OF Some] by (auto simp: relocations_iff)
  moreover have "d = e" using assms(1,2) calculation(1,2) by (auto simp: distinct_map inj_on_def)
  ultimately show ?thesis using Some by simp
qed

lemma heaviest_target: "fst (heaviest t ts) \<in> insert t (fst ` set ts)"
proof -
  have "fst (foldl (\<lambda>(primary, most) (target, size). if size > most then (target, size) else (primary, most)) (p, m) ts)
      \<in> insert p (fst ` set ts)" for p m
    by (induction ts arbitrary: p m) (auto, fastforce+)
  then show ?thesis by (simp add: heaviest_def)
qed

lemma primary_is_target: "g \<noteq> [] \<Longrightarrow> primary_target g \<in> dt_target ` set g"
  using heaviest_target [of "dt_target (hd g)" "sum_by dt_target dt_sizeGb g"]
  by (auto simp: primary_target_def sum_by_keys)

lemma default_pairs_values: "(s, t) \<in> set (default_pairs dflt covered ss) \<Longrightarrow> t = dflt \<and> s \<in> set ss \<and> s \<noteq> []"
  by (induction ss arbitrary: covered) (auto split: if_splits)

lemma remdups_one: "length (remdups xs) \<le> 1 \<Longrightarrow> x \<in> set xs \<Longrightarrow> y \<in> set xs \<Longrightarrow> x = y"
  by (metis One_nat_def card_le_Suc0_iff_eq length_remdups_card_conv List.finite_set)

definition sound_targets :: "'s disk_target list \<Rightarrow> string \<Rightarrow> string list \<Rightarrow> bool" where
  \<comment> \<open>the shapes the routes check before they plan\<close>
  "sound_targets targets dflt sources \<longleftrightarrow>
     (\<forall>t \<in> set targets. storage_ident (dt_target t) \<and> (dt_source t = [] \<or> storage_ident (dt_source t)))
     \<and> (dflt = [] \<or> storage_ident dflt) \<and> (\<forall>s \<in> set sources. s = [] \<or> storage_ident s)"

lemma chosen_pairs_sound:
  assumes "sound_targets targets dflt sources" "(s, t) \<in> set (chosen_pairs targets)"
  shows "storage_ident s \<and> storage_ident t"
proof -
  obtain d where d: "d \<in> set targets" "dt_source d = s" "s \<noteq> []" "t = primary_target (beside targets s)"
    using assms(2) by (auto simp: chosen_pairs_def set_storage_groups)
  then have "d \<in> set (beside targets s)" by (simp add: beside_def)
  then have "beside targets s \<noteq> []" by auto
  then have "t \<in> dt_target ` set (beside targets s)" unfolding d(4) by (rule primary_is_target)
  then show ?thesis using assms(1) d by (auto simp: sound_targets_def beside_def)
qed

lemma plan_fields:
  "st_pairs (planStorageMapping targets dflt sources) = chosen_pairs targets
     @ (if dflt \<noteq> [] then default_pairs dflt (map fst (chosen_pairs targets)) sources else [])"
  "st_relocate (planStorageMapping targets dflt sources) = relocations targets"
  unfolding planStorageMapping_def Let_def by simp_all

lemma plan_storage:
  "st_mapped (planStorageMapping targets dflt sources) \<Longrightarrow> st_targetStorage (planStorageMapping targets dflt sources)
     = join_with '','' (map (\<lambda>(s, t). s @ '':'' @ t) (st_pairs (planStorageMapping targets dflt sources)))"
  "\<not> st_mapped (planStorageMapping targets dflt sources) \<Longrightarrow> st_targetStorage (planStorageMapping targets dflt sources)
     = (case st_pairs (planStorageMapping targets dflt sources) of (s, t) # _ \<Rightarrow> if t \<noteq> [] then t else dflt | [] \<Rightarrow> dflt)"
  "\<not> st_mapped (planStorageMapping targets dflt sources) \<Longrightarrow>
     length (remdups (map snd (st_pairs (planStorageMapping targets dflt sources)))) \<le> 1"
  unfolding planStorageMapping_def Let_def storage_mapping.simps by (simp_all only: if_True if_False not_not simp_thms)

lemma planned_pairs_sound:
  assumes "sound_targets targets dflt sources" "(s, t) \<in> set (st_pairs (planStorageMapping targets dflt sources))"
  shows "storage_ident s \<and> storage_ident t"
proof (cases "(s, t) \<in> set (chosen_pairs targets)")
  case False
  then have "dflt \<noteq> []" "(s, t) \<in> set (default_pairs dflt (map fst (chosen_pairs targets)) sources)"
    using assms(2) by (auto simp: plan_fields split: if_splits)
  with default_pairs_values assms(1) show ?thesis by (fastforce simp: sound_targets_def)
qed (rule chosen_pairs_sound [OF assms(1)])

lemma landing_listed:
  assumes "sound_targets targets dflt sources" "map_of (st_pairs (planStorageMapping targets dflt sources)) s = Some t"
  shows "landing (st_targetStorage (planStorageMapping targets dflt sources)) s = Some t"
proof -
  let ?m = "planStorageMapping targets dflt sources"
  have listed: "(s, t) \<in> set (st_pairs ?m)" using assms(2) by (rule map_of_SomeD)
  then obtain s0 t0 rest where head: "st_pairs ?m = (s0, t0) # rest" by (cases "st_pairs ?m") auto
  have idents: "\<forall>(s, t) \<in> set (st_pairs ?m). storage_ident s \<and> storage_ident t" using planned_pairs_sound [OF assms(1)] by blast
  show ?thesis
  proof (cases "st_mapped ?m")
    case True
    from head have "st_pairs ?m \<noteq> []" by simp
    from landing_pairs [OF this idents, of s] assms(2) show ?thesis unfolding plan_storage(1) [OF True] by simp
  next
    case False
    have "t \<in> set (map snd (st_pairs ?m))" "t0 \<in> set (map snd (st_pairs ?m))" using listed head by force+
    with plan_storage(3) [OF False] have "t = t0" by (rule remdups_one)
    moreover have t0: "storage_ident t0" using idents head by simp
    moreover from t0 have "st_targetStorage ?m = t0"
      unfolding plan_storage(2) [OF False] head by (simp add: storage_ident_def)
    ultimately show ?thesis using ident_no_separator [OF t0] by (simp add: landing_def)
  qed
qed

lemma disk_lands:
  assumes "sound_targets targets dflt sources" "distinct (map dt_key targets)" "d \<in> set targets" "dt_source d \<noteq> []"
  shows "final_place (planStorageMapping targets dflt sources) (dt_key d) (dt_source d) = Some (dt_target d)"
proof -
  have "map_of (st_pairs (planStorageMapping targets dflt sources)) (dt_source d) = Some (primary_target (beside targets (dt_source d)))"
    using map_of_chosen [OF assms(3,4)] by (simp add: plan_fields map_add_def)
  from landing_listed [OF assms(1) this] map_of_relocations [OF assms(2-4)] show ?thesis
    by (simp add: final_place_def plan_fields)
qed

lemma normalized_choices: "normalizeDiskStorages raw = Inr choices \<Longrightarrow> (k, s) \<in> set choices \<Longrightarrow> s = [] \<or> storage_ident s"
proof -
  have "checked_choices kvs = Inr cs \<Longrightarrow> (k, s) \<in> set cs \<Longrightarrow> s = [] \<or> storage_ident s" for kvs cs
    by (induction kvs arbitrary: cs rule: checked_choices.induct)
       (auto simp: bind_err_Inr_iff split: if_splits json.splits)
  then show "normalizeDiskStorages raw = Inr choices \<Longrightarrow> (k, s) \<in> set choices \<Longrightarrow> ?thesis"
    by (auto simp: normalizeDiskStorages_def split: if_splits json.splits)
qed

section \<open>The second pass is small\<close>

lemma heaviest_max:
  assumes "\<forall>x \<in> set ts. 0 \<le> snd x" "ts \<noteq> []"
  shows "(fst (heaviest t ts), snd (heaviest t ts)) \<in> set ts \<and> (\<forall>x \<in> set ts. snd x \<le> snd (heaviest t ts))"
proof -
  let ?step = "\<lambda>(primary, most) (target, size). if size > most then (target, size) else (primary, most)"
  have run: "(let r = foldl ?step (p, m) ts in m \<le> snd r \<and> (\<forall>x \<in> set ts. snd x \<le> snd r) \<and> (r = (p, m) \<or> r \<in> set ts))" for p m and ts :: "(string \<times> 'a) list"
  proof (induction ts arbitrary: p m)
    case (Cons x ts)
    obtain target size where x: "x = (target, size)" by (cases x)
    from Cons.IH [of target size] Cons.IH [of p m] show ?case by (auto simp: Let_def x)
  qed simp
  have r: "- 1 \<le> snd (heaviest t ts)" "\<forall>x \<in> set ts. snd x \<le> snd (heaviest t ts)" "heaviest t ts = (t, - 1) \<or> heaviest t ts \<in> set ts"
    using run [of t "- 1" ts] by (auto simp: heaviest_def Let_def)
  then have "heaviest t ts \<noteq> (t, - 1)" using assms by (cases ts) force+
  with r show ?thesis by simp
qed

lemma second_pass_is_smallest:
  assumes "\<forall>d \<in> set g. 0 \<le> dt_sizeGb d" "g \<noteq> []"
  shows "sum_list (map dt_sizeGb (filter (\<lambda>d. dt_target d \<noteq> primary_target g) g))
    \<le> sum_list (map dt_sizeGb (filter (\<lambda>d. dt_target d \<noteq> t) g))"
proof -
  let ?in = "\<lambda>t. sum_list (map dt_sizeGb (filter (\<lambda>d. dt_target d = t) g))"
  let ?totals = "sum_by dt_target dt_sizeGb g"
  have split: "?in t + sum_list (map dt_sizeGb (filter (\<lambda>d. dt_target d \<noteq> t) g)) = sum_list (map dt_sizeGb g)" for t
    by (induction g) (auto simp: algebra_simps)
  have nonneg: "0 \<le> ?in t" for t using assms(1) by (intro sum_list_nonneg) auto
  then have "\<forall>x \<in> set ?totals. 0 \<le> snd x" using sum_by_sums [of _ _ dt_target dt_sizeGb g] by (metis prod.collapse)
  moreover have "?totals \<noteq> []" using assms(2) sum_by_keys [of dt_target dt_sizeGb g] by force
  ultimately have max: "(primary_target g, snd (heaviest (dt_target (hd g)) ?totals)) \<in> set ?totals"
      "\<forall>x \<in> set ?totals. snd x \<le> snd (heaviest (dt_target (hd g)) ?totals)"
    using heaviest_max [of ?totals "dt_target (hd g)"] by (auto simp: primary_target_def)
  have "?in t \<le> ?in (primary_target g)"
  proof (cases "t \<in> dt_target ` set g")
    case True
    then obtain s where "(t, s) \<in> set ?totals" using sum_by_keys [of dt_target dt_sizeGb g] by force
    with max sum_by_sums [of _ _ dt_target dt_sizeGb g] show ?thesis by (metis snd_conv)
  next
    case False
    then have "filter (\<lambda>d. dt_target d = t) g = []" by (auto simp: filter_empty_conv)
    with nonneg show ?thesis by simp
  qed
  with split [of t] split [of "primary_target g"] show ?thesis by linarith
qed

section \<open>Properties\<close>

text \<open>C19: Every disk of a migration ends on the storage the request chose for it, or on the default
  storage: the pair list as Proxmox reads it and the moves after the copy together send each disk, also
  of a source storage shared by disks with different targets, to its own target.\<close>

theorem every_disk_lands_where_sent:
  assumes "normalizeDiskStorages raw = Inr choices" "distinct (map pd_key disks)" "d \<in> set disks"
    and "pd_storage d = Some source" "source \<noteq> []" "picked dflt choices (pd_key d) \<noteq> []"
    and "dflt = [] \<or> storage_ident dflt" "\<forall>s \<in> set sources. s = [] \<or> storage_ident s"
    and "\<forall>e \<in> set disks. case pd_storage e of Some s \<Rightarrow> s = [] \<or> storage_ident s | None \<Rightarrow> True"
  shows "final_place (planStorageMapping (resolveDiskTargets disks dflt choices) dflt sources) (pd_key d) source
    = Some (picked dflt choices (pd_key d))"
proof -
  let ?target = "\<lambda>d. \<lparr>dt_key = pd_key d, dt_source = (case pd_storage d of Some s \<Rightarrow> s | None \<Rightarrow> []),
                       dt_sizeGb = (case pd_sizeGb d of Some s \<Rightarrow> s | None \<Rightarrow> 0),
                       dt_target = picked dflt choices (pd_key d)\<rparr>"
  let ?targets = "resolveDiskTargets disks dflt choices"
  have "storage_ident (picked dflt choices k)" if "picked dflt choices k \<noteq> []" for k
    using normalized_choices [OF assms(1)] assms(7) that by (auto simp: picked_def split: option.splits dest: map_of_SomeD)
  then have "sound_targets ?targets dflt sources"
    using assms(7-9) by (auto simp: sound_targets_def resolveDiskTargets_def split: option.splits)
  moreover have "distinct (map dt_key ?targets)"
    using assms(2) by (simp add: resolveDiskTargets_def filter_map comp_def distinct_map_filter)
  moreover have "?target d \<in> set ?targets" using assms(3,6) by (auto simp: resolveDiskTargets_def)
  ultimately have "final_place (planStorageMapping ?targets dflt sources) (dt_key (?target d)) (dt_source (?target d))
      = Some (dt_target (?target d))"
    using assms(4,5) by (intro disk_lands) simp_all
  then show ?thesis using assms(4) by simp
qed

definition sample_disks :: "int plan_disk list" where
  "sample_disks =
     [\<lparr>pd_key = ''scsi0'', pd_storage = Some ''local'', pd_sizeGb = Some 32\<rparr>,
      \<lparr>pd_key = ''scsi1'', pd_storage = Some ''local'', pd_sizeGb = Some 100\<rparr>,
      \<lparr>pd_key = ''virtio0'', pd_storage = Some ''zfs'', pd_sizeGb = None\<rparr>]"

definition sample_choices :: json where
  "sample_choices = JObj [(''scsi0'', JStr ''fast''), (''scsi1'', JStr ''big''), (''mp7'', JNull)]"

lemma sample_mapping:
  "planStorageMapping (resolveDiskTargets sample_disks ''slow'' [(''scsi0'', ''fast''), (''scsi1'', ''big'')]) ''slow'' [''local'', ''nfs'']
   = \<lparr>st_targetStorage = ''local:big,zfs:slow,nfs:slow'', st_pairs = [(''local'', ''big''), (''zfs'', ''slow''), (''nfs'', ''slow'')],
      st_relocate = [(''scsi0'', ''fast'')], st_mapped = True\<rparr>"
  by code_simp

theorem every_disk_lands_where_sent_witness:
  "final_place (planStorageMapping (resolveDiskTargets sample_disks ''slow'' [(''scsi0'', ''fast''), (''scsi1'', ''big'')])
     ''slow'' [''local'', ''nfs'']) ''scsi0'' ''local'' = Some ''fast''"
proof -
  let ?choices = "[(''scsi0'', ''fast''), (''scsi1'', ''big'')]"
  let ?d = "\<lparr>pd_key = ''scsi0'', pd_storage = Some ''local'', pd_sizeGb = Some (32 :: int)\<rparr>"
  have facts: "normalizeDiskStorages sample_choices = Inr ?choices" "distinct (map pd_key sample_disks)"
    "storage_ident ''slow''" "storage_ident ''local''" "storage_ident ''nfs''" "storage_ident ''zfs''" by code_simp+
  have "final_place (planStorageMapping (resolveDiskTargets sample_disks ''slow'' ?choices) ''slow'' [''local'', ''nfs''])
      (pd_key ?d) ''local'' = Some (picked ''slow'' ?choices (pd_key ?d))"
    by (rule every_disk_lands_where_sent [OF facts(1,2)]) (simp_all add: facts picked_def sample_disks_def)
  then show ?thesis by (simp add: picked_def)
qed

end
