(* ===== verification/Provision_Quota.thy ===== *)
theory Provision_Quota
  imports Js_Map Json Node_Ref Complex_Main
begin

text \<open>
  Quotas (\<open>utils/quota.ts\<close>, \<open>utils/provisionIntent.ts\<close>): what a user holds - the assigned machines as
  Proxmox lists them, their recorded allocations and the provisioning jobs still on their way - and whether a
  request fits into the limits of the user or of the role. Amounts are exact rational numbers of gigabytes.
\<close>

section \<open>Intents of provisioning jobs\<close>

datatype pa_state = Pending_alloc | Owned_alloc | Released_alloc

record allocation =
  pa_user :: "int option"
  pa_createdBy :: string
  pa_cores :: int
  pa_memoryMb :: int
  pa_diskGb :: int
  pa_state :: pa_state
  pa_ownedAt :: "int option"
  pa_marker :: "string option"

definition alloc_state_of :: "json \<Rightarrow> pa_state option" where
  "alloc_state_of v = (if v = JStr ''pending'' then Some Pending_alloc else if v = JStr ''owned'' then Some Owned_alloc
     else if v = JStr ''released'' then Some Released_alloc else None)"

definition reserve_step :: "json list \<Rightarrow> json" where
  \<comment> \<open>\<open>steps.find(step => step?.key === 'reserve')\<close>\<close>
  "reserve_step steps = (case find (\<lambda>s. js_get s ''key'' = JStr ''reserve'') steps of Some s \<Rightarrow> s | None \<Rightarrow> JUndef)"

definition alloc_user :: "json \<Rightarrow> int option option" where
  \<comment> \<open>outside: whether the user id is acceptable\<close>
  "alloc_user v = (case v of JNull \<Rightarrow> Some None | JNum n \<Rightarrow> if 0 < n then Some (Some n) else None | _ \<Rightarrow> None)"

definition alloc_amount :: "json \<Rightarrow> int option" where
  "alloc_amount v = (case v of JNum n \<Rightarrow> if 0 \<le> n then Some n else None | _ \<Rightarrow> None)"

definition text_value :: "json \<Rightarrow> string option" where
  "text_value v = (case v of JStr s \<Rightarrow> Some s | _ \<Rightarrow> None)"

definition read_allocation :: "json \<Rightarrow> allocation option" where
  "read_allocation a =
     (if js_get a ''version'' \<noteq> JNum 1 then None
      else Option.bind (alloc_state_of (js_get a ''state'')) (\<lambda>st.
           Option.bind (alloc_user (js_get a ''userId'')) (\<lambda>u.
           Option.bind (text_value (js_get a ''createdBy'')) (\<lambda>by.
           Option.bind (alloc_amount (js_get a ''cores'')) (\<lambda>c.
           Option.bind (alloc_amount (js_get a ''memoryMb'')) (\<lambda>m.
           Option.bind (alloc_amount (js_get a ''diskGb'')) (\<lambda>d.
             Some \<lparr>pa_user = u, pa_createdBy = by, pa_cores = c, pa_memoryMb = m, pa_diskGb = d, pa_state = st,
                   pa_ownedAt = (case js_get a ''ownedAt'' of JNum n \<Rightarrow> Some n | _ \<Rightarrow> None),
                   pa_marker = text_value (js_get a ''marker'')\<rparr>)))))))"

definition provisionAllocation :: "json \<Rightarrow> allocation option" where
  "provisionAllocation steps =
     (case steps of JArr ss \<Rightarrow> read_allocation (js_get (reserve_step ss) ''allocation'') | _ \<Rightarrow> None)"

lemma alloc_amount_Some: "alloc_amount v = Some n \<Longrightarrow> 0 \<le> n \<and> v = JNum n"
  by (cases v) (auto simp: alloc_amount_def split: if_splits)

lemma provisionAllocation_amounts:
  "provisionAllocation steps = Some a \<Longrightarrow> 0 \<le> pa_cores a \<and> 0 \<le> pa_memoryMb a \<and> 0 \<le> pa_diskGb a"
  by (cases steps) (auto simp: provisionAllocation_def read_allocation_def bind_eq_Some_conv dest: alloc_amount_Some split: if_splits)

section \<open>Usage\<close>

record resource_allocation =
  rs_cores :: int
  rs_memoryMb :: int
  rs_diskGb :: rat

record assignment =
  as_id :: int
  as_user :: int
  as_node :: string
  as_vmid :: int
  as_allocation :: "resource_allocation option"

record job =
  jb_id :: int
  jb_user :: int
  jb_node :: string
  jb_vmid :: int
  jb_name :: string
  jb_source :: string
  jb_steps :: json
  jb_status :: string
  jb_detail :: string
  jb_upid :: string

record limits =
  lm_cores :: "int option"
  lm_memoryGb :: "int option"
  lm_storageGb :: "int option"

record quota_user =
  qu_id :: int
  qu_admin :: bool
  qu_role :: "int option"
  qu_limits :: limits

record quota_db =
  q_users :: "quota_user list"
  q_roles :: "(int \<times> limits) list"
  q_assignments :: "assignment list"
  q_jobs :: "job list"
  q_next :: int

record quota_vm =
  qv_vmid :: int
  qv_maxcpu :: "int option"
  qv_maxmem :: "int option"
  qv_maxdisk :: "int option"

record resource_usage =
  ru_cores :: rat
  ru_memoryGb :: rat
  ru_diskGb :: rat
  ru_count :: nat

definition GB :: int where
  "GB = 1024 ^ 3"

definition or_zero :: "int option \<Rightarrow> rat" where
  "or_zero n = (case n of Some k \<Rightarrow> of_int k | None \<Rightarrow> 0)"

definition live_usage :: "quota_vm \<Rightarrow> resource_usage" where
  "live_usage v = \<lparr>ru_cores = or_zero (qv_maxcpu v), ru_memoryGb = or_zero (qv_maxmem v) / of_int GB,
     ru_diskGb = or_zero (qv_maxdisk v) / of_int GB, ru_count = 1\<rparr>"

definition at_least :: "rat \<Rightarrow> rat \<Rightarrow> rat \<Rightarrow> resource_usage option \<Rightarrow> resource_usage" where
  \<comment> \<open>a floor under what is already counted for the machine\<close>
  "at_least cores memoryGb diskGb current =
     \<lparr>ru_cores = max cores (case current of Some u \<Rightarrow> ru_cores u | None \<Rightarrow> 0),
      ru_memoryGb = max memoryGb (case current of Some u \<Rightarrow> ru_memoryGb u | None \<Rightarrow> 0),
      ru_diskGb = max diskGb (case current of Some u \<Rightarrow> ru_diskGb u | None \<Rightarrow> 0), ru_count = 1\<rparr>"

definition more_disk :: "rat \<Rightarrow> resource_usage option \<Rightarrow> resource_usage" where
  "more_disk diskGb current =
     \<lparr>ru_cores = (case current of Some u \<Rightarrow> ru_cores u | None \<Rightarrow> 0),
      ru_memoryGb = (case current of Some u \<Rightarrow> ru_memoryGb u | None \<Rightarrow> 0),
      ru_diskGb = max diskGb (case current of Some u \<Rightarrow> ru_diskGb u | None \<Rightarrow> 0), ru_count = 1\<rparr>"

definition JOB_STATUSES :: "string list" where
  "JOB_STATUSES = [''submitting'', ''creating'', ''cloning'', ''configuring'', ''needs_review'', ''timeout'', ''ready'', ''warning'']"

definition assigned_to :: "int \<Rightarrow> quota_db \<Rightarrow> assignment list" where
  "assigned_to u db = filter (\<lambda>a. as_user a = u) (q_assignments db)"

definition live_part :: "int list \<Rightarrow> quota_vm list \<Rightarrow> (int \<times> resource_usage) list" where
  "live_part vmids vms = map_update qv_vmid (\<lambda>_ v. live_usage v) [] (filter (\<lambda>v. qv_vmid v \<in> set vmids) vms)"

definition floor_part :: "assignment list \<Rightarrow> (int \<times> resource_usage) list \<Rightarrow> (int \<times> resource_usage) list" where
  "floor_part assignments m =
     foldl (\<lambda>m a. case as_allocation a of
        None \<Rightarrow> m
      | Some f \<Rightarrow> map_set (as_vmid a)
          (at_least (of_int (rs_cores f)) (of_int (rs_memoryMb f) / 1024) (rs_diskGb f) (map_of m (as_vmid a))) m) m assignments"

definition counted_job :: "int \<Rightarrow> assignment list \<Rightarrow> job \<Rightarrow> allocation option" where
  \<comment> \<open>the intent of a job that is charged to the user\<close>
  "counted_job u assignments j =
     (case provisionAllocation (jb_steps j) of
        None \<Rightarrow> None
      | Some a \<Rightarrow>
          if pa_user a \<noteq> Some u \<or> pa_state a = Released_alloc then None
          else if pa_state a = Owned_alloc \<and> jb_vmid j \<notin> as_vmid ` set assignments then None
          else if pa_state a = Owned_alloc \<and> (\<exists>x \<in> set assignments. as_vmid x = jb_vmid j \<and> as_allocation x \<noteq> None) then None
          else Some a)"

definition job_part :: "int \<Rightarrow> assignment list \<Rightarrow> job list \<Rightarrow> (int \<times> resource_usage) list \<Rightarrow> (int \<times> resource_usage) list" where
  "job_part u assignments jobs m =
     foldl (\<lambda>m j. case counted_job u assignments j of
        None \<Rightarrow> m
      | Some a \<Rightarrow> map_set (if jb_vmid j \<noteq> 0 then jb_vmid j else - jb_id j)
          (at_least (of_int (pa_cores a)) (of_int (pa_memoryMb a) / 1024) (of_int (pa_diskGb a)) (map_of m (jb_vmid j))) m) m jobs"

definition disk_part :: "assignment list \<Rightarrow> (int \<times> rat) option \<Rightarrow> (int \<times> resource_usage) list \<Rightarrow> (int \<times> resource_usage) list" where
  "disk_part assignments diskFloor m =
     (case diskFloor of
        Some (vmid, diskGb) \<Rightarrow>
          if vmid \<in> as_vmid ` set assignments then map_set vmid (more_disk diskGb (map_of m vmid)) m else m
      | None \<Rightarrow> m)"

definition total_usage :: "(int \<times> resource_usage) list \<Rightarrow> resource_usage" where
  "total_usage m = \<lparr>ru_cores = sum_list (map (ru_cores \<circ> snd) m), ru_memoryGb = sum_list (map (ru_memoryGb \<circ> snd) m),
     ru_diskGb = sum_list (map (ru_diskGb \<circ> snd) m), ru_count = sum_list (map (ru_count \<circ> snd) m)\<rparr>"

definition getUserResourceUsage :: "int \<Rightarrow> quota_db \<Rightarrow> quota_vm list \<Rightarrow> (int \<times> rat) option \<Rightarrow> resource_usage" where
  "getUserResourceUsage u db vms diskFloor =
     (let assignments = assigned_to u db; jobs = filter (\<lambda>j. jb_status j \<in> set JOB_STATUSES) (q_jobs db) in
      total_usage (disk_part assignments diskFloor (job_part u assignments jobs
        (floor_part assignments (live_part (map as_vmid assignments) vms)))))"

section \<open>Limits\<close>

definition coalesced :: "'a option \<Rightarrow> 'a option \<Rightarrow> 'a option" where
  "coalesced a b = (case a of Some x \<Rightarrow> Some x | None \<Rightarrow> b)"

definition no_limits :: limits where
  "no_limits = \<lparr>lm_cores = None, lm_memoryGb = None, lm_storageGb = None\<rparr>"

definition getUserQuota :: "int \<Rightarrow> quota_db \<Rightarrow> (bool \<times> limits) option" where
  "getUserQuota u db =
     (case find (\<lambda>x. qu_id x = u) (q_users db) of
        None \<Rightarrow> None
      | Some x \<Rightarrow>
          let own = qu_limits x;
              role = (case qu_role x of Some r \<Rightarrow> (case map_of (q_roles db) r of Some l \<Rightarrow> l | None \<Rightarrow> no_limits) | None \<Rightarrow> no_limits)
          in Some (qu_admin x, \<lparr>lm_cores = coalesced (lm_cores own) (lm_cores role),
               lm_memoryGb = coalesced (lm_memoryGb own) (lm_memoryGb role),
               lm_storageGb = coalesced (lm_storageGb own) (lm_storageGb role)\<rparr>))"

definition over :: "int option \<Rightarrow> rat \<Rightarrow> bool" where
  "over limit amount = (case limit of Some l \<Rightarrow> amount > of_int l | None \<Rightarrow> False)"

record quota_request =
  qr_cores :: rat
  qr_memoryMb :: rat
  qr_diskGb :: rat

definition assertUserQuota ::
  "int \<Rightarrow> quota_request \<Rightarrow> quota_db \<Rightarrow> quota_vm list \<Rightarrow> (int \<times> rat) option \<Rightarrow> http_error + unit" where
  \<comment> \<open>the numbers of the messages are left out\<close>
  "assertUserQuota u req db vms diskFloor =
     (case getUserQuota u db of
        None \<Rightarrow> Inr ()
      | Some (admin, l) \<Rightarrow>
          if admin \<or> l = no_limits then Inr ()
          else let usage = getUserResourceUsage u db vms diskFloor in
            if over (lm_cores l) (ru_cores usage + qr_cores req) then Inl (httpError 403 ''CPU quota exceeded'')
            else if over (lm_memoryGb l) (ru_memoryGb usage + qr_memoryMb req / 1024) then Inl (httpError 403 ''Memory quota exceeded'')
            else if over (lm_storageGb l) (ru_diskGb usage + qr_diskGb req) then Inl (httpError 403 ''Storage quota exceeded'')
            else Inr ())"

definition vmQuotaUserId :: "string \<Rightarrow> int \<Rightarrow> int \<Rightarrow> quota_db \<Rightarrow> http_error + int" where
  "vmQuotaUserId node vmid fallback db =
     (let candidates = nodeLookupCandidates node;
          owners = map as_user (filter (\<lambda>a. as_vmid a = vmid \<and> as_node a \<in> set candidates) (q_assignments db))
      in if candidates = [] then Inr fallback
         else if length (remdups owners) > 1
         then Inl (httpError 409 ''This VM has conflicting owner assignments; an administrator must resolve them'')
         else Inr (case owners of owner # _ \<Rightarrow> owner | [] \<Rightarrow> fallback))"

section \<open>Disks of a configuration\<close>

definition decimal_value :: "string \<Rightarrow> rat option" where
  \<comment> \<open>digits, with an optional fraction\<close>
  "decimal_value s =
     (let whole = takeWhile is_digit s; rest = dropWhile is_digit s in
      if whole = [] then None
      else if rest = [] then Some (of_nat (nat_of_digits whole))
      else if hd rest = CHR ''.'' \<and> all_digits (tl rest)
      then Some (of_nat (nat_of_digits whole) + of_nat (nat_of_digits (tl rest)) / 10 ^ length (tl rest)) else None)"

definition sizeToGb :: "string \<Rightarrow> rat option" where
  "sizeToGb s =
     (if s = [] then None
      else case decimal_value (butlast s) of
             None \<Rightarrow> None
           | Some n \<Rightarrow> (let u = to_lower (last s) in
               if u = CHR ''m'' then Some (n / 1024) else if u = CHR ''t'' then Some (n * 1024)
               else if u = CHR ''g'' then Some n else None))"

definition disk_slot :: "string \<Rightarrow> bool" where
  "disk_slot k = (\<exists>p \<in> set [''scsi'', ''virtio'', ''sata'', ''ide'', ''efidisk'', ''tpmstate''].
     starts_with p k \<and> all_digits (drop (length p) k))"

definition has_substring :: "string \<Rightarrow> string \<Rightarrow> bool" where
  \<comment> \<open>\<open>s.includes(t)\<close>\<close>
  "has_substring t s = (\<exists>i \<in> set [0..<Suc (length s)]. starts_with t (drop i s))"

definition option_size :: "string \<Rightarrow> rat option" where
  "option_size value =
     (case find (starts_with ''size='') (split_on CHR '','' value) of Some opt \<Rightarrow> sizeToGb (drop 5 opt) | None \<Rightarrow> None)"

fun measureConfigDisks :: "(string \<times> json) list \<Rightarrow> (string \<times> rat) list \<times> nat" where
  \<comment> \<open>the measured disks, and how many have no usable size\<close>
  "measureConfigDisks [] = ([], 0)"
| "measureConfigDisks ((key, JStr value) # rest) =
     (let (disks, unmeasured) = measureConfigDisks rest; options = split_on CHR '','' value; volume = hd options in
      if \<not> disk_slot key \<or> volume = ''none'' \<or> has_substring ''cloudinit'' volume \<or> ''media=cdrom'' \<in> set options
      then (disks, unmeasured)
      else case option_size value of
             Some gb \<Rightarrow> if gb \<le> 0 then (disks, unmeasured + 1) else ((key, gb) # disks, unmeasured)
           | None \<Rightarrow> (disks, unmeasured + 1))"
| "measureConfigDisks (_ # rest) = measureConfigDisks rest"

definition configDiskGb :: "(string \<times> json) list \<Rightarrow> rat \<times> bool" where
  "configDiskGb config = (let (disks, unmeasured) = measureConfigDisks config in (sum_list (map snd disks), unmeasured = 0))"

definition cloneDiskAllocation :: "(string \<times> json) list \<Rightarrow> rat \<Rightarrow> http_error + rat \<times> string option" where
  "cloneDiskAllocation config requestedGb =
     (if requestedGb \<le> 0 then Inl (httpError 400 ''Invalid clone disk size'')
      else let (disks, unmeasured) = measureConfigDisks config in
        if unmeasured > 0 then Inl (httpError 503 ''Cannot determine the template disk size safely'')
        else if disks = [] then Inl (httpError 503 ''The template has no measurable clone disks'')
        else
          let primary = (if ''scsi0'' \<in> fst ` set disks then Some ''scsi0'' else if ''virtio0'' \<in> fst ` set disks then Some ''virtio0'' else None);
              growth = (case primary of Some p \<Rightarrow> max 0 (requestedGb - the (map_of disks p)) | None \<Rightarrow> 0)
          in Inr (sum_list (map snd disks) + growth, if growth > 0 then primary else None))"

section \<open>Hardware edits\<close>

record hardware_update =
  hu_cores :: "int option"
  hu_memoryMb :: "int option"
  hu_addDiskGb :: "rat option"
  hu_config :: "(string \<times> json) list option"

definition number_or_one :: "json \<Rightarrow> int" where
  \<comment> \<open>\<open>Number(x) || 1\<close>\<close>
  "number_or_one v = (case to_num v of JNum n \<Rightarrow> if n = 0 then 1 else n | _ \<Rightarrow> 1)"

definition seeded_allocation :: "(string \<times> json) list option \<Rightarrow> resource_allocation" where
  "seeded_allocation config =
     (let c = (case config of Some kvs \<Rightarrow> JObj kvs | None \<Rightarrow> JUndef); memory = js_get c ''memory'' in
      \<lparr>rs_cores = number_or_one (js_get c ''sockets'') * number_or_one (js_get c ''cores''),
       rs_memoryMb = (if nullish memory then 0 else case parse_int (to_str memory) of Some n \<Rightarrow> n | None \<Rightarrow> 0), rs_diskGb = 0\<rparr>)"

definition edited_allocation :: "hardware_update \<Rightarrow> resource_allocation option \<Rightarrow> resource_allocation option" where
  \<comment> \<open>\<open>None\<close>: the row is left alone\<close>
  "edited_allocation up prev =
     (let add = (case hu_addDiskGb up of Some d \<Rightarrow> max 0 d | None \<Rightarrow> 0);
          measured = (case hu_config up of Some kvs \<Rightarrow> if add > 0 then fst (configDiskGb kvs) else 0 | None \<Rightarrow> 0) in
      if prev = None \<and> add = 0 then None
      else
        let base = (case prev of Some p \<Rightarrow> p | None \<Rightarrow> seeded_allocation (hu_config up)) in
        Some \<lparr>rs_cores = (case hu_cores up of Some c \<Rightarrow> c | None \<Rightarrow> rs_cores base),
              rs_memoryMb = (case hu_memoryMb up of Some m \<Rightarrow> m | None \<Rightarrow> rs_memoryMb base),
              rs_diskGb = (if add > 0 then max (rs_diskGb base) measured + add else rs_diskGb base)\<rparr>)"

definition refreshHardwareAllocation :: "string \<Rightarrow> int \<Rightarrow> hardware_update \<Rightarrow> quota_db \<Rightarrow> quota_db" where
  "refreshHardwareAllocation node vmid up db =
     (let candidates = nodeLookupCandidates node;
          here = \<lambda>a. as_vmid a = vmid \<and> as_node a \<in> set candidates;
          rows = filter here (q_assignments db)
      in if candidates = [] \<or> length (remdups (map as_user rows)) > 1 then db
         else db\<lparr>q_assignments := map (\<lambda>a. if here a
                then (case edited_allocation up (as_allocation a) of Some f \<Rightarrow> a\<lparr>as_allocation := Some f\<rparr> | None \<Rightarrow> a) else a)
              (q_assignments db)\<rparr>)"

section \<open>A job more\<close>

definition add_usage :: "allocation \<Rightarrow> resource_usage \<Rightarrow> resource_usage" where
  "add_usage a u = \<lparr>ru_cores = ru_cores u + of_int (pa_cores a), ru_memoryGb = ru_memoryGb u + of_int (pa_memoryMb a) / 1024,
     ru_diskGb = ru_diskGb u + of_int (pa_diskGb a), ru_count = ru_count u + 1\<rparr>"

lemma map_set_new: "k \<notin> fst ` set m \<Longrightarrow> map_set k v m = m @ [(k, v)]"
  by (induction m) auto

lemma total_usage_append: "total_usage (m @ [(k, at_least c mem d None)]) =
   \<lparr>ru_cores = ru_cores (total_usage m) + max c 0, ru_memoryGb = ru_memoryGb (total_usage m) + max mem 0,
    ru_diskGb = ru_diskGb (total_usage m) + max d 0, ru_count = ru_count (total_usage m) + 1\<rparr>"
  by (simp add: total_usage_def at_least_def)

lemma keys_map_set_subset: "fst ` set (map_set k v m) = insert k (fst ` set m)"
  using keys_map_set [of k v m] by (metis image_set insert_absorb set_append Un_insert_right list.simps(15) list.set(1) sup_bot_right)

lemma live_part_keys: "fst ` set (live_part vmids vms) \<subseteq> set vmids"
  by (auto simp: live_part_def set_keys_map_update)

lemma floor_part_keys: "fst ` set (floor_part as m) \<subseteq> fst ` set m \<union> as_vmid ` set as"
proof (induction as arbitrary: m)
  case (Cons a as)
  show ?case
  proof (cases "as_allocation a")
    case None
    with Cons.IH [of m] show ?thesis by (auto simp: floor_part_def)
  next
    case (Some f)
    let ?m = "map_set (as_vmid a) (at_least (of_int (rs_cores f)) (of_int (rs_memoryMb f) / 1024) (rs_diskGb f) (map_of m (as_vmid a))) m"
    have "floor_part (a # as) m = floor_part as ?m" by (simp add: floor_part_def Some)
    with Cons.IH [of ?m] show ?thesis by (auto simp: keys_map_set_subset)
  qed
qed (simp add: floor_part_def)

definition job_key :: "job \<Rightarrow> int" where
  "job_key j = (if jb_vmid j \<noteq> 0 then jb_vmid j else - jb_id j)"

lemma job_part_keys: "fst ` set (job_part u as js m) \<subseteq> fst ` set m \<union> job_key ` set js"
proof (induction js arbitrary: m)
  case (Cons j js)
  show ?case
  proof (cases "counted_job u as j")
    case None
    with Cons.IH [of m] show ?thesis by (auto simp: job_part_def)
  next
    case (Some a)
    let ?m = "map_set (job_key j) (at_least (of_int (pa_cores a)) (of_int (pa_memoryMb a) / 1024) (of_int (pa_diskGb a)) (map_of m (jb_vmid j))) m"
    have "job_part u as (j # js) m = job_part u as js ?m" by (simp add: job_part_def Some job_key_def)
    with Cons.IH [of ?m] show ?thesis by (auto simp: keys_map_set_subset)
  qed
qed (simp add: job_part_def)

definition sound_ids :: "quota_db \<Rightarrow> bool" where
  \<comment> \<open>ids of rows and machines are positive, a machine without an id has 0, and the next id is new\<close>
  "sound_ids db \<longleftrightarrow> (\<forall>a \<in> set (q_assignments db). 0 < as_vmid a) \<and> 0 < q_next db
     \<and> (\<forall>j \<in> set (q_jobs db). 0 \<le> jb_vmid j \<and> 0 < jb_id j \<and> jb_id j < q_next db)"

lemma job_key_new:
  assumes "sound_ids db" "j \<in> set (q_jobs db)"
  shows "job_key j \<noteq> 0 \<and> job_key j \<noteq> - q_next db"
proof -
  have "0 \<le> jb_vmid j" "0 < jb_id j" "jb_id j < q_next db" using assms by (simp_all add: sound_ids_def)
  then show ?thesis by (cases "jb_vmid j = 0") (simp_all add: job_key_def)
qed

lemma assigned_key_new: "sound_ids db \<Longrightarrow> a \<in> set (assigned_to u db) \<Longrightarrow> as_vmid a \<noteq> 0 \<and> as_vmid a \<noteq> - q_next db"
  by (fastforce simp: sound_ids_def assigned_to_def)

lemma usage_with_job:
  assumes "sound_ids db" "jb_id j = q_next db" "jb_vmid j = 0" "jb_status j \<in> set JOB_STATUSES"
    and "provisionAllocation (jb_steps j) = Some a" "pa_state a = Pending_alloc"
  shows "getUserResourceUsage u (db\<lparr>q_jobs := q_jobs db @ [j], q_next := q_next db + 1\<rparr>) vms None
    = (if pa_user a = Some u then add_usage a (getUserResourceUsage u db vms None) else getUserResourceUsage u db vms None)"
proof -
  let ?as = "assigned_to u db"
  let ?js = "filter (\<lambda>j. jb_status j \<in> set JOB_STATUSES) (q_jobs db)"
  let ?m = "job_part u ?as ?js (floor_part ?as (live_part (map as_vmid ?as) vms))"
  have "fst ` set ?m \<subseteq> as_vmid ` set ?as \<union> job_key ` set ?js"
    by (rule subset_trans [OF job_part_keys]) (use floor_part_keys [of ?as] live_part_keys [of "map as_vmid ?as" vms] in \<open>unfold set_map, blast\<close>)
  moreover have "k \<noteq> 0 \<and> k \<noteq> - q_next db" if "k \<in> as_vmid ` set ?as \<union> job_key ` set ?js" for k
    using that job_key_new [OF assms(1)] assigned_key_new [OF assms(1)] by auto
  ultimately have new: "0 \<notin> fst ` set ?m" "- q_next db \<notin> fst ` set ?m" by blast+
  have "0 \<le> pa_cores a \<and> 0 \<le> pa_memoryMb a \<and> 0 \<le> pa_diskGb a"
    using assms(5) by (rule provisionAllocation_amounts)
  then have amounts: "max (of_int (pa_cores a)) (0 :: rat) = of_int (pa_cores a)"
    "max (of_int (pa_memoryMb a) / 1024) (0 :: rat) = of_int (pa_memoryMb a) / 1024"
    "max (of_int (pa_diskGb a)) (0 :: rat) = of_int (pa_diskGb a)" by simp_all
  have old: "getUserResourceUsage u db vms None = total_usage ?m"
    by (simp add: getUserResourceUsage_def Let_def disk_part_def)
  have "getUserResourceUsage u (db\<lparr>q_jobs := q_jobs db @ [j], q_next := q_next db + 1\<rparr>) vms None
      = total_usage (job_part u ?as (?js @ [j]) (floor_part ?as (live_part (map as_vmid ?as) vms)))"
    using assms(4) by (simp add: getUserResourceUsage_def Let_def disk_part_def assigned_to_def)
  also have "job_part u ?as (?js @ [j]) (floor_part ?as (live_part (map as_vmid ?as) vms))
      = (if pa_user a = Some u then ?m @ [(- q_next db, at_least (of_int (pa_cores a)) (of_int (pa_memoryMb a) / 1024) (of_int (pa_diskGb a)) None)]
         else ?m)"
    using assms(2,3,5,6) new by (simp add: job_part_def counted_job_def map_set_new map_of_eq_None_iff [THEN iffD2])
  finally show ?thesis by (simp add: old total_usage_append amounts add_usage_def)
qed

end
