(* ===== verification/Provisioning.thy ===== *)
theory Provisioning
  imports Provision_Quota Vm_Leases
begin

text \<open>
  The durable part of a deployment (\<open>services/provisionOwnership.ts\<close>, \<open>services/provisionFailure.ts\<close>): the
  job row that reserves the resources of a new machine under the quota lock of its owner, the id that
  Proxmox gives it, and the transaction that turns the job into an assignment and a lease of the intended
  owner. What Proxmox answers, and what other transactions commit between the first read and the transaction
  of the owner, are parameters.
\<close>

section \<open>Intents as JSON\<close>

definition state_text :: "pa_state \<Rightarrow> string" where
  "state_text st = (case st of Pending_alloc \<Rightarrow> ''pending'' | Owned_alloc \<Rightarrow> ''owned'' | Released_alloc \<Rightarrow> ''released'')"

definition allocation_json :: "allocation \<Rightarrow> json" where
  "allocation_json a = JObj
     ([(''userId'', case pa_user a of Some u \<Rightarrow> JNum u | None \<Rightarrow> JNull), (''createdBy'', JStr (pa_createdBy a)),
       (''cores'', JNum (pa_cores a)), (''memoryMb'', JNum (pa_memoryMb a)), (''diskGb'', JNum (pa_diskGb a))]
      @ (case pa_ownedAt a of Some n \<Rightarrow> [(''ownedAt'', JNum n)] | None \<Rightarrow> [])
      @ (case pa_marker a of Some s \<Rightarrow> [(''marker'', JStr s)] | None \<Rightarrow> [])
      @ [(''version'', JNum 1), (''state'', JStr (state_text (pa_state a)))])"

definition set_prop :: "string \<Rightarrow> json \<Rightarrow> json \<Rightarrow> json" where
  "set_prop k v j = (case j of JObj kvs \<Rightarrow> JObj (map_set k v kvs) | _ \<Rightarrow> j)"

fun on_reserve :: "(json \<Rightarrow> json) \<Rightarrow> json list \<Rightarrow> json list" where
  \<comment> \<open>change the step that \<open>steps.find(step => step.key === 'reserve')\<close> returns\<close>
  "on_reserve f [] = []"
| "on_reserve f (s # ss) = (if js_get s ''key'' = JStr ''reserve'' then f s # ss else s # on_reserve f ss)"

definition with_allocation :: "json \<Rightarrow> json \<Rightarrow> json" where
  "with_allocation a steps = (case steps of JArr ss \<Rightarrow> JArr (on_reserve (set_prop ''allocation'' a) ss) | _ \<Rightarrow> steps)"

section \<open>Submission\<close>

record submit_error =
  se_notStarted :: bool
  se_definitive :: bool
  se_error :: http_error

record submission =
  \<comment> \<open>the id handed to \<open>onReserved\<close>, and what \<open>submit\<close> returned or threw\<close>
  sb_reserved :: "int option"
  sb_result :: "submit_error + int \<times> string option"

definition quota_user_of :: "job \<Rightarrow> allocation \<Rightarrow> int" where
  "quota_user_of row intent = (case pa_user intent of Some u \<Rightarrow> u | None \<Rightarrow> jb_user row)"

definition requested :: "allocation \<Rightarrow> quota_request" where
  "requested a = \<lparr>qr_cores = of_int (pa_cores a), qr_memoryMb = of_int (pa_memoryMb a), qr_diskGb = of_int (pa_diskGb a)\<rparr>"

definition submit_reserve :: "job \<Rightarrow> allocation \<Rightarrow> string \<Rightarrow> quota_vm list \<Rightarrow> quota_db \<Rightarrow> (http_error + int) \<times> quota_db" where
  \<comment> \<open>the transaction under the quota lock\<close>
  "submit_reserve row intent marker vms db =
     (let quotaUser = quota_user_of row intent in
      if \<exists>p \<in> {jb_user row, quotaUser}. find (\<lambda>x. qu_id x = p) (q_users db) = None
      then (Inl (httpError 400 ''The provisioning actor or intended owner no longer exists''), db)
      else case assertUserQuota quotaUser (requested intent) db vms None of
             Inl e \<Rightarrow> (Inl e, db)
           | Inr _ \<Rightarrow>
               if nullish (reserve_step (elements (jb_steps row)))
               then (Inl (httpError 500 ''Provisioning reservation step is missing''), db)
               else
                 let a = intent\<lparr>pa_marker := Some marker, pa_state := Pending_alloc\<rparr>;
                     j = row\<lparr>jb_id := q_next db, jb_steps := with_allocation (allocation_json a) (jb_steps row),
                             jb_vmid := 0, jb_status := ''submitting''\<rparr>
                 in (Inr (q_next db), db\<lparr>q_jobs := q_jobs db @ [j], q_next := q_next db + 1\<rparr>))"

definition update_job :: "(job \<Rightarrow> bool) \<Rightarrow> (job \<Rightarrow> job) \<Rightarrow> quota_db \<Rightarrow> quota_db" where
  "update_job P f db = db\<lparr>q_jobs := snd (update_where P f (q_jobs db))\<rparr>"

definition submit_rejected :: "bool \<Rightarrow> submit_error \<Rightarrow> bool" where
  "submit_rejected prepared e = (\<not> prepared \<or> se_notStarted e \<or> se_definitive e)"

definition submitProvision ::
  "job \<Rightarrow> allocation \<Rightarrow> string \<Rightarrow> quota_vm list \<Rightarrow> submission \<Rightarrow> quota_db \<Rightarrow> (http_error + int \<times> int \<times> string option) \<times> quota_db" where
  "submitProvision row intent marker vms sub db =
     (if provisionAllocation (JArr [JObj [(''key'', JStr ''reserve''), (''allocation'', allocation_json (intent\<lparr>pa_state := Pending_alloc\<rparr>))]]) = None
      then (Inl (httpError 400 ''Invalid provisioning owner or resource allocation''), db)
      else case transaction (submit_reserve row intent marker vms) db of
             (Inl e, db1) \<Rightarrow> (Inl e, db1)
           | (Inr pid, db1) \<Rightarrow>
               let db2 = (case sb_reserved sub of Some v \<Rightarrow> update_job (\<lambda>j. jb_id j = pid) (\<lambda>j. j\<lparr>jb_vmid := v\<rparr>) db1 | None \<Rightarrow> db1) in
               case sb_result sub of
                 Inl e \<Rightarrow>
                   let rejected = submit_rejected (sb_reserved sub \<noteq> None) e in
                   (Inl (se_error e), update_job (\<lambda>j. jb_id j = pid)
                      (\<lambda>j. j\<lparr>jb_status := (if rejected then ''error'' else ''needs_review''),
                             jb_detail := (if rejected then ''Submission did not start or was rejected upstream''
                               else ''Submission outcome is unknown'')\<rparr>) db2)
               | Inr (vmid, upid) \<Rightarrow>
                   (Inr (pid, vmid, upid), update_job (\<lambda>j. jb_id j = pid)
                      (\<lambda>j. j\<lparr>jb_vmid := vmid, jb_upid := (case upid of Some u \<Rightarrow> u | None \<Rightarrow> []), jb_status := jb_status row\<rparr>) db2))"

definition assertUserCanBeDeleted :: "int \<Rightarrow> quota_db \<Rightarrow> http_error + unit" where
  "assertUserCanBeDeleted u db =
     (if \<exists>j \<in> set (q_jobs db). jb_status j \<in> {''submitting'', ''creating'', ''cloning'', ''configuring'', ''needs_review'', ''timeout''}
           \<and> (jb_user j = u \<or> (case provisionAllocation (jb_steps j) of Some a \<Rightarrow> pa_user a = Some u | None \<Rightarrow> False))
      then Inl (httpError 409 ''Resolve pending provisioning operations before deleting this actor or intended VM owner'') else Inr ())"

definition recordBackgroundProvisionFailure :: "int \<Rightarrow> string \<Rightarrow> quota_db \<Rightarrow> quota_db" where
  "recordBackgroundProvisionFailure pid detail db =
     update_job (\<lambda>j. jb_id j = pid \<and> jb_status j \<in> {''cloning'', ''creating'', ''configuring''})
       (\<lambda>j. j\<lparr>jb_status := ''needs_review'', jb_detail := ''Background provisioning failed: '' @ detail\<rparr>) db"

section \<open>Ownership\<close>

record prov_db =
  pv_quota :: quota_db
  pv_leases :: lease_db

record manual_recovery =
  mr_operator :: int
  mr_evidence :: string
  mr_verifiedAt :: string

record own_env =
  oe_task :: "http_error + string \<times> string"
  oe_config :: "http_error + json"
  oe_others :: "prov_db \<Rightarrow> prov_db"
  oe_clock :: clock

definition conflict :: "string \<Rightarrow> http_error" where
  "conflict = httpError 409"

definition recovery_check :: "own_env \<Rightarrow> job \<Rightarrow> allocation \<Rightarrow> string option \<Rightarrow> manual_recovery option \<Rightarrow> http_error + unit" where
  \<comment> \<open>before an interrupted job may recover its owner\<close>
  "recovery_check env saved intent resolved manual =
     (if jb_source saved \<noteq> ''create'' then Inl (conflict ''Interrupted clone/image configuration inputs are unavailable'')
      else if jb_status saved \<noteq> ''needs_review'' \<and> jb_status saved \<noteq> ''timeout''
      then Inl (conflict ''Only interrupted provisioning can recover ownership'')
      else bind_err
        (if jb_upid saved \<noteq> []
         then bind_err (oe_task env) (\<lambda>(status, exitstatus).
           if status \<noteq> ''stopped'' \<or> exitstatus \<noteq> ''OK'' then Inl (conflict ''The saved task has not completed successfully'') else Inr ())
         else if manual = None \<or> resolved = None \<or> resolved = Some [] \<or> pa_marker intent = None \<or> pa_marker intent = Some []
         then Inl (conflict ''Admin attestation and a persisted creation marker are required to recover a lost submission response'')
         else Inr ())
        (\<lambda>_. bind_err (oe_config env) (\<lambda>config.
           if js_get config ''name'' \<noteq> JStr (jb_name saved) \<or> jtruthy (js_get config ''lock'')
           then Inl (conflict ''The current VM does not match a completed provisioning operation'')
           else if jb_upid saved = [] \<and> the (pa_marker intent) \<notin>
             set (split_on CHR 0x0A (if jtruthy (js_get config ''description'') then to_str (js_get config ''description'') else []))
           then Inl (conflict ''The VM does not carry the creation marker of this operation'') else Inr ())))"

definition owned_json :: "int \<Rightarrow> allocation \<Rightarrow> manual_recovery option \<Rightarrow> json \<Rightarrow> json" where
  "owned_json now a manual stored =
     (let s = set_prop ''ownedAt'' (JNum (case pa_ownedAt a of Some n \<Rightarrow> n | None \<Rightarrow> now)) (set_prop ''state'' (JStr ''owned'') stored) in
      case manual of
        Some m \<Rightarrow> set_prop ''recovery'' (JObj [(''operatorId'', JNum (mr_operator m)), (''evidence'', JStr (mr_evidence m)),
                                              (''verifiedAt'', JStr (mr_verifiedAt m))]) s
      | None \<Rightarrow> s)"

definition own_steps :: "int \<Rightarrow> allocation \<Rightarrow> manual_recovery option \<Rightarrow> json \<Rightarrow> json" where
  "own_steps now a manual steps =
     (case steps of JArr ss \<Rightarrow> with_allocation (owned_json now a manual (js_get (reserve_step ss) ''allocation'')) steps | _ \<Rightarrow> steps)"

definition assign_owner :: "job \<Rightarrow> allocation \<Rightarrow> quota_db \<Rightarrow> quota_db" where
  "assign_owner row a db =
     (let here = \<lambda>x. as_vmid x = jb_vmid row \<and> as_node x \<in> set (nodeLookupCandidates (jb_node row));
          floor = \<lparr>rs_cores = pa_cores a, rs_memoryMb = pa_memoryMb a, rs_diskGb = of_int (pa_diskGb a)\<rparr> in
      case pa_user a of
        None \<Rightarrow> db
      | Some u \<Rightarrow>
          (case filter here (q_assignments db) of
             [] \<Rightarrow> db\<lparr>q_assignments := q_assignments db @
                    [\<lparr>as_id = q_next db, as_user = u, as_node = jb_node row, as_vmid = jb_vmid row, as_allocation = Some floor\<rparr>],
                    q_next := q_next db + 1\<rparr>
           | x # _ \<Rightarrow> db\<lparr>q_assignments := map (\<lambda>y. if as_id y = as_id x then y\<lparr>as_allocation := Some floor\<rparr> else y) (q_assignments db)\<rparr>))"

definition own_guard ::
  "job \<Rightarrow> allocation \<Rightarrow> bool \<Rightarrow> manual_recovery option \<Rightarrow> quota_db \<Rightarrow> http_error + job \<times> allocation" where
  \<comment> \<open>the checks of the transaction; the row and its intent\<close>
  "own_guard saved intent verified manual db =
     (case find (\<lambda>j. jb_id j = jb_id saved) (q_jobs db) of
        None \<Rightarrow> Inl (conflict ''Provisioning changed during ownership recovery'')
      | Some row \<Rightarrow>
          if jb_upid row \<noteq> jb_upid saved \<or> jb_vmid row \<noteq> jb_vmid saved \<or> verified \<and> jb_status row \<noteq> jb_status saved
          then Inl (conflict ''Provisioning changed during ownership recovery'')
          else if \<not> verified \<and> jb_status row \<notin> {''creating'', ''cloning'', ''configuring'', ''needs_review''}
          then Inl (conflict ''Provisioning is no longer awaiting ownership'')
          else case provisionAllocation (jb_steps row) of
            None \<Rightarrow> Inl (conflict ''Provisioning owner intent changed'')
          | Some a \<Rightarrow>
              if pa_user a \<noteq> pa_user intent \<or> pa_marker a \<noteq> pa_marker intent then Inl (conflict ''Provisioning owner intent changed'')
              else if pa_state a = Released_alloc then Inl (conflict ''This provisioning allocation has been released'')
              else if \<exists>j \<in> set (q_jobs db). jb_vmid j = jb_vmid row \<and> jb_id j > jb_id row
              then Inl (conflict ''A newer provisioning operation uses this VMID; verify ownership manually'')
              else if nodeLookupCandidates (jb_node row) = [] then Inl (conflict ''Provisioning node is missing'')
              else if \<exists>x \<in> set (q_assignments db). as_vmid x = jb_vmid row
                     \<and> as_node x \<in> set (nodeLookupCandidates (jb_node row)) \<and> Some (as_user x) \<noteq> pa_user a
              then Inl (conflict ''This VM already has a different owner; verify ownership manually'')
              else (case manual of
                      Some m \<Rightarrow>
                        if (case find (\<lambda>x. qu_id x = mr_operator m) (q_users db) of Some x \<Rightarrow> \<not> qu_admin x | None \<Rightarrow> True)
                           \<or> length (js_trim (mr_evidence m)) < 10
                        then Inl (httpError 403 ''Administrator verification evidence is required'') else Inr (row, a)
                    | None \<Rightarrow> Inr (row, a)))"

definition own_transaction ::
  "clock \<Rightarrow> job \<Rightarrow> allocation \<Rightarrow> bool \<Rightarrow> string option \<Rightarrow> manual_recovery option \<Rightarrow> prov_db \<Rightarrow> (http_error + unit) \<times> prov_db" where
  "own_transaction ck saved intent verified resolved manual db =
     (case own_guard saved intent verified manual (pv_quota db) of
        Inl e \<Rightarrow> (Inl e, db)
      | Inr (row, a) \<Rightarrow>
          let q1 = assign_owner row a (pv_quota db);
              (lease, l1) = createLeaseRow ck (jb_node row) (jb_vmid row) (pa_createdBy a) None (pv_leases db);
              q2 = update_job (\<lambda>j. jb_id j = jb_id saved)
                (\<lambda>j. let owned = j\<lparr>jb_steps := own_steps (now_js ck) a manual (jb_steps row)\<rparr> in
                     case resolved of Some d \<Rightarrow> if d \<noteq> [] then owned\<lparr>jb_status := ''ready'', jb_detail := d\<rparr> else owned | None \<Rightarrow> owned) q1
          in (Inr (), \<lparr>pv_quota = q2, pv_leases = l1\<rparr>))"

definition recordProvisionOwnership ::
  "own_env \<Rightarrow> int \<Rightarrow> bool \<Rightarrow> string option \<Rightarrow> manual_recovery option \<Rightarrow> prov_db \<Rightarrow> (http_error + unit) \<times> prov_db" where
  "recordProvisionOwnership env pid verified resolved manual db =
     (case find (\<lambda>j. jb_id j = pid) (q_jobs (pv_quota db)) of
        None \<Rightarrow> (Inl (conflict ''This operation has no persisted owner intent; verify and assign it manually''), db)
      | Some saved \<Rightarrow>
          (case provisionAllocation (jb_steps saved) of
             None \<Rightarrow> (Inl (conflict ''This operation has no persisted owner intent; verify and assign it manually''), db)
           | Some intent \<Rightarrow>
               (case (if verified then recovery_check env saved intent resolved manual else Inr ()) of
                  Inl e \<Rightarrow> (Inl e, db)
                | Inr _ \<Rightarrow>
                    let db1 = oe_others env db in
                    case transaction (own_transaction (oe_clock env) saved intent verified resolved manual) db1 of
                      (Inr x, db2) \<Rightarrow> (Inr x, db2)
                    | (Inl e, db2) \<Rightarrow>
                        (Inl e, if verified then db2
                          else db2\<lparr>pv_quota := update_job
                                (\<lambda>j. jb_id j = pid \<and> jb_status j \<in> {''creating'', ''cloning'', ''configuring''})
                                (\<lambda>j. j\<lparr>jb_status := ''needs_review'', jb_detail := ''Ownership finalization failed''\<rparr>) (pv_quota db2)\<rparr>))))"

section \<open>Reading an intent back\<close>

definition alloc_valid :: "allocation \<Rightarrow> bool" where
  "alloc_valid a \<longleftrightarrow> (\<forall>u. pa_user a = Some u \<longrightarrow> 0 < u) \<and> 0 \<le> pa_cores a \<and> 0 \<le> pa_memoryMb a \<and> 0 \<le> pa_diskGb a"

lemma alloc_state_of_text: "alloc_state_of (JStr (state_text st)) = Some st"
  by (cases st) (simp_all add: alloc_state_of_def state_text_def)

lemma read_allocation_json: "read_allocation (allocation_json a) = (if alloc_valid a then Some a else None)"
proof -
  have get: "js_get (allocation_json a) ''version'' = JNum 1" "js_get (allocation_json a) ''state'' = JStr (state_text (pa_state a))"
    "js_get (allocation_json a) ''userId'' = (case pa_user a of Some u \<Rightarrow> JNum u | None \<Rightarrow> JNull)"
    "js_get (allocation_json a) ''createdBy'' = JStr (pa_createdBy a)" "js_get (allocation_json a) ''cores'' = JNum (pa_cores a)"
    "js_get (allocation_json a) ''memoryMb'' = JNum (pa_memoryMb a)" "js_get (allocation_json a) ''diskGb'' = JNum (pa_diskGb a)"
    "js_get (allocation_json a) ''ownedAt'' = (case pa_ownedAt a of Some n \<Rightarrow> JNum n | None \<Rightarrow> JUndef)"
    "js_get (allocation_json a) ''marker'' = (case pa_marker a of Some m \<Rightarrow> JStr m | None \<Rightarrow> JUndef)"
    by (simp_all add: allocation_json_def split: option.split)
  have user: "alloc_user (case pa_user a of Some u \<Rightarrow> JNum u | None \<Rightarrow> JNull)
      = (if \<forall>u. pa_user a = Some u \<longrightarrow> 0 < u then Some (pa_user a) else None)"
    by (cases "pa_user a") (simp_all add: alloc_user_def)
  have rest: "text_value (case pa_marker a of Some m \<Rightarrow> JStr m | None \<Rightarrow> JUndef) = pa_marker a"
    "(case (case pa_ownedAt a of Some n \<Rightarrow> JNum n | None \<Rightarrow> JUndef) of JNum n \<Rightarrow> Some n | _ \<Rightarrow> None) = pa_ownedAt a"
    by (cases "pa_marker a"; simp add: text_value_def) (cases "pa_ownedAt a"; simp)
  show ?thesis
    unfolding read_allocation_def get user rest alloc_state_of_text alloc_valid_def
    by (auto simp: text_value_def alloc_amount_def)
qed

lemma find_on_reserve:
  assumes "\<And>s. js_get s ''key'' = JStr ''reserve'' \<Longrightarrow> js_get (f s) ''key'' = JStr ''reserve''"
  shows "find (\<lambda>s. js_get s ''key'' = JStr ''reserve'') (on_reserve f ss)
    = map_option f (find (\<lambda>s. js_get s ''key'' = JStr ''reserve'') ss)"
  by (induction ss) (auto simp: assms)

lemma key_object: "js_get s ''key'' = JStr t \<Longrightarrow> \<exists>kvs. s = JObj kvs"
  by (cases s) (auto simp: js_get_def index_of_key_def all_digits_def is_digit_def split: if_splits)

lemma reserve_step_with:
  assumes "\<not> nullish (reserve_step ss)"
  shows "js_get (reserve_step (on_reserve (set_prop ''allocation'' a) ss)) ''allocation'' = a"
proof -
  obtain s where s: "find (\<lambda>s. js_get s ''key'' = JStr ''reserve'') ss = Some s"
    using assms by (auto simp: reserve_step_def nullish_def split: option.splits)
  then have "js_get s ''key'' = JStr ''reserve''" by (induction ss) (auto split: if_splits)
  then obtain kvs where kvs: "s = JObj kvs" using key_object by blast
  have "js_get (set_prop ''allocation'' a t) ''key'' = JStr ''reserve''" if "js_get t ''key'' = JStr ''reserve''" for t
    using that key_object [OF that] by (auto simp: set_prop_def map_of_map_set)
  then show ?thesis
    by (simp add: reserve_step_def find_on_reserve s) (simp add: kvs set_prop_def map_of_map_set)
qed

lemma intent_read_back:
  assumes "\<not> nullish (reserve_step ss)" "alloc_valid a"
  shows "provisionAllocation (with_allocation (allocation_json a) (JArr ss)) = Some a"
  using assms by (simp add: provisionAllocation_def with_allocation_def reserve_step_with read_allocation_json)

section \<open>A reservation fits\<close>

lemma over_mono: "x \<le> y \<Longrightarrow> \<not> over l y \<Longrightarrow> \<not> over l x"
  by (auto simp: over_def split: option.splits)

definition fits_limits :: "limits \<Rightarrow> resource_usage \<Rightarrow> bool" where
  "fits_limits l u \<longleftrightarrow> \<not> over (lm_cores l) (ru_cores u) \<and> \<not> over (lm_memoryGb l) (ru_memoryGb u) \<and> \<not> over (lm_storageGb l) (ru_diskGb u)"

lemma accepted_within:
  assumes "assertUserQuota u (requested a) db vms None = Inr x" "getUserQuota u db = Some (False, l)" "alloc_valid a"
  shows "fits_limits l (getUserResourceUsage u db vms None) \<and> fits_limits l (add_usage a (getUserResourceUsage u db vms None))"
proof -
  let ?u = "getUserResourceUsage u db vms None"
  have "fits_limits l (add_usage a ?u)"
  proof (cases "l = no_limits")
    case True
    then show ?thesis by (simp add: fits_limits_def over_def no_limits_def)
  next
    case False
    with assms show ?thesis
      by (auto simp: assertUserQuota_def requested_def fits_limits_def add_usage_def Let_def split: if_splits)
  qed
  moreover have "ru_cores ?u \<le> ru_cores (add_usage a ?u)" "ru_memoryGb ?u \<le> ru_memoryGb (add_usage a ?u)"
    "ru_diskGb ?u \<le> ru_diskGb (add_usage a ?u)"
    using assms(3) by (simp_all add: add_usage_def alloc_valid_def)
  ultimately show ?thesis using over_mono by (auto simp: fits_limits_def)
qed

lemma submit_reserve_Inr:
  assumes "submit_reserve row intent marker vms db = (Inr pid, db')" "alloc_valid intent"
  obtains j where "pid = q_next db" "db' = db\<lparr>q_jobs := q_jobs db @ [j], q_next := q_next db + 1\<rparr>"
    "jb_id j = q_next db" "jb_vmid j = 0" "jb_status j \<in> set JOB_STATUSES" "jb_user j = jb_user row"
    "provisionAllocation (jb_steps j) = Some (intent\<lparr>pa_marker := Some marker, pa_state := Pending_alloc\<rparr>)"
    "assertUserQuota (quota_user_of row intent) (requested intent) db vms None = Inr ()"
proof -
  let ?a = "intent\<lparr>pa_marker := Some marker, pa_state := Pending_alloc\<rparr>"
  let ?j = "row\<lparr>jb_id := q_next db, jb_steps := with_allocation (allocation_json ?a) (jb_steps row), jb_vmid := 0, jb_status := ''submitting''\<rparr>"
  have ok: "\<not> nullish (reserve_step (elements (jb_steps row)))"
    "assertUserQuota (quota_user_of row intent) (requested intent) db vms None = Inr ()"
    "pid = q_next db" "db' = db\<lparr>q_jobs := q_jobs db @ [?j], q_next := q_next db + 1\<rparr>"
    using assms(1) by (auto simp: submit_reserve_def Let_def split: if_splits sum.splits)
  obtain ss where ss: "jb_steps row = JArr ss"
    using ok(1) by (cases "jb_steps row") (auto simp: elements_def reserve_step_def nullish_def)
  have "alloc_valid ?a" using assms(2) by (simp add: alloc_valid_def)
  then have "provisionAllocation (jb_steps ?j) = Some ?a"
    using intent_read_back [of ss ?a] ok(1) by (simp add: ss elements_def)
  then show ?thesis using ok by (intro that [of ?j]) (simp_all add: JOB_STATUSES_def)
qed

section \<open>Who becomes the owner\<close>

lemma own_guard_Inr:
  assumes "own_guard saved intent verified manual db = Inr (row, a)"
  shows "find (\<lambda>j. jb_id j = jb_id saved) (q_jobs db) = Some row \<and> jb_vmid row = jb_vmid saved \<and> jb_upid row = jb_upid saved
    \<and> (verified \<longrightarrow> jb_status row = jb_status saved)
    \<and> provisionAllocation (jb_steps row) = Some a \<and> pa_user a = pa_user intent \<and> pa_state a \<noteq> Released_alloc
    \<and> (\<forall>j \<in> set (q_jobs db). jb_vmid j = jb_vmid row \<longrightarrow> jb_id j \<le> jb_id row) \<and> nodeLookupCandidates (jb_node row) \<noteq> []
    \<and> (\<forall>x \<in> set (q_assignments db). as_vmid x = jb_vmid row \<and> as_node x \<in> set (nodeLookupCandidates (jb_node row)) \<longrightarrow> Some (as_user x) = pa_user a)"
  using assms by (auto simp: own_guard_def split: option.splits if_splits)

text \<open>The node names under which rows of a machine may be stored: the lookup candidates of the job's node,
  and the name as the job has it, which is what new rows are stored under.\<close>

definition known_as :: "string \<Rightarrow> string set" where
  "known_as node = insert node (set (nodeLookupCandidates node))"

definition floor_of :: "allocation \<Rightarrow> resource_allocation" where
  "floor_of a = \<lparr>rs_cores = pa_cores a, rs_memoryMb = pa_memoryMb a, rs_diskGb = of_int (pa_diskGb a)\<rparr>"

lemma assign_owner_safe:
  assumes "\<forall>x \<in> set (q_assignments db). as_vmid x = jb_vmid row \<and> as_node x \<in> C \<longrightarrow> Some (as_user x) = pa_user a"
    and "x \<in> set (q_assignments (assign_owner row a db))" "as_vmid x = jb_vmid row" "as_node x \<in> C"
  shows "Some (as_user x) = pa_user a"
  using assms
  by (cases "filter (\<lambda>x. as_vmid x = jb_vmid row \<and> as_node x \<in> set (nodeLookupCandidates (jb_node row))) (q_assignments db)")
    (auto simp: assign_owner_def Let_def split: option.splits if_splits)

lemma assign_owner_done:
  assumes "pa_user a = Some u"
    and "\<forall>x \<in> set (q_assignments db). as_vmid x = jb_vmid row \<and> as_node x \<in> set (nodeLookupCandidates (jb_node row)) \<longrightarrow> as_user x = u"
  shows "\<exists>x \<in> set (q_assignments (assign_owner row a db)). as_vmid x = jb_vmid row \<and> as_user x = u
    \<and> as_node x \<in> known_as (jb_node row) \<and> as_allocation x = Some (floor_of a)"
proof (cases "filter (\<lambda>x. as_vmid x = jb_vmid row \<and> as_node x \<in> set (nodeLookupCandidates (jb_node row))) (q_assignments db)")
  case Nil
  then show ?thesis using assms(1) by (simp add: assign_owner_def Let_def known_as_def floor_of_def)
next
  case (Cons x xs)
  then have "x \<in> set (q_assignments db)" "as_vmid x = jb_vmid row" "as_node x \<in> set (nodeLookupCandidates (jb_node row))"
    by (auto dest!: arg_cong [where f = set])
  with assms Cons show ?thesis
    by (auto simp: assign_owner_def Let_def known_as_def floor_of_def
        intro!: bexI [of _ "x\<lparr>as_allocation := Some (floor_of a)\<rparr>" for x] image_eqI [of _ _ x])
qed

lemma lease_row_is_known:
  assumes "getLeaseRow node vmid db = Some r"
  shows "r \<in> set (vm_leases db) \<and> ls_vmid r = vmid \<and> ls_node r \<in> set (nodeLookupCandidates node)"
proof -
  have mem: "r \<in> set (List.map_filter f cs) \<Longrightarrow> \<exists>c \<in> set cs. f c = Some r" for f :: "string \<Rightarrow> 'r option" and r cs
    by (auto simp: List.map_filter_def)
  have "r \<in> set (List.map_filter (\<lambda>c. find (\<lambda>r. ls_vmid r = vmid \<and> ls_node r = c) (vm_leases db)) (nodeLookupCandidates node))"
    using assms by (auto simp: getLeaseRow_def split: list.splits)
  from mem [OF this] obtain c where "c \<in> set (nodeLookupCandidates node)"
    "find (\<lambda>r. ls_vmid r = vmid \<and> ls_node r = c) (vm_leases db) = Some r" ..
  then show ?thesis by (auto simp: find_Some_iff)
qed

lemma createLeaseRow_present:
  "\<exists>r \<in> set (vm_leases (snd (createLeaseRow ck node vmid by days db))). ls_vmid r = vmid \<and> ls_node r \<in> known_as node"
proof (cases "getLeaseRow node vmid db")
  case None
  then show ?thesis by (auto simp: createLeaseRow_def Let_def known_as_def)
next
  case (Some r)
  with lease_row_is_known [OF Some] show ?thesis by (auto simp: createLeaseRow_def known_as_def)
qed

section \<open>Properties\<close>

text \<open>C14: A reservation that is accepted fits: counting the new job, the owner stays within every limit
  (cores, memory and storage; the user's own or the role's), and no other user's usage changes, although
  the machine has no id yet and Proxmox does not list it.\<close>

theorem accepted_provision_fits_quota:
  assumes "submit_reserve row intent marker vms db = (Inr pid, db')" "alloc_valid intent" "sound_ids db"
    and "getUserQuota (quota_user_of row intent) db = Some (False, l)"
  shows "fits_limits l (getUserResourceUsage (quota_user_of row intent) db' vms None)
    \<and> (\<forall>v. pa_user intent \<noteq> Some v \<longrightarrow> getUserResourceUsage v db' vms None = getUserResourceUsage v db vms None)
    \<and> (\<forall>v. pa_user intent = Some v \<longrightarrow> getUserResourceUsage v db' vms None = add_usage intent (getUserResourceUsage v db vms None))"
proof -
  obtain j where j: "db' = db\<lparr>q_jobs := q_jobs db @ [j], q_next := q_next db + 1\<rparr>" "jb_id j = q_next db" "jb_vmid j = 0"
    "jb_status j \<in> set JOB_STATUSES" "provisionAllocation (jb_steps j) = Some (intent\<lparr>pa_marker := Some marker, pa_state := Pending_alloc\<rparr>)"
    "assertUserQuota (quota_user_of row intent) (requested intent) db vms None = Inr ()"
    using submit_reserve_Inr [OF assms(1,2)] by metis
  have usage: "getUserResourceUsage v db' vms None = (if pa_user intent = Some v
      then add_usage intent (getUserResourceUsage v db vms None) else getUserResourceUsage v db vms None)" for v
    using usage_with_job [OF assms(3) j(2-5), of v vms] by (simp add: j(1) add_usage_def)
  from accepted_within [OF j(6) assms(4,2)] show ?thesis by (simp add: usage)
qed

text \<open>C13: Ownership goes to the intended owner only: when the transaction of a job succeeds, its row still
  has the machine id and the task that were read (and, in a recovery, the status), its intent still names
  the same user and is not released, and no newer job uses the machine's id. Afterwards no assignment of
  the machine under a lookup name of its node belongs to anyone but the user of the intent (to nobody when
  the intent names nobody); if it names a user, that user has one, with the amounts of the intent as its
  floor; and the machine has a lease.\<close>

theorem ownership_goes_to_intended_owner:
  assumes "own_transaction ck saved intent verified resolved manual db = (Inr (), db')"
  shows "\<exists>row a. find (\<lambda>j. jb_id j = jb_id saved) (q_jobs (pv_quota db)) = Some row \<and> jb_vmid row = jb_vmid saved
    \<and> jb_upid row = jb_upid saved \<and> (verified \<longrightarrow> jb_status row = jb_status saved)
    \<and> provisionAllocation (jb_steps row) = Some a \<and> pa_user a = pa_user intent \<and> pa_state a \<noteq> Released_alloc
    \<and> (\<forall>j \<in> set (q_jobs (pv_quota db)). jb_vmid j = jb_vmid row \<longrightarrow> jb_id j \<le> jb_id row)
    \<and> (\<forall>x \<in> set (q_assignments (pv_quota db')). as_vmid x = jb_vmid row
          \<and> as_node x \<in> set (nodeLookupCandidates (jb_node row)) \<longrightarrow> Some (as_user x) = pa_user intent)
    \<and> (\<forall>u. pa_user intent = Some u \<longrightarrow> (\<exists>x \<in> set (q_assignments (pv_quota db')). as_vmid x = jb_vmid row
          \<and> as_user x = u \<and> as_node x \<in> known_as (jb_node row) \<and> as_allocation x = Some (floor_of a)))
    \<and> (\<exists>l \<in> set (vm_leases (pv_leases db')). ls_vmid l = jb_vmid row \<and> ls_node l \<in> known_as (jb_node row))"
proof -
  obtain row a where g: "own_guard saved intent verified manual (pv_quota db) = Inr (row, a)"
    using assms by (auto simp: own_transaction_def split: sum.splits)
  have q: "q_assignments (pv_quota db') = q_assignments (assign_owner row a (pv_quota db))"
    "pv_leases db' = snd (createLeaseRow ck (jb_node row) (jb_vmid row) (pa_createdBy a) None (pv_leases db))"
    using assms by (auto simp: own_transaction_def g Let_def update_job_def split: prod.splits)
  note facts = own_guard_Inr [OF g]
  have here: "\<forall>x \<in> set (q_assignments (pv_quota db)). as_vmid x = jb_vmid row
      \<and> as_node x \<in> set (nodeLookupCandidates (jb_node row)) \<longrightarrow> Some (as_user x) = pa_user a"
    using facts by blast
  have "\<exists>l \<in> set (vm_leases (pv_leases db')). ls_vmid l = jb_vmid row \<and> ls_node l \<in> known_as (jb_node row)"
    unfolding q(2) by (rule createLeaseRow_present)
  moreover have "\<forall>x \<in> set (q_assignments (pv_quota db')). as_vmid x = jb_vmid row
      \<and> as_node x \<in> set (nodeLookupCandidates (jb_node row)) \<longrightarrow> Some (as_user x) = pa_user a"
    using assign_owner_safe [OF here] q(1) by auto
  moreover have "\<forall>u. pa_user a = Some u \<longrightarrow> (\<exists>x \<in> set (q_assignments (pv_quota db')). as_vmid x = jb_vmid row
      \<and> as_user x = u \<and> as_node x \<in> known_as (jb_node row) \<and> as_allocation x = Some (floor_of a))"
    using assign_owner_done [of a _ "pv_quota db" row] here unfolding q(1) by fastforce
  ultimately show ?thesis using facts by (intro exI [of _ row] exI [of _ a]) simp
qed

definition in_progress :: "job \<Rightarrow> bool" where
  "in_progress j = (jb_status j \<in> {''creating'', ''cloning'', ''configuring''})"

lemma update_where_snd: "snd (update_where P f rows) = map (\<lambda>r. if P r then f r else r) rows"
  by (simp add: update_where_def)

lemma flagged_jobs:
  "list_all2 (\<lambda>j j'. j' = j \<or> P j \<and> j' = f j) js (snd (update_where P f js))"
  unfolding update_where_snd by (simp add: list_all2_conv_all_nth)

lemma unflagged_jobs:
  assumes "\<And>j. \<not> P (f j)" "j \<in> set (snd (update_where P f js))"
  shows "\<not> P j"
  using assms by (auto simp: update_where_snd)

lemma review_is_over: "\<not> (jb_id (j\<lparr>jb_status := ''needs_review'', jb_detail := d\<rparr>) = n \<and> in_progress (j\<lparr>jb_status := ''needs_review'', jb_detail := d\<rparr>))"
  by (simp add: in_progress_def)

definition not_begun :: "own_env \<Rightarrow> int \<Rightarrow> bool \<Rightarrow> string option \<Rightarrow> manual_recovery option \<Rightarrow> quota_db \<Rightarrow> bool" where
  \<comment> \<open>the transaction is never opened: no such job, no readable intent, or a recovery that was refused\<close>
  "not_begun env pid verified resolved manual db \<longleftrightarrow>
     (case find (\<lambda>j. jb_id j = pid) (q_jobs db) of
        None \<Rightarrow> True
      | Some saved \<Rightarrow> (case provisionAllocation (jb_steps saved) of
          None \<Rightarrow> True
        | Some intent \<Rightarrow> verified \<and> isl (recovery_check env saved intent resolved manual)))"

lemma ownership_failure:
  assumes "recordProvisionOwnership env pid verified resolved manual db = (Inl e, db')"
  shows "db' = (if not_begun env pid verified resolved manual (pv_quota db) then db
    else if verified then oe_others env db
    else (oe_others env db)\<lparr>pv_quota := update_job (\<lambda>j. jb_id j = pid \<and> in_progress j)
      (\<lambda>j. j\<lparr>jb_status := ''needs_review'', jb_detail := ''Ownership finalization failed''\<rparr>) (pv_quota (oe_others env db))\<rparr>)"
  using assms unfolding recordProvisionOwnership_def not_begun_def Let_def in_progress_def transaction_def
  by (auto split: option.splits sum.splits if_splits prod.splits)


section \<open>An example\<close>

definition sample_limits :: limits where
  "sample_limits = \<lparr>lm_cores = Some 4, lm_memoryGb = Some 8, lm_storageGb = None\<rparr>"

definition sample_quota :: quota_db where
  "sample_quota = \<lparr>q_users = [\<lparr>qu_id = 5, qu_admin = False, qu_role = None, qu_limits = sample_limits\<rparr>], q_roles = [],
     q_assignments = [\<lparr>as_id = 1, as_user = 5, as_node = ''1~pve'', as_vmid = 100,
       as_allocation = Some \<lparr>rs_cores = 2, rs_memoryMb = 4096, rs_diskGb = 32\<rparr>\<rparr>], q_jobs = [], q_next = 7\<rparr>"

definition sample_intent :: allocation where
  "sample_intent = \<lparr>pa_user = Some 5, pa_createdBy = ''ann'', pa_cores = 2, pa_memoryMb = 2048, pa_diskGb = 20, pa_state = Pending_alloc,
     pa_ownedAt = None, pa_marker = None\<rparr>"

definition sample_job :: job where
  "sample_job = \<lparr>jb_id = 0, jb_user = 5, jb_node = ''1~pve'', jb_vmid = 0, jb_name = ''web'', jb_source = ''create'',
     jb_steps = JArr [JObj [(''key'', JStr ''reserve'')]], jb_status = ''creating'', jb_detail = [], jb_upid = []\<rparr>"

lemma sample_usage: "getUserResourceUsage 5 sample_quota [] None = \<lparr>ru_cores = 2, ru_memoryGb = 4, ru_diskGb = 32, ru_count = 1\<rparr>"
  by (simp add: getUserResourceUsage_def sample_quota_def assigned_to_def live_part_def map_update_def floor_part_def
      at_least_def job_part_def disk_part_def total_usage_def)

lemma sample_accepted: "fst (submit_reserve sample_job sample_intent ''m'' [] sample_quota) = Inr 7"
proof -
  have q: "getUserQuota 5 sample_quota = Some (False, sample_limits)"
    by (simp add: getUserQuota_def sample_quota_def sample_limits_def coalesced_def no_limits_def)
  have "assertUserQuota 5 (requested sample_intent) sample_quota [] None = Inr ()"
    using q by (simp add: assertUserQuota_def sample_usage requested_def sample_intent_def sample_limits_def no_limits_def over_def)
  moreover have "quota_user_of sample_job sample_intent = 5" by (simp add: quota_user_of_def sample_intent_def)
  ultimately show ?thesis
    by (simp add: submit_reserve_def Let_def) (simp add: sample_job_def sample_quota_def elements_def reserve_step_def nullish_def)
qed

theorem accepted_provision_fits_quota_witness:
  "fits_limits sample_limits (getUserResourceUsage 5 (snd (submit_reserve sample_job sample_intent ''m'' [] sample_quota)) [] None)"
proof -
  let ?db = "snd (submit_reserve sample_job sample_intent ''m'' [] sample_quota)"
  have r: "submit_reserve sample_job sample_intent ''m'' [] sample_quota = (Inr 7, ?db)" using sample_accepted by (metis prod.collapse)
  have u: "quota_user_of sample_job sample_intent = 5" by (simp add: quota_user_of_def sample_intent_def)
  have "alloc_valid sample_intent" "sound_ids sample_quota" "getUserQuota (quota_user_of sample_job sample_intent) sample_quota = Some (False, sample_limits)"
    by (simp_all add: alloc_valid_def sample_intent_def sound_ids_def sample_quota_def getUserQuota_def u sample_limits_def coalesced_def no_limits_def)
      (simp add: quota_user_of_def getUserQuota_def coalesced_def)
  from accepted_provision_fits_quota [OF r this] show ?thesis by (simp add: u)
qed

definition placed_intent :: allocation where
  "placed_intent = sample_intent\<lparr>pa_marker := Some ''m''\<rparr>"

definition placed_job :: job where
  \<comment> \<open>the job after its submission: Proxmox builds the machine 101\<close>
  "placed_job = sample_job\<lparr>jb_id := 7, jb_vmid := 101,
     jb_steps := with_allocation (allocation_json placed_intent) (JArr [JObj [(''key'', JStr ''reserve'')]])\<rparr>"

definition placed_db :: prov_db where
  "placed_db = \<lparr>pv_quota = sample_quota\<lparr>q_jobs := [placed_job], q_next := 8\<rparr>, pv_leases = sample_leases\<rparr>"

definition taken_db :: "prov_db \<Rightarrow> prov_db" where
  \<comment> \<open>an administrator gives machine 101 to the user 6 before the owner is recorded\<close>
  "taken_db db = db\<lparr>pv_quota := (pv_quota db)\<lparr>q_assignments :=
     [\<lparr>as_id = 9, as_user = 6, as_node = ''1~pve'', as_vmid = 101, as_allocation = None\<rparr>]\<rparr>\<rparr>"

lemma placed_node: "nodeLookupCandidates ''1~pve'' = [''1~pve'', ''pve'']" by code_simp

lemma placed_read: "provisionAllocation (jb_steps placed_job) = Some placed_intent"
proof -
  have "alloc_valid placed_intent" by (simp add: alloc_valid_def placed_intent_def sample_intent_def)
  moreover have "\<not> nullish (reserve_step [JObj [(''key'', JStr ''reserve'')]])" by (simp add: reserve_step_def nullish_def)
  ultimately show ?thesis by (simp add: placed_job_def intent_read_back)
qed

lemma placed_row: "jb_id placed_job = 7" "jb_vmid placed_job = 101" "jb_node placed_job = ''1~pve''" "jb_upid placed_job = []"
  "jb_status placed_job = ''creating''"
  by (simp_all add: placed_job_def sample_job_def)

lemma placed_quota: "q_jobs (pv_quota placed_db) = [placed_job]" "q_assignments (pv_quota placed_db) = q_assignments sample_quota"
  by (simp_all add: placed_db_def)

lemma placed_guard: "own_guard placed_job placed_intent False None (pv_quota placed_db) = Inr (placed_job, placed_intent)"
proof -
  have "pa_user placed_intent = Some 5" "pa_state placed_intent = Pending_alloc" by (simp_all add: placed_intent_def sample_intent_def)
  moreover have "\<forall>x \<in> set (q_assignments sample_quota). as_vmid x \<noteq> 101" by (simp add: sample_quota_def)
  ultimately show ?thesis by (simp add: own_guard_def placed_quota placed_read placed_row placed_node)
qed

lemma placed_owned: "fst (own_transaction sample_clock placed_job placed_intent False None None placed_db) = Inr ()"
  by (simp add: own_transaction_def placed_guard Let_def split: prod.split)

theorem ownership_goes_to_intended_owner_witness:
  "\<exists>x \<in> set (q_assignments (pv_quota (snd (own_transaction sample_clock placed_job placed_intent False None None placed_db)))).
     as_vmid x = 101 \<and> as_user x = 5"
proof -
  let ?db = "snd (own_transaction sample_clock placed_job placed_intent False None None placed_db)"
  have run: "own_transaction sample_clock placed_job placed_intent False None None placed_db = (Inr (), ?db)"
    using placed_owned by (metis prod.collapse)
  obtain row where row: "find (\<lambda>j. jb_id j = jb_id placed_job) (q_jobs (pv_quota placed_db)) = Some row"
    "\<forall>u. pa_user placed_intent = Some u \<longrightarrow> (\<exists>x \<in> set (q_assignments (pv_quota ?db)). as_vmid x = jb_vmid row \<and> as_user x = u)"
    using ownership_goes_to_intended_owner [OF run] by blast
  then have "row = placed_job" by (simp add: placed_quota)
  with row(2) show ?thesis by (simp add: placed_row) (simp add: placed_intent_def sample_intent_def)
qed

definition sample_own_env :: own_env where
  "sample_own_env = \<lparr>oe_task = Inr (''stopped'', ''OK''), oe_config = Inr JNull, oe_others = taken_db, oe_clock = sample_clock\<rparr>"

lemma taken_fails: "fst (recordProvisionOwnership sample_own_env 7 False None None placed_db)
  = Inl (conflict ''This VM already has a different owner; verify ownership manually'')"
proof -
  have "pa_user placed_intent = Some 5" "pa_state placed_intent = Pending_alloc" by (simp_all add: placed_intent_def sample_intent_def)
  then have "own_guard placed_job placed_intent False None (pv_quota (taken_db placed_db))
      = Inl (conflict ''This VM already has a different owner; verify ownership manually'')"
    by (simp add: own_guard_def taken_db_def placed_quota placed_read placed_row placed_node)
  then show ?thesis
    by (simp add: recordProvisionOwnership_def placed_quota placed_row placed_read sample_own_env_def transaction_def own_transaction_def Let_def)
qed


end
