(* ===== verification/Url_Guard.thy ===== *)
theory Url_Guard
  imports Ip_Address
begin

text \<open>
  The guard of outbound targets (\<open>utils/urlGuard.ts\<close>): every resolved address of a download URL, in whatever
  notation, is classified by its numeric prefix, and addresses that reach an embedded IPv4 address are
  classified as that address. \<open>net.isIP\<close> is modelled on its grammar; the URL parser and the resolver are
  parameters.
\<close>

section \<open>Address classes\<close>

datatype address_class = Invalid_address | Unspecified | Loopback | Link_local | Metadata | Multicast | Reserved
  | Private_net | Shared_net | Benchmark | Public_address

definition ipv4_class :: "int \<Rightarrow> int \<Rightarrow> int \<Rightarrow> int \<Rightarrow> address_class" where
  "ipv4_class a b c d =
     (if a = 0 then Unspecified
      else if a = 127 then Loopback
      else if a = 169 \<and> b = 254 then (if c = 169 \<and> d = 254 then Metadata else Link_local)
      else if a = 100 \<and> b = 100 \<and> c = 100 \<and> d = 200 then Metadata
      else if a = 10 \<or> (a = 172 \<and> b \<ge> 16 \<and> b \<le> 31) \<or> (a = 192 \<and> b = 168) then Private_net
      else if a = 100 \<and> b \<ge> 64 \<and> b \<le> 127 then Shared_net
      else if a = 198 \<and> (b = 18 \<or> b = 19) then Benchmark
      else if a \<ge> 224 \<and> a \<le> 239 then Multicast
      else if a \<ge> 240 then Reserved
      else Public_address)"

definition number_of_part :: "string \<Rightarrow> int option" where
  "number_of_part s = (case number_of_string s of JNum n \<Rightarrow> if 0 \<le> n \<and> n \<le> 255 then Some n else None | _ \<Rightarrow> None)"

definition classifyIPv4 :: "string \<Rightarrow> address_class" where
  "classifyIPv4 ip =
     (case map number_of_part (split_on CHR ''.'' ip) of
        [Some a, Some b, Some c, Some d] \<Rightarrow> ipv4_class a b c d
      | _ \<Rightarrow> Invalid_address)"

section \<open>Groups of an IPv6 address\<close>

definition is_hex :: "char \<Rightarrow> bool" where
  "is_hex c = (let n = of_char c :: nat in is_digit c \<or> (97 \<le> n \<and> n \<le> 102))"

definition hex_val :: "char \<Rightarrow> nat" where
  "hex_val c = (if is_digit c then digit_val c else of_char c - 87)"

definition hex_char :: "nat \<Rightarrow> char" where
  "hex_char d = (if d < 10 then digit_char d else char_of (d + 87))"

definition nat_of_hex :: "string \<Rightarrow> nat" where
  "nat_of_hex s = foldl (\<lambda>acc c. 16 * acc + hex_val c) 0 s"

fun show_hex :: "nat \<Rightarrow> string" where
  \<comment> \<open>\<open>n.toString(16)\<close>\<close>
  "show_hex n = (if n < 16 then [hex_char n] else show_hex (n div 16) @ [hex_char (n mod 16)])"

declare show_hex.simps [simp del]

fun split_pairs :: "string \<Rightarrow> string list" where
  \<comment> \<open>\<open>text.split('::')\<close>\<close>
  "split_pairs [] = [[]]"
| "split_pairs [x] = [[x]]"
| "split_pairs (x # y # s) =
     (if x = CHR '':'' \<and> y = CHR '':'' then [] # split_pairs s
      else (case split_pairs (y # s) of [] \<Rightarrow> [[x]] | p # ps \<Rightarrow> (x # p) # ps))"

definition is_dotted :: "string \<Rightarrow> bool" where
  "is_dotted s = (let ps = split_on CHR ''.'' s in length ps = 4 \<and> list_all all_digits ps)"

definition dotted_start :: "string \<Rightarrow> nat option" where
  \<comment> \<open>where the leftmost match of the pattern for a dotted tail begins\<close>
  "dotted_start text = find (\<lambda>i. is_dotted (drop i text)) [0..<length text]"

definition hex_pair :: "nat \<Rightarrow> nat \<Rightarrow> nat" where
  "hex_pair a b = unat (push_bit 8 (word_of_nat a) OR word_of_nat b :: 32 word)"

definition undotted :: "string \<Rightarrow> string option" where
  \<comment> \<open>the text with a dotted tail rewritten as two groups\<close>
  "undotted text =
     (case dotted_start text of
        None \<Rightarrow> Some text
      | Some i \<Rightarrow>
          (case map nat_of_digits (split_on CHR ''.'' (drop i text)) of
             [a, b, c, d] \<Rightarrow>
               if a > 255 \<or> b > 255 \<or> c > 255 \<or> d > 255 then None
               else Some (take i text @ show_hex (hex_pair a b) @ '':'' @ show_hex (hex_pair c d))
           | _ \<Rightarrow> None))"

definition read_group :: "string \<Rightarrow> 16 word option" where
  "read_group s = (if 1 \<le> length s \<and> length s \<le> 4 \<and> list_all is_hex s then Some (word_of_nat (nat_of_hex s)) else None)"

definition read_groups :: "string \<Rightarrow> 16 word option list" where
  "read_groups part = (if part = [] then [] else map read_group (split_on CHR '':'' part))"

definition ipv6Groups :: "string \<Rightarrow> 16 word list option" where
  "ipv6Groups ip =
     (case undotted (takeWhile (\<lambda>c. c \<noteq> CHR ''%'') (js_lower ip)) of
        None \<Rightarrow> None
      | Some text \<Rightarrow>
          let halves = split_pairs text; head = read_groups (hd halves);
              tail = (if length halves = 2 then read_groups (halves ! 1) else []) in
          if length halves > 2 then None
          else if (if length halves = 1 then length head \<noteq> 8 else length head + length tail > 7) then None
          else
            let groups = head @ (if length halves = 2 then replicate (8 - length head - length tail) (Some 0) else []) @ tail in
            if None \<in> set groups then None else Some (map the groups))"

definition embeddedIPv4 :: "16 word \<Rightarrow> 16 word \<Rightarrow> string" where
  "embeddedIPv4 hi lo =
     show_nat (unat (drop_bit 8 hi)) @ ''.'' @ show_nat (unat (hi AND 0xff)) @ ''.''
     @ show_nat (unat (drop_bit 8 lo)) @ ''.'' @ show_nat (unat (lo AND 0xff))"

definition zero_prefix :: "nat \<Rightarrow> 16 word list \<Rightarrow> bool" where
  "zero_prefix n g = list_all (\<lambda>x. x = 0) (take n g)"

definition ipv6_class :: "16 word list \<Rightarrow> address_class" where
  "ipv6_class g =
     (if zero_prefix 8 g then Unspecified
      else if zero_prefix 7 g \<and> g ! 7 = 1 then Loopback
      else if zero_prefix 5 g \<and> g ! 5 = 0xffff then classifyIPv4 (embeddedIPv4 (g ! 6) (g ! 7))
      else if zero_prefix 6 g then classifyIPv4 (embeddedIPv4 (g ! 6) (g ! 7))
      else if g ! 0 = 0x64 \<and> g ! 1 = 0xff9b \<and> zero_prefix 4 (drop 2 g) then classifyIPv4 (embeddedIPv4 (g ! 6) (g ! 7))
      else if g ! 0 = 0x2002 then classifyIPv4 (embeddedIPv4 (g ! 1) (g ! 2))
      else if g ! 0 = 0xfd00 \<and> g ! 1 = 0x0ec2 \<and> zero_prefix 5 (drop 2 g) \<and> g ! 7 = 0x254 then Metadata
      else if g ! 0 AND 0xff00 = 0xff00 then Multicast
      else if g ! 0 AND 0xffc0 = 0xfe80 then Link_local
      else if g ! 0 AND 0xffc0 = 0xfec0 then Private_net
      else if g ! 0 AND 0xfe00 = 0xfc00 then Private_net
      else Public_address)"

definition classifyIPv6 :: "string \<Rightarrow> address_class" where
  "classifyIPv6 ip = (case ipv6Groups ip of None \<Rightarrow> Invalid_address | Some g \<Rightarrow> ipv6_class g)"

section \<open>The grammar of \<open>net.isIP\<close>\<close>

definition is_segment :: "string \<Rightarrow> bool" where
  "is_segment s = (1 \<le> length s \<and> length s \<le> 4 \<and> list_all is_hex (js_lower s))"

definition segments_of :: "string \<Rightarrow> string list" where
  "segments_of part = (if part = [] then [] else split_on CHR '':'' part)"

definition width :: "bool \<Rightarrow> string list \<Rightarrow> nat option" where
  \<comment> \<open>how many groups the segments stand for; only the end of the address may be dotted\<close>
  "width at_end ss =
     (if list_all is_segment ss then Some (length ss)
      else if at_end \<and> ss \<noteq> [] \<and> list_all is_segment (butlast ss) \<and> octets (last ss) \<noteq> None then Some (length ss + 1)
      else None)"

definition zone_char :: "char \<Rightarrow> bool" where
  "zone_char c = (is_digit c \<or> (let n = of_char (to_lower c) :: nat in 97 \<le> n \<and> n \<le> 122) \<or> c \<in> {CHR ''-'', CHR ''.'', CHR '':''})"

definition is_zone :: "string \<Rightarrow> bool" where
  "is_zone z = (z = [] \<or> (2 \<le> length z \<and> list_all zone_char (tl z)))"

definition is_ipv6 :: "string \<Rightarrow> bool" where
  "is_ipv6 s =
     (let text = takeWhile (\<lambda>c. c \<noteq> CHR ''%'') s in
      is_zone (dropWhile (\<lambda>c. c \<noteq> CHR ''%'') s) \<and>
      (case split_pairs text of
         [whole] \<Rightarrow> width True (segments_of whole) = Some 8
       | [front, back] \<Rightarrow>
           (case (width False (segments_of front), width True (segments_of back)) of
              (Some m, Some n) \<Rightarrow> m + n \<le> 7
            | _ \<Rightarrow> False)
       | _ \<Rightarrow> False))"

definition isIP :: "string \<Rightarrow> nat" where
  "isIP s = (if octets s \<noteq> None then 4 else if is_ipv6 s then 6 else 0)"

section \<open>The guard\<close>

definition classifyAddress :: "string \<Rightarrow> address_class" where
  "classifyAddress s = (if isIP s = 4 then classifyIPv4 s else if isIP s = 6 then classifyIPv6 s else Invalid_address)"

definition isInternalAddress :: "string \<Rightarrow> bool" where
  "isInternalAddress s = (classifyAddress s \<noteq> Public_address)"

definition isProhibitedManagementAddress :: "string \<Rightarrow> bool" where
  "isProhibitedManagementAddress s =
     (classifyAddress s \<in> {Invalid_address, Unspecified, Loopback, Link_local, Metadata, Multicast, Reserved})"

definition unbracketed :: "string \<Rightarrow> string" where
  \<comment> \<open>\<open>hostname.replace(/^\[|\]$/g, '')\<close>\<close>
  "unbracketed h =
     (let t = (if h \<noteq> [] \<and> hd h = CHR ''['' then tl h else h) in
      if t \<noteq> [] \<and> last t = CHR '']'' then butlast t else t)"

definition assertPublicDownloadUrl ::
  "bool \<Rightarrow> (string \<Rightarrow> string option) \<Rightarrow> (string \<Rightarrow> string list option) \<Rightarrow> string \<Rightarrow> string + unit" where
  \<comment> \<open>the setting, the host name of a URL, and the resolver\<close>
  "assertPublicDownloadUrl allowed hostname lookup url =
     (if allowed then Inr ()
      else case hostname url of
        None \<Rightarrow> Inl ''Invalid URL''
      | Some name \<Rightarrow>
          let host = unbracketed name in
          case (if isIP host \<noteq> 0 then Some [host] else lookup host) of
            None \<Rightarrow> Inl (''Could not resolve host \"'' @ host @ ''\"'')
          | Some addresses \<Rightarrow>
              if addresses = [] \<or> list_ex isInternalAddress addresses
              then Inl ''URL resolves to an internal/reserved address. Set ALLOW_INTERNAL_IMAGE_URLS=true to allow internal image sources.''
              else Inr ())"

section \<open>Blocks of internal addresses\<close>

definition V4_BLOCKS :: "(nat list \<times> nat) list" where
  "V4_BLOCKS = [([0, 0, 0, 0], 8), ([127, 0, 0, 0], 8), ([169, 254, 0, 0], 16), ([100, 100, 100, 200], 32), ([10, 0, 0, 0], 8),
     ([172, 16, 0, 0], 12), ([192, 168, 0, 0], 16), ([100, 64, 0, 0], 10), ([198, 18, 0, 0], 15), ([224, 0, 0, 0], 4), ([240, 0, 0, 0], 4)]"

definition internal4 :: "nat \<Rightarrow> bool" where
  \<comment> \<open>whether a 32-bit address lies in one of the blocks\<close>
  "internal4 n = list_ex (\<lambda>(net, p). n div 2 ^ (32 - p) = quad_value net div 2 ^ (32 - p)) V4_BLOCKS"

lemma cut_below:
  fixes x y :: nat
  assumes "y < k"
  shows "(x * k + y) div k = x" "(x * k + y) mod k = y"
  using assms by simp_all

lemma quad_prefixes:
  assumes "a \<le> 255" "b \<le> 255" "c \<le> 255" "d \<le> 255"
  shows "quad_value [a, b, c, d] div 16777216 = a" "quad_value [a, b, c, d] div 65536 = a * 256 + b"
proof -
  let ?v = "quad_value [a, b, c, d]"
  have v: "?v = ((a * 256 + b) * 256 + c) * 256 + d" by (simp add: quad_value_def)
  have e: "?v div 65536 = ?v div 256 div 256" "?v div 16777216 = ?v div 256 div 256 div 256"
    by (simp_all only: div_mult2_eq [symmetric]) simp_all
  have "?v div 256 = (a * 256 + b) * 256 + c" unfolding v by (rule cut_below) (use assms in simp)
  moreover have "((a * 256 + b) * 256 + c) div 256 = a * 256 + b" by (rule cut_below) (use assms in simp)
  moreover have "(a * 256 + b) div 256 = a" by (rule cut_below) (use assms in simp)
  ultimately show "?v div 16777216 = a" "?v div 65536 = a * 256 + b" by (simp_all add: e)
qed

lemma div_is:
  fixes x q k :: nat
  assumes "0 < k"
  shows "x div k = q \<longleftrightarrow> q * k \<le> x \<and> x < Suc q * k"
  unfolding div_less_iff_less_mult [OF assms, symmetric] less_eq_div_iff_mult_less_eq [OF assms, symmetric] by linarith

lemma block_pair:
  fixes a b m k n p q :: nat
  assumes "b < m" "k dvd m" "0 < k" "q * k < m" "n = p * (m div k) + q"
  shows "(a * m + b) div k = n \<longleftrightarrow> a = p \<and> b div k = q"
proof -
  obtain r where r: "m = r * k" using assms(2) by (metis dvd_div_mult_self)
  have b: "b div k < r" "q < r" using assms by (simp_all add: r div_less_iff_less_mult)
  have "(a * m + b) div k = a * r + b div k"
    using assms(3) by (simp add: r) (metis add.commute div_mult_self3 mult.assoc neq0_conv)
  moreover have "m div k = r" using assms(3) by (simp add: r)
  moreover have "a * r + b div k = p * r + q \<longleftrightarrow> a = p \<and> b div k = q"
    using b cut_below [of "b div k" r a] cut_below [of q r p] by metis
  ultimately show ?thesis using assms(5) by simp
qed

lemma internal4_quad:
  assumes "a \<le> 255" "b \<le> 255" "c \<le> 255" "d \<le> 255"
  shows "internal4 (quad_value [a, b, c, d]) \<longleftrightarrow> a \<in> {0, 10, 127} \<or> a \<ge> 224 \<or> (a = 169 \<and> b = 254)
    \<or> (a = 100 \<and> (b div 64 = 1 \<or> b = 100 \<and> c = 100 \<and> d = 200)) \<or> (a = 172 \<and> b div 16 = 1) \<or> (a = 192 \<and> b = 168) \<or> (a = 198 \<and> b div 2 = 9)"
proof -
  let ?v = "quad_value [a, b, c, d]"
  have a: "?v div 16777216 = a" and ab: "?v div 65536 = a * 256 + b" using quad_prefixes [OF assms] by simp_all
  have nets: "quad_value [x, y, 0, 0] = (x * 256 + y) * 65536" "quad_value [100, 100, 100, 200] = 1684301000" for x y
    by (simp_all add: quad_value_def)
  have finer: "?v div 1048576 = (a * 256 + b) div 16" "?v div 4194304 = (a * 256 + b) div 64" "?v div 131072 = (a * 256 + b) div 2"
    "?v div 268435456 = a div 16"
  proof -
    have "?v div 1048576 = ?v div 65536 div 16" "?v div 4194304 = ?v div 65536 div 64" "?v div 131072 = ?v div 65536 div 2"
      "?v div 268435456 = ?v div 16777216 div 16"
      by (simp_all only: div_mult2_eq [symmetric]) simp_all
    then show "?v div 1048576 = (a * 256 + b) div 16" "?v div 4194304 = (a * 256 + b) div 64" "?v div 131072 = (a * 256 + b) div 2"
      "?v div 268435456 = a div 16" by (simp_all only: a ab)
  qed
  have exact: "?v = 1684301000 \<longleftrightarrow> a = 100 \<and> b = 100 \<and> c = 100 \<and> d = 200"
  proof
    assume "?v = 1684301000"
    then have "[a, b, c, d] = int_quad 1684301000" using int_quad_quad_value [of "[a, b, c, d]"] assms by (simp add: quad_def)
    then show "a = 100 \<and> b = 100 \<and> c = 100 \<and> d = 200" by (simp add: int_quad_def)
  qed (simp add: quad_value_def)
  have pairs: "(a * 256 + b) div 16 = 2753 \<longleftrightarrow> a = 172 \<and> b div 16 = 1" "(a * 256 + b) div 64 = 401 \<longleftrightarrow> a = 100 \<and> b div 64 = 1"
    "(a * 256 + b) div 2 = 25353 \<longleftrightarrow> a = 198 \<and> b div 2 = 9" "a * 256 + b = 43518 \<longleftrightarrow> a = 169 \<and> b = 254"
    "a * 256 + b = 49320 \<longleftrightarrow> a = 192 \<and> b = 168"
    by (rule block_pair; use assms(2) in simp)+ (rule block_pair [where k = 1, simplified]; use assms(2) in simp)+
  have upper: "a div 16 = 14 \<or> a div 16 = 15 \<longleftrightarrow> a \<ge> 224" using assms(1) by (simp add: div_is) auto
  have powers: "(2 :: nat) ^ (32 - 15) = 131072" "(2 :: nat) ^ (32 - 12) = 1048576" "(2 :: nat) ^ (32 - 10) = 4194304"
    "(2 :: nat) ^ (32 - 16) = 65536" "(2 :: nat) ^ (32 - 32) = 1" "(2 :: nat) ^ (32 - 4) = 268435456" "(2 :: nat) ^ (32 - 8) = 16777216"
    by simp_all
  have corners: "quad_value [198, 18, 0, 0] div 131072 = 25353" "quad_value [172, 16, 0, 0] div 1048576 = 2753"
    "quad_value [100, 64, 0, 0] div 4194304 = 401" "quad_value [169, 254, 0, 0] div 65536 = 43518" "quad_value [192, 168, 0, 0] div 65536 = 49320"
    "quad_value [100, 100, 100, 200] = 1684301000" "quad_value [224, 0, 0, 0] div 268435456 = 14" "quad_value [240, 0, 0, 0] div 268435456 = 15"
    "quad_value [0, 0, 0, 0] div 16777216 = 0" "quad_value [127, 0, 0, 0] div 16777216 = 127" "quad_value [10, 0, 0, 0] div 16777216 = 10"
    by (simp_all add: quad_value_def)
  show ?thesis
    unfolding internal4_def V4_BLOCKS_def list_ex_iff list.set bex_simps prod.case simp_thms powers corners finer a ab div_by_1 exact pairs
    using upper by blast
qed

lemma ipv4_class_public:
  assumes "a \<le> 255" "b \<le> 255" "c \<le> 255" "d \<le> 255"
  shows "ipv4_class (int a) (int b) (int c) (int d) = Public_address \<longleftrightarrow> \<not> internal4 (quad_value [a, b, c, d])"
proof -
  have "b div 64 = 1 \<longleftrightarrow> 64 \<le> b \<and> b \<le> 127" "b div 16 = 1 \<longleftrightarrow> 16 \<le> b \<and> b \<le> 31" "b div 2 = 9 \<longleftrightarrow> b = 18 \<or> b = 19"
    by (auto simp: div_is)
  note bits = this
  consider "a \<in> {0, 10, 127} \<or> a \<ge> 224" | "a = 169" | "a = 100" | "a = 172" | "a = 192" | "a = 198"
    | "a \<notin> {0, 10, 127, 169, 100, 172, 192, 198}" "a < 224"
    by (cases "a \<in> {0, 10, 127, 169, 100, 172, 192, 198}"; cases "a < 224"; simp) blast+
  then show ?thesis unfolding internal4_quad [OF assms] bits by cases (auto simp: ipv4_class_def)
qed

lemma classifyIPv4_dotted:
  assumes "quad ns"
  shows "classifyIPv4 (dotted ns) = Public_address \<longleftrightarrow> \<not> internal4 (quad_value ns)"
proof -
  obtain a b c d where ns: "ns = [a, b, c, d]" and le: "a \<le> 255" "b \<le> 255" "c \<le> 255" "d \<le> 255"
    using assms by (rule quad_cases)
  have part: "number_of_part (show_nat n) = Some (int n)" if "n \<le> 255" for n
    using that prefix_text [of n] by (simp add: number_of_part_def)
  have "ns \<noteq> []" by (simp add: ns)
  from split_dotted [OF this] have "map number_of_part (split_on CHR ''.'' (dotted ns)) = [Some (int a), Some (int b), Some (int c), Some (int d)]"
    using le by (simp add: ns part)
  then show ?thesis using ipv4_class_public [OF le] by (simp add: classifyIPv4_def ns)
qed

section \<open>Numbers of groups\<close>

definition group_value :: "nat list \<Rightarrow> nat" where
  "group_value xs = foldl (\<lambda>n g. n * 65536 + g) 0 xs"

definition in6 :: "nat \<Rightarrow> nat \<Rightarrow> nat \<Rightarrow> bool" where
  "in6 n net p = (n div 2 ^ (128 - p) = net div 2 ^ (128 - p))"

definition V6_BLOCKS :: "(nat \<times> nat) list" where
  "V6_BLOCKS = [(group_value [0xff00, 0, 0, 0, 0, 0, 0, 0], 8), (group_value [0xfe80, 0, 0, 0, 0, 0, 0, 0], 10),
     (group_value [0xfec0, 0, 0, 0, 0, 0, 0, 0], 10), (group_value [0xfc00, 0, 0, 0, 0, 0, 0, 0], 7)]"

definition V4_CARRIERS :: "(nat \<times> nat \<times> nat) list" where
  \<comment> \<open>prefixes whose addresses reach the IPv4 address that begins this many bits from the right\<close>
  "V4_CARRIERS = [(group_value [0, 0, 0, 0, 0, 0xffff, 0, 0], 96, 0), (group_value [0, 0, 0, 0, 0, 0, 0, 0], 96, 0),
     (group_value [0x64, 0xff9b, 0, 0, 0, 0, 0, 0], 96, 0), (group_value [0x2002, 0, 0, 0, 0, 0, 0, 0], 16, 80)]"

definition internal6 :: "nat \<Rightarrow> bool" where
  "internal6 n = (list_ex (\<lambda>(net, p). in6 n net p) V6_BLOCKS
     \<or> list_ex (\<lambda>(net, p, shift). in6 n net p \<and> internal4 (n div 2 ^ shift mod 2 ^ 32)) V4_CARRIERS)"

lemma group_value_snoc [simp]: "group_value (xs @ [x]) = group_value xs * 65536 + x"
  by (simp add: group_value_def)

lemma group_value_Nil [simp]: "group_value [] = 0"
  by (simp add: group_value_def)

lemma group_value_append: "group_value (xs @ ys) = group_value xs * 65536 ^ length ys + group_value ys"
proof (induction ys rule: rev_induct)
  case (snoc y ys)
  have "group_value (xs @ ys @ [y]) = group_value (xs @ ys) * 65536 + y" using group_value_snoc [of "xs @ ys" y] by simp
  with snoc show ?case by (simp add: algebra_simps)
qed simp

lemma group_value_less: "list_all (\<lambda>x. x < 65536) xs \<Longrightarrow> group_value xs < 65536 ^ length xs"
proof (induction xs rule: rev_induct)
  case (snoc x xs)
  then have "group_value xs + 1 \<le> 65536 ^ length xs" "x < 65536" by simp_all
  then have "(group_value xs + 1) * 65536 \<le> 65536 ^ length xs * 65536" by (intro mult_right_mono) simp_all
  with \<open>x < 65536\<close> show ?case by simp
qed simp

lemma group_value_inj:
  assumes "length xs = length ys" "list_all (\<lambda>x. x < 65536) xs" "list_all (\<lambda>x. x < 65536) ys"
  shows "group_value xs = group_value ys \<longleftrightarrow> xs = ys"
  using assms
proof (induction xs arbitrary: ys rule: rev_induct)
  case (snoc x xs)
  obtain zs z where ys: "ys = zs @ [z]" using snoc.prems(1) by (cases ys rule: rev_cases) auto
  have "x < 65536" "z < 65536" using snoc.prems ys by simp_all
  then have "group_value xs * 65536 + x = group_value zs * 65536 + z \<longleftrightarrow> group_value xs = group_value zs \<and> x = z"
    using cut_below [of x 65536 "group_value xs"] cut_below [of z 65536 "group_value zs"] by metis
  with snoc show ?case by (simp add: ys)
qed simp

lemma group_value_split:
  assumes "list_all (\<lambda>x. x < 65536) ys"
  shows "group_value (xs @ ys) div 65536 ^ length ys = group_value xs" "group_value (xs @ ys) mod 65536 ^ length ys = group_value ys"
  using cut_below [OF group_value_less [OF assms], of "group_value xs"] by (simp_all add: group_value_append)

lemma in6_groups:
  assumes "list_all (\<lambda>x. x < 65536) (xs @ ys)" "list_all (\<lambda>x. x < 65536) (vs @ ws)" "length xs = length vs" "length ys = length ws"
    and "length (xs @ ys) = 8" "p = 16 * length xs"
  shows "in6 (group_value (xs @ ys)) (group_value (vs @ ws)) p \<longleftrightarrow> xs = vs"
proof -
  have "(2 :: nat) ^ (128 - p) = 65536 ^ length ys"
  proof -
    have "128 - p = 16 * length ys" using assms(5,6) by simp
    then have "(2 :: nat) ^ (128 - p) = (2 ^ 16) ^ length ys" by (simp only: power_mult)
    then show ?thesis by simp
  qed
  then show ?thesis
    using assms group_value_split(1) [of ys xs] group_value_split(1) [of ws vs] group_value_inj [of xs vs] by (simp add: in6_def)
qed

lemma in6_first:
  assumes "list_all (\<lambda>x. x < 65536) (x # xs)" "list_all (\<lambda>x. x < 65536) (v # vs)" "length xs = 7" "length vs = 7" "p \<le> 16"
  shows "in6 (group_value (x # xs)) (group_value (v # vs)) p \<longleftrightarrow> x div 2 ^ (16 - p) = v div 2 ^ (16 - p)"
proof -
  have first: "group_value (y # ys) div 2 ^ (128 - p) = y div 2 ^ (16 - p)" if "list_all (\<lambda>x. x < 65536) ys" "length ys = 7" for y ys
  proof -
    have "(2 :: nat) ^ (128 - p) = 65536 ^ length ys * 2 ^ (16 - p)"
    proof -
      have "128 - p = 112 + (16 - p)" using assms(5) by simp
      then have "(2 :: nat) ^ (128 - p) = 2 ^ 112 * 2 ^ (16 - p)" by (simp only: power_add)
      then show ?thesis by (simp add: that(2))
    qed
    then have "group_value (y # ys) div 2 ^ (128 - p) = group_value ([y] @ ys) div 65536 ^ length ys div 2 ^ (16 - p)"
      by (simp only: div_mult2_eq) simp
    with group_value_split(1) [OF that(1), of "[y]"] show ?thesis by (simp add: group_value_def)
  qed
  show ?thesis using assms by (simp add: in6_def first)
qed

section \<open>The class of an IPv6 address\<close>

lemma masked_word:
  fixes x y :: "'a::len word"
  shows "x AND push_bit n (- 1) = y AND push_bit n (- 1) \<longleftrightarrow> unat x div 2 ^ n = unat y div 2 ^ n"
proof -
  have "x AND push_bit n (- 1) = y AND push_bit n (- 1) \<longleftrightarrow> drop_bit n x = drop_bit n y"
  proof
    assume e: "x AND push_bit n (- 1) = y AND push_bit n (- 1)"
    show "drop_bit n x = drop_bit n y"
    proof (rule bit_word_eqI)
      fix i assume "i < LENGTH('a)"
      have "bit (x AND push_bit n (- 1)) (n + i) = bit (y AND push_bit n (- 1)) (n + i)" using e by simp
      then show "bit (drop_bit n x) i = bit (drop_bit n y) i"
        using bit_imp_le_length [of x "n + i"] bit_imp_le_length [of y "n + i"] by (auto simp: bit_simps)
    qed
  next
    assume e: "drop_bit n x = drop_bit n y"
    show "x AND push_bit n (- 1) = y AND push_bit n (- 1)"
    proof (rule bit_word_eqI)
      fix i assume "i < LENGTH('a)"
      have "bit (drop_bit n x) (i - n) = bit (drop_bit n y) (i - n)" using e by simp
      then show "bit (x AND push_bit n (- 1)) i = bit (y AND push_bit n (- 1)) i" by (auto simp: bit_simps)
    qed
  qed
  also have "\<dots> \<longleftrightarrow> unat (drop_bit n x) = unat (drop_bit n y)" by (simp add: word_unat_eq_iff)
  also have "\<dots> \<longleftrightarrow> unat x div 2 ^ n = unat y div 2 ^ n"
    by (simp only: unat_drop_bit_eq) (simp add: drop_bit_eq_div)
  finally show ?thesis .
qed

lemma group_masks:
  fixes g :: "16 word"
  shows "g AND 0xff00 = 0xff00 \<longleftrightarrow> unat g div 256 = 255" "g AND 0xffc0 = 0xfe80 \<longleftrightarrow> unat g div 64 = 1018"
    "g AND 0xffc0 = 0xfec0 \<longleftrightarrow> unat g div 64 = 1019" "g AND 0xfe00 = 0xfc00 \<longleftrightarrow> unat g div 512 = 126"
proof -
  have m: "push_bit 8 (- 1) = (0xff00 :: 16 word)" "push_bit 6 (- 1) = (0xffc0 :: 16 word)" "push_bit 9 (- 1) = (0xfe00 :: 16 word)"
    by code_simp+
  show "g AND 0xff00 = 0xff00 \<longleftrightarrow> unat g div 256 = 255" using masked_word [of g 8 "0xff00", unfolded m] by simp
  show "g AND 0xffc0 = 0xfe80 \<longleftrightarrow> unat g div 64 = 1018" using masked_word [of g 6 "0xfe80", unfolded m] by simp
  show "g AND 0xffc0 = 0xfec0 \<longleftrightarrow> unat g div 64 = 1019" using masked_word [of g 6 "0xfec0", unfolded m] by simp
  show "g AND 0xfe00 = 0xfc00 \<longleftrightarrow> unat g div 512 = 126" using masked_word [of g 9 "0xfc00", unfolded m] by simp
qed

lemma unat_less_group: "unat (g :: 16 word) < 65536"
  using unsigned_less [of g, where 'a = nat] by simp

lemma embedded_quad:
  fixes hi lo :: "16 word"
  shows "\<exists>ns. quad ns \<and> embeddedIPv4 hi lo = dotted ns \<and> quad_value ns = group_value [unat hi, unat lo]"
proof -
  have byte: "unat (drop_bit 8 g) = unat g div 256" "unat (g AND 0xff) = unat g mod 256" for g :: "16 word"
  proof -
    show "unat (drop_bit 8 g) = unat g div 256" by (simp only: unat_drop_bit_eq) (simp add: drop_bit_eq_div)
    have "unat (g AND 0xff) = unat g AND 255" by (simp add: unsigned_and_eq)
    also have "\<dots> = take_bit 8 (unat g)" by (simp add: take_bit_eq_mask mask_eq_exp_minus_1)
    also have "\<dots> = unat g mod 256" by (simp only: take_bit_eq_mod) simp
    finally show "unat (g AND 0xff) = unat g mod 256" .
  qed
  let ?ns = "[unat hi div 256, unat hi mod 256, unat lo div 256, unat lo mod 256]"
  have "n div 256 \<le> 255" if "n < 65536" for n :: nat using that by (simp add: less_Suc_eq_le [symmetric] div_less_iff_less_mult)
  then have "quad ?ns" using unat_less_group [of hi] unat_less_group [of lo] by (simp add: quad_def less_Suc_eq_le [symmetric])
  moreover have "embeddedIPv4 hi lo = dotted ?ns" by (simp add: embeddedIPv4_def dotted_def byte)
  moreover have "quad_value ?ns = group_value [unat hi, unat lo]"
    using div_mult_mod_eq [of "unat hi" 256] div_mult_mod_eq [of "unat lo" 256] by (simp add: quad_value_def group_value_def)
  ultimately show ?thesis by blast
qed

lemma embedded_public: "classifyIPv4 (embeddedIPv4 hi lo) = Public_address \<longleftrightarrow> \<not> internal4 (group_value [unat hi, unat lo])"
  using embedded_quad [of hi lo] classifyIPv4_dotted by auto

lemma zero_prefix_groups:
  "zero_prefix n g \<longleftrightarrow> list_all (\<lambda>x. x = 0) (take n (map unat g))"
  by (simp add: zero_prefix_def list_all_iff take_map unsigned_eq_0_iff)

lemma eight_groups:
  fixes g :: "'a list"
  assumes "length g = 8"
  obtains g0 g1 g2 g3 g4 g5 g6 g7 where "g = [g0, g1, g2, g3, g4, g5, g6, g7]"
  using assms by (auto simp: length_Suc_conv eval_nat_numeral)

lemma internal6_groups:
  assumes "list_all (\<lambda>x. x < 65536) [x0, x1, x2, x3, x4, x5, x6, x7]"
  shows "internal6 (group_value [x0, x1, x2, x3, x4, x5, x6, x7]) \<longleftrightarrow>
    x0 div 256 = 255 \<or> x0 div 64 = 1018 \<or> x0 div 64 = 1019 \<or> x0 div 512 = 126
    \<or> ([x0, x1, x2, x3, x4, x5] \<in> {[0, 0, 0, 0, 0, 0xffff], [0, 0, 0, 0, 0, 0], [0x64, 0xff9b, 0, 0, 0, 0]} \<and> internal4 (group_value [x6, x7]))
    \<or> (x0 = 0x2002 \<and> internal4 (group_value [x1, x2]))"
proof -
  let ?n = "group_value [x0, x1, x2, x3, x4, x5, x6, x7]"
  have last: "?n div 2 ^ 0 mod 2 ^ 32 = group_value [x6, x7]"
    using group_value_split(2) [of "[x6, x7]" "[x0, x1, x2, x3, x4, x5]"] assms by simp
  have second: "?n div 2 ^ 80 mod 2 ^ 32 = group_value [x1, x2]"
  proof -
    have "?n div 2 ^ 80 = group_value [x0, x1, x2]"
      using group_value_split(1) [of "[x3, x4, x5, x6, x7]" "[x0, x1, x2]"] assms by simp
    then show ?thesis using group_value_split(2) [of "[x1, x2]" "[x0]"] assms by simp
  qed
  have six: "in6 ?n (group_value [v0, v1, v2, v3, v4, v5, 0, 0]) 96 \<longleftrightarrow> [x0, x1, x2, x3, x4, x5] = [v0, v1, v2, v3, v4, v5]"
    if "list_all (\<lambda>x. x < 65536) [v0, v1, v2, v3, v4, v5]" for v0 v1 v2 v3 v4 v5
    using in6_groups [of "[x0, x1, x2, x3, x4, x5]" "[x6, x7]" "[v0, v1, v2, v3, v4, v5]" "[0, 0]" 96] assms that by simp
  have first: "in6 ?n (group_value [v, 0, 0, 0, 0, 0, 0, 0]) p \<longleftrightarrow> x0 div 2 ^ (16 - p) = v div 2 ^ (16 - p)" if "v < 65536" "p \<le> 16" for v p
    using in6_first [of x0 "[x1, x2, x3, x4, x5, x6, x7]" v "[0, 0, 0, 0, 0, 0, 0]" p] assms that by simp
  show ?thesis
    unfolding internal6_def V6_BLOCKS_def V4_CARRIERS_def list_ex_iff list.set bex_simps prod.case simp_thms last second
    by (simp add: six first) blast
qed

lemma ipv6_class_public:
  assumes "length g = 8"
  shows "ipv6_class g = Public_address \<longleftrightarrow> \<not> internal6 (group_value (map unat g))"
proof -
  obtain g0 g1 g2 g3 g4 g5 g6 g7 where g: "g = [g0, g1, g2, g3, g4, g5, g6, g7]" using assms by (rule eight_groups)
  have word: "h = w \<longleftrightarrow> unat h = unat w" for h w :: "16 word" by (simp add: word_unat_eq_iff)
  have low: "internal4 (group_value [0, 0])" "internal4 (group_value [0, 1])" by code_simp+
  have "list_all (\<lambda>x. x < 65536) [unat g0, unat g1, unat g2, unat g3, unat g4, unat g5, unat g6, unat g7]"
    using unat_less_group by simp
  note internal = internal6_groups [OF this]
  let ?xs = "[unat g0, unat g1, unat g2, unat g3, unat g4, unat g5]"
  have chain: "ipv6_class g = Public_address \<longleftrightarrow>
      (if ?xs = [0, 0, 0, 0, 0, 0] then \<not> internal4 (group_value [unat g6, unat g7])
       else if ?xs = [0, 0, 0, 0, 0, 0xffff] then \<not> internal4 (group_value [unat g6, unat g7])
       else if ?xs = [0x64, 0xff9b, 0, 0, 0, 0] then \<not> internal4 (group_value [unat g6, unat g7])
       else if unat g0 = 0x2002 then \<not> internal4 (group_value [unat g1, unat g2])
       else if unat g0 = 0xfd00 \<and> unat g1 = 0x0ec2 \<and> unat g2 = 0 \<and> unat g3 = 0 \<and> unat g4 = 0 \<and> unat g5 = 0 \<and> unat g6 = 0 \<and> unat g7 = 0x254
       then False
       else \<not> (unat g0 div 256 = 255 \<or> unat g0 div 64 = 1018 \<or> unat g0 div 64 = 1019 \<or> unat g0 div 512 = 126))"
    unfolding ipv6_class_def zero_prefix_groups group_masks g using low embedded_public
    by (simp add: word) 
  show ?thesis unfolding chain unfolding g list.map internal by auto
qed

end
