(* ===== verification/Ipv6_Text.thy ===== *)
theory Ipv6_Text
  imports Url_Guard
begin

text \<open>
  What the texts of addresses denote, and that the guard of \<open>utils/urlGuard.ts\<close> reads them so: every notation
  of an IPv6 address gives its eight groups, hence the class depends on the number only, and an accepted URL
  resolves to no internal address.
\<close>

section \<open>Reading the text\<close>

lemma foldl_hex_shift: "foldl (\<lambda>acc c. 16 * acc + hex_val c) n s = n * 16 ^ length s + nat_of_hex s"
proof (induction s arbitrary: n)
  case (Cons c s)
  show ?case using Cons [of "16 * n + hex_val c"] Cons [of "hex_val c"] by (simp add: nat_of_hex_def algebra_simps)
qed (simp add: nat_of_hex_def)

lemma nat_of_hex_snoc: "nat_of_hex (s @ [c]) = 16 * nat_of_hex s + hex_val c"
  by (simp add: nat_of_hex_def)

lemma hex_char_val: "d < 16 \<Longrightarrow> hex_val (hex_char d) = d \<and> is_hex (hex_char d)"
proof -
  assume d: "d < 16"
  show ?thesis
  proof (cases "d < 10")
    case True
    then show ?thesis by (simp add: hex_char_def hex_val_def is_hex_def)
  next
    case False
    then have "(of_char (char_of (d + 87) :: char) :: nat) = d + 87" using d by (simp add: of_char_of)
    with False d show ?thesis by (simp add: hex_char_def hex_val_def is_hex_def is_digit_def Let_def)
  qed
qed

lemma nat_of_hex_show: "nat_of_hex (show_hex n) = n \<and> list_all is_hex (show_hex n) \<and> show_hex n \<noteq> []"
proof (induction n rule: show_hex.induct)
  case (1 n)
  show ?case
  proof (cases "n < 16")
    case True
    then show ?thesis using hex_char_val [of n] by (subst (1 2 3) show_hex.simps) (simp add: nat_of_hex_def)
  next
    case False
    then show ?thesis using 1 hex_char_val [of "n mod 16"] by (subst (1 2 3) show_hex.simps) (simp add: nat_of_hex_snoc)
  qed
qed

lemma length_show_hex: "n < 16 ^ k \<Longrightarrow> 0 < k \<Longrightarrow> length (show_hex n) \<le> k"
proof (induction n arbitrary: k rule: show_hex.induct)
  case (1 n)
  show ?case
  proof (cases "n < 16")
    case True
    with 1(3) show ?thesis by (subst show_hex.simps) simp
  next
    case False
    then obtain j where j: "k = Suc j" "0 < j" using 1(2,3) by (cases k; cases "k - 1") auto
    then have "n div 16 < 16 ^ j" using 1(2) by (simp add: div_less_iff_less_mult)
    with 1(1) False j show ?thesis by (subst show_hex.simps) simp
  qed
qed

lemma hex_val_less: "is_hex c \<Longrightarrow> hex_val c < 16"
  by (auto simp: is_hex_def hex_val_def Let_def dest: digit_val_less)

lemma nat_of_hex_less: "list_all is_hex s \<Longrightarrow> nat_of_hex s < 16 ^ length s"
proof (induction s rule: rev_induct)
  case (snoc c s)
  then have "hex_val c < 16" "nat_of_hex s < 16 ^ length s" using hex_val_less by simp_all
  then show ?case by (simp add: nat_of_hex_snoc)
qed (simp add: nat_of_hex_def)

definition hexseg :: "string \<Rightarrow> bool" where
  "hexseg s = (1 \<le> length s \<and> length s \<le> 4 \<and> list_all is_hex s)"

lemma read_hexseg: "hexseg s \<Longrightarrow> read_group s = Some (word_of_nat (nat_of_hex s)) \<and> nat_of_hex s < 65536"
proof -
  assume h: "hexseg s"
  then have "nat_of_hex s < 16 ^ length s" using nat_of_hex_less by (simp add: hexseg_def)
  also have "\<dots> \<le> 16 ^ 4" using h by (intro power_increasing) (simp_all add: hexseg_def)
  finally show ?thesis using h by (simp add: read_group_def hexseg_def)
qed

lemma hexseg_show: "n < 65536 \<Longrightarrow> hexseg (show_hex n)"
  using nat_of_hex_show [of n] length_show_hex [of n 4] by (cases "show_hex n") (auto simp: hexseg_def)

lemma hex_pair_value:
  assumes "a \<le> 255" "b \<le> 255"
  shows "hex_pair a b = a * 256 + b"
proof -
  have "hex_pair a b = unat (word_of_nat a * 256 + word_of_nat b :: 32 word)"
    by (simp add: hex_pair_def push_or_add [OF assms(2)])
  also have "\<dots> = unat (word_of_nat (a * 256 + b) :: 32 word)" by simp
  also have "\<dots> = a * 256 + b" using assms by (simp only: unat_of_nat) simp
  finally show ?thesis .
qed

section \<open>Where the pieces meet\<close>

fun sparse :: "string \<Rightarrow> bool" where
  \<comment> \<open>no two adjacent colons, and none at the end\<close>
  "sparse [] = True"
| "sparse [x] = (x \<noteq> CHR '':'')"
| "sparse (x # y # s) = (\<not> (x = CHR '':'' \<and> y = CHR '':'') \<and> sparse (y # s))"

lemma split_pairs_sparse: "sparse s \<Longrightarrow> split_pairs s = [s]"
  by (induction s rule: sparse.induct) auto

lemma split_pairs_append: "sparse p \<Longrightarrow> split_pairs (p @ CHR '':'' # CHR '':'' # s) = p # split_pairs s"
proof (induction p rule: sparse.induct)
  case (2 x)
  then show ?case by (cases "split_pairs (CHR '':'' # s)") auto
qed auto

lemma sparse_no_colon: "CHR '':'' \<notin> set s \<Longrightarrow> sparse s"
  by (induction s rule: sparse.induct) auto

lemma sparse_append: "s \<noteq> [] \<Longrightarrow> CHR '':'' \<notin> set s \<Longrightarrow> sparse (c # t) \<Longrightarrow> c \<noteq> CHR '':'' \<Longrightarrow> sparse (s @ CHR '':'' # c # t)"
  by (induction s rule: sparse.induct) auto

lemma sparse_join:
  assumes "\<forall>s \<in> set ss. s \<noteq> [] \<and> CHR '':'' \<notin> set s"
  shows "sparse (join_with '':'' ss)"
  using assms
proof (induction "'':''" ss rule: join_with.induct)
  case (3 s t ss)
  have "sparse (join_with '':'' (t # ss))" using 3 by simp
  moreover obtain c u where "join_with '':'' (t # ss) = c # u" "c \<noteq> CHR '':''"
    using 3(2) by (cases t; cases ss) auto
  ultimately show ?case using 3(2) sparse_append [of s c u] by simp
qed (simp_all add: sparse_no_colon)

lemma split_pairs_lower: "split_pairs (js_lower s) = map js_lower (split_pairs s)"
proof -
  have colon: "to_lower c = CHR '':'' \<longleftrightarrow> c = CHR '':''" for c
  proof
    assume l: "to_lower c = CHR '':''"
    show "c = CHR '':''"
    proof (rule ccontr)
      assume "c \<noteq> CHR '':''"
      with l have "(of_char (to_lower c) :: nat) = 58" "to_lower c \<noteq> c" by auto
      then show False by (auto simp: to_lower_def Let_def of_char_of split: if_splits)
    qed
  qed (simp add: to_lower_def)
  show ?thesis
    by (induction s rule: split_pairs.induct) (auto simp: js_lower_def colon split: list.splits)
qed

section \<open>What the text denotes\<close>

definition seg_value :: "string \<Rightarrow> nat list" where
  "seg_value s = (case octets s of Some [a, b, c, d] \<Rightarrow> [a * 256 + b, c * 256 + d] | _ \<Rightarrow> [nat_of_hex (js_lower s)])"

definition part_value :: "string \<Rightarrow> nat list" where
  "part_value part = concat (map seg_value (segments_of part))"

definition ipv6_value :: "string \<Rightarrow> nat list" where
  \<comment> \<open>the eight groups that a text of the grammar stands for\<close>
  "ipv6_value s =
     (case split_pairs (takeWhile (\<lambda>c. c \<noteq> CHR ''%'') s) of
        [whole] \<Rightarrow> part_value whole
      | [front, back] \<Rightarrow>
          part_value front @ replicate (8 - length (part_value front) - length (part_value back)) 0 @ part_value back
      | _ \<Rightarrow> [])"

definition expand :: "string list \<Rightarrow> string list" where
  \<comment> \<open>hexadecimal groups for every segment\<close>
  "expand ss = concat (map (\<lambda>s. case octets s of Some [a, b, c, d] \<Rightarrow> [show_hex (a * 256 + b), show_hex (c * 256 + d)]
     | _ \<Rightarrow> [js_lower s]) ss)"

lemma is_segment_hexseg: "is_segment s = hexseg (js_lower s)"
  by (simp add: is_segment_def hexseg_def js_lower_def)

lemma hex_char_plain: "is_hex c \<Longrightarrow> c \<noteq> CHR ''.'' \<and> c \<noteq> CHR '':''"
  by (auto simp: is_hex_def is_digit_def)

lemma hexseg_plain: "hexseg s \<Longrightarrow> CHR ''.'' \<notin> set s \<and> CHR '':'' \<notin> set s \<and> s \<noteq> []"
proof -
  assume h: "hexseg s"
  then have "is_hex c" if "c \<in> set s" for c using that by (simp add: hexseg_def list_all_iff)
  moreover have "s \<noteq> []" using h by (cases s) (simp_all add: hexseg_def)
  ultimately show ?thesis using hex_char_plain by metis
qed

lemma no_dot_no_octets: "CHR ''.'' \<notin> set s \<Longrightarrow> octets s = None"
  by (simp add: octets_def split_on_no_sep)

lemma lower_keeps: "c \<in> {CHR ''.'', CHR '':'', CHR ''%''} \<Longrightarrow> to_lower d = c \<longleftrightarrow> d = c"
proof
  assume c: "c \<in> {CHR ''.'', CHR '':'', CHR ''%''}" and l: "to_lower d = c"
  show "d = c"
  proof (rule ccontr)
    assume "d \<noteq> c"
    with l have "to_lower d \<noteq> d" by simp
    then have "97 \<le> (of_char (to_lower d) :: nat)" by (auto simp: to_lower_def Let_def of_char_of split: if_splits)
    then show False using c l by auto
  qed
qed (auto simp: to_lower_def)

lemma segment_octets: "is_segment s \<Longrightarrow> octets s = None"
proof (rule no_dot_no_octets, rule notI)
  assume s: "is_segment s" and "CHR ''.'' \<in> set s"
  then have "to_lower CHR ''.'' \<in> set (js_lower s)" unfolding js_lower_def by simp
  moreover have "to_lower CHR ''.'' = CHR ''.''" using lower_keeps by blast
  ultimately show False using s hexseg_plain by (simp add: is_segment_hexseg)
qed

lemma lower_dotted: "js_lower (dotted ns) = dotted ns"
proof -
  have "to_lower c = c" if "c \<in> set (dotted ns)" for c
    using dotted_chars [OF that] by (auto simp: to_lower_def is_digit_def Let_def)
  then show ?thesis by (simp add: js_lower_def map_idI)
qed

lemma width_cases:
  assumes "width at_end ss = Some n"
  obtains "list_all is_segment ss" "n = length ss"
  | ks a b c d where "ss = ks @ [dotted [a, b, c, d]]" "list_all is_segment ks" "quad [a, b, c, d]" "n = length ss + 1" "at_end"
proof (cases "list_all is_segment ss")
  case True
  with assms that(1) show thesis by (simp add: width_def)
next
  case False
  with assms have t: "at_end" "ss \<noteq> []" "list_all is_segment (butlast ss)" "octets (last ss) \<noteq> None" "n = length ss + 1"
    by (auto simp: width_def split: if_splits)
  then obtain ns where "octets (last ss) = Some ns" by auto
  then have ns: "quad ns" "last ss = dotted ns" using octets_Some by blast+
  obtain a b c d where "ns = [a, b, c, d]" using ns(1) by (rule quad_cases)
  with that(2) [of "butlast ss" a b c d] t ns show thesis by (metis append_butlast_last_id)
qed

lemma expand_segments: "list_all is_segment ss \<Longrightarrow> expand ss = map js_lower ss \<and> concat (map seg_value ss) = map (nat_of_hex \<circ> js_lower) ss"
  by (induction ss) (auto simp: expand_def seg_value_def segment_octets)

lemma expand_dotted:
  assumes "list_all is_segment ks" "quad [a, b, c, d]"
  shows "expand (ks @ [dotted [a, b, c, d]]) = map js_lower ks @ [show_hex (a * 256 + b), show_hex (c * 256 + d)]
    \<and> concat (map seg_value (ks @ [dotted [a, b, c, d]])) = map (nat_of_hex \<circ> js_lower) ks @ [a * 256 + b, c * 256 + d]"
  using expand_segments [OF assms(1)] octets_dotted [OF assms(2)] by (simp add: expand_def seg_value_def)

lemma width_expand:
  assumes "width at_end ss = Some n"
  shows "length (expand ss) = n \<and> list_all hexseg (expand ss) \<and> map nat_of_hex (expand ss) = concat (map seg_value ss)"
  using assms
proof (cases rule: width_cases)
  case 1
  then show ?thesis using expand_segments [of ss] by (simp add: list_all_iff is_segment_hexseg)
next
  case (2 ks a b c d)
  then have "a * 256 + b < 65536" "c * 256 + d < 65536" by (simp_all add: quad_def)
  then show ?thesis using 2 expand_dotted [OF 2(2,3)] hexseg_show nat_of_hex_show by (simp add: list_all_iff is_segment_hexseg)
qed

section \<open>Rewriting the dotted tail\<close>

lemma undotted_plain: "CHR ''.'' \<notin> set t \<Longrightarrow> undotted t = Some t"
proof -
  assume t: "CHR ''.'' \<notin> set t"
  have "\<not> is_dotted (drop i t)" for i
  proof -
    have "CHR ''.'' \<notin> set (drop i t)" using t by (meson in_set_dropD)
    then show ?thesis by (simp add: is_dotted_def split_on_no_sep)
  qed
  then have "dotted_start t = None" by (simp add: dotted_start_def find_None_iff)
  then show ?thesis by (simp add: undotted_def)
qed

lemma is_dotted_chars:
  assumes "is_dotted s" "c \<in> set s"
  shows "is_digit c \<or> c = CHR ''.''"
proof -
  have "c \<in> set (join_with ''.'' (split_on CHR ''.'' s))" using assms(2) by (simp only: join_split_on)
  then show ?thesis using assms(1) set_join_with [of "''.''" "split_on CHR ''.'' s"]
    by (auto simp: is_dotted_def Let_def list_all_iff all_digits_def)
qed

lemma dotted_is_dotted: "quad ns \<Longrightarrow> is_dotted (dotted ns)"
proof -
  assume q: "quad ns"
  then have "ns \<noteq> []" by (auto simp: quad_def)
  then show ?thesis using q show_nat_digits by (simp add: is_dotted_def split_dotted quad_def list_all_iff)
qed

lemma dotted_start_tail:
  assumes "pre = [] \<or> last pre = CHR '':''" "quad ns"
  shows "dotted_start (pre @ dotted ns) = Some (length pre)"
proof -
  let ?t = "pre @ dotted ns"
  have "ns \<noteq> []" using assms(2) by (auto simp: quad_def)
  then have "length pre < length ?t" by (simp add: dotted_not_Nil)
  moreover have "\<not> is_dotted (drop i ?t)" if i: "i < length pre" for i
  proof
    assume "is_dotted (drop i ?t)"
    moreover have "CHR '':'' \<in> set (drop i ?t)"
    proof -
      have "drop i pre \<noteq> []" "last (drop i pre) = last pre" using i by (simp_all add: last_drop)
      then have "last pre \<in> set (drop i pre)" by (metis last_in_set)
      then show ?thesis using assms(1) i by auto
    qed
    ultimately have "is_digit CHR '':'' \<or> CHR '':'' = CHR ''.''" by (rule is_dotted_chars)
    then show False by (simp add: is_digit_def)
  qed
  ultimately show ?thesis
    using dotted_is_dotted [OF assms(2)] unfolding dotted_start_def find_Some_iff by (intro exI [of _ "length pre"]) simp
qed

lemma undotted_tail:
  assumes "pre = [] \<or> last pre = CHR '':''" "quad [a, b, c, d]"
  shows "undotted (pre @ dotted [a, b, c, d]) = Some (pre @ show_hex (a * 256 + b) @ '':'' @ show_hex (c * 256 + d))"
  using assms(2) split_dotted [of "[a, b, c, d]"]
  by (simp add: undotted_def dotted_start_tail [OF assms] quad_def hex_pair_value)

lemma join_snoc: "ss \<noteq> [] \<Longrightarrow> join_with sep (ss @ [s]) = join_with sep ss @ sep @ s"
  by (induction sep ss rule: join_with.induct) auto

lemma lower_join: "js_lower (join_with '':'' ss) = join_with '':'' (map js_lower ss)"
  by (induction "'':''" ss rule: join_with.induct) (auto simp: js_lower_def to_lower_def)

lemma join_no_dot: "list_all hexseg ss \<Longrightarrow> CHR ''.'' \<notin> set (join_with '':'' ss)"
proof -
  assume h: "list_all hexseg ss"
  have "CHR ''.'' \<notin> set s" if "s \<in> set ss" for s using h that hexseg_plain by (simp add: list_all_iff)
  then show ?thesis using set_join_with [of "'':''" ss] by auto
qed

lemma undotted_part:
  assumes "width at_end ss = Some n" "pre = [] \<or> last pre = CHR '':''" "CHR ''.'' \<notin> set pre"
  shows "undotted (pre @ js_lower (join_with '':'' ss)) = Some (pre @ join_with '':'' (expand ss))"
  using assms(1)
proof (cases rule: width_cases)
  case 1
  then have "list_all hexseg (map js_lower ss)" by (simp add: list_all_iff is_segment_hexseg)
  from join_no_dot [OF this] show ?thesis
    using assms(3) expand_segments [OF 1(1)] by (simp add: lower_join undotted_plain)
next
  case (2 ks a b c d)
  let ?v = "dotted [a, b, c, d]" and ?ks = "map js_lower ks"
  note e = expand_dotted [OF 2(2,3)]
  show ?thesis
  proof (cases "ks = []")
    case True
    then show ?thesis using undotted_tail [OF assms(2) 2(3)] e by (simp add: 2(1) lower_dotted)
  next
    case False
    let ?pre = "pre @ join_with '':'' ?ks @ '':''"
    have "pre @ js_lower (join_with '':'' ss) = ?pre @ ?v"
      unfolding 2(1) lower_join map_append list.map lower_dotted using False by (simp add: join_snoc)
    moreover have "undotted (?pre @ ?v) = Some (?pre @ show_hex (a * 256 + b) @ '':'' @ show_hex (c * 256 + d))"
      by (rule undotted_tail) (use 2(3) in simp_all)
    moreover have "join_with '':'' (expand ss) = join_with '':'' ?ks @ '':'' @ show_hex (a * 256 + b) @ '':'' @ show_hex (c * 256 + d)"
      using False e join_snoc [of "?ks @ [show_hex (a * 256 + b)]"] join_snoc [of ?ks] by (simp add: 2(1))
    ultimately show ?thesis by simp
  qed
qed

lemma read_expanded:
  assumes "list_all hexseg es"
  shows "read_groups (join_with '':'' es) = map (\<lambda>s. Some (word_of_nat (nat_of_hex s))) es"
proof (cases "es = []")
  case False
  have "\<forall>s \<in> set es. CHR '':'' \<notin> set s \<and> s \<noteq> []" using assms hexseg_plain by (simp add: list_all_iff)
  then have "split_on CHR '':'' (join_with '':'' es) = es" using False by (intro split_on_join) auto
  moreover have "join_with '':'' es \<noteq> []" using False \<open>\<forall>s \<in> set es. _\<close> by (cases es; cases "tl es") auto
  ultimately show ?thesis using assms read_hexseg by (simp add: read_groups_def list_all_iff)
qed (simp add: read_groups_def)

lemma segments_join: "join_with '':'' (segments_of part) = part"
  using join_split_on by (simp add: segments_of_def)

lemma expand_sparse:
  assumes "width at_end ss = Some n"
  shows "sparse (join_with '':'' (expand ss))"
  by (rule sparse_join) (use width_expand [OF assms] hexseg_plain in \<open>simp add: list_all_iff\<close>)

lemma join_split_pairs: "join_with ''::'' (split_pairs s) = s"
proof (induction s rule: split_pairs.induct)
  case (3 x y s)
  show ?case
  proof (cases "x = CHR '':'' \<and> y = CHR '':''")
    case True
    then show ?thesis using 3(1) by (cases "split_pairs s") auto
  next
    case False
    obtain p ps where "split_pairs (y # s) = p # ps" using 3(2) [OF False] by (cases "split_pairs (y # s)") auto
    then show ?thesis using 3(2) [OF False] False by (cases ps) auto
  qed
qed auto

lemma before_zone: "takeWhile (\<lambda>c. c \<noteq> CHR ''%'') (js_lower s) = js_lower (takeWhile (\<lambda>c. c \<noteq> CHR ''%'') s)"
proof -
  have "to_lower c = CHR ''%'' \<longleftrightarrow> c = CHR ''%''" for c using lower_keeps by blast
  then show ?thesis by (induction s) (auto simp: js_lower_def)
qed

lemma ipv6_cases:
  assumes "is_ipv6 s"
  obtains ws where "takeWhile (\<lambda>c. c \<noteq> CHR ''%'') s = join_with '':'' ws" "width True ws = Some 8" "ipv6_value s = concat (map seg_value ws)"
  | fs bs m n where "takeWhile (\<lambda>c. c \<noteq> CHR ''%'') s = join_with '':'' fs @ ''::'' @ join_with '':'' bs"
      "width False fs = Some m" "width True bs = Some n" "m + n \<le> 7"
      "ipv6_value s = concat (map seg_value fs) @ replicate (8 - m - n) 0 @ concat (map seg_value bs)"
proof -
  let ?t = "takeWhile (\<lambda>c. c \<noteq> CHR ''%'') s"
  consider w where "split_pairs ?t = [w]" "width True (segments_of w) = Some 8"
    | f b m n where "split_pairs ?t = [f, b]" "width False (segments_of f) = Some m" "width True (segments_of b) = Some n" "m + n \<le> 7"
    using assms by (auto simp: is_ipv6_def Let_def split: list.splits option.splits)
  then show thesis
  proof cases
    case 1
    then show ?thesis using that(1) [of "segments_of w"] join_split_pairs [of ?t]
      by (simp add: segments_join ipv6_value_def part_value_def)
  next
    case 2
    have "length (part_value f) = m" "length (part_value b) = n"
      using width_expand [OF 2(2)] width_expand [OF 2(3)] unfolding part_value_def by (metis length_map)+
    then show ?thesis using 2 that(2) [of "segments_of f" "segments_of b" m n] join_split_pairs [of ?t]
      by (simp add: segments_join ipv6_value_def part_value_def)
  qed
qed

lemma groups_read:
  assumes "list_all hexseg es"
  shows "None \<notin> set (map (\<lambda>s. Some (word_of_nat (nat_of_hex s) :: 16 word)) es)"
    "map unat (map the (map (\<lambda>s. Some (word_of_nat (nat_of_hex s) :: 16 word)) es)) = map nat_of_hex es"
proof -
  have "unat (word_of_nat (nat_of_hex s) :: 16 word) = nat_of_hex s" if "s \<in> set es" for s
  proof -
    have "nat_of_hex s < 65536" using assms that read_hexseg by (simp add: list_all_iff)
    then show ?thesis by (simp only: unat_of_nat) simp
  qed
  then show "map unat (map the (map (\<lambda>s. Some (word_of_nat (nat_of_hex s) :: 16 word)) es)) = map nat_of_hex es" by simp
qed auto

text \<open>The guard reads an IPv6 address in every notation that \<open>net.isIP\<close> accepts - full or compressed, upper or
  lower case, with a dotted tail, with a zone - as the eight groups that the text denotes.\<close>

lemma ipv6Groups_value:
  assumes "is_ipv6 s"
  shows "\<exists>g. ipv6Groups s = Some g \<and> length g = 8 \<and> map unat g = ipv6_value s"
  using assms
proof (cases rule: ipv6_cases)
  case (1 ws)
  note e = width_expand [OF 1(2)]
  have "undotted (js_lower (join_with '':'' ws)) = Some (join_with '':'' (expand ws))"
    using undotted_part [OF 1(2), of "[]"] by simp
  then show ?thesis
    using e groups_read [of "expand ws"] 1(3)
    by (simp add: ipv6Groups_def before_zone 1(1) split_pairs_sparse [OF expand_sparse [OF 1(2)]] read_expanded Let_def)
next
  case (2 fs bs m n)
  let ?pre = "join_with '':'' (expand fs) @ ''::''"
  note e = width_expand [OF 2(2)] width_expand [OF 2(3)]
  have fs: "js_lower (join_with '':'' fs) = join_with '':'' (expand fs)"
    using 2(2) expand_segments [of fs] by (auto simp: width_def lower_join split: if_splits)
  have "CHR ''.'' \<notin> set ?pre" using join_no_dot [of "expand fs"] e(1) by simp
  then have "undotted (?pre @ js_lower (join_with '':'' bs)) = Some (?pre @ join_with '':'' (expand bs))"
    by (intro undotted_part [OF 2(3)]) simp_all
  moreover have "js_lower (join_with '':'' fs @ ''::'' @ join_with '':'' bs) = ?pre @ js_lower (join_with '':'' bs)"
    using fs by (simp add: js_lower_def to_lower_def)
  moreover have "split_pairs (?pre @ join_with '':'' (expand bs)) = [join_with '':'' (expand fs), join_with '':'' (expand bs)]"
    using split_pairs_append [OF expand_sparse [OF 2(2)]] split_pairs_sparse [OF expand_sparse [OF 2(3)]] by simp
  ultimately show ?thesis
    using e groups_read [of "expand fs"] groups_read [of "expand bs"] 2(4,5)
    by (simp add: ipv6Groups_def before_zone 2(1) read_expanded Let_def)
qed

definition public_target :: "string \<Rightarrow> bool" where
  \<comment> \<open>an address that denotes no internal address and reaches no internal IPv4 address\<close>
  "public_target a =
     (case octets a of
        Some ns \<Rightarrow> \<not> internal4 (quad_value ns)
      | None \<Rightarrow> is_ipv6 a \<and> \<not> internal6 (group_value (ipv6_value a)))"

lemma classifyAddress_public: "classifyAddress a = Public_address \<longleftrightarrow> public_target a"
proof (cases "octets a")
  case (Some ns)
  then show ?thesis using octets_Some [OF Some] classifyIPv4_dotted by (auto simp: classifyAddress_def isIP_def public_target_def)
next
  case None
  show ?thesis
  proof (cases "is_ipv6 a")
    case True
    then obtain g where "ipv6Groups a = Some g" "length g = 8" "map unat g = ipv6_value a" using ipv6Groups_value by blast
    then show ?thesis using None True ipv6_class_public [of g]
      by (simp add: classifyAddress_def isIP_def public_target_def classifyIPv6_def)
  qed (use None in \<open>simp add: classifyAddress_def isIP_def public_target_def\<close>)
qed

text \<open>C16: A download URL passes the guard exactly when it parses, its host is an address or resolves to at
  least one, and every one of these addresses lies outside the internal blocks, also as the IPv4 address
  it reaches when it is a mapped, compatible, NAT64 or 6to4 address, whatever its notation.\<close>

theorem guard_accepts_public_targets_only:
  "assertPublicDownloadUrl False hostname lookup url = Inr () \<longleftrightarrow>
     (\<exists>h addresses. hostname url = Some h
        \<and> (if isIP (unbracketed h) \<noteq> 0 then Some [unbracketed h] else lookup (unbracketed h)) = Some addresses
        \<and> addresses \<noteq> [] \<and> list_all public_target addresses)"
  by (auto simp: assertPublicDownloadUrl_def isInternalAddress_def classifyAddress_public list_ex_iff list_all_iff Let_def
      split: option.splits if_splits)

lemma mapped_address_is_read:
  "\<exists>g. ipv6Groups ''::FFFF:10.0.0.1%eth0'' = Some g \<and> map unat g = [0, 0, 0, 0, 0, 65535, 2560, 1]"
proof -
  have "is_ipv6 ''::FFFF:10.0.0.1%eth0''" "ipv6_value ''::FFFF:10.0.0.1%eth0'' = [0, 0, 0, 0, 0, 65535, 2560, 1]" by code_simp+
  then show ?thesis using ipv6Groups_value [of "''::FFFF:10.0.0.1%eth0''"] by auto
qed

end
