(* ===== verification/Vmid_Allocator.thy ===== *)
theory Vmid_Allocator
  imports Js_Map Json
begin

text \<open>
  Ids of new machines (\<open>utils/vmidAllocator.ts\<close>, and \<open>getNextVmid\<close> and \<open>withFreshVmid\<close> of \<open>proxmox.ts\<close>): the
  lowest id that no host uses, no pending job holds and no deployment in flight has reserved. What the hosts
  answer, the clock, the ids of the pending jobs, and what other deployments do to the reservations between two
  awaits are parameters.
\<close>

section \<open>The choice\<close>

definition VMID_MIN :: int where
  "VMID_MIN = 100"

definition VMID_RESERVATION_TTL_MS :: int where
  "VMID_RESERVATION_TTL_MS = 5 * 60 * 1000"

definition normalizeVmid :: "json \<Rightarrow> int option" where
  "normalizeVmid v = parse_int (to_str v)"

function first_free :: "int list \<Rightarrow> int \<Rightarrow> int" where
  \<comment> \<open>\<open>while (taken(vmid)) vmid++\<close>\<close>
  "first_free taken v = (if v \<in> set taken then first_free taken (v + 1) else v)"
  by pat_completeness auto

termination
proof (relation "measure (\<lambda>(taken, v). card {x \<in> set taken. v \<le> x})")
  fix taken :: "int list" and v :: int
  assume v: "v \<in> set taken"
  have "{x \<in> set taken. v + 1 \<le> x} \<subset> {x \<in> set taken. v \<le> x}"
  proof
    show "{x \<in> set taken. v + 1 \<le> x} \<subseteq> {x \<in> set taken. v \<le> x}" by auto
    have "v \<in> {x \<in> set taken. v \<le> x}" "v \<notin> {x \<in> set taken. v + 1 \<le> x}" using v by auto
    then show "{x \<in> set taken. v + 1 \<le> x} \<noteq> {x \<in> set taken. v \<le> x}" by blast
  qed
  then have "card {x \<in> set taken. v + 1 \<le> x} < card {x \<in> set taken. v \<le> x}" by (intro psubset_card_mono) simp_all
  then show "((taken, v + 1), (taken, v)) \<in> measure (\<lambda>(taken, v). card {x \<in> set taken. v \<le> x})"
    by (simp only: in_measure prod.case)
qed simp

declare first_free.simps [simp del]

definition pickVmid :: "int list \<Rightarrow> int list \<Rightarrow> json \<Rightarrow> int" where
  "pickVmid used reserved startAt =
     first_free (used @ reserved) (case normalizeVmid startAt of Some n \<Rightarrow> if n > VMID_MIN then n else VMID_MIN | None \<Rightarrow> VMID_MIN)"

lemma first_free_spec: "v \<le> first_free taken v \<and> first_free taken v \<notin> set taken \<and> (\<forall>w. v \<le> w \<and> w < first_free taken v \<longrightarrow> w \<in> set taken)"
proof (induction taken v rule: first_free.induct)
  case (1 taken v)
  show ?case
  proof (cases "v \<in> set taken")
    case True
    then have "first_free taken v = first_free taken (v + 1)" by (subst first_free.simps) simp
    moreover have "w = v \<or> v + 1 \<le> w" if "v \<le> w" for w using that by linarith
    ultimately show ?thesis using 1 [OF True] True by (metis add_le_cancel_left linorder_not_less order_trans zero_less_one le_add_same_cancel1 less_imp_le)
  next
    case False
    then have "first_free taken v = v" by (subst first_free.simps) simp
    with False show ?thesis by auto
  qed
qed

section \<open>Collisions reported by Proxmox\<close>

definition word_char :: "char \<Rightarrow> bool" where
  "word_char c = (is_digit c \<or> c = CHR ''_'' \<or> (let n = of_char (to_lower c) :: nat in 97 \<le> n \<and> n \<le> 122))"

definition boundary :: "char option \<Rightarrow> string \<Rightarrow> bool" where
  \<comment> \<open>\<open>\b\<close> between the previous character and the rest\<close>
  "boundary prev s = ((case prev of Some c \<Rightarrow> word_char c | None \<Rightarrow> False) \<noteq> (s \<noteq> [] \<and> word_char (hd s)))"

fun scan :: "(char option \<Rightarrow> string \<Rightarrow> bool) \<Rightarrow> char option \<Rightarrow> string \<Rightarrow> bool" where
  "scan P prev [] = P prev []"
| "scan P prev (c # s) = (P prev (c # s) \<or> scan P (Some c) s)"

definition after_prefix :: "string \<Rightarrow> string \<Rightarrow> string option" where
  "after_prefix p s = (if starts_with p s then Some (drop (length p) s) else None)"

definition taken_guest :: "char option \<Rightarrow> string \<Rightarrow> bool" where
  \<comment> \<open>\<open>\b(?:vm|ct|container)\s*\d*\s*already exists\<close>\<close>
  "taken_guest prev s =
     (boundary prev s \<and> (\<exists>w \<in> set [''vm'', ''ct'', ''container'']. case after_prefix w s of
        Some r \<Rightarrow> starts_with ''already exists'' (dropWhile is_ws (dropWhile is_digit (dropWhile is_ws r)))
      | None \<Rightarrow> False))"

definition taken_on_node :: "char option \<Rightarrow> string \<Rightarrow> bool" where
  \<comment> \<open>\<open>\balready exists on node\b\<close>\<close>
  "taken_on_node prev s =
     (boundary prev s \<and> (case after_prefix ''already exists on node'' s of Some r \<Rightarrow> boundary (Some CHR ''e'') r | None \<Rightarrow> False))"

definition already_used :: "char option \<Rightarrow> string \<Rightarrow> bool" where
  \<comment> \<open>\<open>\balready\s+(?:exists|in use)\<close>\<close>
  "already_used prev s =
     (boundary prev s \<and> (case after_prefix ''already'' s of
        Some r \<Rightarrow> r \<noteq> [] \<and> is_ws (hd r) \<and> (starts_with ''exists'' (dropWhile is_ws r) \<or> starts_with ''in use'' (dropWhile is_ws r))
      | None \<Rightarrow> False))"

fun scan_sentence :: "(char option \<Rightarrow> string \<Rightarrow> bool) \<Rightarrow> char option \<Rightarrow> string \<Rightarrow> bool" where
  \<comment> \<open>as \<open>scan\<close>, but never across a full stop\<close>
  "scan_sentence P prev [] = P prev []"
| "scan_sentence P prev (c # s) = (P prev (c # s) \<or> c \<noteq> CHR ''.'' \<and> scan_sentence P (Some c) s)"

definition taken_vmid :: "char option \<Rightarrow> string \<Rightarrow> bool" where
  \<comment> \<open>\<open>\bvmid\b[^.]*\balready\s+(?:exists|in use)\<close>\<close>
  "taken_vmid prev s =
     (boundary prev s \<and> (case after_prefix ''vmid'' s of
        Some r \<Rightarrow> boundary (Some CHR ''d'') r \<and> scan_sentence already_used (Some CHR ''d'') r
      | None \<Rightarrow> False))"

definition isVmidTakenError :: "string \<Rightarrow> bool" where
  "isVmidTakenError message =
     (let m = js_lower message in
      scan (\<lambda>_. starts_with ''config file already exists'') None m \<or> scan taken_guest None m \<or> scan taken_on_node None m
      \<or> scan taken_vmid None m)"

section \<open>Reservations\<close>

record reservations =
  rv_ttl :: int
  rv_entries :: "(int \<times> int) list"

definition rv_sweep :: "int \<Rightarrow> reservations \<Rightarrow> reservations" where
  "rv_sweep now rv = rv\<lparr>rv_entries := filter (\<lambda>(_, expires). \<not> expires \<le> now) (rv_entries rv)\<rparr>"

definition rv_reserve :: "int \<Rightarrow> json \<Rightarrow> reservations \<Rightarrow> int option \<times> reservations" where
  "rv_reserve now vmid rv =
     (case normalizeVmid vmid of
        None \<Rightarrow> (None, rv)
      | Some i \<Rightarrow> (Some i, rv\<lparr>rv_entries := map_set i (now + rv_ttl rv) (rv_entries rv)\<rparr>))"

definition rv_release :: "json \<Rightarrow> reservations \<Rightarrow> bool \<times> reservations" where
  "rv_release vmid rv =
     (case normalizeVmid vmid of
        None \<Rightarrow> (False, rv)
      | Some i \<Rightarrow> (i \<in> fst ` set (rv_entries rv), rv\<lparr>rv_entries := filter (\<lambda>(k, _). k \<noteq> i) (rv_entries rv)\<rparr>))"

definition rv_active :: "int \<Rightarrow> reservations \<Rightarrow> int list \<times> reservations" where
  "rv_active now rv = (let swept = rv_sweep now rv in (map fst (rv_entries swept), swept))"

definition rv_has :: "int \<Rightarrow> json \<Rightarrow> reservations \<Rightarrow> bool \<times> reservations" where
  "rv_has now vmid rv =
     (case normalizeVmid vmid of None \<Rightarrow> (False, rv) | Some i \<Rightarrow> (let (ids, swept) = rv_active now rv in (i \<in> set ids, swept)))"

definition rv_size :: "int \<Rightarrow> reservations \<Rightarrow> nat \<times> reservations" where
  "rv_size now rv = (let (ids, swept) = rv_active now rv in (length ids, swept))"

section \<open>Allocation\<close>

record vmid_error =
  ver_message :: string
  ver_notStarted :: bool
  ver_definitive :: bool

record cluster_reply =
  \<comment> \<open>what one host lists (or that it cannot be reached), and what it answers as its next id\<close>
  cr_host :: string
  cr_vmids :: "int list option"
  cr_nextid :: "json option"

definition plain_vmid_error :: "string \<Rightarrow> vmid_error" where
  "plain_vmid_error m = \<lparr>ver_message = m, ver_notStarted = False, ver_definitive = False\<rparr>"

definition start_at :: "int list \<Rightarrow> cluster_reply list \<Rightarrow> json" where
  "start_at used replies =
     (if used \<noteq> [] then JNum VMID_MIN
      else case List.map_filter (\<lambda>r. Option.bind (cr_nextid r) normalizeVmid) replies of
             [] \<Rightarrow> JNum VMID_MIN
           | n # _ \<Rightarrow> JNum n)"

definition getNextVmid :: "cluster_reply list \<Rightarrow> int list \<Rightarrow> int \<Rightarrow> reservations \<Rightarrow> (vmid_error + int) \<times> reservations" where
  "getNextVmid replies pending now rv =
     (let failed = map cr_host (filter (\<lambda>r. cr_vmids r = None) replies);
          used = concat (map (\<lambda>r. case cr_vmids r of Some vs \<Rightarrow> vs | None \<Rightarrow> []) replies) in
      if failed \<noteq> []
      then (Inl (plain_vmid_error (''Cannot allocate a globally unique VMID while these Proxmox hosts are unreachable: ''
              @ join_with '', '' failed)), rv)
      else
        let startAt = start_at used replies;
            (active, rv1) = rv_active now rv;
            vmid = pickVmid (used @ filter (\<lambda>v. v > 0) pending) active startAt
        in (Inr vmid, snd (rv_reserve now (JNum vmid) rv1)))"

record 'r vmid_attempt =
  \<comment> \<open>what one attempt meets: the hosts, the pending jobs, the clock, the callbacks, and the other deployments meanwhile\<close>
  at_replies :: "cluster_reply list"
  at_pending :: "int list"
  at_now :: int
  at_onReserved :: "vmid_error option"
  at_fn :: "vmid_error + 'r"
  at_others :: "reservations \<Rightarrow> reservations"

definition releaseVmid :: "int \<Rightarrow> reservations \<Rightarrow> reservations" where
  "releaseVmid vmid rv = snd (rv_release (JNum vmid) rv)"

definition not_started :: "vmid_error \<Rightarrow> vmid_error" where
  "not_started e = e\<lparr>ver_notStarted := True\<rparr>"

fun withFreshVmid :: "'r vmid_attempt list \<Rightarrow> reservations \<Rightarrow> (vmid_error + int \<times> 'r) option \<times> reservations \<times> int list" where
  \<comment> \<open>the last component lists the ids handed to \<open>fn\<close>; \<open>None\<close>: no attempt was left\<close>
  "withFreshVmid [] rv = (None, rv, [])"
| "withFreshVmid (a # rest) rv =
     (case getNextVmid (at_replies a) (at_pending a) (at_now a) rv of
        (Inl e, rv1) \<Rightarrow> (Some (Inl (not_started e)), rv1, [])
      | (Inr vmid, rv1) \<Rightarrow>
          (case at_onReserved a of
             Some e \<Rightarrow> (Some (Inl (not_started e)), releaseVmid vmid (at_others a rv1), [])
           | None \<Rightarrow>
               (case at_fn a of
                  Inr result \<Rightarrow> (Some (Inr (vmid, result)), at_others a rv1, [vmid])
                | Inl e \<Rightarrow>
                    let taken = isVmidTakenError (ver_message e);
                        rv2 = (if (ver_definitive e \<or> ver_notStarted e) \<and> \<not> taken then releaseVmid vmid (at_others a rv1) else at_others a rv1)
                    in if \<not> taken \<or> rest = [] then (Some (Inl e), rv2, [vmid])
                       else (let (r, rv3, ids) = withFreshVmid rest rv2 in (r, rv3, vmid # ids)))))"

section \<open>What a reservation holds\<close>

lemma normalize_number [simp]: "normalizeVmid (JNum n) = Some n"
proof (cases "0 \<le> n")
  case True
  then show ?thesis by (simp add: normalizeVmid_def show_int_def)
next
  case False
  define k where "k = nat (- n)"
  have "takeWhile is_digit (show_nat k) = show_nat k" using takeWhile_digits [of "show_nat k"] by simp
  moreover have "n = - int k" using False by (simp add: k_def)
  moreover have "dropWhile is_ws (CHR ''-'' # s) = CHR ''-'' # s" for s by (simp add: is_ws_def)
  ultimately show ?thesis using False by (simp add: normalizeVmid_def show_int_def parse_int_def k_def [symmetric] takeWhile_digits Let_def)
qed

definition held :: "int \<Rightarrow> int \<Rightarrow> reservations \<Rightarrow> bool" where
  \<comment> \<open>the id is reserved at least until the instant\<close>
  "held i until rv \<longleftrightarrow> (\<exists>e. map_of (rv_entries rv) i = Some e \<and> until \<le> e) \<and> distinct (map fst (rv_entries rv))"

definition well_formed :: "reservations \<Rightarrow> bool" where
  "well_formed rv = (distinct (map fst (rv_entries rv)) \<and> 0 \<le> rv_ttl rv)"

lemma map_of_sweep:
  assumes "distinct (map fst m)"
  shows "map_of (filter (\<lambda>(_, e). P e) m) i = (case map_of m i of Some e \<Rightarrow> if P e then Some e else None | None \<Rightarrow> None)"
  using assms by (induction m) (auto simp: map_of_eq_None_iff rev_image_eqI split: option.splits)

lemma distinct_filter_keys: "distinct (map fst m) \<Longrightarrow> distinct (map fst (filter P m))"
  by (induction m) auto

lemma distinct_set_keys: "distinct (map fst m) \<Longrightarrow> distinct (map fst (map_set k v m))"
  by (simp add: keys_map_set)

datatype vmid_event = Allocate "cluster_reply list" "int list" int | Release int | Sweep int

definition vmid_event :: "vmid_event \<Rightarrow> reservations \<Rightarrow> reservations" where
  \<comment> \<open>what another deployment may do to the reservations\<close>
  "vmid_event ev rv = (case ev of
      Allocate replies pending now \<Rightarrow> snd (getNextVmid replies pending now rv)
    | Release i \<Rightarrow> releaseVmid i rv
    | Sweep now \<Rightarrow> rv_sweep now rv)"

fun quiet :: "int \<Rightarrow> int \<Rightarrow> vmid_event \<Rightarrow> bool" where
  \<comment> \<open>an event before the instant that does not release the id\<close>
  "quiet i until (Allocate _ _ now) = (now < until)"
| "quiet i until (Release j) = (j \<noteq> i)"
| "quiet i until (Sweep now) = (now < until)"

lemma held_active:
  assumes "held i until rv" "now < until"
  shows "i \<in> set (fst (rv_active now rv))" "held i until (snd (rv_active now rv))"
proof -
  obtain e where e: "map_of (rv_entries rv) i = Some e" "until \<le> e" "distinct (map fst (rv_entries rv))"
    using assms(1) by (auto simp: held_def)
  have "map_of (rv_entries (rv_sweep now rv)) i = Some e"
    using e assms(2) by (simp add: rv_sweep_def map_of_sweep [where P = "\<lambda>e. \<not> e \<le> now"])
  moreover have "distinct (map fst (rv_entries (rv_sweep now rv)))" using e(3) by (simp add: rv_sweep_def distinct_filter_keys)
  ultimately show "held i until (snd (rv_active now rv))" "i \<in> set (fst (rv_active now rv))"
    using e(2) map_of_SomeD by (force simp: held_def rv_active_def Let_def)+
qed

lemma getNextVmid_Inr:
  assumes "getNextVmid replies pending now rv = (Inr v, rv')"
  shows "v \<notin> set (fst (rv_active now rv))" "rv' = snd (rv_reserve now (JNum v) (snd (rv_active now rv)))" "VMID_MIN \<le> v"
    "v \<notin> set pending" "\<And>r vs. r \<in> set replies \<Longrightarrow> cr_vmids r = Some vs \<Longrightarrow> v \<notin> set vs"
    "list_all (\<lambda>r. cr_vmids r \<noteq> None) replies"
proof -
  let ?used = "concat (map (\<lambda>r. case cr_vmids r of Some vs \<Rightarrow> vs | None \<Rightarrow> []) replies)"
  obtain active rv1 where a: "rv_active now rv = (active, rv1)" by (cases "rv_active now rv")
  have v: "v = pickVmid (?used @ filter (\<lambda>v. v > 0) pending) active (start_at ?used replies)"
    "rv' = snd (rv_reserve now (JNum v) rv1)" "filter (\<lambda>r. cr_vmids r = None) replies = []"
    using assms by (auto simp: getNextVmid_def Let_def a split: if_splits)
  define start where "start = (case normalizeVmid (start_at ?used replies) of Some n \<Rightarrow> if n > VMID_MIN then n else VMID_MIN | None \<Rightarrow> VMID_MIN)"
  have "VMID_MIN \<le> start" by (auto simp: start_def split: option.split)
  moreover have f: "v = first_free ((?used @ filter (\<lambda>v. v > 0) pending) @ active) start" by (simp add: v(1) pickVmid_def start_def)
  ultimately show low: "VMID_MIN \<le> v" using first_free_spec [of start] by (metis order_trans)
  have free: "v \<notin> set ?used" "v \<notin> set (filter (\<lambda>v. v > 0) pending)" "v \<notin> set active"
    using f first_free_spec [of start "(?used @ filter (\<lambda>v. v > 0) pending) @ active"] by simp_all
  show "v \<notin> set (fst (rv_active now rv))" "rv' = snd (rv_reserve now (JNum v) (snd (rv_active now rv)))" using free v(2) a by simp_all
  show "v \<notin> set pending" using free(2) low by (simp add: VMID_MIN_def)
  show "v \<notin> set vs" if "r \<in> set replies" "cr_vmids r = Some vs" for r vs using free(1) that by force
  show "list_all (\<lambda>r. cr_vmids r \<noteq> None) replies" using v(3) by (simp add: filter_empty_conv list_all_iff)
qed

lemma reserve_holds:
  assumes "distinct (map fst (rv_entries rv))"
  shows "held v (now + rv_ttl rv) (snd (rv_reserve now (JNum v) rv))"
    "held i until rv \<Longrightarrow> i \<noteq> v \<Longrightarrow> held i until (snd (rv_reserve now (JNum v) rv))"
  using assms by (auto simp: held_def rv_reserve_def map_of_map_set distinct_set_keys)

lemma event_keeps:
  assumes "held i until rv" "quiet i until ev"
  shows "held i until (vmid_event ev rv)"
proof (cases ev)
  case (Allocate replies pending now)
  show ?thesis
  proof (cases "getNextVmid replies pending now rv")
    case (Pair r rv')
    show ?thesis
    proof (cases r)
      case (Inl e)
      then show ?thesis using assms(1) Pair Allocate by (auto simp: vmid_event_def getNextVmid_def Let_def split: if_splits prod.splits)
    next
      case (Inr v)
      have now: "now < until" using assms(2) Allocate by simp
      from getNextVmid_Inr [OF Pair [unfolded Inr]] held_active [OF assms(1) now]
      have "i \<noteq> v" "rv' = snd (rv_reserve now (JNum v) (snd (rv_active now rv)))" by auto
      moreover have "distinct (map fst (rv_entries (snd (rv_active now rv))))" using held_active(2) [OF assms(1) now] by (simp add: held_def)
      ultimately have "held i until rv'" using reserve_holds(2) held_active(2) [OF assms(1) now] by blast
      then show ?thesis using Pair Allocate by (simp add: vmid_event_def)
    qed
  qed
next
  case (Release j)
  then have "i \<noteq> j" using assms(2) by simp
  then have "map_of (filter (\<lambda>(k, _). k \<noteq> j) m) i = map_of m i" for m :: "(int \<times> int) list" by (induction m) auto
  with Release assms(1) show ?thesis by (auto simp: vmid_event_def releaseVmid_def rv_release_def held_def distinct_filter_keys)
next
  case (Sweep now)
  then show ?thesis using assms held_active(2) [of i until rv now] by (simp add: vmid_event_def rv_active_def Let_def)
qed

section \<open>Properties\<close>

lemma held_after:
  assumes "getNextVmid replies pending now rv = (Inr v, rv')" "well_formed rv"
  shows "held v (now + rv_ttl rv) rv'"
proof -
  have "distinct (map fst (rv_entries (snd (rv_active now rv))))" "rv_ttl (snd (rv_active now rv)) = rv_ttl rv"
    using assms(2) by (simp_all add: well_formed_def rv_active_def rv_sweep_def Let_def distinct_filter_keys)
  then show ?thesis using reserve_holds(1) [of "snd (rv_active now rv)" v now] getNextVmid_Inr(2) [OF assms(1)] by simp
qed

lemma events_keep:
  assumes "held i until rv" "list_all (quiet i until) evs"
  shows "held i until (foldl (\<lambda>rv ev. vmid_event ev rv) rv evs)"
  using assms by (induction evs arbitrary: rv) (simp_all add: event_keeps)

text \<open>C17: An id is not handed out twice: whatever other deployments allocate, release or sweep for the five
  minutes of a reservation, and although no host lists the machine yet, another allocation gets a
  different id, unless the reservation itself is released. Every id is at least 100, and no reachable host
  and no pending job uses it.\<close>

theorem ids_are_not_handed_out_twice:
  assumes "getNextVmid replies pending now rv = (Inr v, rv1)" "well_formed rv"
    and "list_all (quiet v (now + rv_ttl rv)) evs"
    and "getNextVmid replies' pending' later (foldl (\<lambda>rv ev. vmid_event ev rv) rv1 evs) = (Inr w, rv2)" "later < now + rv_ttl rv"
  shows "w \<noteq> v \<and> VMID_MIN \<le> w \<and> w \<notin> set pending' \<and> (\<forall>r \<in> set replies'. \<exists>vs. cr_vmids r = Some vs \<and> w \<notin> set vs)"
proof -
  have "held v (now + rv_ttl rv) (foldl (\<lambda>rv ev. vmid_event ev rv) rv1 evs)"
    using events_keep held_after assms(1-3) by blast
  from held_active(1) [OF this assms(5)] have "w \<noteq> v" using getNextVmid_Inr(1) [OF assms(4)] by blast
  moreover have "\<exists>vs. cr_vmids r = Some vs \<and> w \<notin> set vs" if "r \<in> set replies'" for r
    using getNextVmid_Inr(5,6) [OF assms(4)] that by (fastforce simp: list_all_iff)
  ultimately show ?thesis using getNextVmid_Inr(3,4) [OF assms(4)] by blast
qed

definition sample_hosts :: "cluster_reply list" where
  "sample_hosts = [\<lparr>cr_host = ''pve'', cr_vmids = Some [100, 101], cr_nextid = None\<rparr>]"

definition no_reservations :: reservations where
  "no_reservations = \<lparr>rv_ttl = VMID_RESERVATION_TTL_MS, rv_entries = []\<rparr>"

theorem ids_are_not_handed_out_twice_witness:
  "fst (getNextVmid sample_hosts [] 1000 (vmid_event (Allocate sample_hosts [] 500) (snd (getNextVmid sample_hosts [] 0 no_reservations))))
     = Inr 104 \<and> (104 :: int) \<noteq> 102"
proof -
  let ?rv1 = "snd (getNextVmid sample_hosts [] 0 no_reservations)"
  let ?rv2 = "foldl (\<lambda>rv ev. vmid_event ev rv) ?rv1 [Allocate sample_hosts [] 500]"
  have first: "getNextVmid sample_hosts [] 0 no_reservations = (Inr 102, ?rv1)" by code_simp
  have second: "getNextVmid sample_hosts [] 1000 ?rv2 = (Inr 104, snd (getNextVmid sample_hosts [] 1000 ?rv2))" by code_simp
  have wf: "well_formed no_reservations" by (simp add: well_formed_def no_reservations_def VMID_RESERVATION_TTL_MS_def)
  have ttl: "rv_ttl no_reservations = 300000" by (simp add: no_reservations_def VMID_RESERVATION_TTL_MS_def)
  have "(104 :: int) \<noteq> 102"
    using ids_are_not_handed_out_twice [OF first wf _ second] by (simp add: ttl)
  moreover have "fst (getNextVmid sample_hosts [] 1000 (vmid_event (Allocate sample_hosts [] 500) ?rv1)) = Inr 104" by code_simp
  ultimately show ?thesis by blast
qed

end
