(* ===== verification/Node_Maintenance.thy ===== *)
theory Node_Maintenance
  imports Node_Ref
begin

text \<open>
  Node maintenance (\<open>utils/nodeMaintenance.ts\<close>): the rows that drain a node, the notice each of them
  publishes, the guard of the deployment paths and the ways out, by an administrator or by the sweep. An end
  time is an instant already read from the request; its label (a formatted local time) and the clocks of the
  process and of PostgreSQL are parameters. The dash of a title is written as a hyphen.
\<close>

section \<open>Rows\<close>

record maintenance =
  mn_id :: int
  mn_host :: "int option"
  mn_node :: string
  mn_reason :: string
  mn_until :: "int option"
  mn_notice :: "int option"
  mn_createdBy :: string
  mn_createdAt :: int

record notice =
  no_id :: int
  no_title :: string
  no_body :: string
  no_level :: string
  no_active :: bool
  no_source :: string
  no_createdBy :: string

record maint_db =
  md_rows :: "maintenance list"
  md_notices :: "notice list"
  md_next :: int
  md_audit :: "(string \<times> string \<times> string) list"

record maint_view =
  mw_id :: int
  mw_node :: string
  mw_nodeRef :: string
  mw_host :: "int option"
  mw_reason :: string
  mw_until :: "int option"
  mw_untilLabel :: string
  mw_createdBy :: string
  mw_createdAt :: int

definition NOTICE_SOURCE :: string where
  "NOTICE_SOURCE = ''node_maintenance''"

definition known_host :: "int option \<Rightarrow> bool" where
  "known_host h = (h \<noteq> None \<and> h \<noteq> Some 0)"

definition nodesMatch :: "string \<Rightarrow> string \<Rightarrow> bool" where
  "nodesMatch a b =
     (let da = decodeNodeRef a; dbn = decodeNodeRef b in
      if nodeName da = [] \<or> nodeName dbn = [] then False
      else if nodeName da \<noteq> nodeName dbn then False
      else if known_host (hostId da) \<and> known_host (hostId dbn) then hostId da = hostId dbn
      else True)"

definition formatUntil :: "(int \<Rightarrow> string) \<Rightarrow> int option \<Rightarrow> string" where
  "formatUntil label until = (case until of None \<Rightarrow> [] | Some t \<Rightarrow> label t)"

definition normalizeUntil :: "int \<Rightarrow> int option \<Rightarrow> int option" where
  "normalizeUntil now until = (case until of Some t \<Rightarrow> if t \<le> now then None else Some t | None \<Rightarrow> None)"

definition or_text :: "string \<Rightarrow> string \<Rightarrow> string" where
  "or_text a b = (if a = [] then b else a)"

definition serializeMaintenance :: "(int \<Rightarrow> string) \<Rightarrow> maintenance \<Rightarrow> maint_view" where
  "serializeMaintenance label row =
     (let d = decodeNodeRef (mn_node row) in
      \<lparr>mw_id = mn_id row, mw_node = or_text (nodeName d) (mn_node row), mw_nodeRef = or_text (nodeRef d) (mn_node row),
       mw_host = (case mn_host row of Some h \<Rightarrow> Some h | None \<Rightarrow> hostId d), mw_reason = mn_reason row, mw_until = mn_until row,
       mw_untilLabel = formatUntil label (mn_until row), mw_createdBy = mn_createdBy row, mw_createdAt = mn_createdAt row\<rparr>)"

definition getActiveMaintenanceRows :: "int \<Rightarrow> maint_db \<Rightarrow> maintenance list" where
  \<comment> \<open>newest first\<close>
  "getActiveMaintenanceRows now db =
     sort_key (\<lambda>r. - mn_createdAt r) (sort_key (\<lambda>r. - mn_id r)
       (filter (\<lambda>r. case mn_until r of None \<Rightarrow> True | Some t \<Rightarrow> t > now) (md_rows db)))"

definition listMaintenance :: "(int \<Rightarrow> string) \<Rightarrow> int \<Rightarrow> maint_db \<Rightarrow> maint_view list" where
  "listMaintenance label now db = map (serializeMaintenance label) (getActiveMaintenanceRows now db)"

definition findMaintenanceForNode :: "string \<Rightarrow> int \<Rightarrow> maint_db \<Rightarrow> maintenance option" where
  "findMaintenanceForNode node now db =
     (if node = [] then None else find (\<lambda>r. nodesMatch (mn_node r) node) (getActiveMaintenanceRows now db))"

definition assertNodeAvailable :: "(int \<Rightarrow> string) \<Rightarrow> string \<Rightarrow> int \<Rightarrow> maint_db \<Rightarrow> http_error + unit" where
  "assertNodeAvailable label node now db =
     (case findMaintenanceForNode node now db of
        None \<Rightarrow> Inr ()
      | Some row \<Rightarrow>
          let untilLabel = formatUntil label (mn_until row) in
          Inl (httpError 423 (''Node '' @ or_text (nodeName (decodeNodeRef (mn_node row))) (mn_node row) @ '' is in maintenance''
            @ (if untilLabel \<noteq> [] then '' until ~'' @ untilLabel else [])
            @ (if mn_reason row \<noteq> [] then '' ('' @ mn_reason row @ '')'' else [])
            @ ''. New deployments to this node are blocked - pick another node. Running VMs are unaffected.'')))"

section \<open>Entering\<close>

definition buildNoticeBody :: "(int \<Rightarrow> string) \<Rightarrow> string \<Rightarrow> string \<Rightarrow> int option \<Rightarrow> string" where
  "buildNoticeBody label name reason until =
     (let untilLabel = formatUntil label until in
      name @ '' is undergoing maintenance'' @ (if untilLabel \<noteq> [] then '' until ~'' @ untilLabel else []) @ ''.''
      @ (if reason \<noteq> [] then '' '' @ reason else [])
      @ '' New VMs cannot be deployed to this node during the window; running VMs are unaffected.'')"

definition notice_title :: "string \<Rightarrow> string" where
  "notice_title name = ''Node maintenance - '' @ name"

definition first_host :: "int option \<Rightarrow> int option \<Rightarrow> int option" where
  "first_host a b = (case a of Some h \<Rightarrow> Some h | None \<Rightarrow> b)"

definition update_entry ::
  "string \<Rightarrow> string \<Rightarrow> int option \<Rightarrow> int option \<Rightarrow> string \<Rightarrow> maintenance \<Rightarrow> maint_db \<Rightarrow> maint_db" where
  "update_entry reason body until host name existing db =
     db\<lparr>md_rows := map (\<lambda>r. if mn_id r = mn_id existing
            then r\<lparr>mn_reason := reason, mn_until := until, mn_host := first_host host (mn_host existing)\<rparr> else r) (md_rows db),
        md_notices := (case mn_notice existing of
            None \<Rightarrow> md_notices db
          | Some n \<Rightarrow> map (\<lambda>x. if no_id x = n
              then x\<lparr>no_title := notice_title name, no_body := body, no_level := ''maintenance'', no_active := True\<rparr> else x) (md_notices db))\<rparr>"

definition insert_entry ::
  "string \<Rightarrow> string \<Rightarrow> int option \<Rightarrow> int option \<Rightarrow> string \<Rightarrow> string \<Rightarrow> string \<Rightarrow> int \<Rightarrow> maint_db \<Rightarrow> maint_db" where
  "insert_entry reason body until host name ref by now db =
     db\<lparr>md_notices := md_notices db @
          [\<lparr>no_id = md_next db, no_title = notice_title name, no_body = body, no_level = ''maintenance'', no_active = True,
            no_source = NOTICE_SOURCE, no_createdBy = by\<rparr>],
        md_rows := md_rows db @
          [\<lparr>mn_id = md_next db + 1, mn_host = host, mn_node = ref, mn_reason = reason, mn_until = until,
            mn_notice = Some (md_next db), mn_createdBy = by, mn_createdAt = now\<rparr>],
        md_next := md_next db + 2\<rparr>"

definition audit :: "string \<Rightarrow> string \<Rightarrow> string \<Rightarrow> maint_db \<Rightarrow> maint_db" where
  "audit action target detail db = db\<lparr>md_audit := md_audit db @ [(action, target, detail)]\<rparr>"

definition enterMaintenance ::
  "(int \<Rightarrow> string) \<Rightarrow> string \<Rightarrow> string \<Rightarrow> int option \<Rightarrow> string \<Rightarrow> int \<Rightarrow> int \<Rightarrow> maint_db \<Rightarrow> (http_error + maint_view option) \<times> maint_db" where
  \<comment> \<open>the two clocks: of the process, of PostgreSQL\<close>
  "enterMaintenance label node reason until by now_js now_db db =
     (let d = decodeNodeRef node; cleanReason = js_trim reason; normalized = normalizeUntil now_js until;
          body = buildNoticeBody label (nodeName d) cleanReason normalized; ref = or_text (nodeRef d) node in
      if nodeName d = [] then (Inl (httpError 400 ''A node is required''), db)
      else
        let (entry, updated, db1) = (case findMaintenanceForNode node now_db db of
              Some existing \<Rightarrow> (mn_id existing, True, update_entry cleanReason body normalized (hostId d) (nodeName d) existing db)
            | None \<Rightarrow> (md_next db + 1, False, insert_entry cleanReason body normalized (hostId d) (nodeName d) ref by now_db db));
            db2 = audit (if updated then ''node_maintenance_update'' else ''node_maintenance_enter'') ref
              (or_text cleanReason ''no reason'' @ (case normalized of Some t \<Rightarrow> '' until '' @ label t | None \<Rightarrow> [])) db1
        in (Inr (map_option (serializeMaintenance label) (find (\<lambda>r. mn_id r = entry) (md_rows db2))), db2))"

section \<open>Leaving\<close>

definition close_notices :: "maintenance \<Rightarrow> notice list \<Rightarrow> notice list" where
  "close_notices row ns =
     (let own = (case mn_notice row of Some n \<Rightarrow> map (\<lambda>x. if no_id x = n then x\<lparr>no_active := False\<rparr> else x) ns | None \<Rightarrow> ns) in
      map (\<lambda>x. if no_source x = NOTICE_SOURCE \<and> no_active x \<and> no_title x = notice_title (nodeName (decodeNodeRef (mn_node row)))
               then x\<lparr>no_active := False\<rparr> else x) own)"

definition exitMaintenanceRow :: "bool \<Rightarrow> maintenance \<Rightarrow> maint_db \<Rightarrow> bool \<times> maint_db" where
  "exitMaintenanceRow auto row db =
     (if \<not> (\<exists>r \<in> set (md_rows db). mn_id r = mn_id row) then (False, db)
      else (True, audit (if auto then ''node_maintenance_expire'' else ''node_maintenance_exit'') (mn_node row)
              (if auto then ''auto-expired'' else [])
              (db\<lparr>md_rows := filter (\<lambda>r. mn_id r \<noteq> mn_id row) (md_rows db), md_notices := close_notices row (md_notices db)\<rparr>)))"

definition exitMaintenanceById :: "int \<Rightarrow> (maint_db \<Rightarrow> maint_db) \<Rightarrow> maint_db \<Rightarrow> bool \<times> maint_db" where
  \<comment> \<open>other actors may act between the read and the transaction\<close>
  "exitMaintenanceById i others db =
     (case find (\<lambda>r. mn_id r = i) (md_rows db) of None \<Rightarrow> (False, db) | Some row \<Rightarrow> exitMaintenanceRow False row (others db))"

fun sweep_rows :: "(maint_db \<Rightarrow> maint_db) \<Rightarrow> maintenance list \<Rightarrow> maint_db \<Rightarrow> nat \<times> maint_db" where
  "sweep_rows others [] db = (0, db)"
| "sweep_rows others (row # rows) db =
     (let (closed, db1) = exitMaintenanceRow True row (others db); (n, db2) = sweep_rows others rows db1
      in (if closed then Suc n else n, db2))"

definition sweepExpiredMaintenance :: "int \<Rightarrow> (maint_db \<Rightarrow> maint_db) \<Rightarrow> maint_db \<Rightarrow> nat \<times> maint_db" where
  "sweepExpiredMaintenance now others db =
     sweep_rows others (filter (\<lambda>r. case mn_until r of Some t \<Rightarrow> t \<le> now | None \<Rightarrow> False) (md_rows db)) db"

section \<open>Facts\<close>

lemma nodesMatch_ref: "nodeName (decodeNodeRef node) \<noteq> [] \<Longrightarrow> nodesMatch (or_text (nodeRef (decodeNodeRef node)) node) node"
  using decode_nodeRef_idem [of node] by (simp add: nodesMatch_def or_text_def Let_def)

lemma set_active: "set (getActiveMaintenanceRows now db) = {r \<in> set (md_rows db). case mn_until r of None \<Rightarrow> True | Some t \<Rightarrow> t > now}"
  by (simp add: getActiveMaintenanceRows_def)

lemma found_row:
  assumes "findMaintenanceForNode node now db = Some row"
  shows "row \<in> set (md_rows db) \<and> nodesMatch (mn_node row) node"
proof -
  have "find (\<lambda>r. nodesMatch (mn_node r) node) (getActiveMaintenanceRows now db) = Some row"
    using assms by (auto simp: findMaintenanceForNode_def split: if_splits)
  then obtain i where "i < length (getActiveMaintenanceRows now db)" "nodesMatch (mn_node row) node" "row = getActiveMaintenanceRows now db ! i"
    unfolding find_Some_iff by auto
  then have "row \<in> set (getActiveMaintenanceRows now db)" by simp
  with \<open>nodesMatch (mn_node row) node\<close> show ?thesis unfolding set_active by simp
qed

lemma blocked_by_row:
  assumes "row \<in> set (md_rows db)" "nodesMatch (mn_node row) node" "\<forall>t. mn_until row = Some t \<longrightarrow> t > now" "node \<noteq> []"
  shows "\<exists>e. assertNodeAvailable label node now db = Inl e \<and> err_status e = 423"
proof -
  have "row \<in> set (getActiveMaintenanceRows now db)" using assms(1,3) unfolding set_active by (auto split: option.split)
  then have "findMaintenanceForNode node now db \<noteq> None"
    using assms(2,4) by (auto simp: findMaintenanceForNode_def find_None_iff)
  then show ?thesis by (auto simp: assertNodeAvailable_def httpError_def Let_def)
qed

lemma entered_row:
  assumes "enterMaintenance label node reason until by now_js now_db db = (Inr v, db1)"
  shows "nodeName (decodeNodeRef node) \<noteq> [] \<and> (\<exists>row \<in> set (md_rows db1). nodesMatch (mn_node row) node \<and> mn_until row = normalizeUntil now_js until)"
proof -
  have name: "nodeName (decodeNodeRef node) \<noteq> []" using assms by (auto simp: enterMaintenance_def Let_def split: if_splits)
  show ?thesis
  proof (cases "findMaintenanceForNode node now_db db")
    case None
    then show ?thesis using assms name nodesMatch_ref [OF name]
      by (auto simp: enterMaintenance_def Let_def insert_entry_def audit_def)
  next
    case (Some row)
    let ?row = "row\<lparr>mn_reason := js_trim reason, mn_until := normalizeUntil now_js until, mn_host := first_host (hostId (decodeNodeRef node)) (mn_host row)\<rparr>"
    from found_row [OF Some] have row: "row \<in> set (md_rows db)" "nodesMatch (mn_node row) node" by simp_all
    have "md_rows db1 = map (\<lambda>r. if mn_id r = mn_id row then r\<lparr>mn_reason := js_trim reason, mn_until := normalizeUntil now_js until,
        mn_host := first_host (hostId (decodeNodeRef node)) (mn_host row)\<rparr> else r) (md_rows db)"
      using assms name by (auto simp: enterMaintenance_def Let_def Some update_entry_def audit_def)
    with row(1) have "?row \<in> set (md_rows db1)" by force
    with row(2) name show ?thesis by (intro conjI bexI [of _ ?row]) simp_all
  qed
qed

section \<open>Properties\<close>

text \<open>C23: Maintenance blocks deployments: once a node has entered it (or its entry was updated), and until the
  end time that was kept, the guard of every deployment path refuses the node with status 423; an
  end time in the past counts as none.\<close>

theorem maintenance_blocks_the_node:
  assumes "enterMaintenance label node reason until by now_js now_db db = (Inr v, db1)"
    and "\<forall>t. normalizeUntil now_js until = Some t \<longrightarrow> later < t"
  shows "\<exists>e. assertNodeAvailable label node later db1 = Inl e \<and> err_status e = 423"
proof -
  obtain row where row: "row \<in> set (md_rows db1)" "nodesMatch (mn_node row) node" "mn_until row = normalizeUntil now_js until"
    and name: "nodeName (decodeNodeRef node) \<noteq> []"
    using entered_row [OF assms(1)] by blast
  have "node \<noteq> []" using name by (auto simp: decodeNodeRef_def js_trim_def)
  then show ?thesis using blocked_by_row [OF row(1,2)] row(3) assms(2) by simp
qed

text \<open>Leaving is claimed once: after one actor has lifted a row, every other actor that read it before is told that
  there is nothing to lift, and changes neither a notice nor the audit.\<close>

lemma maintenance_ends_once:
  assumes "exitMaintenanceRow auto row db = (True, db1)" "mn_id row' = mn_id row"
  shows "exitMaintenanceRow auto' row' db1 = (False, db1) \<and> length (md_audit db1) = length (md_audit db) + 1"
proof -
  have "db1 = audit (if auto then ''node_maintenance_expire'' else ''node_maintenance_exit'') (mn_node row) (if auto then ''auto-expired'' else [])
      (db\<lparr>md_rows := filter (\<lambda>r. mn_id r \<noteq> mn_id row) (md_rows db), md_notices := close_notices row (md_notices db)\<rparr>)"
    using assms(1) unfolding exitMaintenanceRow_def by (metis (no_types, lifting) prod.inject)
  then have "md_rows db1 = filter (\<lambda>r. mn_id r \<noteq> mn_id row) (md_rows db)" "length (md_audit db1) = length (md_audit db) + 1"
    by (simp_all add: audit_def)
  then show ?thesis using assms(2) by (simp add: exitMaintenanceRow_def)
qed

definition expired_db :: maint_db where
  \<comment> \<open>a maintenance of the node that ended at 100 and that the sweep has not lifted yet\<close>
  "expired_db = \<lparr>md_rows = [\<lparr>mn_id = 2, mn_host = Some 1, mn_node = ''1~pve'', mn_reason = [], mn_until = Some 100, mn_notice = Some 1,
       mn_createdBy = ''ann'', mn_createdAt = 50\<rparr>],
     md_notices = [\<lparr>no_id = 1, no_title = notice_title ''pve'', no_body = [], no_level = ''maintenance'', no_active = True,
       no_source = NOTICE_SOURCE, no_createdBy = ''ann''\<rparr>], md_next = 3, md_audit = []\<rparr>"

definition reentered :: "maint_db" where
  "reentered = snd (enterMaintenance (\<lambda>_. []) ''1~pve'' [] None ''bob'' 120 120 expired_db)"

text \<open>The node is drained again before the sweep has lifted the ended row: the sweep then closes the notice of the
  new maintenance too, since it has the same title, although that maintenance goes on.\<close>

lemma reentered_rows:
  "map (\<lambda>r. (mn_id r, mn_notice r, mn_until r, mn_node r)) (md_rows reentered)
     = [(2, Some 1, Some 100, ''1~pve''), (4, Some 3, None, ''1~pve'')]
   \<and> map (\<lambda>x. (no_id x, no_source x, no_title x, no_active x)) (md_notices reentered)
     = [(1, NOTICE_SOURCE, notice_title ''pve'', True), (3, NOTICE_SOURCE, notice_title ''pve'', True)]"
proof -
  have d: "decodeNodeRef ''1~pve'' = \<lparr>hostId = Some 1, nodeName = ''pve'', nodeRef = ''1~pve''\<rparr>" by code_simp
  have "findMaintenanceForNode ''1~pve'' 120 expired_db = None"
    by (simp add: findMaintenanceForNode_def getActiveMaintenanceRows_def expired_db_def)
  then show ?thesis
    by (simp add: reentered_def enterMaintenance_def d insert_entry_def audit_def normalizeUntil_def or_text_def Let_def)
      (simp add: expired_db_def)
qed

lemma reentry_notice_is_closed:
  "let db = snd (sweepExpiredMaintenance 130 (\<lambda>db. db) reentered) in
   map mn_notice (md_rows db) = [Some 3] \<and> map (\<lambda>x. (no_id x, no_active x)) (md_notices db) = [(1, False), (3, False)]"
proof -
  have d: "decodeNodeRef ''1~pve'' = \<lparr>hostId = Some 1, nodeName = ''pve'', nodeRef = ''1~pve''\<rparr>" by code_simp
  obtain r1 r2 where rows: "md_rows reentered = [r1, r2]" using reentered_rows by (cases "md_rows reentered"; cases "tl (md_rows reentered)") auto
  obtain n1 n2 where notices: "md_notices reentered = [n1, n2]"
    using reentered_rows by (cases "md_notices reentered"; cases "tl (md_notices reentered)") auto
  show ?thesis using reentered_rows rows notices
    by (simp add: sweepExpiredMaintenance_def exitMaintenanceRow_def close_notices_def audit_def d Let_def)
qed

theorem maintenance_blocks_the_node_witness:
  "\<exists>e. assertNodeAvailable (\<lambda>_. []) ''1~pve'' 130 reentered = Inl e \<and> err_status e = 423"
proof -
  obtain v where run: "enterMaintenance (\<lambda>_. []) ''1~pve'' [] None ''bob'' 120 120 expired_db = (Inr v, reentered)"
  proof -
    have "nodeName (decodeNodeRef ''1~pve'') \<noteq> []" by code_simp
    then have "\<exists>v. fst (enterMaintenance (\<lambda>_. []) ''1~pve'' [] None ''bob'' 120 120 expired_db) = Inr v"
      by (auto simp: enterMaintenance_def Let_def split: if_splits prod.splits)
    then show thesis using that by (auto simp: reentered_def prod_eq_iff)
  qed
  show ?thesis by (rule maintenance_blocks_the_node [OF run]) (simp add: normalizeUntil_def)
qed

end
