(* ===== verification/Capacity.thy ===== *)
theory Capacity
  imports Node_Ref Json Complex_Main
begin

text \<open>
  Capacity of a node (\<open>utils/capacityPolicy.ts\<close>, \<open>utils/capacity.ts\<close>, \<open>utils/sharedStorage.ts\<close>): the memory policy, its
  settings, and the reservations of deployments in flight, which are held against the pool behind a storage. Amounts
  are exact rational numbers; what Proxmox answers and the clock are parameters. The texts of the verdicts are
  left out, their codes are kept.
\<close>

section \<open>The memory policy\<close>

definition MIB :: int where "MIB = 1024 ^ 2"

definition GIB :: int where "GIB = 1024 ^ 3"

definition MEMORY_MODES :: "string list" where
  "MEMORY_MODES = [''off'', ''warn'', ''block'']"

definition DEFAULT_MEMORY_MODE :: string where
  "DEFAULT_MEMORY_MODE = ''warn''"

definition DEFAULT_OVERCOMMIT_RATIO :: rat where
  "DEFAULT_OVERCOMMIT_RATIO = 3 / 2"

definition MAX_OVERCOMMIT_RATIO :: rat where
  "MAX_OVERCOMMIT_RATIO = 100"

definition normalizeMemoryMode :: "json \<Rightarrow> string" where
  "normalizeMemoryMode value =
     (let mode = js_lower (js_trim (if nullish value then [] else to_str value)) in
      if mode \<in> set MEMORY_MODES then mode else DEFAULT_MEMORY_MODE)"

definition digits_value :: "string \<Rightarrow> string \<Rightarrow> rat" where
  "digits_value whole fraction = of_nat (nat_of_digits whole) + of_nat (nat_of_digits fraction) / 10 ^ length fraction"

definition parse_float :: "string \<Rightarrow> rat option" where
  \<comment> \<open>\<open>Number.parseFloat\<close> on a decimal without an exponent: the longest prefix that is a number\<close>
  "parse_float s =
     (let t = dropWhile is_ws s;
          neg = (t \<noteq> [] \<and> hd t = CHR ''-'');
          u = (if t \<noteq> [] \<and> (hd t = CHR ''-'' \<or> hd t = CHR ''+'') then tl t else t);
          whole = takeWhile is_digit u; rest = dropWhile is_digit u;
          fraction = (if rest \<noteq> [] \<and> hd rest = CHR ''.'' then takeWhile is_digit (tl rest) else [])
      in if whole = [] \<and> fraction = [] then None
         else Some (if neg then - digits_value whole fraction else digits_value whole fraction))"

datatype ratio_input = Ratio_number rat | Ratio_text string

definition normalizeOvercommitRatio :: "ratio_input \<Rightarrow> rat" where
  "normalizeOvercommitRatio value =
     (case (case value of Ratio_number r \<Rightarrow> Some r | Ratio_text s \<Rightarrow> parse_float (js_trim s)) of
        None \<Rightarrow> DEFAULT_OVERCOMMIT_RATIO
      | Some ratio \<Rightarrow> if ratio \<le> 0 then DEFAULT_OVERCOMMIT_RATIO
                      else min MAX_OVERCOMMIT_RATIO (of_int \<lfloor>ratio * 100 + 1 / 2\<rfloor> / 100))"

record cap_guest =
  cg_node :: string
  cg_nodeRef :: string
  cg_template :: bool
  cg_maxmem :: "int option"

definition guestsOnNode :: "cap_guest list \<Rightarrow> string \<Rightarrow> cap_guest list" where
  "guestsOnNode guests node =
     (let target = decodeNodeRef node in
      if nodeName target = [] then []
      else filter (\<lambda>g. let on = decodeNodeRef (if cg_nodeRef g \<noteq> [] then cg_nodeRef g else cg_node g) in
             nodeName on \<noteq> [] \<and> nodeName on = nodeName target \<and>
             (if hostId on \<noteq> None \<and> hostId on \<noteq> Some 0 \<and> hostId target \<noteq> None \<and> hostId target \<noteq> Some 0
              then hostId on = hostId target else True)) guests)"

definition known_memory :: "cap_guest \<Rightarrow> int option" where
  "known_memory g = (case cg_maxmem g of Some m \<Rightarrow> if m > 0 then Some m else None | None \<Rightarrow> None)"

definition sumAllocatedMemoryBytes :: "cap_guest list \<Rightarrow> rat \<times> nat \<times> nat" where
  \<comment> \<open>the bytes, how many guests, how many of them are estimated\<close>
  "sumAllocatedMemoryBytes guests =
     (let list = filter (\<lambda>g. \<not> cg_template g) guests;
          known = List.map_filter known_memory list; unknown = length list - length known;
          knownBytes = of_int (sum_list known);
          perUnknown = (if known \<noteq> [] then knownBytes / of_nat (length known) else of_int GIB)
      in (knownBytes + of_nat unknown * perUnknown, length list, unknown))"

datatype decision = Allow | Warn | Block

record memory_verdict =
  mv_decision :: decision
  mv_code :: string

record memory_request =
  mq_requestedMb :: rat
  mq_total :: "rat option"
  mq_allocated :: "rat option"
  mq_pending :: rat
  mq_free :: "rat option"
  mq_mode :: string
  mq_ratio :: rat

definition allow :: "string \<Rightarrow> memory_verdict" where
  "allow code = \<lparr>mv_decision = Allow, mv_code = code\<rparr>"

definition at_least_bytes :: "rat \<Rightarrow> rat option \<Rightarrow> rat option" where
  \<comment> \<open>\<open>toFiniteBytes(value, { min })\<close>\<close>
  "at_least_bytes lower v = (case v of Some n \<Rightarrow> if lower \<le> n then Some n else None | None \<Rightarrow> None)"

definition allocated_bytes :: "rat \<Rightarrow> memory_request \<Rightarrow> rat" where
  "allocated_bytes physical q =
     (case at_least_bytes 0 (mq_allocated q) of
        Some n \<Rightarrow> n
      | None \<Rightarrow> (case at_least_bytes 0 (mq_free q) of Some free \<Rightarrow> max 0 (physical - free) | None \<Rightarrow> 0))
     + max 0 (mq_pending q)"

definition evaluateMemoryCapacity :: "memory_request \<Rightarrow> memory_verdict" where
  "evaluateMemoryCapacity q =
     (let mode = normalizeMemoryMode (JStr (mq_mode q)); ratio = normalizeOvercommitRatio (Ratio_number (mq_ratio q));
          requestedBytes = mq_requestedMb q * of_int MIB in
      if mode = ''off'' then allow ''disabled''
      else if \<not> requestedBytes > 0 then allow ''no-request''
      else case at_least_bytes 1 (mq_total q) of
        None \<Rightarrow> allow ''unknown-node-memory''
      | Some physical \<Rightarrow>
          let usable = physical * ratio in
          if requestedBytes > usable then \<lparr>mv_decision = Block, mv_code = ''exceeds-node''\<rparr>
          else if allocated_bytes physical q + requestedBytes \<le> usable then allow ''ok''
          else \<lparr>mv_decision = (if mode = ''block'' then Block else Warn), mv_code = ''overcommit''\<rparr>)"

section \<open>Settings\<close>

definition show_hundredths :: "nat \<Rightarrow> string" where
  \<comment> \<open>\<open>String(n / 100)\<close>\<close>
  "show_hundredths n =
     (if n mod 100 = 0 then show_nat (n div 100)
      else if n mod 10 = 0 then show_nat (n div 100) @ ''.'' @ show_nat (n mod 100 div 10)
      else show_nat (n div 100) @ ''.'' @ pad_start 2 CHR ''0'' (show_nat (n mod 100)))"

record cap_settings =
  cs_memoryMode :: string
  cs_overcommitRatio :: rat

definition getCapacitySettings :: "(string \<Rightarrow> string option) \<Rightarrow> cap_settings" where
  "getCapacitySettings settings =
     \<lparr>cs_memoryMode = normalizeMemoryMode (JStr (case settings ''capacity_memory_mode'' of Some m \<Rightarrow> m | None \<Rightarrow> DEFAULT_MEMORY_MODE)),
      cs_overcommitRatio = (case settings ''capacity_memory_overcommit_ratio'' of
         Some r \<Rightarrow> normalizeOvercommitRatio (Ratio_text r) | None \<Rightarrow> normalizeOvercommitRatio (Ratio_number DEFAULT_OVERCOMMIT_RATIO))\<rparr>"

definition setCapacitySettings ::
  "json \<Rightarrow> ratio_input option \<Rightarrow> (string \<Rightarrow> string option) \<Rightarrow> cap_settings \<times> (string \<Rightarrow> string option)" where
  "setCapacitySettings memoryMode ratio settings =
     (let s1 = (if nullish memoryMode then settings else settings(''capacity_memory_mode'' \<mapsto> normalizeMemoryMode memoryMode));
          s2 = (case ratio of None \<Rightarrow> s1
                | Some r \<Rightarrow> s1(''capacity_memory_overcommit_ratio'' \<mapsto> show_hundredths (nat \<lfloor>normalizeOvercommitRatio r * 100\<rfloor>)))
      in (getCapacitySettings s2, s2))"

section \<open>Reservations\<close>

record cap_reservation =
  cv_node :: string
  cv_diskKey :: string
  cv_memory :: rat
  cv_disk :: rat
  cv_expiresAt :: int

record capacity_state =
  \<comment> \<open>the map of reservations; a fresh number stands for the fresh symbol\<close>
  cx_reservations :: "(nat \<times> cap_reservation) list"
  cx_next :: nat

definition RESERVATION_TTL_MS :: int where
  "RESERVATION_TTL_MS = 60 * 60 * 1000"

definition localDiskKey :: "string \<Rightarrow> string \<Rightarrow> string" where
  "localDiskKey node storage = ''local:'' @ node @ '':'' @ storage"

record storage_def =
  sd_storage :: string
  sd_type :: string
  sd_server :: string
  sd_export :: string
  sd_share :: string
  sd_shared :: bool
  sd_disable :: bool

definition sharedStorageKey :: "storage_def option \<Rightarrow> string option" where
  "sharedStorageKey d =
     (case d of
        None \<Rightarrow> None
      | Some d \<Rightarrow>
          if sd_disable d then None
          else if sd_type d = ''nfs'' \<and> sd_server d \<noteq> [] \<and> sd_export d \<noteq> [] then Some (''nfs:'' @ sd_server d @ '':'' @ sd_export d)
          else if sd_type d = ''cifs'' \<and> sd_server d \<noteq> [] \<and> sd_share d \<noteq> [] then Some (''cifs:'' @ sd_server d @ '':'' @ sd_share d)
          else None)"

definition shared_key :: "string \<Rightarrow> string \<Rightarrow> string" where
  "shared_key node storage =
     ''shared:'' @ (case hostId (decodeNodeRef node) of Some h \<Rightarrow> show_int h | None \<Rightarrow> ''null'') @ '':'' @ storage"

definition diskKeyFor :: "storage_def list option \<Rightarrow> string \<Rightarrow> string \<Rightarrow> bool \<Rightarrow> string" where
  \<comment> \<open>the definitions of the host's storages; \<open>None\<close>: they cannot be read\<close>
  "diskKeyFor defs node storage sharedFlag =
     (if storage = [] then []
      else case defs of
        Some ds \<Rightarrow>
          (let d = find (\<lambda>d. sd_storage d = storage) ds in
           case sharedStorageKey d of
             Some backend \<Rightarrow> ''shared:'' @ backend
           | None \<Rightarrow> if (case d of Some d \<Rightarrow> sd_shared d | None \<Rightarrow> False) \<or> sharedFlag then shared_key node storage else localDiskKey node storage)
      | None \<Rightarrow> if sharedFlag then shared_key node storage else localDiskKey node storage)"

definition live_reservations :: "int \<Rightarrow> capacity_state \<Rightarrow> (nat \<times> cap_reservation) list" where
  "live_reservations now st = filter (\<lambda>(_, r). \<not> cv_expiresAt r \<le> now) (cx_reservations st)"

definition pendingReservations :: "string \<Rightarrow> string \<Rightarrow> int \<Rightarrow> capacity_state \<Rightarrow> (rat \<times> rat) \<times> capacity_state" where
  "pendingReservations node diskKey now st =
     (let live = live_reservations now st in
      ((sum_list (map (\<lambda>(_, r). if cv_node r = node then cv_memory r else 0) live),
        sum_list (map (\<lambda>(_, r). if diskKey \<noteq> [] \<and> cv_diskKey r = diskKey then cv_disk r else 0) live)),
       st\<lparr>cx_reservations := live\<rparr>))"

record cap_request =
  cq_node :: string
  cq_memoryMb :: "rat option"
  cq_diskGb :: "rat option"
  cq_storage :: string
  cq_reserve :: bool

definition amount :: "rat option \<Rightarrow> rat" where
  "amount v = (case v of Some n \<Rightarrow> max 0 n | None \<Rightarrow> 0)"

definition reserveCapacity :: "cap_request \<Rightarrow> string \<Rightarrow> int \<Rightarrow> capacity_state \<Rightarrow> nat \<times> capacity_state" where
  \<comment> \<open>the key that the returned \<open>release\<close> deletes\<close>
  "reserveCapacity q diskKey now st =
     (cx_next st, st\<lparr>cx_reservations := cx_reservations st @
        [(cx_next st, \<lparr>cv_node = cq_node q,
            cv_diskKey = (if diskKey \<noteq> [] then diskKey else if cq_storage q \<noteq> [] then localDiskKey (cq_node q) (cq_storage q) else []),
            cv_memory = amount (cq_memoryMb q) * of_int MIB, cv_disk = amount (cq_diskGb q) * of_int GIB,
            cv_expiresAt = now + RESERVATION_TTL_MS\<rparr>)], cx_next := cx_next st + 1\<rparr>)"

definition release :: "nat \<Rightarrow> capacity_state \<Rightarrow> capacity_state" where
  "release k st = st\<lparr>cx_reservations := filter (\<lambda>(i, _). i \<noteq> k) (cx_reservations st)\<rparr>"

section \<open>The check of a deployment\<close>

record node_status =
  nt_total :: "rat option"
  nt_free :: "rat option"

record cap_env =
  \<comment> \<open>what Proxmox answers (\<open>None\<close>: it cannot be queried), the settings and the clock\<close>
  ce_status :: "node_status option"
  ce_guests :: "cap_guest list option"
  ce_storage :: "(rat option \<times> bool) option"
  ce_defs :: "storage_def list option"
  ce_settings :: "string \<Rightarrow> string option"
  ce_now :: int

definition positive :: "rat option \<Rightarrow> bool" where
  "positive v = (case v of Some n \<Rightarrow> n > 0 | None \<Rightarrow> False)"

definition storage_checked :: "cap_request \<Rightarrow> bool" where
  "storage_checked q = (cq_storage q \<noteq> [] \<and> positive (cq_diskGb q))"

definition pool_key :: "cap_env \<Rightarrow> cap_request \<Rightarrow> string" where
  "pool_key env q =
     (if storage_checked q
      then diskKeyFor (ce_defs env) (cq_node q) (cq_storage q) (case ce_storage env of Some (_, shared) \<Rightarrow> shared | None \<Rightarrow> False)
      else if cq_storage q \<noteq> [] then localDiskKey (cq_node q) (cq_storage q) else [])"

definition memory_check :: "cap_env \<Rightarrow> cap_request \<Rightarrow> rat \<Rightarrow> memory_verdict" where
  "memory_check env q pending =
     (let cs = getCapacitySettings (ce_settings env) in
      case ce_status env of
        None \<Rightarrow> allow ''unchecked''
      | Some status \<Rightarrow>
          if \<not> positive (cq_memoryMb q) \<or> cs_memoryMode cs = ''off'' then allow ''unchecked''
          else evaluateMemoryCapacity
            \<lparr>mq_requestedMb = amount (cq_memoryMb q), mq_total = nt_total status,
             mq_allocated = map_option (\<lambda>gs. fst (sumAllocatedMemoryBytes (guestsOnNode gs (cq_node q)))) (ce_guests env),
             mq_pending = pending, mq_free = nt_free status, mq_mode = cs_memoryMode cs, mq_ratio = cs_overcommitRatio cs\<rparr>)"

definition disk_check :: "cap_env \<Rightarrow> cap_request \<Rightarrow> rat \<Rightarrow> bool" where
  "disk_check env q pending =
     (case (if storage_checked q then ce_storage env else None) of
        Some (Some avail, _) \<Rightarrow> amount (cq_diskGb q) * of_int GIB \<le> avail - pending
      | _ \<Rightarrow> True)"

definition assertNodeCapacity :: "cap_env \<Rightarrow> cap_request \<Rightarrow> capacity_state \<Rightarrow> (http_error + string list \<times> nat option) \<times> capacity_state" where
  \<comment> \<open>the warnings, and the key to release\<close>
  "assertNodeCapacity env q st =
     (let diskKey = pool_key env q;
          ((pendingMemory, pendingDisk), st1) = pendingReservations (cq_node q) diskKey (ce_now env) st;
          verdict = memory_check env q pendingMemory in
      if mv_decision verdict = Block then (Inl (httpError 400 (mv_code verdict)), st1)
      else if \<not> disk_check env q pendingDisk then (Inl (httpError 400 ''Not enough space on storage''), st1)
      else
        let warnings = (if mv_decision verdict = Warn then [mv_code verdict] else []) in
        if cq_reserve q then (let (k, st2) = reserveCapacity q diskKey (ce_now env) st1 in (Inr (warnings, Some k), st2))
        else (Inr (warnings, None), st1))"

fun poll_release :: "nat \<Rightarrow> int \<Rightarrow> (int \<times> bool) list \<Rightarrow> capacity_state \<Rightarrow> capacity_state" where
  \<comment> \<open>the ticks of \<open>releaseWhenTaskStops\<close>: the time of each and whether the task is seen stopped (a failed query is no)\<close>
  "poll_release k deadline [] st = st"
| "poll_release k deadline ((now, stopped) # rest) st =
     (if stopped \<or> now \<ge> deadline then release k st else poll_release k deadline rest st)"

definition releaseWhenTaskStops :: "nat \<Rightarrow> int \<Rightarrow> (int \<times> bool) list \<Rightarrow> capacity_state \<Rightarrow> capacity_state" where
  "releaseWhenTaskStops k now ticks st = poll_release k (now + RESERVATION_TTL_MS) ticks st"

section \<open>Deployments that share a pool\<close>

definition disk_on :: "string \<Rightarrow> nat \<times> cap_reservation \<Rightarrow> rat" where
  "disk_on K x = (if cv_diskKey (snd x) = K then cv_disk (snd x) else 0)"

definition held_on :: "string \<Rightarrow> int \<Rightarrow> capacity_state \<Rightarrow> rat" where
  \<comment> \<open>what the reservations alive at the instant hold on a pool\<close>
  "held_on K now st = sum_list (map (disk_on K) (live_reservations now st))"

inductive deploys :: "rat \<Rightarrow> string \<Rightarrow> int \<Rightarrow> capacity_state \<Rightarrow> bool" for free :: rat and K :: string where
  \<comment> \<open>any history of checks, reservations and releases while Proxmox reports the same free space of the pool\<close>
  idle: "deploys free K t \<lparr>cx_reservations = [], cx_next = 0\<rparr>"
| later: "deploys free K t st \<Longrightarrow> t \<le> t' \<Longrightarrow> deploys free K t' st"
| checked: "deploys free K t st \<Longrightarrow> assertNodeCapacity env q st = (r, st') \<Longrightarrow> ce_now env = t \<Longrightarrow>
    (pool_key env q = K \<and> storage_checked q \<longrightarrow> map_option fst (ce_storage env) = Some (Some free)) \<Longrightarrow> deploys free K t st'"
| released: "deploys free K t st \<Longrightarrow> deploys free K t (release k st)"

definition nonneg :: "capacity_state \<Rightarrow> bool" where
  "nonneg st = list_all (\<lambda>(_, r). 0 \<le> cv_disk r) (cx_reservations st)"

lemma sum_filter_le:
  fixes f :: "'a \<Rightarrow> rat"
  assumes "\<And>x. x \<in> set xs \<Longrightarrow> 0 \<le> f x"
  shows "sum_list (map f (filter P xs)) \<le> sum_list (map f xs)"
  using assms by (induction xs) (auto simp: add_increasing)

lemma disk_on_pair: "disk_on K = (\<lambda>(_, r). if cv_diskKey r = K then cv_disk r else 0)"
  by (auto simp: disk_on_def fun_eq_iff)

lemma disk_on_nonneg: "nonneg st \<Longrightarrow> x \<in> set (live_reservations now st) \<Longrightarrow> 0 \<le> disk_on K x"
  by (cases x) (auto simp: nonneg_def list_all_iff live_reservations_def disk_on_def)

lemma held_filter:
  assumes "nonneg st"
  shows "held_on K now (st\<lparr>cx_reservations := filter P (cx_reservations st)\<rparr>) \<le> held_on K now st"
proof -
  have "live_reservations now (st\<lparr>cx_reservations := filter P (cx_reservations st)\<rparr>) = filter P (live_reservations now st)"
    by (simp add: live_reservations_def conj_commute)
  then show ?thesis unfolding held_on_def by (simp only:) (rule sum_filter_le, rule disk_on_nonneg [OF assms])
qed

lemma held_later:
  assumes "nonneg st" "t \<le> t'"
  shows "held_on K t' st \<le> held_on K t st"
proof -
  have "live_reservations t' st = filter (\<lambda>(_, r). \<not> cv_expiresAt r \<le> t') (live_reservations t st)"
    unfolding live_reservations_def filter_filter by (rule filter_cong) (use assms(2) in auto)
  then show ?thesis unfolding held_on_def by (simp only:) (rule sum_filter_le, rule disk_on_nonneg [OF assms(1)])
qed

lemma nonneg_filter: "nonneg st \<Longrightarrow> nonneg (st\<lparr>cx_reservations := filter P (cx_reservations st)\<rparr>)"
  by (simp add: nonneg_def list_all_iff)

lemma GIB_pos: "0 < GIB"
  by (simp add: GIB_def)

lemma held_reserve:
  assumes "K \<noteq> []" "diskKey = [] \<Longrightarrow> cq_storage q = []"
  shows "held_on K t (snd (reserveCapacity q diskKey now st))
     \<le> held_on K t st + (if diskKey = K then amount (cq_diskGb q) * of_int GIB else 0)"
proof -
  let ?r = "\<lparr>cv_node = cq_node q, cv_diskKey = diskKey, cv_memory = amount (cq_memoryMb q) * of_int MIB,
    cv_disk = amount (cq_diskGb q) * of_int GIB, cv_expiresAt = now + RESERVATION_TTL_MS\<rparr>"
  have nonneg: "0 \<le> amount (cq_diskGb q) * of_int GIB" using GIB_pos by (simp add: amount_def split: option.split)
  have "cx_reservations (snd (reserveCapacity q diskKey now st)) = cx_reservations st @ [(cx_next st, ?r)]"
    using assms(2) by (simp add: reserveCapacity_def)
  then show ?thesis using nonneg assms(1) by (simp add: held_on_def live_reservations_def disk_on_def)
qed

lemma nonneg_reserve: "nonneg st \<Longrightarrow> nonneg (snd (reserveCapacity q diskKey now st))"
  using GIB_pos by (auto simp: nonneg_def reserveCapacity_def amount_def split: option.split)

lemma diskKeyFor_not_Nil: "storage \<noteq> [] \<Longrightarrow> diskKeyFor defs node storage shared \<noteq> []"
  by (auto simp: diskKeyFor_def shared_key_def localDiskKey_def Let_def split: option.split)

lemma pool_key_Nil: "pool_key env q = [] \<longleftrightarrow> cq_storage q = []"
  using diskKeyFor_not_Nil by (auto simp: pool_key_def storage_checked_def localDiskKey_def)

lemma assert_cases:
  assumes "assertNodeCapacity env q st = (r, st')" "pendingReservations (cq_node q) (pool_key env q) (ce_now env) st = ((pm, pd), st1)"
  shows "st' = st1 \<or> (st' = snd (reserveCapacity q (pool_key env q) (ce_now env) st1) \<and> disk_check env q pd)"
proof (cases "mv_decision (memory_check env q pm) = Block \<or> \<not> disk_check env q pd \<or> \<not> cq_reserve q")
  case True
  then show ?thesis using assms by (elim disjE; simp add: assertNodeCapacity_def Let_def split: if_splits)
next
  case False
  then show ?thesis using assms by (simp add: assertNodeCapacity_def Let_def split_beta)
qed

lemma check_keeps:
  assumes "assertNodeCapacity env q st = (r, st')" "nonneg st" "held_on K (ce_now env) st \<le> free" "K \<noteq> []" "0 \<le> free"
    and "pool_key env q = K \<and> storage_checked q \<longrightarrow> map_option fst (ce_storage env) = Some (Some free)"
  shows "held_on K (ce_now env) st' \<le> free \<and> nonneg st'"
proof -
  let ?now = "ce_now env" and ?key = "pool_key env q"
  let ?st1 = "st\<lparr>cx_reservations := live_reservations ?now st\<rparr>"
  have pending: "pendingReservations (cq_node q) ?key ?now st
      = ((fst (fst (pendingReservations (cq_node q) ?key ?now st)), snd (fst (pendingReservations (cq_node q) ?key ?now st))), ?st1)"
    by (simp add: pendingReservations_def Let_def)
  have st1: "held_on K ?now ?st1 \<le> free" "nonneg ?st1"
    using held_filter [OF assms(2)] nonneg_filter [OF assms(2)] assms(3) unfolding live_reservations_def by (metis order_trans)+
  consider "st' = ?st1" | "st' = snd (reserveCapacity q ?key ?now ?st1)" "disk_check env q (snd (fst (pendingReservations (cq_node q) ?key ?now st)))"
    using assert_cases [OF assms(1) pending] by blast
  then show ?thesis
  proof cases
    case 1
    with st1 show ?thesis by simp
  next
    case 2
    have hold: "held_on K ?now st' \<le> held_on K ?now ?st1 + (if ?key = K then amount (cq_diskGb q) * of_int GIB else 0)"
      unfolding 2(1) by (rule held_reserve [OF assms(4)]) (simp add: pool_key_Nil)
    have "held_on K ?now st' \<le> free"
    proof (cases "?key = K \<and> storage_checked q")
      case True
      then obtain shared where avail: "ce_storage env = Some (Some free, shared)" using assms(6) by auto
      have "snd (fst (pendingReservations (cq_node q) ?key ?now st)) = held_on K ?now ?st1"
        using True assms(4) by (simp add: pendingReservations_def held_on_def live_reservations_def disk_on_pair Let_def)
      then have "amount (cq_diskGb q) * of_int GIB \<le> free - held_on K ?now ?st1" using 2(2) True avail by (simp add: disk_check_def)
      with hold True show ?thesis by simp
    next
      case False
      have "amount (cq_diskGb q) = 0" if "?key = K"
      proof -
        have "cq_storage q \<noteq> []" using that assms(4) pool_key_Nil [of env q] by simp
        then have "\<not> positive (cq_diskGb q)" using False that by (simp add: storage_checked_def)
        then show ?thesis by (simp add: positive_def amount_def split: option.splits)
      qed
      with hold st1(1) show ?thesis by (cases "?key = K") simp_all
    qed
    then show ?thesis using nonneg_reserve [OF st1(2)] by (simp add: 2(1))
  qed
qed

text \<open>C18: Disk space is promised once: however deployments are checked, reserved and released while Proxmox reports
  the same free space of a pool (none of them has written yet), what their reservations hold on it
  together never exceeds that space, also when they come from different nodes that share the pool.\<close>

theorem disk_space_is_promised_once:
  assumes "deploys free K t st" "K \<noteq> []" "0 \<le> free" "t \<le> now"
  shows "held_on K now st \<le> free"
proof -
  have "held_on K t st \<le> free \<and> nonneg st"
    using assms(1)
  proof induction
    case (later t st t')
    then have "nonneg st" "held_on K t st \<le> free" by simp_all
    with held_later [OF this(1) later(2), of K] show ?case by simp
  next
    case (checked t st env q r st')
    then show ?case using check_keeps [OF checked(2), of K free] assms(2,3) by simp
  next
    case (released t st k)
    then have n: "nonneg st" "held_on K t st \<le> free" by simp_all
    show ?case unfolding release_def
    proof
      show "held_on K t (st\<lparr>cx_reservations := filter (\<lambda>(i, _). i \<noteq> k) (cx_reservations st)\<rparr>) \<le> free"
        using held_filter [OF n(1)] n(2) by (rule order_trans)
    qed (rule nonneg_filter [OF n(1)])
  qed (simp add: held_on_def live_reservations_def nonneg_def assms(3))
  then have n: "held_on K t st \<le> free" "nonneg st" by simp_all
  show ?thesis using held_later [OF n(2) assms(4)] n(1) by (rule order_trans)
qed

section \<open>The policy and its settings\<close>

text \<open>The verdict on memory: nothing is refused while the policy is off or the node's memory is unknown; in warn mode
  a request is refused only when it exceeds the usable memory by itself, and in block mode exactly when the
  request and what is allocated and in flight exceed it together.\<close>

lemma memory_verdict_table:
  assumes "mq_total q = Some total'" "1 \<le> total'" "0 < mq_requestedMb q"
  defines "usable \<equiv> total' * normalizeOvercommitRatio (Ratio_number (mq_ratio q))" and "bytes \<equiv> mq_requestedMb q * of_int MIB"
  shows "mv_decision (evaluateMemoryCapacity q) = Block \<longleftrightarrow> normalizeMemoryMode (JStr (mq_mode q)) \<noteq> ''off''
    \<and> (bytes > usable \<or> normalizeMemoryMode (JStr (mq_mode q)) = ''block'' \<and> allocated_bytes total' q + bytes > usable)"
proof -
  have "0 < bytes" using assms(3) by (simp add: bytes_def MIB_def)
  then show ?thesis unfolding usable_def bytes_def using assms(1,2)
    by (auto simp: evaluateMemoryCapacity_def at_least_bytes_def allow_def Let_def)
qed

lemma ratio_bounds: "0 \<le> normalizeOvercommitRatio r \<and> normalizeOvercommitRatio r \<le> MAX_OVERCOMMIT_RATIO"
proof -
  have "0 \<le> \<lfloor>x * 100 + 1 / 2\<rfloor>" if "0 < x" for x :: rat using that by (simp add: zero_le_floor)
  then show ?thesis
    by (auto simp: normalizeOvercommitRatio_def DEFAULT_OVERCOMMIT_RATIO_def MAX_OVERCOMMIT_RATIO_def Let_def split: option.split ratio_input.split)
qed

lemma parse_digits:
  assumes "all_digits w" "list_all is_digit f"
  shows "parse_float (js_trim w) = Some (digits_value w [])" "parse_float (js_trim (w @ ''.'' @ f)) = Some (digits_value w f)"
proof -
  obtain c w' where w: "w = c # w'" "is_digit c" using assms(1) by (cases w) (auto simp: all_digits_def)
  have c: "\<not> is_ws c" "c \<noteq> CHR ''-''" "c \<noteq> CHR ''+''" using w(2) digit_not_ws sign_not_digit by blast+
  have plain: "list_all (\<lambda>c. \<not> is_ws c) w" "list_all (\<lambda>c. \<not> is_ws c) (w @ ''.'' @ f)"
    using assms digit_not_ws by (auto simp: all_digits_def list_all_iff is_ws_def is_digit_def)
  have dot: "\<not> is_digit CHR ''.''" by (simp add: is_digit_def)
  have digits: "\<forall>x \<in> set w. is_digit x" using assms(1) by (simp add: all_digits_def list_all_iff)
  have tw: "takeWhile is_digit w = w" "dropWhile is_digit w = []" using digits by simp_all
  have td: "takeWhile is_digit (w @ ''.'' @ f) = w" "dropWhile is_digit (w @ ''.'' @ f) = ''.'' @ f"
    using digits dot by (simp_all add: takeWhile_append2 dropWhile_append2)
  have start: "dropWhile is_ws (w @ s) = w @ s" "hd (w @ s) = c" "w @ s \<noteq> []" for s using w(1) c(1) by simp_all
  show "parse_float (js_trim w) = Some (digits_value w [])"
    unfolding js_trim_id [OF plain(1)] using start [of "[]"] c tw by (simp add: parse_float_def Let_def w(1))
  show "parse_float (js_trim (w @ ''.'' @ f)) = Some (digits_value w f)"
    unfolding js_trim_id [OF plain(2)] parse_float_def Let_def start using c td start(3) [of "''.'' @ f"] w(1)
    by (simp add: takeWhile_digits [OF assms(2)])
qed

lemma parse_hundredths: "parse_float (js_trim (show_hundredths n)) = Some (of_nat n / 100)"
proof -
  have n: "n = n div 100 * 100 + n mod 100" by simp
  have digits: "all_digits (show_nat k)" "list_all is_digit (show_nat k)" for k using show_nat_digits by simp_all
  consider "n mod 100 = 0" | "n mod 100 \<noteq> 0" "n mod 10 = 0" | "n mod 10 \<noteq> 0" "n mod 100 \<noteq> 0" by fastforce
  then show ?thesis
  proof cases
    case 1
    then have "of_nat n / 100 = (of_nat (n div 100) :: rat)" using n by (metis add.right_neutral nonzero_mult_div_cancel_right of_nat_mult of_nat_numeral zero_neq_numeral)
    with 1 parse_digits(1) [OF digits(1), of "[]"] show ?thesis by (simp add: show_hundredths_def digits_value_def)
  next
    case 2
    let ?f = "show_nat (n mod 100 div 10)"
    have "n mod 100 mod 10 = n mod 10" by (rule mod_mod_cancel) simp
    then have d: "n mod 100 div 10 < 10" "n mod 100 = n mod 100 div 10 * 10"
      using 2(2) div_mult_mod_eq [of "n mod 100" 10] by (simp_all add: div_less_iff_less_mult)
    then have "length ?f = 1" using length_show_nat_le [of "n mod 100 div 10" 1] show_nat_not_Nil [of "n mod 100 div 10"]
      by (cases ?f) auto
    then have "digits_value (show_nat (n div 100)) ?f = of_nat (n div 100) + of_nat (n mod 100 div 10) / 10" by (simp add: digits_value_def)
    also have "\<dots> = of_nat n / 100"
    proof -
      have "rat_of_nat n = of_nat (n div 100) * 100 + of_nat (n mod 100 div 10) * 10"
        using d(2) by (metis div_mult_mod_eq of_nat_add of_nat_mult of_nat_numeral)
      then show ?thesis by simp
    qed
    finally show ?thesis using 2 parse_digits(2) [OF digits(1) digits(2)] by (simp add: show_hundredths_def)
  next
    case 3
    let ?f = "pad_start 2 CHR ''0'' (show_nat (n mod 100))"
    have "length ?f = 2" using length_show_nat_le [of "n mod 100" 2] by (simp add: max_def)
    then have "digits_value (show_nat (n div 100)) ?f = of_nat (n div 100) + of_nat (n mod 100) / 100" by (simp add: digits_value_def)
    also have "\<dots> = of_nat n / 100"
    proof -
      have "rat_of_nat n = of_nat (n div 100) * 100 + of_nat (n mod 100)"
        by (metis div_mult_mod_eq of_nat_add of_nat_mult of_nat_numeral)
      then show ?thesis by simp
    qed
    finally have v: "digits_value (show_nat (n div 100)) ?f = of_nat n / 100" .
    have "list_all is_digit ?f" by (simp add: pad_start_def is_digit_def)
    from parse_digits(2) [OF digits(1) this] v 3 show ?thesis by (simp add: show_hundredths_def)
  qed
qed

lemma ratio_hundredths: "0 < normalizeOvercommitRatio r \<Longrightarrow> \<exists>n. normalizeOvercommitRatio r = of_nat n / 100 \<and> 0 < n \<and> n \<le> 10000"
proof -
  assume pos: "0 < normalizeOvercommitRatio r"
  have "\<exists>k :: int. normalizeOvercommitRatio r = of_int k / 100"
    unfolding normalizeOvercommitRatio_def DEFAULT_OVERCOMMIT_RATIO_def MAX_OVERCOMMIT_RATIO_def
    by (auto simp: min_def split: option.split ratio_input.split intro: exI [of _ 150] exI [of _ 10000])
  then obtain k where k: "normalizeOvercommitRatio r = of_int k / 100" by blast
  with pos ratio_bounds [of r] have "0 < k" "k \<le> 10000" by (simp_all add: MAX_OVERCOMMIT_RATIO_def)
  with k show ?thesis by (intro exI [of _ "nat k"]) simp
qed

lemma ratio_stable: "0 < n \<Longrightarrow> n \<le> 10000 \<Longrightarrow> normalizeOvercommitRatio (Ratio_text (show_hundredths n)) = of_nat n / 100"
proof -
  assume n: "0 < n" "n \<le> 10000"
  have "\<lfloor>of_nat n + 1 / 2 :: rat\<rfloor> = int n" by (simp add: floor_eq_iff)
  with n show ?thesis by (simp add: normalizeOvercommitRatio_def parse_hundredths MAX_OVERCOMMIT_RATIO_def min_def)
qed

lemma mode_stable: "normalizeMemoryMode (JStr (normalizeMemoryMode v)) = normalizeMemoryMode v"
proof -
  have "normalizeMemoryMode v \<in> set MEMORY_MODES"
    by (simp add: normalizeMemoryMode_def DEFAULT_MEMORY_MODE_def MEMORY_MODES_def Let_def)
  then have "normalizeMemoryMode v = ''off'' \<or> normalizeMemoryMode v = ''warn'' \<or> normalizeMemoryMode v = ''block''"
    by (simp add: MEMORY_MODES_def)
  moreover have "normalizeMemoryMode (JStr ''off'') = ''off''" "normalizeMemoryMode (JStr ''warn'') = ''warn''"
    "normalizeMemoryMode (JStr ''block'') = ''block''" by code_simp+
  ultimately show ?thesis by auto
qed

text \<open>Settings survive storage: what is read back after a change is the normalised mode and ratio, the ratio printed and
  parsed as a decimal text, unless the ratio rounds to zero (it is then read as the default).\<close>

lemma settings_survive_storage:
  assumes "\<not> nullish mode" "0 < normalizeOvercommitRatio r"
  shows "fst (setCapacitySettings mode (Some r) settings)
    = \<lparr>cs_memoryMode = normalizeMemoryMode mode, cs_overcommitRatio = normalizeOvercommitRatio r\<rparr>"
proof -
  obtain n where n: "normalizeOvercommitRatio r = of_nat n / 100" "0 < n" "n \<le> 10000" using ratio_hundredths [OF assms(2)] by blast
  have "nat \<lfloor>normalizeOvercommitRatio r * 100\<rfloor> = n" by (simp add: n(1))
  with assms(1) ratio_stable [OF n(2,3)] n(1) mode_stable show ?thesis
    by (simp add: setCapacitySettings_def getCapacitySettings_def Let_def)
qed

definition pool_env :: "int \<Rightarrow> cap_env" where
  \<comment> \<open>a shared pool with 20 GB free\<close>
  "pool_env now = \<lparr>ce_status = None, ce_guests = None, ce_storage = Some (Some (20 * of_int GIB), True), ce_defs = None,
     ce_settings = Map.empty, ce_now = now\<rparr>"

definition pool_request :: "string \<Rightarrow> cap_request" where
  "pool_request node = \<lparr>cq_node = node, cq_memoryMb = None, cq_diskGb = Some 15, cq_storage = ''ceph'', cq_reserve = True\<rparr>"

theorem disk_space_is_promised_once_witness:
  "held_on ''shared:1:ceph'' 10 (snd (assertNodeCapacity (pool_env 5) (pool_request ''1~a'')
      \<lparr>cx_reservations = [], cx_next = 0\<rparr>)) \<le> 20 * of_int GIB"
proof -
  let ?out = "assertNodeCapacity (pool_env 5) (pool_request ''1~a'') \<lparr>cx_reservations = [], cx_next = 0\<rparr>"
  have "assertNodeCapacity (pool_env 5) (pool_request ''1~a'') \<lparr>cx_reservations = [], cx_next = 0\<rparr> = (fst ?out, snd ?out)" by simp
  then have "deploys (20 * of_int GIB) ''shared:1:ceph'' 5 (snd ?out)"
    by (rule deploys.checked [OF deploys.idle]) (simp_all add: pool_env_def)
  moreover have "(0 :: rat) \<le> 20 * of_int GIB" using GIB_pos by simp
  ultimately show ?thesis using disk_space_is_promised_once [of "20 * of_int GIB" "''shared:1:ceph''" 5 _ 10] by simp
qed

lemma second_deployment_is_refused:
  "fst (assertNodeCapacity (pool_env 6) (pool_request ''1~b'')
     (snd (assertNodeCapacity (pool_env 5) (pool_request ''1~a'') \<lparr>cx_reservations = [], cx_next = 0\<rparr>)))
   = Inl (httpError 400 ''Not enough space on storage'')"
proof -
  have key: "shared_key ''1~a'' ''ceph'' = ''shared:1:ceph''" "shared_key ''1~b'' ''ceph'' = ''shared:1:ceph''" by code_simp+
  show ?thesis
    by (simp add: assertNodeCapacity_def pool_env_def pool_request_def pool_key_def storage_checked_def positive_def diskKeyFor_def key
        pendingReservations_def live_reservations_def memory_check_def allow_def disk_check_def amount_def reserveCapacity_def
        RESERVATION_TTL_MS_def GIB_def Let_def)
qed

end
