(* ===== verification/Public_Ports.thy ===== *)
theory Public_Ports
  imports Ip_Address
begin

text \<open>
  Public endpoints of port forwards (\<open>utils/portEndpoints.ts\<close>): two forwards conflict when they claim a common
  port of one endpoint under one protocol. Assignments of public addresses (\<open>utils/publicIpAccess.ts\<close>): who may
  publish on an address, and when it may be assigned, released or deleted.
\<close>

section \<open>Endpoints and port ranges\<close>

definition normalizePortProtocol :: "json \<Rightarrow> string option" where
  "normalizePortProtocol protocol =
     (let normalized = js_lower (js_trim (if nullish protocol then [] else to_str protocol)) in
      if normalized = ''tcp'' \<or> normalized = ''udp'' then Some normalized else None)"

record ep_entry =
  ep_firewallId :: json
  ep_publicIpId :: json
  ep_address :: string
  ep_protocol :: json
  ep_port :: json
  ep_label :: string

definition given :: "json \<Rightarrow> bool" where
  "given v = (\<not> nullish v \<and> v \<noteq> JStr [])"

definition firewall_text :: "json \<Rightarrow> string" where
  "firewall_text v = (if given v then to_str v else ''?'')"

definition publicEndpointKey :: "ep_entry \<Rightarrow> string" where
  "publicEndpointKey e =
     (let firewall = firewall_text (ep_firewallId e); normalized = normalizeIpv4 (ep_address e) in
      if normalized \<noteq> [] then ''fw:'' @ firewall @ ''|ip:'' @ normalized
      else if given (ep_publicIpId e) then ''fw:'' @ firewall @ ''|pubip:'' @ to_str (ep_publicIpId e)
      else ''fw:'' @ firewall @ ''|wan'')"

definition short_digits :: "string \<Rightarrow> bool" where
  "short_digits s = (all_digits s \<and> length s \<le> 5)"

definition range_texts :: "string \<Rightarrow> (string \<times> string option) option" where
  \<comment> \<open>\<open>^(\d{1,5})(?:\s*-\s*(\d{1,5}))?$\<close>\<close>
  "range_texts raw =
     (let first = takeWhile is_digit raw; rest = dropWhile is_digit raw; sep = dropWhile is_ws rest in
      if \<not> short_digits first then None
      else if rest = [] then Some (first, None)
      else if sep \<noteq> [] \<and> hd sep = CHR ''-'' \<and> short_digits (dropWhile is_ws (tl sep)) then Some (first, Some (dropWhile is_ws (tl sep)))
      else None)"

definition valid_port :: "nat \<Rightarrow> bool" where
  "valid_port n = (1 \<le> n \<and> n \<le> 65535)"

definition parsePortRange :: "json \<Rightarrow> (nat \<times> nat) option" where
  "parsePortRange value =
     (let raw = js_trim (if nullish value then [] else to_str value) in
      case range_texts raw of
        None \<Rightarrow> None
      | Some (first, second) \<Rightarrow>
          let start = nat_of_digits first; stop = (case second of None \<Rightarrow> start | Some s \<Rightarrow> nat_of_digits s) in
          if \<not> valid_port start \<or> \<not> valid_port stop then None
          else Some (if stop < start then (stop, start) else (start, stop)))"

definition formatPortRange :: "(nat \<times> nat) option \<Rightarrow> string" where
  "formatPortRange r =
     (case r of None \<Rightarrow> [] | Some (a, b) \<Rightarrow> if a = b then show_nat a else show_nat a @ ''-'' @ show_nat b)"

definition portRangesOverlap :: "(nat \<times> nat) option \<Rightarrow> (nat \<times> nat) option \<Rightarrow> bool" where
  "portRangesOverlap a b = (case (a, b) of (Some (a1, a2), Some (b1, b2)) \<Rightarrow> a1 \<le> b2 \<and> b1 \<le> a2 | _ \<Rightarrow> False)"

record ep_claim =
  ec_key :: string
  ec_protocol :: string
  ec_range :: "nat \<times> nat"
  ec_address :: string
  ec_publicIpId :: json
  ec_label :: string

definition normalizeEndpointEntry :: "ep_entry \<Rightarrow> ep_claim option" where
  "normalizeEndpointEntry e =
     (case (normalizePortProtocol (ep_protocol e), parsePortRange (ep_port e)) of
        (Some protocol, Some span) \<Rightarrow>
          Some \<lparr>ec_key = publicEndpointKey e, ec_protocol = protocol, ec_range = span, ec_address = normalizeIpv4 (ep_address e),
                ec_publicIpId = (if nullish (ep_publicIpId e) then JNull else ep_publicIpId e), ec_label = ep_label e\<rparr>
      | _ \<Rightarrow> None)"

definition same_port :: "ep_claim \<Rightarrow> ep_claim \<Rightarrow> bool" where
  "same_port entry target =
     (ec_key entry = ec_key target \<and> ec_protocol entry = ec_protocol target
      \<and> portRangesOverlap (Some (ec_range entry)) (Some (ec_range target)))"

definition findPortConflict :: "ep_entry list \<Rightarrow> ep_entry \<Rightarrow> ep_claim option" where
  "findPortConflict existing candidate =
     (case normalizeEndpointEntry candidate of
        None \<Rightarrow> None
      | Some target \<Rightarrow> find (\<lambda>entry. same_port entry target) (List.map_filter normalizeEndpointEntry existing))"

definition upper_protocol :: "string \<Rightarrow> string" where
  "upper_protocol p = (if p = ''tcp'' then ''TCP'' else if p = ''udp'' then ''UDP'' else p)"

definition portConflictMessage :: "ep_claim option \<Rightarrow> string" where
  "portConflictMessage conflict =
     (case conflict of
        None \<Rightarrow> []
      | Some c \<Rightarrow>
          let single = fst (ec_range c) = snd (ec_range c) in
          upper_protocol (ec_protocol c) @ '' '' @ (if single then ''port'' else ''ports'') @ '' '' @ formatPortRange (Some (ec_range c))
          @ '' '' @ (if single then ''is'' else ''are'') @ '' already in use ''
          @ (if ec_address c \<noteq> [] then ''on '' @ ec_address c else ''on the default WAN address'')
          @ (if ec_label c \<noteq> [] then '' by \"'' @ ec_label c @ ''\"'' else [])
          @ ''. The same port may still be used on another public IP assigned to you.'')"

section \<open>Public addresses\<close>

record public_ip =
  ip_address :: string
  ip_state :: string

record ip_pool =
  pool_name :: string
  pool_enabled :: bool

record ip_assignment =
  ia_user :: json
  ia_status :: string
  ia_private :: string
  ia_vmid :: json

record usage_request =
  ur_admin :: bool
  ur_unrestricted :: bool
  ur_user :: json
  ur_mappedIp :: string
  ur_vmid :: json

definition USABLE_ASSIGNMENT_STATUSES :: "string list" where
  "USABLE_ASSIGNMENT_STATUSES = [''pending'', ''provisioning'', ''active'', ''degraded'']"

definition PROVISIONED_ASSIGNMENT_STATUSES :: "string list" where
  "PROVISIONED_ASSIGNMENT_STATUSES = [''active'']"

definition describeAssignmentProvisioning :: "string \<Rightarrow> string \<times> bool" where
  \<comment> \<open>the note is left out\<close>
  "describeAssignmentProvisioning status =
     (let value = (if status = [] then ''pending'' else status) in (value, value \<in> set PROVISIONED_ASSIGNMENT_STATUSES))"

definition refuse :: "nat \<Rightarrow> string \<Rightarrow> http_error option" where
  "refuse status msg = Some (httpError status msg)"

definition vmid_text :: "json \<Rightarrow> string option" where
  "vmid_text v = (if nullish v then None else Some (to_str v))"

definition checkPublicIpUsage ::
  "usage_request \<Rightarrow> public_ip option \<Rightarrow> ip_pool option \<Rightarrow> ip_assignment option \<Rightarrow> http_error option" where
  "checkPublicIpUsage q publicIp pool assignment =
     (case publicIp of
        None \<Rightarrow> refuse 404 ''Public IP not found on this firewall''
      | Some ip \<Rightarrow>
          if ip_state ip = ''disabled'' then refuse 409 (''Public IP '' @ ip_address ip @ '' is disabled'')
          else if ip_state ip = ''error'' then refuse 409 (''Public IP '' @ ip_address ip @ '' is in an error state'')
          else if (case pool of Some p \<Rightarrow> \<not> pool_enabled p | None \<Rightarrow> False)
          then refuse 409 (''Public IP pool \"'' @ pool_name (the pool) @ ''\" is disabled'')
          else case assignment of
            None \<Rightarrow> refuse 409 (''Public IP '' @ ip_address ip @ '' is not assigned to a VM'')
          | Some a \<Rightarrow>
              if ia_status a \<notin> set USABLE_ASSIGNMENT_STATUSES
              then refuse 409 (''The assignment for '' @ ip_address ip @ '' is '' @ ia_status a @ '' and cannot be used right now'')
              else if \<not> (ur_admin q \<or> ur_unrestricted q) \<and> to_str (ia_user a) \<noteq> to_str (ur_user q)
              then refuse 403 ''That public IP is assigned to another user''
              else
                let assignedIp = normalizeIpv4 (ia_private a); wantedIp = normalizeIpv4 (ur_mappedIp q) in
                if wantedIp = [] \<or> assignedIp \<noteq> wantedIp
                then refuse 403 (''Public IP '' @ ip_address ip @ '' is assigned to '' @ (if assignedIp = [] then ''another target'' else assignedIp)
                  @ '', not '' @ (if wantedIp = [] then ''the selected destination'' else wantedIp))
                else
                  let assignedVmid = vmid_text (ia_vmid a); wantedVmid = (if ur_vmid q = JStr [] then None else vmid_text (ur_vmid q)) in
                  (case (assignedVmid, wantedVmid) of
                     (Some x, Some y) \<Rightarrow>
                       if x \<noteq> [] \<and> y \<noteq> [] \<and> x \<noteq> y
                       then refuse 403 (''Public IP '' @ ip_address ip @ '' is assigned to VM '' @ x @ '', not VM '' @ y) else None
                   | _ \<Rightarrow> None))"

record assign_request =
  ar_user :: bool
  ar_vmOwned :: bool
  ar_privateIp :: string
  ar_vmIps :: "string list"
  ar_userCidrs :: "string list"
  ar_existingForIp :: bool
  ar_existingEgress :: bool
  ar_egressEnabled :: bool

definition checkAssignmentRequest :: "assign_request \<Rightarrow> public_ip option \<Rightarrow> ip_pool option \<Rightarrow> http_error option" where
  "checkAssignmentRequest q publicIp pool =
     (case (publicIp, pool) of
        (None, _) \<Rightarrow> refuse 404 ''Public IP not found''
      | (_, None) \<Rightarrow> refuse 404 ''Public IP pool not found''
      | (Some ip, Some p) \<Rightarrow>
          if \<not> pool_enabled p then refuse 409 (''Public IP pool \"'' @ pool_name p @ ''\" is disabled'')
          else if ip_state ip = ''disabled'' \<or> ip_state ip = ''error'' then refuse 409 (''Public IP '' @ ip_address ip @ '' is '' @ ip_state ip)
          else if ip_state ip = ''reserved'' then refuse 409 (''Public IP '' @ ip_address ip @ '' is reserved and cannot be assigned'')
          else if ar_existingForIp q then refuse 409 (''Public IP '' @ ip_address ip @ '' is already assigned'')
          else if \<not> ar_user q then refuse 400 ''A target user is required''
          else if \<not> ar_vmOwned q then refuse 403 ''The selected VM must be assigned to the selected user''
          else
            let address = normalizeIpv4 (ar_privateIp q) in
            if address = [] then refuse 400 ''A valid private IPv4 address is required''
            else if \<not> list_ex (\<lambda>x. normalizeIpv4 x = address) (ar_vmIps q) \<and> \<not> list_ex (\<lambda>c. cidrContains c address) (ar_userCidrs q)
            then refuse 400 (address @ '' does not belong to the selected VM or to a VLAN assigned to that user'')
            else if ar_egressEnabled q \<and> ar_existingEgress q
            then refuse 409 (address @ '' already has a dedicated egress public IP on this firewall. ''
              @ ''A private address may only egress through one public IP.'')
            else None)"

definition checkAssignmentDeletion :: "bool \<Rightarrow> nat \<Rightarrow> bool \<Rightarrow> http_error option" where
  "checkAssignmentDeletion assigned count force =
     (if \<not> assigned then refuse 404 ''Assignment not found''
      else if count > 0 \<and> \<not> force
      then refuse 409 (show_nat count @ '' port forward'' @ (if count = 1 then [] else ''s'') @ '' still use this public IP. ''
        @ ''Delete them first, then release the address.'')
      else None)"

definition checkPublicIpDeletion :: "public_ip option \<Rightarrow> nat \<Rightarrow> nat \<Rightarrow> http_error option" where
  "checkPublicIpDeletion publicIp assignmentCount portForwardCount =
     (case publicIp of
        None \<Rightarrow> refuse 404 ''Public IP not found''
      | Some ip \<Rightarrow>
          if assignmentCount > 0 then refuse 409 (ip_address ip @ '' is assigned. Release the assignment first.'')
          else if portForwardCount > 0 then refuse 409 (ip_address ip @ '' is still referenced by port forwards'')
          else None)"

section \<open>Ranges as text\<close>

lemma to_str_text [simp]: "to_str (JStr s) = s"
  by simp

lemma parsePortRange_bounds: "parsePortRange v = Some (a, b) \<Longrightarrow> 1 \<le> a \<and> a \<le> b \<and> b \<le> 65535"
  by (auto simp: parsePortRange_def valid_port_def Let_def split: option.splits if_splits prod.splits)

lemma digit_not_dash: "\<not> is_digit CHR ''-''" "\<not> is_ws CHR ''-''"
  by (simp_all add: is_digit_def is_ws_def)

lemma port_text: "valid_port n \<Longrightarrow> short_digits (show_nat n)"
  using show_nat_digits length_show_nat_le [of n 5] by (simp add: short_digits_def valid_port_def)

lemma trim_digits_dash: "list_all (\<lambda>c. is_digit c \<or> c = CHR ''-'') s \<Longrightarrow> js_trim s = s"
  by (rule js_trim_id) (auto simp: list_all_iff is_ws_def is_digit_def)

text \<open>Port ranges round-trip through their text: printing a range and parsing the text gives the range again.\<close>

lemma port_range_roundtrip:
  assumes "1 \<le> a" "a \<le> b" "b \<le> 65535"
  shows "parsePortRange (JStr (formatPortRange (Some (a, b)))) = Some (a, b)"
proof -
  have v: "valid_port a" "valid_port b" using assms by (simp_all add: valid_port_def)
  have digits: "takeWhile is_digit (show_nat n) = show_nat n" "dropWhile is_digit (show_nat n) = []" "\<forall>x \<in> set (show_nat n). is_digit x" for n
    using takeWhile_digits [of "show_nat n"] show_nat_list_all [of n] by (simp_all add: list_all_iff)
  have nws: "dropWhile is_ws (show_nat n) = show_nat n" for n
    using digits(3) [of n] digit_not_ws by (cases "show_nat n") simp_all
  show ?thesis
  proof (cases "a = b")
    case True
    have "js_trim (show_nat b) = show_nat b" by (rule trim_digits_dash) (use digits(3) in \<open>simp add: list_all_iff\<close>)
    moreover have "range_texts (show_nat b) = Some (show_nat b, None)"
      unfolding range_texts_def digits Let_def using port_text [OF v(2)] by simp
    ultimately show ?thesis using True v by (simp add: formatPortRange_def parsePortRange_def nullish_def Let_def)
  next
    case False
    let ?s = "show_nat a @ ''-'' @ show_nat b"
    have t: "js_trim ?s = ?s"
      by (rule trim_digits_dash) (use digits(3) [of a] digits(3) [of b] in \<open>auto simp: list_all_iff\<close>)
    have "takeWhile is_digit ?s = show_nat a" "dropWhile is_digit ?s = ''-'' @ show_nat b"
      using digits(3) digit_not_dash by (simp_all add: takeWhile_append2 dropWhile_append2)
    then have "range_texts ?s = Some (show_nat a, Some (show_nat b))"
      unfolding range_texts_def Let_def using port_text [OF v(1)] port_text [OF v(2)] digit_not_dash nws [of b] by simp
    then show ?thesis using False v assms(2) t by (simp add: formatPortRange_def parsePortRange_def nullish_def Let_def)
  qed
qed

section \<open>Properties\<close>

definition claims :: "ep_entry \<Rightarrow> (string \<times> string \<times> nat) set" where
  \<comment> \<open>the public ports a forward takes: endpoint, protocol, number\<close>
  "claims e = (case normalizeEndpointEntry e of
      Some c \<Rightarrow> {(ec_key c, ec_protocol c, p) | p. fst (ec_range c) \<le> p \<and> p \<le> snd (ec_range c)} | None \<Rightarrow> {})"

lemma claim_range: "normalizeEndpointEntry e = Some c \<Longrightarrow> fst (ec_range c) \<le> snd (ec_range c)"
  by (auto simp: normalizeEndpointEntry_def dest: parsePortRange_bounds split: option.splits)

lemma same_port_claims:
  assumes "normalizeEndpointEntry e = Some c" "normalizeEndpointEntry f = Some d"
  shows "same_port c d \<longleftrightarrow> claims e \<inter> claims f \<noteq> {}"
proof -
  obtain a1 a2 b1 b2 where r: "ec_range c = (a1, a2)" "ec_range d = (b1, b2)" by (cases "ec_range c"; cases "ec_range d")
  then have le: "a1 \<le> a2" "b1 \<le> b2" using claim_range [OF assms(1)] claim_range [OF assms(2)] by simp_all
  have "claims e \<inter> claims f = (if ec_key c = ec_key d \<and> ec_protocol c = ec_protocol d
      then {(ec_key c, ec_protocol c, p) | p. max a1 b1 \<le> p \<and> p \<le> min a2 b2} else {})"
    using assms r by (auto simp: claims_def)
  moreover have "{(ec_key c, ec_protocol c, p) | p. max a1 b1 \<le> p \<and> p \<le> min a2 b2} \<noteq> {} \<longleftrightarrow> a1 \<le> b2 \<and> b1 \<le> a2"
    using le by (auto intro: exI [of _ "max a1 b1"])
  ultimately show ?thesis using r by (auto simp: same_port_def portRangesOverlap_def)
qed

text \<open>C22: A conflict is reported exactly when a port is taken twice: the scan finds a conflicting forward if and
  only if some existing forward and the candidate claim a common port of the same public endpoint
  under the same protocol; entries that cannot be read claim nothing.\<close>

theorem conflict_is_a_shared_port:
  "findPortConflict existing candidate \<noteq> None \<longleftrightarrow> (\<exists>e \<in> set existing. claims e \<inter> claims candidate \<noteq> {})"
proof (cases "normalizeEndpointEntry candidate")
  case None
  then show ?thesis by (simp add: findPortConflict_def claims_def)
next
  case (Some d)
  have "(\<exists>c \<in> set (List.map_filter normalizeEndpointEntry existing). same_port c d) \<longleftrightarrow> (\<exists>e \<in> set existing. claims e \<inter> claims candidate \<noteq> {})"
  proof
    assume "\<exists>c \<in> set (List.map_filter normalizeEndpointEntry existing). same_port c d"
    then obtain c e where "e \<in> set existing" "normalizeEndpointEntry e = Some c" "same_port c d"
      by (auto simp: List.map_filter_def)
    then show "\<exists>e \<in> set existing. claims e \<inter> claims candidate \<noteq> {}" using same_port_claims Some by blast
  next
    assume "\<exists>e \<in> set existing. claims e \<inter> claims candidate \<noteq> {}"
    then obtain e where e: "e \<in> set existing" "claims e \<inter> claims candidate \<noteq> {}" by blast
    then obtain c where "normalizeEndpointEntry e = Some c" by (cases "normalizeEndpointEntry e") (auto simp: claims_def)
    then show "\<exists>c \<in> set (List.map_filter normalizeEndpointEntry existing). same_port c d"
      using e same_port_claims Some by (auto simp: List.map_filter_def intro!: bexI [of _ e])
  qed
  then show ?thesis using Some by (auto simp: findPortConflict_def find_None_iff)
qed

text \<open>Two forwards on different public addresses never share an endpoint, whatever their ports.\<close>

lemma addresses_do_not_collide:
  assumes "normalizeIpv4 (ep_address e) \<noteq> []" "normalizeIpv4 (ep_address f) \<noteq> []"
    and "CHR ''|'' \<notin> set (firewall_text (ep_firewallId e))" "CHR ''|'' \<notin> set (firewall_text (ep_firewallId f))"
    and "publicEndpointKey e = publicEndpointKey f"
  shows "firewall_text (ep_firewallId e) = firewall_text (ep_firewallId f) \<and> normalizeIpv4 (ep_address e) = normalizeIpv4 (ep_address f)"
proof -
  have cut: "takeWhile (\<lambda>c. c \<noteq> CHR ''|'') (w @ ''|ip:'' @ s) = w" if "CHR ''|'' \<notin> set w" for w s
    using that by (induction w) auto
  have eq: "firewall_text (ep_firewallId e) @ ''|ip:'' @ normalizeIpv4 (ep_address e)
      = firewall_text (ep_firewallId f) @ ''|ip:'' @ normalizeIpv4 (ep_address f)"
    using assms(1,2,5) by (simp add: publicEndpointKey_def Let_def)
  then have "firewall_text (ep_firewallId e) = firewall_text (ep_firewallId f)"
    using cut [OF assms(3)] cut [OF assms(4)] by metis
  with eq show ?thesis by simp
qed

text \<open>Nobody publishes on an address that is not bound to the destination: when a forward is admitted on a public
  address, the address and its pool are enabled, a usable assignment binds it, the destination is the
  private address of that assignment (for administrators too), and a user without the firewall-wide
  permission is the one the address is assigned to.\<close>

lemma forward_needs_its_assignment:
  assumes "checkPublicIpUsage q publicIp pool assignment = None"
  shows "\<exists>ip a. publicIp = Some ip \<and> assignment = Some a \<and> ip_state ip \<noteq> ''disabled'' \<and> ip_state ip \<noteq> ''error''
    \<and> (\<forall>p. pool = Some p \<longrightarrow> pool_enabled p) \<and> ia_status a \<in> set USABLE_ASSIGNMENT_STATUSES
    \<and> normalizeIpv4 (ia_private a) = normalizeIpv4 (ur_mappedIp q) \<and> normalizeIpv4 (ur_mappedIp q) \<noteq> []
    \<and> (ur_admin q \<or> ur_unrestricted q \<or> to_str (ia_user a) = to_str (ur_user q))"
  using assms unfolding checkPublicIpUsage_def refuse_def Let_def by (simp split: option.split_asm if_split_asm)

end
