(* ===== verification/Port_Targets.thy ===== *)
theory Port_Targets
  imports Json "HOL-Library.Multiset"
begin

text \<open>
  Targets of port forwards (\<open>utils/portForwardTargets.ts\<close>): every accessible machine with the reason why it cannot be
  published, or the interfaces to publish it through. The order of names (\<open>localeCompare\<close>) is a parameter.
\<close>

section \<open>Rows\<close>

record pf_vm =
  pt_node :: string
  pt_nodeRef :: string
  pt_vmid :: int
  pt_name :: string
  pt_status :: string
  pt_type :: string

record ssh_row =
  sr_node :: string
  sr_vmid :: int
  sr_host :: string
  sr_port :: "int option"

datatype blocked_code = No_ip | Untagged | Vlan_not_synced | Vlan_not_assigned

record blocked =
  bl_code :: blocked_code
  bl_message :: string
  bl_action :: string
  bl_href :: "string option"

record pf_target =
  tg_vm :: pf_vm
  tg_name :: string
  tg_ip :: string
  tg_sshPort :: int
  tg_vlanTag :: "int option"
  tg_vlanName :: string
  tg_dstInterface :: string
  tg_vlanInterface :: string
  tg_eligible :: bool
  tg_overridable :: bool
  tg_blocked :: "blocked option"

record pf_input =
  pf_vms :: "pf_vm list"
  pf_accessible :: "string list option"
  pf_ssh :: "ssh_row list"
  pf_vlanTags :: "(string \<times> json) list"
  pf_vlans :: "(json \<times> string) list"
  pf_syncs :: "(json \<times> string) list"
  pf_userTags :: "json list"
  pf_unrestricted :: bool
  pf_canManageVlans :: bool
  pf_rootDst :: string
  pf_firewall :: string

definition BLOCKED_CODES :: "blocked_code list" where
  "BLOCKED_CODES = [No_ip, Untagged, Vlan_not_synced, Vlan_not_assigned]"

definition VM_TYPES :: "string list" where
  "VM_TYPES = [''qemu'', ''lxc'']"

definition ref_or_node :: "pf_vm \<Rightarrow> string" where
  "ref_or_node vm = (if pt_nodeRef vm \<noteq> [] then pt_nodeRef vm else pt_node vm)"

definition vmKey :: "pf_vm \<Rightarrow> string" where
  "vmKey vm = ref_or_node vm @ ''/'' @ show_int (pt_vmid vm)"

definition vmHref :: "pf_vm \<Rightarrow> string" where
  "vmHref vm = ''/vm/'' @ ref_or_node vm @ ''/'' @ show_int (pt_vmid vm)"

definition vlanLabel :: "int \<Rightarrow> string \<Rightarrow> string" where
  "vlanLabel tag name =
     (let trimmed = js_trim name in
      if trimmed \<noteq> [] then trimmed @ '' (tag '' @ show_int tag @ '')'' else ''tag '' @ show_int tag)"

definition raw_key :: "pf_vm \<Rightarrow> string" where
  "raw_key vm = pt_node vm @ ''/'' @ show_int (pt_vmid vm)"

definition last_of :: "('k \<times> 'v) list \<Rightarrow> 'k \<Rightarrow> 'v option" where
  \<comment> \<open>\<open>new Map(entries).get(k)\<close>: the last entry of a key counts\<close>
  "last_of entries k = map_of (rev entries) k"

definition makeSshLookup :: "pf_vm list \<Rightarrow> ssh_row list \<Rightarrow> pf_vm \<Rightarrow> ssh_row option" where
  "makeSshLookup vms rows vm =
     (let sshMap = last_of (map (\<lambda>c. (sr_node c @ ''/'' @ show_int (sr_vmid c), c)) rows);
          count = length (filter (\<lambda>v. raw_key v = raw_key vm) vms) in
      case sshMap (vmKey vm) of
        Some c \<Rightarrow> Some c
      | None \<Rightarrow> if count = 1 then sshMap (raw_key vm) else None)"

definition intOrNull :: "json \<Rightarrow> int option" where
  "intOrNull v = parse_int (to_str v)"

definition blockedNoIp :: "pf_vm \<Rightarrow> blocked" where
  "blockedNoIp vm = \<lparr>bl_code = No_ip, bl_message = ''Homelabrrr does not know the IP address of this VM yet.'',
     bl_action = ''Set the SSH Host/IP on the VM page.'', bl_href = Some (vmHref vm)\<rparr>"

definition blockedUntagged :: "pf_vm \<Rightarrow> blocked" where
  "blockedUntagged vm = \<lparr>bl_code = Untagged, bl_message = ''The network interface of this VM has no VLAN tag.'',
     bl_action = ''Set a VLAN on the network interface of the VM.'', bl_href = Some (vmHref vm)\<rparr>"

definition blockedVlanNotSynced :: "string \<Rightarrow> string \<Rightarrow> bool \<Rightarrow> blocked" where
  "blockedVlanNotSynced label firewall canManageVlans =
     (let fw = js_trim firewall in
      \<lparr>bl_code = Vlan_not_synced,
       bl_message = ''VLAN '' @ label @ '' has not been synced to firewall '' @ (if fw \<noteq> [] then fw else ''this firewall'') @ '' yet.'',
       bl_action = (if canManageVlans then ''Sync it under Networking, VLANs.'' else ''An admin needs to sync it under Networking, VLANs.''),
       bl_href = (if canManageVlans then Some ''/admin/vlans'' else None)\<rparr>)"

definition blockedVlanNotAssigned :: "string \<Rightarrow> blocked" where
  "blockedVlanNotAssigned label = \<lparr>bl_code = Vlan_not_assigned, bl_message = ''VLAN '' @ label @ '' is not assigned to you.'',
     bl_action = ''Ask an admin for access to this VLAN.'', bl_href = None\<rparr>"

section \<open>The list\<close>

definition tag_entries :: "(json \<times> string) list \<Rightarrow> (int \<times> string) list" where
  "tag_entries rows = List.map_filter (\<lambda>(tag, name). map_option (\<lambda>n. (n, name)) (intOrNull tag)) rows"

definition vlanNameByTag :: "pf_input \<Rightarrow> int \<Rightarrow> string option" where
  "vlanNameByTag i = last_of (tag_entries (pf_vlans i))"

definition interfaceByTag :: "pf_input \<Rightarrow> int \<Rightarrow> string option" where
  "interfaceByTag i = last_of (filter (\<lambda>(_, name). name \<noteq> []) (tag_entries (pf_syncs i)))"

definition assignedTags :: "pf_input \<Rightarrow> int list" where
  "assignedTags i = List.map_filter intOrNull (pf_userTags i)"

definition text_or_empty :: "string option \<Rightarrow> string" where
  "text_or_empty t = (case t of Some s \<Rightarrow> s | None \<Rightarrow> [])"

definition vlan_of :: "pf_input \<Rightarrow> pf_vm \<Rightarrow> int option" where
  "vlan_of i vm =
     (case last_of (pf_vlanTags i) (vmKey vm) of
        None \<Rightarrow> None
      | Some v \<Rightarrow> (case intOrNull v of Some n \<Rightarrow> if n = 0 then None else Some n | None \<Rightarrow> None))"

definition ip_of :: "pf_input \<Rightarrow> pf_vm \<Rightarrow> string" where
  "ip_of i vm = (case makeSshLookup (pf_vms i) (pf_ssh i) vm of Some c \<Rightarrow> js_trim (sr_host c) | None \<Rightarrow> [])"

definition synced_of :: "pf_input \<Rightarrow> int option \<Rightarrow> string" where
  "synced_of i tag = (case tag of Some n \<Rightarrow> text_or_empty (interfaceByTag i n) | None \<Rightarrow> [])"

definition vlan_name_of :: "pf_input \<Rightarrow> int option \<Rightarrow> string" where
  "vlan_name_of i tag = (case tag of Some n \<Rightarrow> text_or_empty (vlanNameByTag i n) | None \<Rightarrow> [])"

definition blocked_by :: "pf_input \<Rightarrow> pf_vm \<Rightarrow> blocked option" where
  "blocked_by i vm =
     (if ip_of i vm = [] then Some (blockedNoIp vm)
      else case vlan_of i vm of
        None \<Rightarrow> Some (blockedUntagged vm)
      | Some tag \<Rightarrow>
          if synced_of i (Some tag) = []
          then Some (blockedVlanNotSynced (vlanLabel tag (vlan_name_of i (Some tag))) (pf_firewall i) (pf_canManageVlans i))
          else if \<not> pf_unrestricted i \<and> tag \<notin> set (assignedTags i)
          then Some (blockedVlanNotAssigned (vlanLabel tag (vlan_name_of i (Some tag))))
          else None)"

definition target_of :: "pf_input \<Rightarrow> pf_vm \<Rightarrow> pf_target" where
  "target_of i vm =
     (let tag = vlan_of i vm; assigned = (case tag of Some n \<Rightarrow> n \<in> set (assignedTags i) | None \<Rightarrow> False);
          vlanInterface = (if pf_unrestricted i \<or> assigned then synced_of i tag else []); b = blocked_by i vm in
      \<lparr>tg_vm = vm, tg_name = (if pt_name vm \<noteq> [] then pt_name vm else ''VM '' @ show_int (pt_vmid vm)), tg_ip = ip_of i vm,
       tg_sshPort = (case makeSshLookup (pf_vms i) (pf_ssh i) vm of
          Some c \<Rightarrow> (case sr_port c of Some p \<Rightarrow> if p = 0 then 22 else p | None \<Rightarrow> 22) | None \<Rightarrow> 22),
       tg_vlanTag = tag, tg_vlanName = vlan_name_of i tag, tg_dstInterface = (if vlanInterface \<noteq> [] then pf_rootDst i else []),
       tg_vlanInterface = vlanInterface, tg_eligible = (b = None),
       tg_overridable = (b \<noteq> None \<and> pf_unrestricted i \<and> ip_of i vm \<noteq> []), tg_blocked = b\<rparr>)"

definition listed :: "pf_input \<Rightarrow> pf_vm \<Rightarrow> bool" where
  "listed i vm = (pt_type vm \<in> set VM_TYPES \<and> (case pf_accessible i of Some keys \<Rightarrow> vmKey vm \<in> set keys | None \<Rightarrow> True))"

definition buildPortForwardTargets :: "(string \<Rightarrow> nat) \<Rightarrow> pf_input \<Rightarrow> pf_target list" where
  "buildPortForwardTargets rank i =
     sort_key (\<lambda>t. if tg_eligible t \<or> tg_overridable t then 0 else (1 :: nat))
       (sort_key (\<lambda>t. rank (tg_name t)) (map (target_of i) (filter (listed i) (pf_vms i))))"

definition blockedErrorText :: "blocked option \<Rightarrow> string" where
  "blockedErrorText b =
     (case b of None \<Rightarrow> [] | Some r \<Rightarrow> join_with '' '' (filter (\<lambda>s. s \<noteq> []) [bl_message r, bl_action r]))"

definition blockedStatus :: "blocked option \<Rightarrow> nat" where
  "blockedStatus b = (case b of Some r \<Rightarrow> if bl_code r = Vlan_not_assigned then 403 else 400 | None \<Rightarrow> 400)"

section \<open>Properties\<close>

lemma eligible_iff:
  "tg_eligible (target_of i vm) \<longleftrightarrow> ip_of i vm \<noteq> [] \<and> (\<exists>tag. vlan_of i vm = Some tag \<and> synced_of i (Some tag) \<noteq> []
     \<and> (pf_unrestricted i \<or> tag \<in> set (assignedTags i)))"
  by (auto simp: target_of_def blocked_by_def Let_def split: option.splits)

lemma target_interface:
  "tg_vlanInterface (target_of i vm) \<noteq> [] \<Longrightarrow>
     \<exists>tag. vlan_of i vm = Some tag \<and> synced_of i (Some tag) = tg_vlanInterface (target_of i vm) \<and> (pf_unrestricted i \<or> tag \<in> set (assignedTags i))"
  by (auto simp: target_of_def synced_of_def Let_def split: option.splits if_splits)

lemma target_fields:
  "tg_vlanTag (target_of i vm) = vlan_of i vm" "tg_vm (target_of i vm) = vm" "tg_ip (target_of i vm) = ip_of i vm"
  "tg_dstInterface (target_of i vm) = (if tg_vlanInterface (target_of i vm) \<noteq> [] then pf_rootDst i else [])"
  by (simp_all add: target_of_def Let_def)

text \<open>C21: A user is never handed the interface of somebody else's VLAN, and what is offered can be published: a target
  carries an interface only when its VLAN is synced and assigned to the user (or the user may manage all
  forwards), an eligible target has an address and that interface, and the list shows every accessible
  machine exactly once.\<close>

theorem targets_respect_vlans:
  "mset (map tg_vm (buildPortForwardTargets rank i)) = mset (filter (listed i) (pf_vms i))
   \<and> (\<forall>t \<in> set (buildPortForwardTargets rank i).
        (tg_vlanInterface t \<noteq> [] \<or> tg_dstInterface t \<noteq> [] \<longrightarrow>
           (\<exists>tag. tg_vlanTag t = Some tag \<and> interfaceByTag i tag = Some (tg_vlanInterface t)
              \<and> (pf_unrestricted i \<or> tag \<in> set (assignedTags i))))
        \<and> (tg_eligible t \<longrightarrow> tg_ip t \<noteq> [] \<and> tg_vlanInterface t \<noteq> [] \<and> tg_dstInterface t = pf_rootDst i))"
proof (intro conjI ballI)
  have "image_mset tg_vm (image_mset (target_of i) M) = M" for M by (induction M) (simp_all add: target_fields(2))
  then show "mset (map tg_vm (buildPortForwardTargets rank i)) = mset (filter (listed i) (pf_vms i))"
    by (simp add: buildPortForwardTargets_def)
next
  fix t assume "t \<in> set (buildPortForwardTargets rank i)"
  then obtain vm where t: "t = target_of i vm" by (auto simp: buildPortForwardTargets_def)
  show "tg_vlanInterface t \<noteq> [] \<or> tg_dstInterface t \<noteq> [] \<longrightarrow>
      (\<exists>tag. tg_vlanTag t = Some tag \<and> interfaceByTag i tag = Some (tg_vlanInterface t) \<and> (pf_unrestricted i \<or> tag \<in> set (assignedTags i)))"
  proof
    assume "tg_vlanInterface t \<noteq> [] \<or> tg_dstInterface t \<noteq> []"
    then have ne: "tg_vlanInterface (target_of i vm) \<noteq> []" unfolding t target_fields(4) by (auto split: if_splits)
    from target_interface [OF this] obtain tag where tag: "vlan_of i vm = Some tag"
      "synced_of i (Some tag) = tg_vlanInterface (target_of i vm)" "pf_unrestricted i \<or> tag \<in> set (assignedTags i)" by blast
    then have "interfaceByTag i tag = Some (tg_vlanInterface t)"
      using ne by (auto simp: t synced_of_def text_or_empty_def split: option.splits)
    with tag show "\<exists>tag. tg_vlanTag t = Some tag \<and> interfaceByTag i tag = Some (tg_vlanInterface t) \<and> (pf_unrestricted i \<or> tag \<in> set (assignedTags i))"
      by (auto simp: t target_fields)
  qed
  show "tg_eligible t \<longrightarrow> tg_ip t \<noteq> [] \<and> tg_vlanInterface t \<noteq> [] \<and> tg_dstInterface t = pf_rootDst i"
  proof
    assume e: "tg_eligible t"
    then obtain tag where tag: "ip_of i vm \<noteq> []" "vlan_of i vm = Some tag" "synced_of i (Some tag) \<noteq> []" "pf_unrestricted i \<or> tag \<in> set (assignedTags i)"
      unfolding t eligible_iff by blast
    then have "tg_vlanInterface (target_of i vm) = synced_of i (Some tag)" by (auto simp: target_of_def Let_def)
    then show "tg_ip t \<noteq> [] \<and> tg_vlanInterface t \<noteq> [] \<and> tg_dstInterface t = pf_rootDst i"
      using tag by (simp add: t target_fields)
  qed
qed

definition sample_pf_vm :: pf_vm where
  "sample_pf_vm = \<lparr>pt_node = ''pve'', pt_nodeRef = ''1~pve'', pt_vmid = 100, pt_name = ''web'', pt_status = ''running'', pt_type = ''qemu''\<rparr>"

definition sample_pf :: pf_input where
  "sample_pf = \<lparr>pf_vms = [sample_pf_vm, sample_pf_vm\<lparr>pt_vmid := 101\<rparr>], pf_accessible = Some [''1~pve/100''],
     pf_ssh = [\<lparr>sr_node = ''1~pve'', sr_vmid = 100, sr_host = ''10.0.0.5'', sr_port = None\<rparr>], pf_vlanTags = [(''1~pve/100'', JNum 20)],
     pf_vlans = [], pf_syncs = [(JNum 20, ''vlan20'')], pf_userTags = [JNum 20], pf_unrestricted = False, pf_canManageVlans = False,
     pf_rootDst = ''npu0'', pf_firewall = ''fw''\<rparr>"

theorem targets_respect_vlans_witness:
  "mset (map tg_vm (buildPortForwardTargets (\<lambda>_. 0) sample_pf)) = {#sample_pf_vm#}"
proof -
  have "vmKey sample_pf_vm = ''1~pve/100''" "vmKey (sample_pf_vm\<lparr>pt_vmid := 101\<rparr>) = ''1~pve/101''" by code_simp+
  then have "filter (listed sample_pf) (pf_vms sample_pf) = [sample_pf_vm]"
    by (simp add: listed_def sample_pf_def) (simp add: sample_pf_vm_def VM_TYPES_def)
  with targets_respect_vlans [of "\<lambda>_. 0" sample_pf] show ?thesis by simp
qed

end
