(* ===== verification/Migration_Preflight.thy ===== *)
theory Migration_Preflight
  imports Provision_Quota "HOL-Library.Multiset"
begin

text \<open>
  What is checked before a guest is migrated (\<open>utils/migrationPreflight.ts\<close>): which attached CD-ROM images have to be
  ejected, and whether the target storage can receive the guest's volumes. The order of drive keys
  (\<open>localeCompare\<close>) is a parameter; the texts of the verdicts are abbreviated.
\<close>

section \<open>CD-ROM images\<close>

definition media_key :: "string \<Rightarrow> bool" where
  "media_key k = (\<exists>p \<in> set [''ide'', ''sata'', ''scsi'', ''virtio'']. starts_with p k \<and> all_digits (drop (length p) k))"

definition EMPTY_MEDIA :: "string list" where
  "EMPTY_MEDIA = [[], ''none'', ''cdrom'']"

record cdrom =
  cd_key :: string
  cd_volid :: string
  cd_storage :: string
  cd_value :: string

definition volume_storage :: "string \<Rightarrow> string" where
  "volume_storage volid = (if CHR '':'' \<in> set volid then hd (split_on CHR '':'' volid) else [])"

definition cdrom_of :: "string \<times> json \<Rightarrow> cdrom option" where
  \<comment> \<open>the drive of a configuration entry, when it carries an image\<close>
  "cdrom_of entry =
     (case entry of
        (key, JStr value) \<Rightarrow>
          let options = split_on CHR '','' value; volid = js_trim (hd options) in
          if \<not> media_key key \<or> ''media=cdrom'' \<notin> set options \<or> volid \<in> set EMPTY_MEDIA \<or> has_substring ''cloudinit'' volid then None
          else Some \<lparr>cd_key = key, cd_volid = volid, cd_storage = volume_storage volid, cd_value = value\<rparr>
      | _ \<Rightarrow> None)"

definition kept_cdrom :: "string list \<Rightarrow> cdrom \<Rightarrow> bool" where
  "kept_cdrom shared c = (cd_storage c \<noteq> [] \<and> cd_storage c \<in> set shared)"

record cdrom_plan =
  cp_keys :: "string list"
  cp_detach :: "cdrom list"
  cp_kept :: "cdrom list"

definition planCdromDetach :: "(string \<Rightarrow> nat) \<Rightarrow> string list \<Rightarrow> (string \<times> json) list \<Rightarrow> cdrom_plan" where
  "planCdromDetach rank shared config =
     (let all = List.map_filter cdrom_of config;
          detach = sort_key (\<lambda>c. rank (cd_key c)) (filter (\<lambda>c. \<not> kept_cdrom shared c) all);
          kept = sort_key (\<lambda>c. rank (cd_key c)) (filter (kept_cdrom shared) all)
      in \<lparr>cp_keys = map cd_key detach, cp_detach = detach, cp_kept = kept\<rparr>)"

section \<open>Target storage\<close>

datatype ct_family = Subvol | Image

definition CT_SUBVOL_TYPES :: "string list" where
  "CT_SUBVOL_TYPES = [''zfspool'', ''btrfs'']"

definition CT_IMAGE_TYPES :: "string list" where
  "CT_IMAGE_TYPES = [''lvm'', ''lvmthin'', ''rbd'', ''zfs'', ''iscsi'', ''iscsidirect'']"

definition CT_FILE_TYPES :: "string list" where
  "CT_FILE_TYPES = [''dir'', ''nfs'', ''cifs'', ''cephfs'', ''glusterfs'']"

definition targetCtFamilies :: "string \<Rightarrow> ct_family list option" where
  "targetCtFamilies t =
     (if t \<in> set CT_SUBVOL_TYPES then Some [Subvol]
      else if t \<in> set CT_IMAGE_TYPES then Some [Image]
      else if t \<in> set CT_FILE_TYPES then Some [Subvol, Image]
      else None)"

definition disk_name :: "string \<Rightarrow> bool" where
  \<comment> \<open>\<open>/^vm-\d+-disk-/\<close>\<close>
  "disk_name s =
     (let r = drop 3 s in
      starts_with ''vm-'' s \<and> takeWhile is_digit r \<noteq> [] \<and> starts_with ''-disk-'' (dropWhile is_digit r))"

definition base_name :: "string \<Rightarrow> string" where
  "base_name volid = last (split_on CHR ''/'' (drop 1 (dropWhile (\<lambda>c. c \<noteq> CHR '':'') volid)))"

definition sourceCtFamily :: "string \<Rightarrow> string \<Rightarrow> ct_family option" where
  "sourceCtFamily volid storageType =
     (let base = base_name volid in
      if starts_with ''subvol-'' base then Some Subvol
      else if disk_name base then Some Image
      else if storageType \<in> set CT_SUBVOL_TYPES then Some Subvol
      else if storageType \<in> set CT_IMAGE_TYPES then Some Image
      else None)"

record ct_volume =
  vo_key :: string
  vo_volid :: string
  vo_storageType :: string

record target_def =
  td_storage :: string
  td_type :: string
  td_content :: string
  td_disable :: bool

datatype compat = Compatible | Unverified string | Blocked string

definition content_types :: "target_def \<Rightarrow> string list" where
  "content_types d = filter (\<lambda>c. c \<noteq> []) (map js_trim (split_on CHR '','' (td_content d)))"

fun volumes_fit :: "ct_family list \<Rightarrow> string option \<Rightarrow> ct_volume list \<Rightarrow> compat" where
  \<comment> \<open>the loop over the source volumes; the first doubt is kept, the first contradiction ends it\<close>
  "volumes_fit accepts unverified [] = (case unverified of Some r \<Rightarrow> Unverified r | None \<Rightarrow> Compatible)"
| "volumes_fit accepts unverified (v # vs) =
     (if CHR '':'' \<notin> set (vo_volid v) then volumes_fit accepts unverified vs
      else case sourceCtFamily (vo_volid v) (vo_storageType v) of
        None \<Rightarrow> volumes_fit accepts (case unverified of Some r \<Rightarrow> Some r
            | None \<Rightarrow> Some (''Could not determine the on-disk format of '' @ vo_volid v)) vs
      | Some family \<Rightarrow>
          if family \<in> set accepts then volumes_fit accepts unverified vs
          else Blocked (vo_volid v @ '' has no matching import/export format''))"

definition checkStorageCompatibility :: "ct_volume list \<Rightarrow> target_def option \<Rightarrow> bool \<Rightarrow> compat" where
  "checkStorageCompatibility sourceVolumes target isLxc =
     (let wanted = (if isLxc then ''rootdir'' else ''images'') in
      case target of
        None \<Rightarrow> Unverified ''Target storage definition could not be read''
      | Some d \<Rightarrow>
          if td_type d = [] then Unverified ''Target storage definition could not be read''
          else if td_disable d then Blocked (td_storage d @ '' is disabled on the target host'')
          else if content_types d = [] then Unverified (td_storage d @ '' lists no content types'')
          else if wanted \<notin> set (content_types d) then Blocked (td_storage d @ '' does not accept '' @ wanted)
          else if \<not> isLxc then Compatible
          else case targetCtFamilies (td_type d) of
            None \<Rightarrow> Unverified (td_storage d @ '' is of unknown type'')
          | Some accepts \<Rightarrow> volumes_fit accepts None sourceVolumes)"

section \<open>Properties\<close>

text \<open>The drives that carry an image are split into those to eject and those left attached: an image is left exactly when
  the target host mounts its storage too, and no other drive (empty, physical, cloud-init) is touched.\<close>

lemma cdrom_plan_is_partition:
  "mset (cp_detach (planCdromDetach rank shared config)) + mset (cp_kept (planCdromDetach rank shared config))
     = mset (List.map_filter cdrom_of config)
   \<and> list_all (\<lambda>c. \<not> kept_cdrom shared c) (cp_detach (planCdromDetach rank shared config))
   \<and> cp_keys (planCdromDetach rank shared config) = map cd_key (cp_detach (planCdromDetach rank shared config))"
  by (simp add: planCdromDetach_def Let_def list_all_iff)

definition fits :: "ct_family list \<Rightarrow> ct_volume \<Rightarrow> bool" where
  "fits accepts v = (CHR '':'' \<notin> set (vo_volid v) \<or> (case sourceCtFamily (vo_volid v) (vo_storageType v) of
     Some f \<Rightarrow> f \<in> set accepts | None \<Rightarrow> False))"

definition misfit :: "ct_family list \<Rightarrow> ct_volume \<Rightarrow> bool" where
  "misfit accepts v = (CHR '':'' \<in> set (vo_volid v) \<and> (case sourceCtFamily (vo_volid v) (vo_storageType v) of
     Some f \<Rightarrow> f \<notin> set accepts | None \<Rightarrow> False))"

lemma volumes_fit_verdict:
  "(volumes_fit accepts u vs = Compatible \<longleftrightarrow> u = None \<and> list_all (fits accepts) vs)
   \<and> ((\<exists>r. volumes_fit accepts u vs = Blocked r) \<longleftrightarrow> list_ex (misfit accepts) vs)"
  by (induction accepts u vs rule: volumes_fit.induct) (auto simp: fits_def misfit_def split: option.splits)

text \<open>C24: The storage check is exact for containers: on an enabled target of a known type that accepts container
  volumes it refuses the migration exactly when some volume is certainly of a format the target cannot
  import, and passes it without a warning exactly when every volume is certainly of a format it can.\<close>

theorem storage_check_is_exact:
  assumes "target = Some d" "\<not> td_disable d" "''rootdir'' \<in> set (content_types d)" "targetCtFamilies (td_type d) = Some accepts"
  shows "((\<exists>r. checkStorageCompatibility vs target True = Blocked r) \<longleftrightarrow> list_ex (misfit accepts) vs)
    \<and> (checkStorageCompatibility vs target True = Compatible \<longleftrightarrow> list_all (fits accepts) vs)"
proof -
  have "targetCtFamilies [] = None" by (simp add: targetCtFamilies_def CT_SUBVOL_TYPES_def CT_IMAGE_TYPES_def CT_FILE_TYPES_def)
  then have "td_type d \<noteq> []" using assms(4) by auto
  moreover have "content_types d \<noteq> []" using assms(3) by auto
  ultimately have "checkStorageCompatibility vs target True = volumes_fit accepts None vs"
    using assms by (simp add: checkStorageCompatibility_def)
  then show ?thesis using volumes_fit_verdict [of accepts None vs] by simp
qed

theorem storage_check_is_exact_witness:
  "\<exists>r. checkStorageCompatibility [\<lparr>vo_key = ''rootfs'', vo_volid = ''local-zfs:subvol-107-disk-0'', vo_storageType = ''zfspool''\<rparr>]
     (Some \<lparr>td_storage = ''lvm'', td_type = ''lvmthin'', td_content = ''rootdir,images'', td_disable = False\<rparr>) True = Blocked r"
proof -
  let ?d = "\<lparr>td_storage = ''lvm'', td_type = ''lvmthin'', td_content = ''rootdir,images'', td_disable = False\<rparr> :: target_def"
  let ?v = "\<lparr>vo_key = ''rootfs'', vo_volid = ''local-zfs:subvol-107-disk-0'', vo_storageType = ''zfspool''\<rparr> :: ct_volume"
  have "content_types ?d = [''rootdir'', ''images'']" "targetCtFamilies (td_type ?d) = Some [Image]" "misfit [Image] ?v" by code_simp+
  then show ?thesis using storage_check_is_exact [of "Some ?d" ?d "[Image]" "[?v]"] by simp
qed

end
