(* ===== verification/Spec2Isabelle.thy ===== *)
theory Spec2Isabelle
  imports Node_Ref Scheduler Power_Controller Workflow_Runner Vlan_Teardown
    Payment_Ledger Payment_Capture Payment_Allocation Energy_Price
    Vm_Leases Disk_Targets Provisioning Url_Guard Ipv6_Text Vmid_Allocator Node_Maintenance
    Capacity Public_Ports Port_Targets Migration_Preflight
begin

text \<open>
  A verification development for the backend of Homelabrrr (\<open>src/backend/src\<close>): a portal that lets
  the users of a homelab run their Proxmox machines, and drives the firewall, the server hardware and
  the accounting around them. The theories model the parts that decide something - who may do what,
  when a machine stops, in which power mode a host runs, which objects exist on the firewall - as
  executable functions over records of the database rows, with every effect as explicit state.

  Parts and theories (file names are relative to \<open>src/backend/src\<close>):

  \<^item> \<^bold>\<open>Prelude\<close>: JavaScript's string operations (trim, split, join, padStart, parseInt, decimal
    printing), errors as sums, shared list lemmas.
  \<^item> \<^bold>\<open>Access.\<close> \<open>Node_Ref\<close> (\<open>utils/nodeRef.ts\<close>), \<open>Permissions\<close> (\<open>utils/permissionKeys.ts\<close>,
    \<open>permissionRules.ts\<close>, \<open>permissions.ts\<close>) and \<open>Vm_Ops\<close> (\<open>utils/vmOps.ts\<close>, \<open>vmAccess.ts\<close>): the roles
    and grants of a user decide the tier of VM operations open to it. The gate is an interface
    (\<open>op_gate\<close>) interpreted on the model's own tier table.
  \<^item> \<^bold>\<open>Guests.\<close> \<open>Migration_Lock\<close> (\<open>utils/vmMigrationLock.ts\<close>): one holder or many readers per guest,
    as a step relation with its invariant, and the policy writes guarded by it. \<open>Vm_Leases\<close>
    (\<open>utils/leases.ts\<close>): leases, their renewal through those guarded writes, and the sweep that stops
    expired machines. \<open>Disk_Targets\<close> (\<open>utils/diskTargets.ts\<close>): the storage of each disk of a migration,
    over the insertion-ordered maps of \<open>Js_Map\<close> (the interface \<open>insertion_map\<close>, interpreted on entry lists). \<open>Schedule\<close>
    (\<open>utils/schedule.ts\<close>) and \<open>Scheduler\<close> (\<open>services/scheduler.ts\<close>): off-windows on the weekly circle,
    and the tick that stops a machine once per window and starts it at the edge, through the lock.
  \<^item> \<^bold>\<open>Deployments.\<close> \<open>Provision_Quota\<close> (\<open>utils/quota.ts\<close>, \<open>provisionIntent.ts\<close>): what a user holds, jobs
    on their way included, against the limits of the user or the role. \<open>Provisioning\<close>
    (\<open>services/provisionOwnership.ts\<close>, \<open>provisionFailure.ts\<close>): the job that reserves resources before Proxmox is
    called, and the transaction that hands the machine to its intended owner with a lease of \<open>Vm_Leases\<close>.
    \<open>Vmid_Allocator\<close> (\<open>utils/vmidAllocator.ts\<close>, \<open>proxmox.ts\<close>): the id of a new machine and its reservation.
    \<open>Capacity\<close> (\<open>utils/capacity.ts\<close>, \<open>capacityPolicy.ts\<close>): the memory policy and the disk space that deployments
    in flight hold. \<open>Node_Maintenance\<close> (\<open>utils/nodeMaintenance.ts\<close>): nodes that refuse deployments.
    \<open>Migration_Preflight\<close> (\<open>utils/migrationPreflight.ts\<close>): drives to eject and storages that fit. \<open>Url_Guard\<close> and
    \<open>Ipv6_Text\<close> (\<open>utils/urlGuard.ts\<close>): which addresses an image may be downloaded from.
  \<^item> \<^bold>\<open>Publishing.\<close> \<open>Public_Ports\<close> (\<open>utils/portEndpoints.ts\<close>, \<open>publicIpAccess.ts\<close>): endpoints, port conflicts and
    assigned addresses. \<open>Port_Targets\<close> (\<open>utils/portForwardTargets.ts\<close>): what a user may publish.
  \<^item> \<^bold>\<open>Hardware power.\<close> \<open>Power_Rate\<close>, \<open>Power_Schedule\<close>, \<open>Power_Decision\<close> (\<open>services/powerSchedule.ts\<close>,
    \<open>powerDecision.ts\<close>): rates in exact millionths, the mode of a weekly plan at an instant, the price latch
    and the decision. \<open>Power_Store\<close> (\<open>services/powerControlStore.ts\<close>): the policy and operation rows, with
    the lease that makes one writer per host; the lease is the interface \<open>lease_table\<close>, interpreted on
    the store. \<open>Power_Controller\<close> (\<open>services/powerController.ts\<close>): reconcile and dispatch against the
    iLO, with the changes other processes make between two awaits as explicit environment steps.
  \<^item> \<^bold>\<open>Firewall.\<close> \<open>Json\<close> (\<open>workflows/template.ts\<close>), \<open>Http_Error\<close>, \<open>Cert_Slots\<close>, \<open>Ip_Address\<close> (\<open>utils/\<close>)
    are the pure helpers; \<open>Fortigate\<close> (\<open>fortigate.ts\<close>) is the client, \<open>Workflow_Catalog\<close> the actions of a
    workflow, \<open>Workflow_Engine\<close> the run with its rollback, teardown and dry run, \<open>Workflow_Runner\<close> the
    recorded run, and \<open>Vlan_Teardown\<close> the addressing and the teardown of a VLAN.
  \<^item> \<^bold>\<open>Electricity.\<close> \<open>Energy_Cost\<close> (\<open>services/costMath.ts\<close>): the cost of measured energy under a list of
    prices, in exact integers. \<open>Energy_Accounting\<close> (\<open>services/energyAccounting.ts\<close>): the comparison with
    the household meter, fixed fees, the start of a local date and the forecast of a month.
    \<open>Energy_Price\<close> (\<open>services/electricityPriceMath.ts\<close>): the price of a contract at an instant.
  \<^item> \<^bold>\<open>Payments.\<close> \<open>Payment_Money\<close> (\<open>services/paypalMoney.ts\<close>): amounts and the normalised provider
    objects. \<open>Payment_Ledger\<close> (\<open>services/paypalLedger.ts\<close>): transactions and append-only postings, each
    operation one transaction over both tables; it refines accounts that are settled once.
    \<open>Payment_Capture\<close> (\<open>services/paypal.ts\<close>): the capture of a one-off order by members, reconciliation and
    webhooks as interleaved processes over the intent row. \<open>Payment_Allocation\<close>
    (\<open>services/paypalAllocation.ts\<close>): the monthly application of receipts to cost, over the
    postings of the ledger and the calendar of \<open>Energy_Accounting\<close>.

  What the groups of lemmas show. Safety: visibility permissions never open a write; a PATCH leaves
  only after its row is recorded and the decision still stands; at most one stop per off-window; a guest
  lock is exclusive; a failed workflow leaves the firewall as it found it; an order is captured under one
  request id only; a price holds at every instant of the
  interval it names; a sweep stops only machines whose lease is over; a reservation that is
  accepted fits the quota, and a machine goes to its intended owner only; an id is not handed out twice, disk
  space is promised once, and a guarded URL reaches no internal address. Refinement: the ledger
  implements accounts settled once. Equivalence: the minute-level decisions agree with their descriptions on
  the weekly circle; a dry run announces the calls of the run; the two prefix tests agree. Conservation:
  priced energy, the parts of a price and the monthly allocations add up exactly. Bounds: costs and
  forecasts lie between the lowest and the highest rate. Round trips: node references, rates, amounts, IPv4
  addresses, recorded subnets. Invariants: leases, latches, the ledger tables, in-flight bookkeeping,
  failure notices. Liveness: a write abandoned by a dead process becomes pending again. The locale
  \<open>lease_table\<close> carries the proofs about the store, the collections \<open>call_keeps\<close>, \<open>call_creates\<close> and
  \<open>call_appends\<close> those about client calls.

  Bounds and fuel. The search for the start of a date recurses on the width of its interval; 72 hours
  of milliseconds need 28 halvings, which \<open>bisect_fuel\<close> states. The allocation walks at most 120
  months, as the code does, and fails beyond. A lost capture is retried at most five times, so at
  most six captures are sent. Every other loop recurses structurally or by a measure, without fuel.

  Idealisations. A JavaScript number is an \<open>int\<close> where the code only counts, indexes or keeps
  milliseconds (no rounding beyond \<open>2^53\<close>; where the code tests \<open>isSafeInteger\<close> the model does); 32-bit
  operations are words. A string is a list of characters 0 to 255. JSON numbers are integers, property
  reads see own properties only, and values TypeScript declares have their declared type. Dates are
  valid instants in milliseconds, local dates day numbers and months pairs of a year and a number.
  Parameters, with what is assumed of them in the properties that use them: the Intl time-zone
  data, PostgreSQL row locks, Proxmox, iLO, FortiOS, PayPal and price replies, the fingerprint of a
  month's sources (free of collisions), reading a date, and \<open>JSON.parse\<close>.

  Not modelled: the Express routes (request parsing and SQL around the modelled checks), sessions and
  cookies, cryptography, the Proxmox, iLO, Caddy and PayPal transports, the webhook inbox and the subscriptions,
  console and file streams,
  backups, notifications and the React frontend. They are I/O, or glue over libraries
  that are not in the repository.
\<close>

end
